(* ===== verification/Float64.thy ===== *)
theory Float64
  imports Complex_Main
begin

text \<open>
  Go's \<^verbatim>\<open>float64\<close>: IEEE 754 binary64 with round-to-nearest-even, as gc computes it on
  amd64 (every operation rounded on its own, no fused multiply-add).  A value is not-a-number,
  an infinity, the negative zero or an exact rational; \<open>f64_ok\<close> says which rationals are
  values of the format, and every operation below rounds its exact result into it.  All the
  definitions compute on \<open>int\<close> and \<open>rat\<close>, so that witnesses evaluate with \<open>code_simp\<close>.

  The lemmas are the ones the components need: rounding is monotone, is the identity on the
  format (in particular on integers up to \<open>2 ^ 53\<close>), and the comparison operators agree with
  the order of the rationals on finite values.
\<close>

named_theorems f64_defs

section \<open>Powers of two and binary logarithms\<close>

function p2 :: "int \<Rightarrow> int" where
  "p2 k = (if k \<le> 0 then 1 else 2 * p2 (k - 1))"
  by pat_completeness auto
termination by (relation "measure nat") auto

function ilog2 :: "int \<Rightarrow> int" where
  "ilog2 n = (if n \<le> 1 then 0 else 1 + ilog2 (n div 2))"
  by pat_completeness auto
termination by (relation "measure nat") auto

function isqrt :: "int \<Rightarrow> int" where
  "isqrt n = (if n \<le> 0 then 0
     else (let r = 2 * isqrt (n div 4) in if (r + 1) * (r + 1) \<le> n then r + 1 else r))"
  by pat_completeness auto
termination by (relation "measure nat") auto

declare p2.simps [simp del] ilog2.simps [simp del] isqrt.simps [simp del]

definition pow2 :: "int \<Rightarrow> rat" where
  "pow2 k = of_int (p2 k) / of_int (p2 (- k))"

definition flog2 :: "rat \<Rightarrow> int" where
  "flog2 q = (case quotient_of q of (n, d) \<Rightarrow>
     (let e = ilog2 n - ilog2 d
      in if p2 e * d \<le> n * p2 (- e) then e else e - 1))"

lemma p2_nat: "p2 (int n) = 2 ^ n"
proof (induction n)
  case 0 show ?case by (simp add: p2.simps)
next
  case (Suc n) then show ?case by (subst p2.simps) simp
qed

lemma p2_Suc: "0 \<le> k \<Longrightarrow> p2 (k + 1) = 2 * p2 k"
  by (subst p2.simps) simp

lemma p2_neg: "k \<le> 0 \<Longrightarrow> p2 k = 1"
  by (simp add: p2.simps)

lemma p2_pos [simp]: "0 < p2 k"
proof (cases "k \<le> 0")
  case False
  then obtain n where "k = int n" by (metis linear nonneg_int_cases)
  then show ?thesis by (simp add: p2_nat)
qed (simp add: p2_neg)

lemma pow2_powi: "pow2 k = 2 powi k"
proof (cases "0 \<le> k")
  case True
  then obtain n where "k = int n" by (metis nonneg_int_cases)
  then show ?thesis by (simp add: pow2_def p2_nat p2_neg)
next
  case False
  then obtain n where "k = - int n" by (metis add.inverse_inverse linear neg_0_le_iff_le nonneg_int_cases)
  then show ?thesis by (simp add: pow2_def p2_nat p2_neg power_int_minus divide_simps)
qed

lemma pow2_pos [simp]: "0 < pow2 k"
  by (simp add: pow2_powi)

lemma pow2_nonneg [simp]: "0 \<le> pow2 k"
  using pow2_pos [of k] by linarith

lemma pow2_nz [simp]: "pow2 k \<noteq> 0"
  using pow2_pos [of k] by linarith

lemma pow2_add: "pow2 (a + b) = pow2 a * pow2 b"
  by (simp add: pow2_powi power_int_add)

lemma pow2_diff: "pow2 (a - b) = pow2 a / pow2 b"
  by (simp add: pow2_powi power_int_diff)

lemma pow2_Suc: "pow2 (a + 1) = 2 * pow2 a"
  by (simp add: pow2_add) (simp add: pow2_powi)

lemma pow2_0 [simp]: "pow2 0 = 1"
  by (simp add: pow2_powi)

lemma pow2_mono: "a \<le> b \<Longrightarrow> pow2 a \<le> pow2 b"
  by (simp add: pow2_powi power_int_increasing)

lemma pow2_strict: "a < b \<Longrightarrow> pow2 a < pow2 b"
  by (simp add: pow2_powi power_int_strict_increasing)

lemma pow2_le_iff [simp]: "pow2 a \<le> pow2 b \<longleftrightarrow> a \<le> b"
  by (meson pow2_mono pow2_strict linorder_not_le)

lemma pow2_less_iff [simp]: "pow2 a < pow2 b \<longleftrightarrow> a < b"
  by (meson pow2_mono pow2_strict linorder_not_le)

lemma pow2_int: "0 \<le> k \<Longrightarrow> pow2 k = of_int (p2 k)"
  by (simp add: pow2_def p2_neg)

lemma ilog2_nonneg: "0 \<le> ilog2 n"
proof (induction n rule: ilog2.induct)
  case (1 n) then show ?case by (subst ilog2.simps) auto
qed

lemma ilog2_bounds: "0 < n \<Longrightarrow> pow2 (ilog2 n) \<le> of_int n \<and> of_int n < pow2 (ilog2 n + 1)"
proof (induction n rule: ilog2.induct)
  case (1 n)
  show ?case
  proof (cases "n \<le> 1")
    case True
    with "1.prems" have "n = 1" by simp
    then show ?thesis by (simp add: ilog2.simps pow2_powi)
  next
    case False
    have IH: "pow2 (ilog2 (n div 2)) \<le> of_int (n div 2)"
      "of_int (n div 2) < pow2 (ilog2 (n div 2) + 1)"
      using "1.IH" False by simp_all
    have e: "ilog2 n = ilog2 (n div 2) + 1" using False by (simp add: ilog2.simps [of n])
    have lt: "n div 2 < p2 (ilog2 (n div 2) + 1)"
      using IH(2) ilog2_nonneg [of "n div 2"] by (simp add: pow2_int)
    have le: "p2 (ilog2 (n div 2)) \<le> n div 2"
      using IH(1) ilog2_nonneg [of "n div 2"] by (simp add: pow2_int)
    have "p2 (ilog2 n) \<le> n" "n < p2 (ilog2 n + 1)"
      using lt le p2_Suc [of "ilog2 (n div 2)"] p2_Suc [of "ilog2 (n div 2) + 1"]
        ilog2_nonneg [of "n div 2"] unfolding e by linarith+
    then show ?thesis using ilog2_nonneg [of n] by (simp add: pow2_int)
  qed
qed

lemma flog2_bounds:
  assumes "0 < q"
  shows "pow2 (flog2 q) \<le> q" and "q < pow2 (flog2 q + 1)"
proof -
  obtain n d where nd: "quotient_of q = (n, d)" by (cases "quotient_of q")
  then have d: "0 < d" and q: "q = of_int n / of_int d"
    by (auto intro: quotient_of_denom_pos quotient_of_div)
  with assms have n: "0 < n" by (simp add: zero_less_divide_iff)
  define e where "e = ilog2 n - ilog2 d"
  note bn = ilog2_bounds [OF n] and bd = ilog2_bounds [OF d]
  have up: "q < pow2 (e + 1)"
  proof -
    have "q < pow2 (ilog2 n + 1) / of_int d" using bn d by (simp add: q divide_strict_right_mono)
    also have "\<dots> \<le> pow2 (ilog2 n + 1) / pow2 (ilog2 d)"
      using bd d by (intro divide_left_mono) auto
    also have "\<dots> = pow2 (e + 1)" by (simp add: e_def pow2_add pow2_diff)
    finally show ?thesis .
  qed
  have lo: "pow2 (e - 1) \<le> q"
  proof -
    have "pow2 (e - 1) = pow2 (ilog2 n) / pow2 (ilog2 d + 1)" by (simp add: e_def pow2_add pow2_diff)
    also have "\<dots> \<le> pow2 (ilog2 n) / of_int d" using bd d by (intro divide_left_mono) auto
    also have "\<dots> \<le> q" using bn d by (simp add: q divide_right_mono)
    finally show ?thesis .
  qed
  have test: "p2 e * d \<le> n * p2 (- e) \<longleftrightarrow> pow2 e \<le> q"
  proof -
    have "pow2 e \<le> q \<longleftrightarrow> of_int (p2 e) * of_int d \<le> (of_int n * of_int (p2 (- e)) :: rat)"
      using d by (simp add: pow2_def q divide_simps mult.commute)
    then show ?thesis by (metis of_int_le_iff of_int_mult)
  qed
  have f: "flog2 q = (if pow2 e \<le> q then e else e - 1)"
    unfolding flog2_def nd prod.case Let_def e_def [symmetric] test ..
  show "pow2 (flog2 q) \<le> q" "q < pow2 (flog2 q + 1)"
    using up lo by (auto simp: f)
qed

lemma flog2_eqI: "pow2 e \<le> q \<Longrightarrow> q < pow2 (e + 1) \<Longrightarrow> flog2 q = e"
proof -
  assume a: "pow2 e \<le> q" and b: "q < pow2 (e + 1)"
  then have "0 < q" using pow2_pos [of e] by linarith
  note f = flog2_bounds [OF this]
  have "pow2 e < pow2 (flog2 q + 1)" "pow2 (flog2 q) < pow2 (e + 1)" using a b f by linarith+
  then show ?thesis by simp
qed

lemma flog2_mono: "0 < p \<Longrightarrow> p \<le> q \<Longrightarrow> flog2 p \<le> flog2 q"
proof -
  assume "0 < p" "p \<le> q"
  then have "pow2 (flog2 p) < pow2 (flog2 q + 1)"
    using flog2_bounds(1) [of p] flog2_bounds(2) [of q] by linarith
  then show ?thesis by simp
qed

section \<open>Rounding to the format\<close>

text \<open>Round half to even on integers, the exponent of the last place, and rounding itself.\<close>

definition rhe :: "rat \<Rightarrow> int" where
  "rhe q = (let n = \<lfloor>q\<rfloor>; r = q - of_int n in
     if r < 1 / 2 then n else if 1 / 2 < r then n + 1 else if even n then n else n + 1)"

definition ulp_exp :: "rat \<Rightarrow> int" where
  "ulp_exp q = max (flog2 \<bar>q\<bar> - 52) (- 1074)"

definition rnd_rat :: "rat \<Rightarrow> rat" where
  "rnd_rat q = (if q = 0 then 0
     else (let k = ulp_exp q in of_int (rhe (q / pow2 k)) * pow2 k))"

definition rep :: "rat \<Rightarrow> bool" where
  "rep q \<longleftrightarrow> (\<exists>m k. q = of_int m * pow2 k \<and> \<bar>m\<bar> \<le> 2 ^ 53 \<and> - 1074 \<le> k)"

lemma rhe_of_int [simp]: "rhe (of_int n) = n"
  by (simp add: rhe_def)

lemma rhe_bounds: "of_int (rhe q) \<le> q + 1 / 2" "q - 1 / 2 \<le> of_int (rhe q)"
proof -
  define n where "n = \<lfloor>q\<rfloor>"
  have "of_int n \<le> q" "q < of_int n + 1" unfolding n_def by linarith+
  then show "of_int (rhe q) \<le> q + 1 / 2" "q - 1 / 2 \<le> of_int (rhe q)"
    unfolding rhe_def Let_def n_def [symmetric] by auto
qed

lemma rhe_mono: "p \<le> q \<Longrightarrow> rhe p \<le> rhe q"
proof -
  assume le: "p \<le> q"
  show ?thesis
  proof (cases "\<lfloor>p\<rfloor> = \<lfloor>q\<rfloor>")
    case True
    with le show ?thesis unfolding rhe_def Let_def by auto
  next
    case False
    with le have "\<lfloor>p\<rfloor> + 1 \<le> \<lfloor>q\<rfloor>" using floor_mono [OF le] by simp
    moreover have "rhe p \<le> \<lfloor>p\<rfloor> + 1" "\<lfloor>q\<rfloor> \<le> rhe q" by (auto simp: rhe_def Let_def)
    ultimately show ?thesis by linarith
  qed
qed

lemma rhe_neg: "rhe (- q) = - rhe q"
proof (cases "q = of_int \<lfloor>q\<rfloor>")
  case True
  then show ?thesis by (metis of_int_minus rhe_of_int)
next
  case False
  define n where "n = \<lfloor>q\<rfloor>"
  have b: "of_int n < q" "q < of_int n + 1" using False unfolding n_def by linarith+
  have "\<lfloor>- q\<rfloor> = - n - 1" using b by (intro floor_unique) auto
  then show ?thesis using b unfolding rhe_def Let_def n_def [symmetric] by auto
qed

lemma rhe_le_int: "q \<le> of_int n \<Longrightarrow> rhe q \<le> n"
  using rhe_mono [of q "of_int n"] by simp

lemma int_le_rhe: "of_int n \<le> q \<Longrightarrow> n \<le> rhe q"
  using rhe_mono [of "of_int n" q] by simp

lemma rnd_rat_0 [simp]: "rnd_rat 0 = 0"
  by (simp add: rnd_rat_def)

lemma ulp_exp_neg [simp]: "ulp_exp (- q) = ulp_exp q"
  by (simp add: ulp_exp_def)

lemma rnd_rat_neg: "rnd_rat (- q) = - rnd_rat q"
  by (simp add: rnd_rat_def Let_def rhe_neg)

text \<open>A multiple of the last place bounds the rounding from either side.\<close>

lemma rnd_rat_le_multiple:
  assumes "q \<noteq> 0" "q \<le> of_int m * pow2 j" "ulp_exp q \<le> j"
  shows "rnd_rat q \<le> of_int m * pow2 j"
proof -
  let ?k = "ulp_exp q"
  have j: "pow2 j = pow2 (j - ?k) * pow2 ?k" by (simp add: pow2_diff)
  have i: "pow2 (j - ?k) = of_int (p2 (j - ?k))" using assms by (simp add: pow2_int)
  have "q / pow2 ?k \<le> of_int (m * p2 (j - ?k))"
    using assms(2) unfolding j i by (simp add: divide_le_eq mult.assoc)
  then have "rhe (q / pow2 ?k) \<le> m * p2 (j - ?k)" by (rule rhe_le_int)
  then have "of_int (rhe (q / pow2 ?k)) \<le> (of_int (m * p2 (j - ?k)) :: rat)"
    by (simp only: of_int_le_iff)
  then have "of_int (rhe (q / pow2 ?k)) * pow2 ?k \<le> of_int (m * p2 (j - ?k)) * pow2 ?k"
    by (intro mult_right_mono) auto
  then show ?thesis using assms(1) unfolding rnd_rat_def Let_def j i by (simp add: mult.assoc)
qed

lemma rnd_rat_ge_multiple:
  assumes "q \<noteq> 0" "of_int m * pow2 j \<le> q" "ulp_exp q \<le> j"
  shows "of_int m * pow2 j \<le> rnd_rat q"
  using rnd_rat_le_multiple [of "- q" "- m" j] assms by (simp add: rnd_rat_neg)

lemma rnd_rat_nonneg: "0 \<le> q \<Longrightarrow> 0 \<le> rnd_rat q"
  using rnd_rat_ge_multiple [of q 0 "ulp_exp q"] by (cases "q = 0") auto

lemma rnd_rat_nonpos: "q \<le> 0 \<Longrightarrow> rnd_rat q \<le> 0"
  using rnd_rat_nonneg [of "- q"] by (simp add: rnd_rat_neg)

lemma ulp_exp_mono: "0 < p \<Longrightarrow> p \<le> q \<Longrightarrow> ulp_exp p \<le> ulp_exp q"
  using flog2_mono [of p q] by (auto simp: ulp_exp_def)

lemma rnd_rat_mono_pos:
  assumes "0 < p" "p \<le> q"
  shows "rnd_rat p \<le> rnd_rat q"
proof (cases "ulp_exp p = ulp_exp q")
  case True
  have "p / pow2 (ulp_exp q) \<le> q / pow2 (ulp_exp q)"
    using assms by (simp add: divide_right_mono)
  then have "(of_int (rhe (p / pow2 (ulp_exp q))) :: rat) \<le> of_int (rhe (q / pow2 (ulp_exp q)))"
    using rhe_mono by (simp only: of_int_le_iff)
  then show ?thesis using True assms by (simp add: rnd_rat_def Let_def mult_right_mono)
next
  case False
  with ulp_exp_mono [OF assms] have lt: "ulp_exp p < ulp_exp q" by simp
  then have f: "flog2 p < flog2 q" "ulp_exp q = flog2 q - 52"
    using assms flog2_mono [of p q] by (auto simp: ulp_exp_def max_def split: if_splits)
  have "p \<le> pow2 (flog2 q)"
    using flog2_bounds(2) [of p] assms pow2_mono [of "flog2 p + 1" "flog2 q"] f(1) by linarith
  then have "rnd_rat p \<le> pow2 (flog2 q)"
    using rnd_rat_le_multiple [of p 1 "flog2 q"] assms lt f by simp
  also have "pow2 (flog2 q) \<le> rnd_rat q"
    using rnd_rat_ge_multiple [of q 1 "flog2 q"] flog2_bounds(1) [of q] assms f by simp
  finally show ?thesis .
qed

theorem rnd_rat_mono: "p \<le> q \<Longrightarrow> rnd_rat p \<le> rnd_rat q"
proof -
  assume le: "p \<le> q"
  consider "0 < p" | "p \<le> 0" "0 \<le> q" | "q < 0" by linarith
  then show ?thesis
  proof cases
    case 1 then show ?thesis using le by (rule rnd_rat_mono_pos)
  next
    case 2 then show ?thesis using rnd_rat_nonneg [of q] rnd_rat_nonpos [of p] by linarith
  next
    case 3 then show ?thesis using rnd_rat_mono_pos [of "- q" "- p"] le by (simp add: rnd_rat_neg)
  qed
qed

text \<open>Values of the format are fixed points; results of rounding are values of the format.\<close>

lemma rnd_rat_rep: "rep q \<Longrightarrow> rnd_rat q = q"
proof (cases "q = 0")
  case False
  assume "rep q"
  then obtain m k where q: "q = of_int m * pow2 k" and m: "\<bar>m\<bar> \<le> 2 ^ 53" and k: "- 1074 \<le> k"
    by (auto simp: rep_def)
  show ?thesis
  proof (cases "\<bar>m\<bar> = 2 ^ 53")
    case True
    then obtain s where s: "m = s * 2 ^ 53" "\<bar>s\<bar> = 1"
      by (cases "0 \<le> m") (auto intro: that [of 1] that [of "- 1"])
    have p: "pow2 53 = 2 ^ 53" by (simp add: pow2_powi)
    have q': "q = of_int s * pow2 (k + 53)" by (simp add: q s pow2_add p)
    have "\<bar>q\<bar> = of_int \<bar>s\<bar> * pow2 (k + 53)" unfolding q' by (simp add: abs_mult)
    then have "\<bar>q\<bar> = pow2 (k + 53)" by (simp only: s(2))
    then have "flog2 \<bar>q\<bar> = k + 53" by (intro flog2_eqI) (auto simp: pow2_strict)
    then have u: "ulp_exp q \<le> k + 53" using k by (auto simp: ulp_exp_def)
    show ?thesis
      using rnd_rat_le_multiple [of q s "k + 53"] rnd_rat_ge_multiple [of q s "k + 53"] False u q'
      by simp
  next
    case f: False
    have "\<bar>q\<bar> = of_int \<bar>m\<bar> * pow2 k" by (simp add: q abs_mult)
    also have "\<dots> < pow2 53 * pow2 k"
    proof -
      have "\<bar>m\<bar> < 2 ^ 53" using m f by simp
      then have "(of_int \<bar>m\<bar> :: rat) < of_int (2 ^ 53)" by (simp only: of_int_less_iff)
      then show ?thesis by (simp add: pow2_powi)
    qed
    also have "\<dots> = pow2 (53 + k)" by (simp add: pow2_add)
    finally have "\<bar>q\<bar> < pow2 (53 + k)" .
    then have "pow2 (flog2 \<bar>q\<bar>) < pow2 (53 + k)"
      using flog2_bounds(1) [of "\<bar>q\<bar>"] False by (meson le_less_trans zero_less_abs_iff)
    then have u: "ulp_exp q \<le> k" using k by (auto simp: ulp_exp_def)
    show ?thesis
      using rnd_rat_le_multiple [of q m k] rnd_rat_ge_multiple [of q m k] False u q by simp
  qed
qed simp

lemma rep_rnd_rat: "rep (rnd_rat q)"
proof (cases "q = 0")
  case True then show ?thesis by (auto simp: rep_def intro: exI [of _ 0])
next
  case False
  let ?k = "ulp_exp q"
  define m where "m = rhe (q / pow2 ?k)"
  have f: "\<bar>q\<bar> < pow2 (flog2 \<bar>q\<bar> + 1)" using False by (intro flog2_bounds) simp
  also have "\<dots> \<le> pow2 (?k + 53)" by (auto simp: ulp_exp_def)
  also have "\<dots> = of_int (2 ^ 53) * pow2 ?k" by (simp add: pow2_add) (simp add: pow2_powi)
  finally have a: "\<bar>q / pow2 ?k\<bar> \<le> of_int (2 ^ 53)" by (simp add: abs_divide divide_le_eq)
  have "m \<le> 2 ^ 53" unfolding m_def using a by (intro rhe_le_int) linarith
  moreover have "- (2 ^ 53) \<le> m" unfolding m_def using a by (intro int_le_rhe) linarith
  moreover have "rnd_rat q = of_int m * pow2 ?k" using False by (simp add: rnd_rat_def Let_def m_def)
  moreover have "- 1074 \<le> ?k" by (simp add: ulp_exp_def)
  ultimately show ?thesis unfolding rep_def by (intro exI [of _ m] exI [of _ ?k]) (auto simp: abs_le_iff)
qed

lemma rnd_rat_idem [simp]: "rnd_rat (rnd_rat q) = rnd_rat q"
  by (simp add: rnd_rat_rep rep_rnd_rat)

lemma rep_int: "\<bar>n\<bar> \<le> 2 ^ 53 \<Longrightarrow> rep (of_int n)"
  unfolding rep_def by (intro exI [of _ n] exI [of _ 0]) simp

lemma rep_pow2: "- 1074 \<le> k \<Longrightarrow> rep (pow2 k)"
  unfolding rep_def by (intro exI [of _ 1] exI [of _ k]) simp

lemma rep_neg: "rep q \<Longrightarrow> rep (- q)"
proof -
  assume "rep q"
  then obtain m k where "q = of_int m * pow2 k" "\<bar>m\<bar> \<le> 2 ^ 53" "- 1074 \<le> k"
    by (auto simp: rep_def)
  then show ?thesis unfolding rep_def by (intro exI [of _ "- m"] exI [of _ k]) simp
qed

lemma rnd_rat_le_rep: "q \<le> r \<Longrightarrow> rep r \<Longrightarrow> rnd_rat q \<le> r"
  using rnd_rat_mono [of q r] by (simp add: rnd_rat_rep)

lemma rep_le_rnd_rat: "r \<le> q \<Longrightarrow> rep r \<Longrightarrow> r \<le> rnd_rat q"
  using rnd_rat_mono [of r q] by (simp add: rnd_rat_rep)

section \<open>Values and operations\<close>

datatype f64 = FNaN | FInf bool | FNegZero | Fin rat

fun fval :: "f64 \<Rightarrow> rat" where
  "fval (Fin q) = q"
| "fval _ = 0"

fun is_fin :: "f64 \<Rightarrow> bool" where
  "is_fin (Fin q) = True"
| "is_fin FNegZero = True"
| "is_fin _ = False"

definition isNaN :: "f64 \<Rightarrow> bool" where
  "isNaN x = (x = FNaN)"

definition isInf0 :: "f64 \<Rightarrow> bool" where
  "isInf0 x = (case x of FInf _ \<Rightarrow> True | _ \<Rightarrow> False)"

fun signbit :: "f64 \<Rightarrow> bool" where
  "signbit FNaN = False"
| "signbit (FInf s) = s"
| "signbit FNegZero = True"
| "signbit (Fin q) = (q < 0)"

definition f64_ok :: "f64 \<Rightarrow> bool" where
  "f64_ok x = (case x of Fin q \<Rightarrow> rep q \<and> \<bar>q\<bar> < pow2 1024 | _ \<Rightarrow> True)"

fun fzero :: "bool \<Rightarrow> f64" where
  "fzero s = (if s then FNegZero else Fin 0)"

definition rnd :: "rat \<Rightarrow> f64" where
  "rnd q = (let r = rnd_rat q in
     if pow2 1024 \<le> r then FInf False
     else if r \<le> - pow2 1024 then FInf True
     else if r = 0 then fzero (q < 0) else Fin r)"

definition rnds :: "bool \<Rightarrow> rat \<Rightarrow> f64" where
  "rnds s q = (if q = 0 then fzero s else rnd q)"

definition f_of_int :: "int \<Rightarrow> f64" where
  "f_of_int n = rnd (of_int n)"

fun feq :: "f64 \<Rightarrow> f64 \<Rightarrow> bool" where
  "feq FNaN _ = False"
| "feq _ FNaN = False"
| "feq (FInf s) (FInf t) = (s = t)"
| "feq (FInf s) _ = False"
| "feq _ (FInf t) = False"
| "feq x y = (fval x = fval y)"

fun flt :: "f64 \<Rightarrow> f64 \<Rightarrow> bool" where
  "flt FNaN _ = False"
| "flt _ FNaN = False"
| "flt (FInf s) (FInf t) = (s \<and> \<not> t)"
| "flt (FInf s) _ = s"
| "flt _ (FInf t) = (\<not> t)"
| "flt x y = (fval x < fval y)"

definition fle :: "f64 \<Rightarrow> f64 \<Rightarrow> bool" where
  "fle x y = (flt x y \<or> feq x y)"

fun fneg :: "f64 \<Rightarrow> f64" where
  "fneg FNaN = FNaN"
| "fneg (FInf s) = FInf (\<not> s)"
| "fneg FNegZero = Fin 0"
| "fneg (Fin q) = (if q = 0 then FNegZero else Fin (- q))"

fun fadd :: "f64 \<Rightarrow> f64 \<Rightarrow> f64" where
  "fadd FNaN _ = FNaN"
| "fadd _ FNaN = FNaN"
| "fadd (FInf s) (FInf t) = (if s = t then FInf s else FNaN)"
| "fadd (FInf s) _ = FInf s"
| "fadd _ (FInf t) = FInf t"
| "fadd FNegZero FNegZero = FNegZero"
| "fadd x y = rnd (fval x + fval y)"

definition fsub :: "f64 \<Rightarrow> f64 \<Rightarrow> f64" where
  "fsub x y = fadd x (fneg y)"

fun fmul :: "f64 \<Rightarrow> f64 \<Rightarrow> f64" where
  "fmul FNaN _ = FNaN"
| "fmul _ FNaN = FNaN"
| "fmul (FInf s) y = (if is_fin y \<and> fval y = 0 then FNaN else FInf (s \<noteq> signbit y))"
| "fmul x (FInf t) = (if fval x = 0 then FNaN else FInf (signbit x \<noteq> t))"
| "fmul x y = rnds (signbit x \<noteq> signbit y) (fval x * fval y)"

fun fdiv :: "f64 \<Rightarrow> f64 \<Rightarrow> f64" where
  "fdiv FNaN _ = FNaN"
| "fdiv _ FNaN = FNaN"
| "fdiv (FInf s) (FInf t) = FNaN"
| "fdiv (FInf s) y = FInf (s \<noteq> signbit y)"
| "fdiv x (FInf t) = fzero (signbit x \<noteq> t)"
| "fdiv x y = (if fval y = 0
     then (if fval x = 0 then FNaN else FInf (signbit x \<noteq> signbit y))
     else rnds (signbit x \<noteq> signbit y) (fval x / fval y))"

text \<open>
  The square root is correctly rounded: \<open>m\<close> is the integer part of the root at the last place
  and the exact comparison with \<open>m + 1/2\<close> decides the direction.
\<close>

definition sqrt_rat :: "rat \<Rightarrow> rat" where
  "sqrt_rat q = (let k = flog2 q div 2 - 52; x = q / pow2 (2 * k); m = isqrt \<lfloor>x\<rfloor>;
       h = (of_int m + 1 / 2) * (of_int m + 1 / 2);
       r = (if x < h then m else if h < x then m + 1 else if even m then m else m + 1)
     in of_int r * pow2 k)"

fun fsqrt :: "f64 \<Rightarrow> f64" where
  "fsqrt FNaN = FNaN"
| "fsqrt (FInf s) = (if s then FNaN else FInf False)"
| "fsqrt FNegZero = FNegZero"
| "fsqrt (Fin q) = (if q < 0 then FNaN else if q = 0 then Fin 0 else Fin (sqrt_rat q))"

fun fabs :: "f64 \<Rightarrow> f64" where
  "fabs FNaN = FNaN"
| "fabs (FInf _) = FInf False"
| "fabs FNegZero = Fin 0"
| "fabs (Fin q) = Fin \<bar>q\<bar>"

definition rat_trunc :: "rat \<Rightarrow> int" where
  "rat_trunc q = (if 0 \<le> q then \<lfloor>q\<rfloor> else \<lceil>q\<rceil>)"

text \<open>\<^verbatim>\<open>math.Mod\<close>: exact, the sign of the result agrees with the sign of the first argument.\<close>

definition fmod :: "f64 \<Rightarrow> f64 \<Rightarrow> f64" where
  "fmod x y = (if isNaN x \<or> isNaN y \<or> isInf0 x \<or> (is_fin y \<and> fval y = 0) then FNaN
     else if isInf0 y then x
     else let r = fval x - of_int (rat_trunc (fval x / fval y)) * fval y
       in if r = 0 then fzero (signbit x) else Fin r)"

fun fceil :: "f64 \<Rightarrow> f64" where
  "fceil (Fin q) = (if \<lceil>q\<rceil> = 0 then fzero (q < 0) else Fin (of_int \<lceil>q\<rceil>))"
| "fceil x = x"

text \<open>\<^verbatim>\<open>math.Round\<close>: half away from zero.\<close>

fun fround :: "f64 \<Rightarrow> f64" where
  "fround (Fin q) = (let r = (if 0 \<le> q then \<lfloor>q + 1 / 2\<rfloor> else \<lceil>q - 1 / 2\<rceil>)
     in if r = 0 then fzero (q < 0) else Fin (of_int r))"
| "fround x = x"

text \<open>\<^verbatim>\<open>math.Min\<close> with its special cases.\<close>

definition fmin :: "f64 \<Rightarrow> f64 \<Rightarrow> f64" where
  "fmin x y = (if x = FInf True \<or> y = FInf True then FInf True
     else if isNaN x \<or> isNaN y then FNaN
     else if is_fin x \<and> is_fin y \<and> fval x = 0 \<and> fval y = 0 then (if signbit x then x else y)
     else if flt x y then x else y)"

text \<open>\<^verbatim>\<open>math.Max\<close> with its special cases.\<close>

definition fmax :: "f64 \<Rightarrow> f64 \<Rightarrow> f64" where
  "fmax x y = (if x = FInf False \<or> y = FInf False then FInf False
     else if isNaN x \<or> isNaN y then FNaN
     else if is_fin x \<and> is_fin y \<and> fval x = 0 \<and> fval y = 0 then (if signbit x then y else x)
     else if flt y x then x else y)"

text \<open>
  Conversion to \<^verbatim>\<open>int64\<close> truncates; out of range the language leaves the result to the
  implementation, and amd64 yields the least integer.
\<close>

definition f_to_int64 :: "f64 \<Rightarrow> int" where
  "f_to_int64 x = (let n = rat_trunc (fval x)
     in if is_fin x \<and> - (2 ^ 63) \<le> n \<and> n < 2 ^ 63 then n else - (2 ^ 63))"

section \<open>Facts about the operations\<close>

lemma is_fin_iff: "is_fin x \<longleftrightarrow> \<not> isNaN x \<and> \<not> isInf0 x"
  by (cases x) (auto simp: isNaN_def isInf0_def)

lemma is_fin_Fin: "is_fin x \<longleftrightarrow> x = FNegZero \<or> (\<exists>q. x = Fin q)"
  by (cases x) auto

lemma flt_fin [simp]: "is_fin x \<Longrightarrow> is_fin y \<Longrightarrow> flt x y \<longleftrightarrow> fval x < fval y"
  by (cases x; cases y) auto

lemma feq_fin [simp]: "is_fin x \<Longrightarrow> is_fin y \<Longrightarrow> feq x y \<longleftrightarrow> fval x = fval y"
  by (cases x; cases y) auto

lemma fle_fin [simp]: "is_fin x \<Longrightarrow> is_fin y \<Longrightarrow> fle x y \<longleftrightarrow> fval x \<le> fval y"
  by (auto simp: fle_def)

lemma flt_nan [simp]: "\<not> flt FNaN x" "\<not> flt x FNaN"
  by (cases x; simp)+

lemma fle_nan [simp]: "\<not> fle FNaN x" "\<not> fle x FNaN"
  by (cases x; simp add: fle_def)+

lemma flt_irrefl [simp]: "\<not> flt x x"
  by (cases x) auto

lemma flt_not_fle: "flt x y \<Longrightarrow> \<not> fle y x"
  by (cases x; cases y) (auto simp: fle_def)

lemma flt_trans: "flt x y \<Longrightarrow> flt y z \<Longrightarrow> flt x z"
  by (cases x; cases y; cases z) auto

lemma is_fin_between: "fle (Fin a) x \<Longrightarrow> fle x (Fin b) \<Longrightarrow> is_fin x \<and> a \<le> fval x \<and> fval x \<le> b"
  by (cases x) (auto simp: fle_def)

lemma fval_rnd: "is_fin (rnd q) \<Longrightarrow> fval (rnd q) = rnd_rat q"
  by (auto simp: rnd_def Let_def split: if_splits)

lemma is_fin_rnd: "is_fin (rnd q) \<longleftrightarrow> \<bar>rnd_rat q\<bar> < pow2 1024"
  unfolding rnd_def Let_def by (auto simp: abs_less_iff)

lemma f64_ok_rnd: "f64_ok (rnd q)"
  unfolding rnd_def Let_def f64_ok_def
  by (auto simp: rep_rnd_rat abs_less_iff rep_int [of 0, simplified])

lemma is_fin_rnd_bound:
  assumes "\<bar>q\<bar> \<le> r" "rep r" "r < pow2 1024"
  shows "is_fin (rnd q)"
proof -
  have "rnd_rat q \<le> r" using assms by (intro rnd_rat_le_rep) auto
  moreover have "- r \<le> rnd_rat q" using assms by (intro rep_le_rnd_rat rep_neg) auto
  ultimately show ?thesis using assms(3) by (auto simp: is_fin_rnd abs_less_iff)
qed

lemma rnd_rep: "rep q \<Longrightarrow> \<bar>q\<bar> < pow2 1024 \<Longrightarrow> rnd q = Fin q"
  unfolding rnd_def Let_def by (auto simp: rnd_rat_rep abs_less_iff)

lemma fadd_fin: "is_fin x \<Longrightarrow> is_fin y \<Longrightarrow>
    fadd x y = (if x = FNegZero \<and> y = FNegZero then FNegZero else rnd (fval x + fval y))"
  by (cases x; cases y) auto

lemma fval_fadd: "is_fin x \<Longrightarrow> is_fin y \<Longrightarrow> is_fin (fadd x y) \<Longrightarrow>
    fval (fadd x y) = rnd_rat (fval x + fval y)"
  by (auto simp: fadd_fin fval_rnd split: if_splits)

lemma is_fin_fneg [simp]: "is_fin (fneg x) = is_fin x"
  by (cases x) auto

lemma fval_fneg [simp]: "fval (fneg x) = - fval x"
  by (cases x) auto

lemma fval_fsub: "is_fin x \<Longrightarrow> is_fin y \<Longrightarrow> is_fin (fsub x y) \<Longrightarrow>
    fval (fsub x y) = rnd_rat (fval x - fval y)"
  by (simp add: fsub_def fval_fadd)

lemma is_fin_fadd_bound: "is_fin x \<Longrightarrow> is_fin y \<Longrightarrow> \<bar>fval x + fval y\<bar> \<le> r \<Longrightarrow> rep r \<Longrightarrow>
    r < pow2 1024 \<Longrightarrow> is_fin (fadd x y)"
  by (auto simp: fadd_fin intro: is_fin_rnd_bound)

lemma is_fin_fsub_bound: "is_fin x \<Longrightarrow> is_fin y \<Longrightarrow> \<bar>fval x - fval y\<bar> \<le> r \<Longrightarrow> rep r \<Longrightarrow>
    r < pow2 1024 \<Longrightarrow> is_fin (fsub x y)"
  by (simp add: fsub_def is_fin_fadd_bound)

lemma fmul_fin: "is_fin x \<Longrightarrow> is_fin y \<Longrightarrow>
    fmul x y = rnds (signbit x \<noteq> signbit y) (fval x * fval y)"
  by (cases x; cases y) auto

lemma fval_rnds: "is_fin (rnds s q) \<Longrightarrow> fval (rnds s q) = rnd_rat q"
  by (auto simp: rnds_def fval_rnd)

lemma is_fin_rnds_bound: "\<bar>q\<bar> \<le> r \<Longrightarrow> rep r \<Longrightarrow> r < pow2 1024 \<Longrightarrow> is_fin (rnds s q)"
  by (auto simp: rnds_def intro: is_fin_rnd_bound)

lemma fdiv_fin: "is_fin x \<Longrightarrow> is_fin y \<Longrightarrow> fval y \<noteq> 0 \<Longrightarrow>
    fdiv x y = rnds (signbit x \<noteq> signbit y) (fval x / fval y)"
  by (cases x; cases y) auto

lemma fval_fdiv: "is_fin x \<Longrightarrow> is_fin y \<Longrightarrow> fval y \<noteq> 0 \<Longrightarrow> is_fin (fdiv x y) \<Longrightarrow>
    fval (fdiv x y) = rnd_rat (fval x / fval y)"
  by (simp add: fdiv_fin fval_rnds)

lemma fval_fmul: "is_fin x \<Longrightarrow> is_fin y \<Longrightarrow> is_fin (fmul x y) \<Longrightarrow>
    fval (fmul x y) = rnd_rat (fval x * fval y)"
  by (simp add: fmul_fin fval_rnds)

lemma fdiv_unit: \<comment> \<open>a quotient of \<open>0 \<le> x \<le> y\<close> rounds into the unit interval\<close>
  assumes "is_fin x" "is_fin y" "0 \<le> fval x" "fval x \<le> fval y" "0 < fval y"
  shows "is_fin (fdiv x y)" "0 \<le> fval (fdiv x y)" "fval (fdiv x y) \<le> 1"
proof -
  have q: "0 \<le> fval x / fval y" "fval x / fval y \<le> 1" using assms by auto
  have r1: "rep (1 :: rat)" using rep_int [of 1] by simp
  have lt: "(1 :: rat) < pow2 1024" using pow2_strict [of 0 1024] by simp
  show f: "is_fin (fdiv x y)"
    using assms q r1 lt by (simp add: fdiv_fin is_fin_rnds_bound [where r = 1])
  show "0 \<le> fval (fdiv x y)" "fval (fdiv x y) \<le> 1"
    using f assms q r1 by (auto simp: fval_fdiv intro: rnd_rat_nonneg rnd_rat_le_rep)
qed

lemma rep_multiple: "rep q \<Longrightarrow> \<exists>m. q = of_int m * pow2 (- 1074)"
proof -
  assume "rep q"
  then obtain m k where "q = of_int m * pow2 k" "- 1074 \<le> k" by (auto simp: rep_def)
  then have "q = of_int (m * p2 (k + 1074)) * pow2 (- 1074)"
    by (simp add: pow2_int [symmetric] mult.assoc pow2_add [symmetric])
  then show ?thesis by blast
qed

lemma rep_diff_pos: "rep x \<Longrightarrow> rep y \<Longrightarrow> y < x \<Longrightarrow> pow2 (- 1074) \<le> x - y"
proof -
  assume "rep x" "rep y" and lt: "y < x"
  then obtain m n where mn: "x = of_int m * pow2 (- 1074)" "y = of_int n * pow2 (- 1074)"
    using rep_multiple by meson
  with lt have "1 \<le> m - n" by (simp add: mult_less_cancel_right)
  then have "(1 :: rat) \<le> of_int (m - n)" by (metis of_int_1 of_int_le_iff)
  then have "1 * pow2 (- 1074) \<le> of_int (m - n) * pow2 (- 1074)" by (intro mult_right_mono) auto
  then show ?thesis by (simp add: mn algebra_simps)
qed

lemma f64_ok_rep: "f64_ok x \<Longrightarrow> is_fin x \<Longrightarrow> rep (fval x) \<and> \<bar>fval x\<bar> < pow2 1024"
  by (cases x) (auto simp: f64_ok_def rep_int [of 0, simplified])

text \<open>Subtraction of a smaller non-negative value neither overflows nor underflows to zero.\<close>

lemma fsub_pos:
  assumes "is_fin x" "is_fin y" "f64_ok x" "f64_ok y" "0 \<le> fval y" "fval y < fval x"
  shows "is_fin (fsub x y)" "0 < fval (fsub x y)" "fval (fsub x y) \<le> fval x"
proof -
  note rx = f64_ok_rep [OF assms(3,1)] and ry = f64_ok_rep [OF assms(4,2)]
  show f: "is_fin (fsub x y)"
    using assms rx by (intro is_fin_fsub_bound [where r = "fval x"]) auto
  have "pow2 (- 1074) \<le> rnd_rat (fval x - fval y)"
    using rep_diff_pos [of "fval x" "fval y"] rx ry assms(6) by (intro rep_le_rnd_rat rep_pow2) auto
  then show "0 < fval (fsub x y)"
    using f assms by (simp add: fval_fsub) (meson less_le_trans pow2_pos)
  show "fval (fsub x y) \<le> fval x"
    using f assms rx by (simp add: fval_fsub rnd_rat_le_rep)
qed

lemma f64_ok_Fin_int [simp]: "\<bar>n\<bar> \<le> 2 ^ 53 \<Longrightarrow> f64_ok (Fin (of_int n))"
proof -
  assume n: "\<bar>n\<bar> \<le> 2 ^ 53"
  then have "\<bar>of_int n :: rat\<bar> \<le> of_int (2 ^ 53)" by (simp only: of_int_abs [symmetric] of_int_le_iff)
  also have "\<dots> = pow2 53" by (simp add: pow2_powi)
  also have "\<dots> < pow2 1024" by (rule pow2_strict) simp
  finally show ?thesis using n by (simp add: f64_ok_def rep_int)
qed

lemma f_of_int_exact: "\<bar>n\<bar> \<le> 2 ^ 53 \<Longrightarrow> f_of_int n = Fin (of_int n)"
  using f64_ok_Fin_int [of n] by (simp add: f_of_int_def f64_ok_def rnd_rep)

lemma fsub_mono_left:
  assumes "is_fin x" "is_fin y" "is_fin z" "fval x \<le> fval y" "is_fin (fsub x z)" "is_fin (fsub y z)"
  shows "fval (fsub x z) \<le> fval (fsub y z)"
  using assms by (simp add: fval_fsub rnd_rat_mono)

section \<open>Order and rounding\<close>

lemma rat_trunc_div:
  assumes "0 < (t :: rat)"
  shows "\<bar>d - of_int (rat_trunc (d / t)) * t\<bar> < t" and "0 \<le> d \<Longrightarrow> 0 \<le> d - of_int (rat_trunc (d / t)) * t"
    and "d \<le> 0 \<Longrightarrow> d - of_int (rat_trunc (d / t)) * t \<le> 0"
proof -
  let ?n = "rat_trunc (d / t)"
  have d: "d = d / t * t" using assms by simp
  have e: "d - of_int ?n * t = (d / t - of_int ?n) * t" using assms by (simp add: left_diff_distrib)
  have b: "\<bar>d / t - of_int ?n\<bar> < 1" "0 \<le> d / t \<Longrightarrow> 0 \<le> d / t - of_int ?n" "d / t \<le> 0 \<Longrightarrow> d / t - of_int ?n \<le> 0"
    unfolding rat_trunc_def by (auto simp: abs_less_iff) linarith+
  show "\<bar>d - of_int ?n * t\<bar> < t" unfolding e using b(1) assms by (simp add: abs_mult)
  show "0 \<le> d - of_int ?n * t" if "0 \<le> d" unfolding e using b(2) that assms by simp
  show "d - of_int ?n * t \<le> 0" if "d \<le> 0" unfolding e using b(3) that assms by (simp add: mult_nonpos_nonneg divide_nonpos_pos)
qed

lemma fmod_bound:
  assumes "is_fin d" "is_fin t" "0 < fval t"
  shows "is_fin (fmod d t)" "\<bar>fval (fmod d t)\<bar> < fval t"
  using assms rat_trunc_div(1) [OF assms(3), of "fval d"] by (auto simp: fmod_def Let_def is_fin_iff isNaN_def isInf0_def)

lemma fle_refl: "\<not> isNaN x \<Longrightarrow> fle x x"
  by (cases x) (auto simp: fle_def isNaN_def)

lemma fle_linear: "\<not> isNaN x \<Longrightarrow> \<not> isNaN y \<Longrightarrow> \<not> fle x y \<Longrightarrow> fle y x"
  by (cases x; cases y) (auto simp: fle_def isNaN_def)

lemma fle_trans: "fle x y \<Longrightarrow> fle y z \<Longrightarrow> fle x z"
  by (cases x; cases y; cases z) (auto simp: fle_def)

lemma rnd_0 [simp]: "rnd 0 = Fin 0"
  using pow2_pos [of 1024] by (simp add: rnd_def Let_def not_le)

lemma rnd_nonneg: "0 \<le> q \<Longrightarrow> fle (Fin 0) (rnd q)"
proof -
  assume "0 \<le> q"
  then have "0 \<le> rnd_rat q" by (rule rnd_rat_nonneg)
  then have "\<not> rnd_rat q \<le> - pow2 1024" using pow2_pos [of 1024] by linarith
  with \<open>0 \<le> rnd_rat q\<close> show ?thesis by (auto simp: rnd_def Let_def fle_def)
qed

lemma fle0_iff: "fle (Fin 0) x \<longleftrightarrow> x = FInf False \<or> is_fin x \<and> 0 \<le> fval x"
  by (cases x) (auto simp: fle_def)

lemma fadd_nonneg: "fle (Fin 0) x \<Longrightarrow> fle (Fin 0) y \<Longrightarrow> fle (Fin 0) (fadd x y)"
  using rnd_nonneg [of "fval x + fval y"] by (cases x; cases y) (auto simp: fle0_iff)

lemma fsub_nonneg: "is_fin x \<Longrightarrow> is_fin y \<Longrightarrow> fval y \<le> fval x \<Longrightarrow> fle (Fin 0) (fsub x y)"
  using rnd_nonneg [of "fval x - fval y"] by (auto simp: fsub_def fadd_fin)

lemma nan_flt_fle: "\<not> isNaN x \<Longrightarrow> \<not> isNaN y \<Longrightarrow> \<not> flt x y \<longleftrightarrow> fle y x" "\<not> isNaN x \<Longrightarrow> \<not> isNaN y \<Longrightarrow> \<not> fle x y \<longleftrightarrow> flt y x"
  by (cases x; cases y; auto simp: fle_def isNaN_def)+

lemma fle_trans': "fle x y \<Longrightarrow> fle y z \<Longrightarrow> fle x z" "flt x y \<Longrightarrow> fle y z \<Longrightarrow> fle x z"
  by (cases x; cases y; cases z; auto simp: fle_def)+

lemma rnd_mono: "p \<le> q \<Longrightarrow> fle (rnd p) (rnd q)"
  using rnd_rat_mono [of p q] pow2_pos [of 1024] unfolding rnd_def Let_def by (auto simp: fle_def)

lemma fzero_fle: "0 \<le> q \<Longrightarrow> fle (fzero s) (rnd q)"
  using rnd_nonneg [of q] by (cases "rnd q") (auto simp: fle_def)

lemma rnds_mono: "0 \<le> p \<Longrightarrow> p \<le> q \<Longrightarrow> fle (rnds s p) (rnds t q)"
  using rnd_mono [of p q] fzero_fle [of q s] by (auto simp: rnds_def fle_def [of "fzero s" "fzero t"])

end
