(* ===== verification/Prelude.thy ===== *)
theory Prelude
  imports Float64 "HOL-Library.Multiset" "HOL-Library.List_Lexorder" "HOL-Library.Char_ord"
    "HOL-Library.AList"
begin

text \<open>
  What the components share: Go's 64-bit integers (an \<open>int\<close> with the wrap-around written out),
  its byte strings (\<open>string\<close>, compared bytewise by the order of \<open>List_Lexorder\<close>), decimal
  printing and parsing (\<^verbatim>\<open>%d\<close>, \<^verbatim>\<open>strconv.Atoi\<close>), \<^verbatim>\<open>strings.TrimSpace\<close>, and
  \<^verbatim>\<open>sort.Slice\<close>/\<^verbatim>\<open>sort.SliceStable\<close> with the contract of its comparison callback as the
  locale \<open>slice_less\<close>, interpreted for every callback of the program.  A nilable pointer to a
  value is an \<open>option\<close>, an \<^verbatim>\<open>error\<close> result a sum, a cancelled context the value
  \<open>Some e\<close> of type \<open>ctx\<close>.
\<close>

named_theorems go_defs \<comment> \<open>definitions that a closed evaluation unfolds\<close>

datatype ctx_err = Canceled | DeadlineExceeded

type_synonym ctx = "ctx_err option"

section \<open>Integers of 64 bits\<close>

definition in64 :: "int \<Rightarrow> bool" where
  "in64 n \<longleftrightarrow> - (2 ^ 63) \<le> n \<and> n < 2 ^ 63"

definition wrap64 :: "int \<Rightarrow> int" where
  "wrap64 n = (n + 2 ^ 63) mod 2 ^ 64 - 2 ^ 63"

definition add64 :: "int \<Rightarrow> int \<Rightarrow> int" where "add64 a b = wrap64 (a + b)"

definition sub64 :: "int \<Rightarrow> int \<Rightarrow> int" where "sub64 a b = wrap64 (a - b)"

definition mul64 :: "int \<Rightarrow> int \<Rightarrow> int" where "mul64 a b = wrap64 (a * b)"

text \<open>Go's integer division truncates towards zero (the divisor is positive where it is used).\<close>

definition div64 :: "int \<Rightarrow> int \<Rightarrow> int" where
  "div64 a b = (if 0 \<le> a then a div b else - ((- a) div b))"

lemma wrap64_id [simp]: "in64 n \<Longrightarrow> wrap64 n = n"
  by (simp add: in64_def wrap64_def)

lemma in64_wrap64 [simp]: "in64 (wrap64 n)"
  by (simp add: in64_def wrap64_def)

lemma add64_id: "in64 (a + b) \<Longrightarrow> add64 a b = a + b"
  by (simp add: add64_def)

lemma sub64_id: "in64 (a - b) \<Longrightarrow> sub64 a b = a - b"
  by (simp add: sub64_def)

lemma mul64_id: "in64 (a * b) \<Longrightarrow> mul64 a b = a * b"
  by (simp add: mul64_def)

lemma sub64_pos: "in64 a \<Longrightarrow> in64 b \<Longrightarrow> 0 \<le> a \<Longrightarrow> 0 \<le> b \<Longrightarrow> sub64 a b = a - b"
  by (rule sub64_id) (auto simp: in64_def)

section \<open>Decimal numerals\<close>

definition digit :: "int \<Rightarrow> char" where
  "digit d = ''0123456789'' ! nat d"

function dec :: "int \<Rightarrow> string" where
  "dec n = (if n < 10 then [digit n] else dec (n div 10) @ [digit (n mod 10)])"
  by pat_completeness auto
termination by (relation "measure nat") auto

declare dec.simps [simp del]

definition itoa :: "int \<Rightarrow> string" where
  "itoa n = (if n < 0 then CHR ''-'' # dec (- n) else dec n)"

definition digit_val :: "char \<Rightarrow> int option" where
  "digit_val c = (let v = of_char c - 48 in if 0 \<le> v \<and> v \<le> (9 :: int) then Some v else None)"

fun dec_acc :: "int \<Rightarrow> string \<Rightarrow> int option" where
  "dec_acc a [] = Some a"
| "dec_acc a (c # cs) = (case digit_val c of None \<Rightarrow> None | Some v \<Rightarrow> dec_acc (10 * a + v) cs)"

text \<open>\<^verbatim>\<open>strconv.Atoi\<close>: an optional sign, at least one digit, and the range of \<^verbatim>\<open>int\<close>.\<close>

definition atoi :: "string \<Rightarrow> int option" where
  "atoi s = (let (neg, ds) = (case s of [] \<Rightarrow> (False, [])
        | c # cs \<Rightarrow> if c = CHR ''-'' then (True, cs) else if c = CHR ''+'' then (False, cs) else (False, s))
     in if ds = [] then None
        else case dec_acc 0 ds of None \<Rightarrow> None
          | Some v \<Rightarrow> let n = (if neg then - v else v) in if in64 n then Some n else None)"

lemma digit_cases: "0 \<le> d \<Longrightarrow> d < 10 \<Longrightarrow>
    d = 0 \<or> d = 1 \<or> d = 2 \<or> d = 3 \<or> d = 4 \<or> d = 5 \<or> d = 6 \<or> d = 7 \<or> d = 8 \<or> d = (9 :: int)"
  by arith

lemma digit_val_digit: "0 \<le> d \<Longrightarrow> d < 10 \<Longrightarrow> digit_val (digit d) = Some d"
  by (drule (1) digit_cases) (auto simp: digit_def digit_val_def)

lemma dec_acc_append: "dec_acc a (xs @ ys) = (case dec_acc a xs of None \<Rightarrow> None | Some b \<Rightarrow> dec_acc b ys)"
  by (induction xs arbitrary: a) (auto split: option.splits)

lemma dec_acc_dec: "0 \<le> n \<Longrightarrow> dec_acc 0 (dec n) = Some n"
proof (induction n rule: dec.induct)
  case (1 n)
  then show ?case
    by (subst dec.simps) (auto simp: dec_acc_append digit_val_digit)
qed

lemma dec_digits: "0 \<le> n \<Longrightarrow> c \<in> set (dec n) \<Longrightarrow> \<exists>v. digit_val c = Some v"
proof (induction n rule: dec.induct)
  case (1 n)
  show ?case
  proof (cases "n < 10")
    case True
    with "1.prems" show ?thesis by (simp add: dec.simps [of n] digit_val_digit)
  next
    case False
    with "1.prems" have "c \<in> set (dec (n div 10)) \<or> c = digit (n mod 10)"
      by (simp add: dec.simps [of n] disj_commute)
    with False "1.prems" "1.IH" show ?thesis by (auto simp: digit_val_digit)
  qed
qed

lemma dec_Nil [simp]: "dec n \<noteq> []"
  by (subst dec.simps) auto

lemma dec_inj: "0 \<le> m \<Longrightarrow> 0 \<le> n \<Longrightarrow> dec m = dec n \<Longrightarrow> m = n"
  by (metis dec_acc_dec option.inject)

lemma sign_not_digit: "digit_val CHR ''-'' = None" "digit_val CHR ''+'' = None" "digit_val CHR ''_'' = None"
  by (simp_all add: digit_val_def)

lemma dec_not: "0 \<le> n \<Longrightarrow> digit_val c = None \<Longrightarrow> c \<notin> set (dec n)"
  using dec_digits by fastforce

lemma dec_Cons: "0 \<le> n \<Longrightarrow> digit_val c = None \<Longrightarrow> dec n \<noteq> c # cs"
  using dec_not by (metis list.set_intros(1))

lemma itoa_inj: "itoa m = itoa n \<Longrightarrow> m = n"
  unfolding itoa_def
  using dec_Cons [of m "CHR ''-''"] dec_Cons [of n "CHR ''-''"] dec_inj [of m n] dec_inj [of "- m" "- n"]
  by (auto simp: sign_not_digit not_less split: if_splits) metis+

lemma underscore_not_itoa: "CHR ''_'' \<notin> set (itoa n)"
  using dec_not [of n "CHR ''_''"] dec_not [of "- n" "CHR ''_''"] by (auto simp: itoa_def sign_not_digit)

lemma itoa_Nil [simp]: "itoa n \<noteq> []"
  by (simp add: itoa_def)

lemma atoi_itoa: "in64 n \<Longrightarrow> atoi (itoa n) = Some n"
proof (cases "n < 0")
  case True
  assume "in64 n"
  with True show ?thesis by (simp add: itoa_def atoi_def dec_acc_dec)
next
  case False
  assume "in64 n"
  from False obtain c cs where d: "dec n = c # cs" by (cases "dec n") auto
  with False have "c \<noteq> CHR ''-''" "c \<noteq> CHR ''+''"
    using dec_not [of n "CHR ''-''"] dec_not [of n "CHR ''+''"] by (auto simp: sign_not_digit)
  with False \<open>in64 n\<close> dec_acc_dec [of n] show ?thesis by (auto simp: itoa_def atoi_def d)
qed

text \<open>The last field of a string is determined when the separator does not occur in it.\<close>

lemma append_sep_inj:
  assumes "c \<notin> set ys" "c \<notin> set vs" "xs @ c # ys = us @ c # vs"
  shows "xs = us \<and> ys = vs"
  using assms by (auto simp: append_eq_append_conv2 append_eq_Cons_conv Cons_eq_append_conv)

section \<open>Strings\<close>

text \<open>
  The UTF-8 encodings of the white-space runes of \<^verbatim>\<open>unicode.IsSpace\<close>: trimming a valid or
  invalid byte string removes exactly these from either end, because an encoding determines the
  rune that starts or ends there.
\<close>

definition byte_char :: "nat \<Rightarrow> char" where "byte_char n = char_of n"

definition space_encodings :: "string list" where
  "space_encodings = map (map byte_char)
     [[9], [10], [11], [12], [13], [32], [194, 133], [194, 160], [225, 154, 128],
      [226, 128, 128], [226, 128, 129], [226, 128, 130], [226, 128, 131], [226, 128, 132],
      [226, 128, 133], [226, 128, 134], [226, 128, 135], [226, 128, 136], [226, 128, 137],
      [226, 128, 138], [226, 128, 168], [226, 128, 169], [226, 128, 175], [226, 129, 159],
      [227, 128, 128]]"

fun strip_prefix :: "string \<Rightarrow> string \<Rightarrow> string option" where
  "strip_prefix [] s = Some s"
| "strip_prefix (p # ps) [] = None"
| "strip_prefix (p # ps) (c # cs) = (if p = c then strip_prefix ps cs else None)"

fun strip_any :: "string list \<Rightarrow> string \<Rightarrow> string option" where
  "strip_any [] s = None"
| "strip_any (p # ps) s = (case strip_prefix p s of None \<Rightarrow> strip_any ps s | Some t \<Rightarrow> Some t)"

lemma strip_prefix_append: "strip_prefix p s = Some t \<longleftrightarrow> s = p @ t"
  by (induction p s rule: strip_prefix.induct) auto

lemma strip_any_Some: "strip_any ps s = Some t \<Longrightarrow> \<exists>p \<in> set ps. s = p @ t"
  by (induction ps) (auto split: option.splits simp: strip_prefix_append)

function trim_front :: "string list \<Rightarrow> string \<Rightarrow> string" where
  "trim_front ps s = (case strip_any ps s of None \<Rightarrow> s
     | Some t \<Rightarrow> if length t < length s then trim_front ps t else s)"
  by pat_completeness auto
termination by (relation "measure (\<lambda>(ps, s). length s)") auto

declare trim_front.simps [simp del]

definition trim_space :: "string \<Rightarrow> string" where
  "trim_space s = rev (trim_front (map rev space_encodings) (rev (trim_front space_encodings s)))"

lemma trim_front_suffix: "\<exists>u. s = u @ trim_front ps s"
proof (induction ps s rule: trim_front.induct)
  case (1 ps s)
  show ?case
  proof (cases "strip_any ps s")
    case None
    then show ?thesis by (subst trim_front.simps) simp
  next
    case (Some t)
    obtain p where p: "s = p @ t" using strip_any_Some [OF Some] by blast
    show ?thesis
    proof (cases "length t < length s")
      case True
      with Some "1.IH" obtain u where "t = u @ trim_front ps t" by blast
      moreover have "trim_front ps s = trim_front ps t"
        using Some True by (subst trim_front.simps) simp
      ultimately have "s = (p @ u) @ trim_front ps s" using p by simp
      then show ?thesis by blast
    next
      case False
      with Some show ?thesis by (subst trim_front.simps) simp
    qed
  qed
qed

lemma set_trim_space: "set (trim_space s) \<subseteq> set s"
proof -
  have f: "set (trim_front ps s) \<subseteq> set s" for ps s
    using trim_front_suffix [of s ps] by (metis set_append sup_ge2)
  then show ?thesis
    unfolding trim_space_def using f [of "map rev space_encodings" "rev (trim_front space_encodings s)"]
      f [of space_encodings s] by auto
qed

fun string_join :: "string \<Rightarrow> string list \<Rightarrow> string" where
  "string_join sep [] = []"
| "string_join sep [x] = x"
| "string_join sep (x # y # ys) = x @ sep @ string_join sep (y # ys)"

definition has_prefix :: "string \<Rightarrow> string \<Rightarrow> bool" where
  "has_prefix s p = (strip_prefix p s \<noteq> None)"

definition trim_prefix :: "string \<Rightarrow> string \<Rightarrow> string" where
  "trim_prefix s p = (case strip_prefix p s of None \<Rightarrow> s | Some t \<Rightarrow> t)"

section \<open>Sorting with a comparison callback\<close>

text \<open>
  \<^verbatim>\<open>sort.SliceStable(xs, less)\<close> as the stable insertion sort over the callback; where
  \<open>less\<close> orders the elements totally, \<^verbatim>\<open>sort.Slice\<close> has the same result.
\<close>

fun insert_less :: "('a \<Rightarrow> 'a \<Rightarrow> bool) \<Rightarrow> 'a \<Rightarrow> 'a list \<Rightarrow> 'a list" where
  "insert_less lt x [] = [x]"
| "insert_less lt x (y # ys) = (if lt y x then y # insert_less lt x ys else x # y # ys)"

fun sort_slice :: "('a \<Rightarrow> 'a \<Rightarrow> bool) \<Rightarrow> 'a list \<Rightarrow> 'a list" where
  "sort_slice lt [] = []"
| "sort_slice lt (x # xs) = insert_less lt x (sort_slice lt xs)"

lemma mset_insert_less [simp]: "mset (insert_less lt x xs) = add_mset x (mset xs)"
  by (induction xs) auto

lemma mset_sort_slice [simp]: "mset (sort_slice lt xs) = mset xs"
  by (induction xs) auto

lemma set_sort_slice [simp]: "set (sort_slice lt xs) = set xs"
  by (metis mset_sort_slice set_mset_mset)

lemma length_sort_slice [simp]: "length (sort_slice lt xs) = length xs"
  by (metis mset_sort_slice size_mset)

lemma sort_slice_Nil_iff [simp]: "sort_slice lt xs = [] \<longleftrightarrow> xs = []"
  by (metis length_0_conv length_sort_slice)

text \<open>
  The contract of a comparison callback on the elements \<open>D\<close> it is called with: a strict weak
  order.  Inside the locale: the result is sorted, equivalent elements keep their order, and a
  callback that separates the elements makes the result independent of the order of the input
  (which is how the code makes its results independent of Go's random map iteration).
\<close>

locale slice_less =
  fixes lt :: "'a \<Rightarrow> 'a \<Rightarrow> bool" and D :: "'a set"
  assumes asym: "x \<in> D \<Longrightarrow> y \<in> D \<Longrightarrow> lt x y \<Longrightarrow> \<not> lt y x"
    and neg_trans: "x \<in> D \<Longrightarrow> y \<in> D \<Longrightarrow> z \<in> D \<Longrightarrow> \<not> lt y x \<Longrightarrow> \<not> lt z y \<Longrightarrow> \<not> lt z x"
begin

definition ordered :: "'a list \<Rightarrow> bool" where
  "ordered xs \<longleftrightarrow> sorted_wrt (\<lambda>x y. \<not> lt y x) xs"

lemma set_insert_less: "set (insert_less lt x xs) = insert x (set xs)"
  by (induction xs) auto

lemma ordered_insert_less:
  "insert x (set xs) \<subseteq> D \<Longrightarrow> ordered xs \<Longrightarrow> ordered (insert_less lt x xs)"
proof (induction xs)
  case Nil then show ?case by (simp add: ordered_def)
next
  case (Cons y ys)
  show ?case
  proof (cases "lt y x")
    case True
    with Cons asym [of y x] show ?thesis by (auto simp: ordered_def set_insert_less)
  next
    case False
    with Cons.prems neg_trans [of x y] show ?thesis by (auto simp: ordered_def)
  qed
qed

lemma ordered_sort_slice: "set xs \<subseteq> D \<Longrightarrow> ordered (sort_slice lt xs)"
  by (induction xs) (auto simp: ordered_def [of "[]"] intro!: ordered_insert_less)

lemma insert_less_ordered: "(\<And>y. y \<in> set xs \<Longrightarrow> \<not> lt y x) \<Longrightarrow> insert_less lt x xs = x # xs"
  by (cases xs) auto

lemma sort_slice_id: "ordered xs \<Longrightarrow> sort_slice lt xs = xs"
  by (induction xs) (auto simp: ordered_def insert_less_ordered)

lemma filter_insert_less:
  assumes "\<And>y. y \<in> set xs \<Longrightarrow> P x \<Longrightarrow> P y \<Longrightarrow> \<not> lt y x"
  shows "filter P (insert_less lt x xs) = (if P x then x # filter P xs else filter P xs)"
  using assms by (induction xs) auto

lemma sort_slice_stable:
  assumes "\<And>y z. y \<in> set xs \<Longrightarrow> z \<in> set xs \<Longrightarrow> P y \<Longrightarrow> P z \<Longrightarrow> \<not> lt y z"
  shows "filter P (sort_slice lt xs) = filter P xs"
  using assms
proof (induction xs)
  case (Cons x xs)
  have "filter P (sort_slice lt (x # xs)) =
      (if P x then x # filter P (sort_slice lt xs) else filter P (sort_slice lt xs))"
    unfolding sort_slice.simps by (rule filter_insert_less) (use Cons.prems in auto)
  with Cons show ?case by simp
qed simp

lemma ordered_unique:
  assumes tot: "\<And>x y. x \<in> set xs \<Longrightarrow> y \<in> set xs \<Longrightarrow> \<not> lt x y \<Longrightarrow> \<not> lt y x \<Longrightarrow> x = y"
    and "ordered xs" "ordered ys" "mset xs = mset ys"
  shows "xs = ys"
  using assms
proof (induction xs arbitrary: ys)
  case Nil then show ?case by simp
next
  case (Cons x xs)
  then obtain y ys' where ys: "ys = y # ys'" by (cases ys) auto
  have sets: "set (x # xs) = set (y # ys')" using Cons.prems(4) ys by (metis mset_eq_setD)
  have "x = y"
  proof (rule ccontr)
    assume "x \<noteq> y"
    with sets have "y \<in> set xs" "x \<in> set ys'" by auto
    with Cons.prems(2,3) ys have "\<not> lt y x" "\<not> lt x y" by (auto simp: ordered_def)
    with Cons.prems(1) \<open>y \<in> set xs\<close> \<open>x \<noteq> y\<close> show False by auto
  qed
  with Cons.prems Cons.IH [of ys'] show ?case by (auto simp: ys ordered_def)
qed

lemma sort_slice_order_independent:
  assumes "set xs \<subseteq> D" "mset xs = mset ys"
    and "\<And>x y. x \<in> set xs \<Longrightarrow> y \<in> set xs \<Longrightarrow> \<not> lt x y \<Longrightarrow> \<not> lt y x \<Longrightarrow> x = y"
  shows "sort_slice lt xs = sort_slice lt ys"
proof (rule ordered_unique)
  have "set ys = set xs" using assms(2) by (metis mset_eq_setD)
  with assms(1) show "ordered (sort_slice lt xs)" "ordered (sort_slice lt ys)"
    by (auto intro: ordered_sort_slice)
qed (use assms in auto)

end

interpretation int_less: slice_less "(<) :: int \<Rightarrow> int \<Rightarrow> bool" UNIV
  by unfold_locales auto

section \<open>Maps\<close>

text \<open>Reading a missing key of a Go map of slices yields the nil slice.\<close>

definition map_list :: "('k \<Rightarrow> 'v list option) \<Rightarrow> 'k \<Rightarrow> 'v list" where
  "map_list m k = (case m k of None \<Rightarrow> [] | Some vs \<Rightarrow> vs)"

lemma map_list_upd [simp]: "map_list (m(k \<mapsto> v)) j = (if j = k then v else map_list m j)"
  by (simp add: map_list_def)

lemma map_list_empty [simp]: "map_list Map.empty k = []"
  by (simp add: map_list_def)

section \<open>The end of a list\<close>

text \<open>What a buffer of \<open>n\<close> elements keeps of a history.\<close>

definition lastn :: "nat \<Rightarrow> 'a list \<Rightarrow> 'a list" where
  "lastn n xs = drop (length xs - n) xs"

lemma length_lastn [simp]: "length (lastn n xs) = min n (length xs)"
  by (simp add: lastn_def)

lemma lastn_Nil [simp]: "lastn n [] = []"
  by (simp add: lastn_def)

lemma lastn_lastn_append: "lastn n (lastn n xs @ ys) = lastn n (xs @ ys)"
  by (cases "n \<le> length xs") (auto simp: lastn_def add.commute)

lemma lastn_append_lastn: "lastn n (xs @ lastn n ys) = lastn n (xs @ ys)"
  by (cases "length ys \<le> n") (auto simp: lastn_def)

lemma set_lastn: "set (lastn n xs) \<subseteq> set xs"
  by (simp add: lastn_def set_drop_subset)

lemma lastn_all: "length xs \<le> n \<Longrightarrow> lastn n xs = xs"
  by (simp add: lastn_def)

lemma drop_lastn: "1 \<le> c \<Longrightarrow> (if int (length xs) > c then drop (nat (int (length xs) - c)) xs else xs) = lastn (nat c) xs"
  by (auto simp: lastn_def nat_diff_distrib)

lemma drop_lastn_ge: "1 \<le> c \<Longrightarrow> (if int (length xs) \<ge> c then drop (nat (int (length xs) - c)) xs else xs) = lastn (nat c) xs"
  by (auto simp: lastn_def nat_diff_distrib)

end
