(* ===== verification/Telemetry.thy ===== *)
theory Telemetry
  imports Prelude "HOL-Library.Sublist"
begin

text \<open>
  \<^verbatim>\<open>internal/telemetry/frame.go\<close>: the telemetry frame, the validation of one frame
  (\<open>frame_normalize\<close>), the normalisation of an ingest batch (\<open>batch_normalize\<close>: bounds, the
  loop over the frames, the consistency of each frame with the last accepted one) and the
  summary of the rejections.  A rejection is always a \<^verbatim>\<open>*RejectionError\<close>, so the error side of
  both results is that record and the \<^verbatim>\<open>errors.As\<close> of the loop always succeeds.

  The lemmas characterise the loop: what is accepted is valid and consistent, what is rejected
  is numbered by its position, the two partition the batch, and normalising again changes nothing.
\<close>

section \<open>Errors and rejections\<close>

datatype tel_err =
    ErrMissingSessionID | ErrSessionIDMismatch | ErrEmptyFrames | ErrTooManyFrames
  | ErrInvalidTimestamp | ErrInvalidSpeed | ErrInvalidRPM | ErrInvalidThrottle | ErrInvalidBrake
  | ErrInvalidSteering | ErrInvalidFuel | ErrInvalidPosition | ErrInvalidYaw
  | ErrInvalidWheelSpeed | ErrInvalidLapDistance | ErrInvalidLapNumber | ErrInvalidLapTime
  | ErrNonMonotonicTimestamp | ErrLapNumberRegressed | ErrCurrentLapTimeRegressed

fun tel_err_text :: "tel_err \<Rightarrow> string" where
  "tel_err_text ErrMissingSessionID = ''sessionId is required''"
| "tel_err_text ErrSessionIDMismatch = ''sessionId must match the route parameter''"
| "tel_err_text ErrEmptyFrames = ''frames must contain at least one frame''"
| "tel_err_text ErrTooManyFrames = ''frames exceeds maximum batch size''"
| "tel_err_text ErrInvalidTimestamp = ''timestampUnixMs must be greater than zero''"
| "tel_err_text ErrInvalidSpeed = ''speedMps must be finite and zero or greater''"
| "tel_err_text ErrInvalidRPM = ''rpm must be finite and zero or greater''"
| "tel_err_text ErrInvalidThrottle = ''throttle must be between 0 and 1''"
| "tel_err_text ErrInvalidBrake = ''brake must be between 0 and 1''"
| "tel_err_text ErrInvalidSteering = ''steering must be finite''"
| "tel_err_text ErrInvalidFuel = ''fuelLiters must be finite and zero or greater''"
| "tel_err_text ErrInvalidPosition = ''position fields must be finite''"
| "tel_err_text ErrInvalidYaw = ''yaw fields must be finite when provided''"
| "tel_err_text ErrInvalidWheelSpeed = ''wheel speed fields must be finite and zero or greater when provided''"
| "tel_err_text ErrInvalidLapDistance = ''lapDistanceMeters must be finite and zero or greater when provided''"
| "tel_err_text ErrInvalidLapNumber = ''lapNumber must be zero or greater''"
| "tel_err_text ErrInvalidLapTime = ''lap time fields must be zero or greater''"
| "tel_err_text ErrNonMonotonicTimestamp = ''timestampUnixMs must increase within a batch''"
| "tel_err_text ErrLapNumberRegressed = ''lapNumber must not decrease within a batch''"
| "tel_err_text ErrCurrentLapTimeRegressed = ''currentLapMs must not decrease within the same lap''"

record RejectionError =
  rCode :: string
  rCategory :: string
  rField :: string
  rFrameIndex :: "int option"
  rMessage :: string
  rErr :: "tel_err option"

record RejectionDetails =
  dRejectionCode :: string
  dCategory :: string
  dField :: string
  dFrameIndex :: "int option"
  dMaxFrames :: int

definition MaxBatchFrames :: int where "MaxBatchFrames = 600"

definition rejection_Error :: "RejectionError \<Rightarrow> string" where
  "rejection_Error e = (if rMessage e \<noteq> [] then rMessage e
     else case rErr e of Some err \<Rightarrow> tel_err_text err | None \<Rightarrow> rCode e)"

definition rejection_Details :: "RejectionError \<Rightarrow> RejectionDetails" where
  "rejection_Details e = \<lparr>dRejectionCode = rCode e, dCategory = rCategory e, dField = rField e,
     dFrameIndex = rFrameIndex e,
     dMaxFrames = (if rCode e = ''batch_too_large'' then MaxBatchFrames else 0)\<rparr>"

definition reject :: "string \<Rightarrow> string \<Rightarrow> string \<Rightarrow> int option \<Rightarrow> tel_err \<Rightarrow> RejectionError" where
  "reject code category field frameIndex err =
     \<lparr>rCode = code, rCategory = category, rField = field, rFrameIndex = frameIndex,
      rMessage = tel_err_text err, rErr = Some err\<rparr>"

definition SessionIDMismatchError :: RejectionError where
  "SessionIDMismatchError = reject ''session_id_mismatch'' ''batch'' ''sessionId'' None ErrSessionIDMismatch"

section \<open>Frames\<close>

record Frame =
  fTimestampUnixMs :: int
  fSpeedMps :: f64
  fRPM :: f64
  fGear :: int
  fThrottle :: f64
  fBrake :: f64
  fSteering :: f64
  fFuelLiters :: f64
  fPositionX :: f64
  fPositionY :: f64
  fPositionZ :: f64
  fYawRadians :: "f64 option"
  fYawRate :: "f64 option"
  fWheelSpeedFL :: "f64 option"
  fWheelSpeedFR :: "f64 option"
  fWheelSpeedRL :: "f64 option"
  fWheelSpeedRR :: "f64 option"
  fLapDistanceMeters :: "f64 option"
  fLapNumber :: int
  fCurrentLapMs :: int
  fLastLapMs :: "int option"
  fBestLapMs :: "int option"
  fIsOnTrack :: bool

definition isFinite :: "f64 \<Rightarrow> bool" where
  "isFinite v = (\<not> isNaN v \<and> \<not> isInf0 v)"

definition isFiniteNonNegative :: "f64 \<Rightarrow> bool" where
  "isFiniteNonNegative v = (isFinite v \<and> fle (Fin 0) v)"

definition isOptionalFinite :: "f64 option \<Rightarrow> bool" where
  "isOptionalFinite v = (case v of None \<Rightarrow> True | Some x \<Rightarrow> isFinite x)"

definition isOptionalFiniteNonNegative :: "f64 option \<Rightarrow> bool" where
  "isOptionalFiniteNonNegative v = (case v of None \<Rightarrow> True | Some x \<Rightarrow> isFiniteNonNegative x)"

definition isOptionalInt64NonNegative :: "int option \<Rightarrow> bool" where
  "isOptionalInt64NonNegative v = (case v of None \<Rightarrow> True | Some x \<Rightarrow> 0 \<le> x)"

definition frame_normalize :: "Frame \<Rightarrow> RejectionError + Frame" where
  "frame_normalize f =
    (if fTimestampUnixMs f \<le> 0 then Inl (reject ''invalid_timestamp'' ''frame'' ''timestampUnixMs'' None ErrInvalidTimestamp)
     else if \<not> isFiniteNonNegative (fSpeedMps f) then Inl (reject ''invalid_speed'' ''frame'' ''speedMps'' None ErrInvalidSpeed)
     else if \<not> isFiniteNonNegative (fRPM f) then Inl (reject ''invalid_rpm'' ''frame'' ''rpm'' None ErrInvalidRPM)
     else if \<not> isFinite (fThrottle f) \<or> flt (fThrottle f) (Fin 0) \<or> flt (Fin 1) (fThrottle f)
       then Inl (reject ''invalid_throttle'' ''frame'' ''throttle'' None ErrInvalidThrottle)
     else if \<not> isFinite (fBrake f) \<or> flt (fBrake f) (Fin 0) \<or> flt (Fin 1) (fBrake f)
       then Inl (reject ''invalid_brake'' ''frame'' ''brake'' None ErrInvalidBrake)
     else if \<not> isFinite (fSteering f) then Inl (reject ''invalid_steering'' ''frame'' ''steering'' None ErrInvalidSteering)
     else if \<not> isFiniteNonNegative (fFuelLiters f) then Inl (reject ''invalid_fuel'' ''frame'' ''fuelLiters'' None ErrInvalidFuel)
     else if \<not> isFinite (fPositionX f) \<or> \<not> isFinite (fPositionY f) \<or> \<not> isFinite (fPositionZ f)
       then Inl (reject ''invalid_position'' ''frame'' ''position'' None ErrInvalidPosition)
     else if \<not> isOptionalFinite (fYawRadians f) \<or> \<not> isOptionalFinite (fYawRate f)
       then Inl (reject ''invalid_yaw'' ''frame'' ''yaw'' None ErrInvalidYaw)
     else if \<not> isOptionalFiniteNonNegative (fWheelSpeedFL f) \<or> \<not> isOptionalFiniteNonNegative (fWheelSpeedFR f)
         \<or> \<not> isOptionalFiniteNonNegative (fWheelSpeedRL f) \<or> \<not> isOptionalFiniteNonNegative (fWheelSpeedRR f)
       then Inl (reject ''invalid_wheel_speed'' ''frame'' ''wheelSpeed'' None ErrInvalidWheelSpeed)
     else if \<not> isOptionalFiniteNonNegative (fLapDistanceMeters f)
       then Inl (reject ''invalid_lap_distance'' ''frame'' ''lapDistanceMeters'' None ErrInvalidLapDistance)
     else if fLapNumber f < 0 then Inl (reject ''invalid_lap_number'' ''frame'' ''lapNumber'' None ErrInvalidLapNumber)
     else if fCurrentLapMs f < 0 \<or> \<not> isOptionalInt64NonNegative (fLastLapMs f) \<or> \<not> isOptionalInt64NonNegative (fBestLapMs f)
       then Inl (reject ''invalid_lap_time'' ''frame'' ''lapTime'' None ErrInvalidLapTime)
     else Inr f)"

definition validateBatchConsistency :: "Frame list \<Rightarrow> Frame \<Rightarrow> int \<Rightarrow> RejectionError option" where
  "validateBatchConsistency previous current index =
    (if previous = [] then None
     else let prev = last previous in
       if fTimestampUnixMs current \<le> fTimestampUnixMs prev
         then Some (reject ''non_monotonic_timestamp'' ''consistency'' ''timestampUnixMs'' (Some index) ErrNonMonotonicTimestamp)
       else if fLapNumber current < fLapNumber prev
         then Some (reject ''lap_number_regressed'' ''consistency'' ''lapNumber'' (Some index) ErrLapNumberRegressed)
       else if fLapNumber current = fLapNumber prev \<and> fCurrentLapMs current < fCurrentLapMs prev
         then Some (reject ''current_lap_time_regressed'' ''consistency'' ''currentLapMs'' (Some index) ErrCurrentLapTimeRegressed)
       else None)"

section \<open>Batches\<close>

record IngestBatchRequest =
  bSessionID :: string
  bFrames :: "Frame list"

record NormalizeResult =
  nFrames :: "Frame list"
  nRejections :: "RejectionError list"

definition indexed_rejection :: "int \<Rightarrow> RejectionError \<Rightarrow> RejectionError" where
  "indexed_rejection i r = r\<lparr>rFrameIndex := Some i,
     rMessage := ''frames['' @ itoa i @ '']: '' @ rejection_Error r\<rparr>"

fun normalize_loop :: "int \<Rightarrow> Frame list \<Rightarrow> RejectionError list \<Rightarrow> Frame list \<Rightarrow> NormalizeResult" where
  "normalize_loop i accepted rejections [] = \<lparr>nFrames = accepted, nRejections = rejections\<rparr>"
| "normalize_loop i accepted rejections (frame # rest) =
    (case frame_normalize frame of
       Inl r \<Rightarrow> normalize_loop (i + 1) accepted (rejections @ [indexed_rejection i r]) rest
     | Inr g \<Rightarrow> (case validateBatchConsistency accepted g i of
           Some r \<Rightarrow> normalize_loop (i + 1) accepted (rejections @ [r]) rest
         | None \<Rightarrow> normalize_loop (i + 1) (accepted @ [g]) rejections rest))"

definition batch_normalize :: "IngestBatchRequest \<Rightarrow> RejectionError + NormalizeResult" where
  "batch_normalize r =
    (if bSessionID r = [] then Inl (reject ''session_id_required'' ''batch'' ''sessionId'' None ErrMissingSessionID)
     else if length (bFrames r) = 0 then Inl (reject ''frames_empty'' ''batch'' ''frames'' None ErrEmptyFrames)
     else if int (length (bFrames r)) > MaxBatchFrames
       then Inl (reject ''batch_too_large'' ''batch'' ''frames'' None ErrTooManyFrames)
     else Inr (normalize_loop 0 [] [] (bFrames r)))"

definition batch_validate :: "IngestBatchRequest \<Rightarrow> RejectionError option" where
  "batch_validate r = (case batch_normalize r of Inl e \<Rightarrow> Some e
     | Inr result \<Rightarrow> (case nRejections result of [] \<Rightarrow> None | e # _ \<Rightarrow> Some e))"

definition frame_validate :: "Frame \<Rightarrow> RejectionError option" where
  "frame_validate f = (case frame_normalize f of Inl e \<Rightarrow> Some e | Inr _ \<Rightarrow> None)"

section \<open>The summary of the rejections\<close>

datatype RejectionReasonCount = RejectionReasonCount (reCode: string) (reCount: int)

text \<open>
  The callback of \<^verbatim>\<open>sort.SliceStable\<close> (higher count first, then the code) as the order of the
  type: the library's orders and the contract \<open>slice_less\<close> then apply to it.
\<close>

instantiation RejectionReasonCount :: linorder
begin

definition less_RejectionReasonCount :: "RejectionReasonCount \<Rightarrow> RejectionReasonCount \<Rightarrow> bool" where
  "less_RejectionReasonCount a b =
     (if reCount a \<noteq> reCount b then reCount a > reCount b else reCode a < reCode b)"

definition less_eq_RejectionReasonCount :: "RejectionReasonCount \<Rightarrow> RejectionReasonCount \<Rightarrow> bool" where
  "less_eq_RejectionReasonCount a b = (a < b \<or> a = b)"

instance
proof
  fix a b c :: RejectionReasonCount
  show "(a < b) = (a \<le> b \<and> \<not> b \<le> a)"
    by (cases a; cases b) (auto simp: less_RejectionReasonCount_def less_eq_RejectionReasonCount_def)
  show "a \<le> a" by (simp add: less_eq_RejectionReasonCount_def)
  show "a \<le> b \<Longrightarrow> b \<le> c \<Longrightarrow> a \<le> c"
    by (cases a; cases b; cases c)
      (auto simp: less_RejectionReasonCount_def less_eq_RejectionReasonCount_def split: if_splits)
  show "a \<le> b \<Longrightarrow> b \<le> a \<Longrightarrow> a = b"
    by (cases a; cases b) (auto simp: less_RejectionReasonCount_def less_eq_RejectionReasonCount_def split: if_splits)
  show "a \<le> b \<or> b \<le> a"
    by (cases a; cases b) (auto simp: less_RejectionReasonCount_def less_eq_RejectionReasonCount_def)
qed

end

interpretation reason_less: slice_less "(<) :: RejectionReasonCount \<Rightarrow> RejectionReasonCount \<Rightarrow> bool" UNIV
  by unfold_locales auto

definition count_of :: "(string \<times> int) list \<Rightarrow> string \<Rightarrow> int" where
  "count_of m code = (case map_of m code of None \<Rightarrow> 0 | Some n \<Rightarrow> n)"

definition add_count :: "string \<Rightarrow> int \<Rightarrow> (string \<times> int) list \<Rightarrow> (string \<times> int) list" where
  "add_count code n m = AList.update code (count_of m code + n) m"

text \<open>The \<^verbatim>\<open>for code, count := range counts\<close> of the source, the map in some iteration order.\<close>

definition sorted_reasons :: "(string \<times> int) list \<Rightarrow> RejectionReasonCount list" where
  "sorted_reasons counts = sort_slice (<) (map (\<lambda>(code, n). RejectionReasonCount code n) counts)"

definition count_codes :: "RejectionError list \<Rightarrow> (string \<times> int) list" where
  "count_codes rejections = fold (\<lambda>r. add_count (rCode r) 1) rejections []"

definition BuildRejectionSummary :: "RejectionError list \<Rightarrow> RejectionReasonCount list" where
  "BuildRejectionSummary rejections = sorted_reasons (count_codes rejections)"

section \<open>Lemmas: one frame, one step\<close>

definition frame_valid :: "Frame \<Rightarrow> bool" where
  "frame_valid f \<longleftrightarrow> 0 < fTimestampUnixMs f \<and> isFiniteNonNegative (fSpeedMps f) \<and> isFiniteNonNegative (fRPM f)
     \<and> is_fin (fThrottle f) \<and> 0 \<le> fval (fThrottle f) \<and> fval (fThrottle f) \<le> 1
     \<and> is_fin (fBrake f) \<and> 0 \<le> fval (fBrake f) \<and> fval (fBrake f) \<le> 1
     \<and> isFinite (fSteering f) \<and> isFiniteNonNegative (fFuelLiters f)
     \<and> isFinite (fPositionX f) \<and> isFinite (fPositionY f) \<and> isFinite (fPositionZ f)
     \<and> isOptionalFinite (fYawRadians f) \<and> isOptionalFinite (fYawRate f)
     \<and> isOptionalFiniteNonNegative (fWheelSpeedFL f) \<and> isOptionalFiniteNonNegative (fWheelSpeedFR f)
     \<and> isOptionalFiniteNonNegative (fWheelSpeedRL f) \<and> isOptionalFiniteNonNegative (fWheelSpeedRR f)
     \<and> isOptionalFiniteNonNegative (fLapDistanceMeters f) \<and> 0 \<le> fLapNumber f \<and> 0 \<le> fCurrentLapMs f
     \<and> isOptionalInt64NonNegative (fLastLapMs f) \<and> isOptionalInt64NonNegative (fBestLapMs f)"

definition consistent :: "Frame \<Rightarrow> Frame \<Rightarrow> bool" where
  "consistent a b \<longleftrightarrow> fTimestampUnixMs a < fTimestampUnixMs b \<and> fLapNumber a \<le> fLapNumber b
     \<and> (fLapNumber a = fLapNumber b \<longrightarrow> fCurrentLapMs a \<le> fCurrentLapMs b)"

definition batch_ok :: "Frame list \<Rightarrow> bool" where
  "batch_ok fs \<longleftrightarrow> (\<forall>f \<in> set fs. frame_valid f) \<and> sorted_wrt consistent fs"

lemma isFinite_is_fin: "isFinite v = is_fin v"
  by (simp add: isFinite_def is_fin_iff)

lemma isFiniteNonNegative_iff: "isFiniteNonNegative v \<longleftrightarrow> is_fin v \<and> 0 \<le> fval v"
  by (cases "is_fin v") (auto simp: isFiniteNonNegative_def isFinite_is_fin)

lemma unit_check: "(\<not> isFinite v \<or> flt v (Fin 0) \<or> flt (Fin 1) v) \<longleftrightarrow> \<not> (is_fin v \<and> 0 \<le> fval v \<and> fval v \<le> 1)"
  by (cases "is_fin v") (auto simp: isFinite_is_fin)

lemma frame_normalize_Inr: "frame_normalize f = Inr g \<longleftrightarrow> g = f \<and> frame_valid f"
  unfolding frame_normalize_def frame_valid_def unit_check by (auto split: if_splits)

lemma frame_normalize_Inl: "frame_normalize f = Inl r \<Longrightarrow> rCategory r = ''frame''"
  unfolding frame_normalize_def by (auto simp: reject_def split: if_splits)

lemma frame_normalize_valid [simp]: "frame_valid f \<Longrightarrow> frame_normalize f = Inr f"
  by (simp add: frame_normalize_Inr)

lemma frame_normalize_invalid: "\<not> frame_valid f \<Longrightarrow> \<exists>r. frame_normalize f = Inl r \<and> rCategory r = ''frame''"
  using frame_normalize_Inl [of f] frame_normalize_Inr [of f] by (cases "frame_normalize f") auto

lemma consistency_None: "validateBatchConsistency acc g i = None \<longleftrightarrow> acc = [] \<or> consistent (last acc) g"
  by (auto simp: validateBatchConsistency_def consistent_def Let_def)

lemma consistency_Some: "validateBatchConsistency acc g i = Some r \<Longrightarrow>
    rFrameIndex r = Some i \<and> rCategory r = ''consistency''"
  by (auto simp: validateBatchConsistency_def reject_def Let_def split: if_splits)

lemma consistent_trans: "consistent a b \<Longrightarrow> consistent b c \<Longrightarrow> consistent a c"
  by (auto simp: consistent_def)

lemma batch_ok_Nil [simp]: "batch_ok []"
  by (simp add: batch_ok_def)

lemma batch_ok_snoc: "batch_ok acc \<Longrightarrow> frame_valid g \<Longrightarrow> acc = [] \<or> consistent (last acc) g \<Longrightarrow> batch_ok (acc @ [g])"
proof (cases acc rule: rev_cases)
  case (snoc xs x)
  assume "batch_ok acc" "frame_valid g" "acc = [] \<or> consistent (last acc) g"
  with snoc show ?thesis by (auto simp: batch_ok_def sorted_wrt_append intro: consistent_trans)
qed (simp add: batch_ok_def)

text \<open>One iteration: the frame is accepted or it adds one rejection that carries its index.\<close>

lemma normalize_step:
  obtains (accept) "frame_valid f" "acc = [] \<or> consistent (last acc) f"
      "normalize_loop i acc rej (f # fs) = normalize_loop (i + 1) (acc @ [f]) rej fs"
  | (refuse) r where "\<not> (frame_valid f \<and> (acc = [] \<or> consistent (last acc) f))"
      "rFrameIndex r = Some i" "rCategory r = ''frame'' \<or> rCategory r = ''consistency''"
      "normalize_loop i acc rej (f # fs) = normalize_loop (i + 1) acc (rej @ [r]) fs"
proof (cases "frame_valid f")
  case False
  then obtain r where "frame_normalize f = Inl r" "rCategory r = ''frame''"
    using frame_normalize_invalid by blast
  with False show ?thesis by (intro refuse [of "indexed_rejection i r"]) (auto simp: indexed_rejection_def)
next
  case True
  show ?thesis
  proof (cases "validateBatchConsistency acc f i")
    case None
    then have "acc = [] \<or> consistent (last acc) f" by (simp add: consistency_None)
    with True None show ?thesis by (intro accept) simp_all
  next
    case (Some r)
    then have "\<not> (acc = [] \<or> consistent (last acc) f)"
      using consistency_None [of acc f i] by auto
    with True Some show ?thesis by (intro refuse [of r]) (auto dest: consistency_Some)
  qed
qed

lemma normalize_loop_ok: "batch_ok acc \<Longrightarrow> batch_ok (nFrames (normalize_loop i acc rej fs))"
proof (induction fs arbitrary: i acc rej)
  case (Cons f fs)
  show ?case
  proof (cases rule: normalize_step [of f acc i rej fs])
    case accept
    then show ?thesis using Cons.IH batch_ok_snoc Cons.prems by presburger
  next
    case refuse
    then show ?thesis using Cons.IH Cons.prems by presburger
  qed
qed simp

lemma nths_skip0: "nths (x # xs) (- insert 0 (Suc ` A)) = nths xs (- A)"
  by (simp add: nths_Cons) (metis (no_types, lifting) Collect_cong ComplI Compl_eq image_iff mem_Collect_eq nat.inject)

lemma nths_take0: "nths (x # xs) (- (Suc ` A)) = x # nths xs (- A)"
  by (simp add: nths_Cons) (metis (no_types, lifting) Collect_cong ComplI Compl_eq image_iff mem_Collect_eq nat.inject)

lemma normalize_loop_partition:
  "\<exists>js rs. normalize_loop i acc rej fs = \<lparr>nFrames = acc @ nths fs (- set js), nRejections = rej @ rs\<rparr>
     \<and> sorted_wrt (<) js \<and> (\<forall>j \<in> set js. j < length fs)
     \<and> map rFrameIndex rs = map (\<lambda>j. Some (i + int j)) js
     \<and> (\<forall>r \<in> set rs. rCategory r = ''frame'' \<or> rCategory r = ''consistency'')"
proof (induction fs arbitrary: i acc rej)
  case Nil show ?case by (intro exI [of _ "[]"]) simp
next
  case (Cons f fs)
  show ?case
  proof (cases rule: normalize_step [of f acc i rej fs])
    case accept
    obtain js rs where *: "normalize_loop (i + 1) (acc @ [f]) rej fs =
          \<lparr>nFrames = (acc @ [f]) @ nths fs (- set js), nRejections = rej @ rs\<rparr>"
        "sorted_wrt (<) js" "\<forall>j \<in> set js. j < length fs"
        "map rFrameIndex rs = map (\<lambda>j. Some (i + 1 + int j)) js"
        "\<forall>r \<in> set rs. rCategory r = ''frame'' \<or> rCategory r = ''consistency''"
      using Cons.IH by blast
    show ?thesis
      by (rule exI [of _ "map Suc js"], rule exI [of _ rs])
        (use * accept nths_take0 [of f fs "set js"] in \<open>auto simp: sorted_wrt_map algebra_simps\<close>)
  next
    case (refuse r)
    obtain js rs where *: "normalize_loop (i + 1) acc (rej @ [r]) fs =
          \<lparr>nFrames = acc @ nths fs (- set js), nRejections = (rej @ [r]) @ rs\<rparr>"
        "sorted_wrt (<) js" "\<forall>j \<in> set js. j < length fs"
        "map rFrameIndex rs = map (\<lambda>j. Some (i + 1 + int j)) js"
        "\<forall>r \<in> set rs. rCategory r = ''frame'' \<or> rCategory r = ''consistency''"
      using Cons.IH by blast
    show ?thesis
      by (rule exI [of _ "0 # map Suc js"], rule exI [of _ "r # rs"])
        (use * refuse nths_skip0 [of f fs "set js"] in \<open>auto simp: sorted_wrt_map algebra_simps\<close>)
  qed
qed

lemma normalize_loop_accepts_all:
  "batch_ok (acc @ fs) \<Longrightarrow> normalize_loop i acc rej fs = \<lparr>nFrames = acc @ fs, nRejections = rej\<rparr>"
proof (induction fs arbitrary: i acc)
  case (Cons f fs)
  have "frame_valid f" "acc = [] \<or> consistent (last acc) f"
    using Cons.prems by (cases acc rule: rev_cases; auto simp: batch_ok_def sorted_wrt_append)+
  with Cons.prems Cons.IH [of "acc @ [f]"] show ?case
    by (cases rule: normalize_step [of f acc i rej fs]) auto
qed simp

lemma normalize_loop_length:
  "length (nFrames (normalize_loop i acc rej fs)) \<le> length acc + length fs"
proof (induction fs arbitrary: i acc rej)
  case (Cons f fs)
  show ?case
  proof (cases rule: normalize_step [of f acc i rej fs])
    case accept
    then show ?thesis using Cons.IH [of "i + 1" "acc @ [f]" rej] by simp
  next
    case (refuse r)
    then show ?thesis using Cons.IH [of "i + 1" acc "rej @ [r]"] by simp
  qed
qed simp

lemma normalize_loop_all_iff: "nRejections (normalize_loop 0 [] [] fs) = [] \<longleftrightarrow> batch_ok fs"
proof
  assume "batch_ok fs"
  then show "nRejections (normalize_loop 0 [] [] fs) = []"
    using normalize_loop_accepts_all [of "[]" fs 0 "[]"] by simp
next
  assume none: "nRejections (normalize_loop 0 [] [] fs) = []"
  obtain js rs where "normalize_loop 0 [] [] fs = \<lparr>nFrames = nths fs (- set js), nRejections = rs\<rparr>"
      "map rFrameIndex rs = map (\<lambda>j. Some (int j)) js"
    using normalize_loop_partition [of 0 "[]" "[]" fs] by auto
  with none have "nFrames (normalize_loop 0 [] [] fs) = fs" by (simp add: nths_all)
  then show "batch_ok fs" using normalize_loop_ok [of "[]" 0 "[]" fs] by simp
qed

lemma batch_normalize_Inr: "batch_normalize r = Inr res \<longleftrightarrow> bSessionID r \<noteq> [] \<and> bFrames r \<noteq> []
    \<and> length (bFrames r) \<le> 600 \<and> res = normalize_loop 0 [] [] (bFrames r)"
  by (auto simp: batch_normalize_def MaxBatchFrames_def)

section \<open>Lemmas: counting\<close>

definition add_counts :: "(string \<times> int) list \<Rightarrow> (string \<times> int) list \<Rightarrow> (string \<times> int) list" where
  "add_counts ps m = fold (\<lambda>(c, n). add_count c n) ps m"

lemma count_of_add_count: "count_of (add_count c n m) d = count_of m d + (if c = d then n else 0)"
  by (simp add: count_of_def add_count_def update_conv')

lemma keys_add_count [simp]: "fst ` set (add_count c n m) = insert c (fst ` set m)"
  by (simp add: add_count_def dom_update)

lemma distinct_add_count [simp]: "distinct (map fst m) \<Longrightarrow> distinct (map fst (add_count c n m))"
  by (simp add: add_count_def distinct_update)

lemma sum_update: "distinct (map fst m) \<Longrightarrow>
    sum_list (map snd (AList.update c (count_of m c + n) m)) = sum_list (map snd m) + n"
  by (induction m) (auto simp: count_of_def split: option.splits dest: map_of_SomeD)

lemma sum_add_count: "distinct (map fst m) \<Longrightarrow>
    sum_list (map snd (add_count c n m)) = sum_list (map snd m) + n"
  by (simp add: add_count_def sum_update)

lemma count_of_add_counts: "count_of (add_counts ps m) d =
    count_of m d + sum_list (map snd (filter (\<lambda>p. fst p = d) ps))"
  by (induction ps arbitrary: m) (auto simp: add_counts_def count_of_add_count)

lemma keys_add_counts: "fst ` set (add_counts ps m) = fst ` set m \<union> fst ` set ps"
  by (induction ps arbitrary: m) (simp_all add: add_counts_def split_beta)

lemma distinct_add_counts: "distinct (map fst m) \<Longrightarrow> distinct (map fst (add_counts ps m))"
  by (induction ps arbitrary: m) (auto simp: add_counts_def)

lemma sum_add_counts: "distinct (map fst m) \<Longrightarrow>
    sum_list (map snd (add_counts ps m)) = sum_list (map snd m) + sum_list (map snd ps)"
  by (induction ps arbitrary: m) (auto simp: add_counts_def sum_add_count)

lemma mem_alist_count_of: "distinct (map fst m) \<Longrightarrow> (c, n) \<in> set m \<longleftrightarrow> c \<in> fst ` set m \<and> n = count_of m c"
proof -
  assume "distinct (map fst m)"
  then have "(c, n) \<in> set m \<longleftrightarrow> map_of m c = Some n" by simp
  moreover have "c \<in> fst ` set m \<longleftrightarrow> map_of m c \<noteq> None" by (simp add: map_of_eq_None_iff)
  ultimately show ?thesis by (cases "map_of m c") (auto simp: count_of_def)
qed

lemma set_sorted_reasons: "RejectionReasonCount c n \<in> set (sorted_reasons m) \<longleftrightarrow> (c, n) \<in> set m"
  by (force simp: sorted_reasons_def)

lemma sum_list_mset_cong: "mset xs = mset ys \<Longrightarrow> sum_list (map f xs) = sum_list (map f ys)"
  for f :: "'a \<Rightarrow> int"
  by (metis mset_map sum_mset_sum_list)

lemma sum_sorted_reasons: "sum_list (map reCount (sorted_reasons m)) = sum_list (map snd m)"
proof -
  have "sum_list (map reCount (sorted_reasons m)) =
      sum_list (map reCount (map (\<lambda>(code, n). RejectionReasonCount code n) m))"
    unfolding sorted_reasons_def by (rule sum_list_mset_cong) simp
  also have "map reCount (map (\<lambda>(code, n). RejectionReasonCount code n) m) = map snd m"
    by (simp add: split_beta)
  finally show ?thesis .
qed

lemma sorted_sorted_reasons: "sorted (sorted_reasons m)"
  using reason_less.ordered_sort_slice [of "map (\<lambda>(code, n). RejectionReasonCount code n) m"]
  by (simp add: sorted_reasons_def reason_less.ordered_def not_less)

lemma sorted_reasons_cong: "mset m = mset m' \<Longrightarrow> sorted_reasons m = sorted_reasons m'"
  unfolding sorted_reasons_def by (rule reason_less.sort_slice_order_independent) auto

lemma count_codes_add_counts: "count_codes rs = add_counts (map (\<lambda>r. (rCode r, 1)) rs) []"
  by (simp add: count_codes_def add_counts_def fold_map comp_def)

lemma sum_list_ones: "sum_list (map snd (filter (\<lambda>p. fst p = c) (map (\<lambda>r. (f r, 1 :: int)) rs))) =
    int (length (filter (\<lambda>r. f r = c) rs))"
  by (induction rs) auto

section \<open>A concrete frame for the witnesses\<close>

definition sample_frame :: "int \<Rightarrow> int \<Rightarrow> int \<Rightarrow> Frame" where
  "sample_frame ts lap cur =
     \<lparr>fTimestampUnixMs = ts, fSpeedMps = Fin 30, fRPM = Fin 5000, fGear = 3, fThrottle = Fin 1, fBrake = Fin 0,
      fSteering = Fin 0, fFuelLiters = Fin 40, fPositionX = Fin 0, fPositionY = Fin 0, fPositionZ = Fin 0,
      fYawRadians = None, fYawRate = None, fWheelSpeedFL = None, fWheelSpeedFR = None,
      fWheelSpeedRL = None, fWheelSpeedRR = None, fLapDistanceMeters = None, fLapNumber = lap,
      fCurrentLapMs = cur, fLastLapMs = None, fBestLapMs = None, fIsOnTrack = True\<rparr>"

lemma sample_frame_valid [simp]: "0 < ts \<Longrightarrow> 0 \<le> lap \<Longrightarrow> 0 \<le> cur \<Longrightarrow> frame_valid (sample_frame ts lap cur)"
  by (simp add: sample_frame_def frame_valid_def isFiniteNonNegative_iff isFinite_is_fin isOptionalFinite_def
    isOptionalFiniteNonNegative_def isOptionalInt64NonNegative_def)

lemma sample_frame_sel [simp]:
  "fTimestampUnixMs (sample_frame ts lap cur) = ts" "fLapNumber (sample_frame ts lap cur) = lap"
  "fCurrentLapMs (sample_frame ts lap cur) = cur"
  by (simp_all add: sample_frame_def)

definition sample_batch :: IngestBatchRequest where
  "sample_batch = \<lparr>bSessionID = ''s1'',
     bFrames = [sample_frame 5 0 0, sample_frame 3 0 10, sample_frame 9 0 20]\<rparr>"

lemma sample_batch_normalize:
  "batch_normalize sample_batch = Inr \<lparr>nFrames = [sample_frame 5 0 0, sample_frame 9 0 20],
     nRejections = [reject ''non_monotonic_timestamp'' ''consistency'' ''timestampUnixMs'' (Some 1)
       ErrNonMonotonicTimestamp]\<rparr>"
  by (simp add: batch_normalize_def sample_batch_def MaxBatchFrames_def validateBatchConsistency_def)

section \<open>Properties\<close>

text \<open>C1: What a batch keeps is fit to be stored: every accepted frame passes the validation of
  a frame, and any two accepted frames are in order (timestamps strictly increase, the lap
  number does not decrease, the lap time does not decrease within a lap), not only neighbours.\<close>

theorem accepted_frames_ok:
  "batch_normalize r = Inr res \<Longrightarrow>
     (\<forall>f \<in> set (nFrames res). frame_valid f) \<and> sorted_wrt consistent (nFrames res)"
  using normalize_loop_ok [of "[]" 0 "[]" "bFrames r"] by (simp add: batch_normalize_Inr batch_ok_def)

theorem accepted_frames_ok_witness:
  "frame_valid (sample_frame 9 0 20) \<and> sorted_wrt consistent [sample_frame 5 0 0, sample_frame 9 0 20]"
  using accepted_frames_ok [OF sample_batch_normalize] by simp

text \<open>C2: Normalisation partitions the batch: there is a strictly increasing list of positions such
  that exactly the frames at these positions are rejected, each rejection carries its position as
  its frame index, and the accepted frames are the remaining ones, unchanged and in order.\<close>

theorem normalize_partitions_batch:
  "batch_normalize r = Inr res \<Longrightarrow>
     \<exists>js. sorted_wrt (<) js \<and> (\<forall>j \<in> set js. j < length (bFrames r))
       \<and> map rFrameIndex (nRejections res) = map (\<lambda>j. Some (int j)) js
       \<and> nFrames res = nths (bFrames r) (- set js)
       \<and> length (nFrames res) + length (nRejections res) = length (bFrames r)"
proof -
  assume "batch_normalize r = Inr res"
  then have res: "res = normalize_loop 0 [] [] (bFrames r)" by (simp add: batch_normalize_Inr)
  obtain js rs where js: "res = \<lparr>nFrames = nths (bFrames r) (- set js), nRejections = rs\<rparr>"
      "sorted_wrt (<) js" "\<forall>j \<in> set js. j < length (bFrames r)"
      "map rFrameIndex rs = map (\<lambda>j. Some (int j)) js"
    using normalize_loop_partition [of 0 "[]" "[]" "bFrames r"] by (auto simp: res)
  let ?n = "length (bFrames r)"
  have "length rs = length js" using js(4) by (metis length_map)
  also have "\<dots> = card (set js)" using js(2) by (metis distinct_card strict_sorted_iff)
  finally have "length rs = card (set js)" .
  moreover have "length (nFrames res) = card ({..<?n} - set js)"
  proof -
    have "{i. i < ?n \<and> i \<in> - set js} = {..<?n} - set js" by auto
    then show ?thesis using js(1) by (simp add: length_nths)
  qed
  moreover have "set js \<subseteq> {..<?n}" using js(3) by auto
  ultimately have "length (nFrames res) + length rs = ?n"
    by (metis card_Diff_subset card_lessThan card_mono finite_lessThan finite_set le_add_diff_inverse2)
  with js show ?thesis by auto
qed

theorem normalize_partitions_batch_witness:
  "length [sample_frame 5 0 0, sample_frame 9 0 20] + length [reject ''non_monotonic_timestamp'' ''consistency''
     ''timestampUnixMs'' (Some 1) ErrNonMonotonicTimestamp] = length (bFrames sample_batch)"
  using normalize_partitions_batch [OF sample_batch_normalize] by (simp only: NormalizeResult.simps) blast

text \<open>The strict validation of a batch (\<^verbatim>\<open>IngestBatchRequest.Validate\<close>) succeeds exactly for
  a named session with one to six hundred frames, all valid and mutually consistent.\<close>

theorem batch_validate_iff:
  "batch_validate r = None \<longleftrightarrow> bSessionID r \<noteq> [] \<and> 1 \<le> length (bFrames r) \<and> length (bFrames r) \<le> 600
     \<and> list_all frame_valid (bFrames r) \<and> sorted_wrt consistent (bFrames r)"
proof (cases "bSessionID r \<noteq> [] \<and> bFrames r \<noteq> [] \<and> length (bFrames r) \<le> 600")
  case False
  then show ?thesis by (auto simp: batch_validate_def batch_normalize_def MaxBatchFrames_def)
next
  case True
  let ?res = "normalize_loop 0 [] [] (bFrames r)"
  have "batch_validate r = None \<longleftrightarrow> nRejections ?res = []"
    using True by (auto simp: batch_validate_def batch_normalize_def MaxBatchFrames_def split: list.splits)
  also have "\<dots> \<longleftrightarrow> batch_ok (bFrames r)"
    using normalize_loop_all_iff [of "bFrames r"] .
  finally show ?thesis using True by (auto simp: batch_ok_def Suc_le_eq list_all_iff)
qed

text \<open>Normalisation is idempotent: sending the accepted frames again is accepted whole.\<close>

theorem normalize_idempotent:
  "batch_normalize r = Inr res \<Longrightarrow> nFrames res \<noteq> [] \<Longrightarrow>
     batch_normalize (r\<lparr>bFrames := nFrames res\<rparr>) = Inr \<lparr>nFrames = nFrames res, nRejections = []\<rparr>"
proof -
  assume res: "batch_normalize r = Inr res" and ne: "nFrames res \<noteq> []"
  then have "batch_ok ([] @ nFrames res)" "length (bFrames r) \<le> 600" "bSessionID r \<noteq> []"
    using normalize_loop_ok [of "[]" 0 "[]" "bFrames r"] by (auto simp: batch_normalize_Inr)
  moreover have "length (nFrames res) \<le> length (bFrames r)"
    using normalize_loop_length [of 0 "[]" "[]" "bFrames r"] res by (simp add: batch_normalize_Inr)
  ultimately show ?thesis
    using ne normalize_loop_accepts_all [of "[]" "nFrames res" 0 "[]"] by (simp add: batch_normalize_Inr)
qed

theorem normalize_idempotent_witness:
  "batch_normalize (sample_batch\<lparr>bFrames := [sample_frame 5 0 0, sample_frame 9 0 20]\<rparr>) =
     Inr \<lparr>nFrames = [sample_frame 5 0 0, sample_frame 9 0 20], nRejections = []\<rparr>"
  using normalize_idempotent [OF sample_batch_normalize] by simp

text \<open>The rejection summary counts every rejection once: a reason is listed with the number of
  rejections that have its code, the counts add up to the number of rejections, the list is in
  the order of the callback, and the order in which Go iterates over the map of the counts does
  not matter.\<close>

theorem rejection_summary_correct:
  "(\<forall>c n. RejectionReasonCount c n \<in> set (BuildRejectionSummary rs)
       \<longleftrightarrow> 0 < n \<and> n = int (length (filter (\<lambda>r. rCode r = c) rs)))
   \<and> sum_list (map reCount (BuildRejectionSummary rs)) = int (length rs)
   \<and> sorted (BuildRejectionSummary rs)
   \<and> {sorted_reasons m |m. mset m = mset (count_codes rs)} = {BuildRejectionSummary rs}"
proof (intro conjI allI impI)
  let ?ps = "map (\<lambda>r. (rCode r, 1 :: int)) rs"
  fix c n
  have "(c, n) \<in> set (count_codes rs) \<longleftrightarrow> c \<in> rCode ` set rs \<and> n = count_of (count_codes rs) c"
    unfolding count_codes_add_counts
    by (subst mem_alist_count_of) (auto simp: distinct_add_counts keys_add_counts image_image)
  moreover have "count_of (count_codes rs) c = int (length (filter (\<lambda>r. rCode r = c) rs))"
    unfolding count_codes_add_counts count_of_add_counts sum_list_ones by (simp add: count_of_def)
  moreover have "c \<in> rCode ` set rs \<longleftrightarrow> 0 < length (filter (\<lambda>r. rCode r = c) rs)"
    by (auto simp: filter_empty_conv)
  ultimately show "RejectionReasonCount c n \<in> set (BuildRejectionSummary rs)
      \<longleftrightarrow> 0 < n \<and> n = int (length (filter (\<lambda>r. rCode r = c) rs))"
    unfolding BuildRejectionSummary_def set_sorted_reasons by auto
next
  show "sum_list (map reCount (BuildRejectionSummary rs)) = int (length rs)"
    unfolding BuildRejectionSummary_def sum_sorted_reasons count_codes_add_counts
    by (simp add: sum_add_counts comp_def sum_list_triv)
next
  show "sorted (BuildRejectionSummary rs)"
    by (simp add: BuildRejectionSummary_def sorted_sorted_reasons)
next
  show "{sorted_reasons m |m. mset m = mset (count_codes rs)} = {BuildRejectionSummary rs}"
    unfolding BuildRejectionSummary_def using sorted_reasons_cong by blast
qed

end
