(* ===== verification/FrameStore.thy ===== *)
theory FrameStore
  imports Telemetry
begin

text \<open>
  \<^verbatim>\<open>internal/telemetry/store.go\<close>: the bounded in-memory buffer of accepted frames, one list per
  session.  Each method holds the store's mutex for its whole critical section, so a method is one
  step on the state; the deep copies (\<open>cloneFrames\<close>) are modelled and shown to preserve values.

  The contract its clients rely on is the locale \<open>frame_buffer\<close>: what is read is the last
  \<open>capacity\<close> frames of everything appended to the session.  Inside the locale this is lifted to
  any sequence of appends to any sessions; the interpretation discharges the laws for the code.
\<close>

section \<open>The store\<close>

record FrameStore =
  sCapacity :: int
  sFrames :: "string \<rightharpoonup> Frame list"

definition cloneFloat64 :: "f64 option \<Rightarrow> f64 option" where
  "cloneFloat64 v = (case v of None \<Rightarrow> None | Some x \<Rightarrow> Some x)"

definition cloneInt64 :: "int option \<Rightarrow> int option" where
  "cloneInt64 v = (case v of None \<Rightarrow> None | Some x \<Rightarrow> Some x)"

definition cloneFrame :: "Frame \<Rightarrow> Frame" where
  "cloneFrame frame = frame
     \<lparr>fYawRadians := cloneFloat64 (fYawRadians frame),
      fYawRate := cloneFloat64 (fYawRate frame),
      fWheelSpeedFL := cloneFloat64 (fWheelSpeedFL frame),
      fWheelSpeedFR := cloneFloat64 (fWheelSpeedFR frame),
      fWheelSpeedRL := cloneFloat64 (fWheelSpeedRL frame),
      fWheelSpeedRR := cloneFloat64 (fWheelSpeedRR frame),
      fLapDistanceMeters := cloneFloat64 (fLapDistanceMeters frame),
      fLastLapMs := cloneInt64 (fLastLapMs frame),
      fBestLapMs := cloneInt64 (fBestLapMs frame)\<rparr>"

definition cloneFrames :: "Frame list \<Rightarrow> Frame list" where
  "cloneFrames frames = map cloneFrame frames"

definition NewFrameStore :: "int \<Rightarrow> FrameStore" where
  "NewFrameStore capacity = \<lparr>sCapacity = (if capacity \<le> 0 then 1 else capacity), sFrames = Map.empty\<rparr>"

definition store_append :: "FrameStore \<Rightarrow> ctx \<Rightarrow> string \<Rightarrow> Frame list \<Rightarrow> ctx_err option \<times> FrameStore" where
  "store_append s ctx sessionID frames =
    (case ctx of Some e \<Rightarrow> (Some e, s)
     | None \<Rightarrow>
       if sessionID = [] \<or> length frames = 0 then (None, s)
       else
         let incoming = cloneFrames frames;
             incoming = (if int (length incoming) \<ge> sCapacity s
               then drop (nat (int (length incoming) - sCapacity s)) incoming else incoming);
             retained = map_list (sFrames s) sessionID @ incoming;
             retained = (if int (length retained) > sCapacity s
               then drop (nat (int (length retained) - sCapacity s)) retained else retained)
         in (None, s\<lparr>sFrames := (sFrames s)(sessionID \<mapsto> retained)\<rparr>))"

definition store_frames :: "FrameStore \<Rightarrow> ctx \<Rightarrow> string \<Rightarrow> ctx_err + Frame list" where
  "store_frames s ctx sessionID =
    (case ctx of Some e \<Rightarrow> Inl e | None \<Rightarrow> Inr (cloneFrames (map_list (sFrames s) sessionID)))"

section \<open>The contract\<close>

locale frame_buffer =
  fixes append :: "'s \<Rightarrow> ctx \<Rightarrow> string \<Rightarrow> Frame list \<Rightarrow> ctx_err option \<times> 's"
    and frames :: "'s \<Rightarrow> ctx \<Rightarrow> string \<Rightarrow> ctx_err + Frame list"
    and capacity :: "'s \<Rightarrow> nat"
    and invar :: "'s \<Rightarrow> bool"
  assumes append_ok: "invar s \<Longrightarrow> append s None sid fs = (None, snd (append s None sid fs))"
    and append_invar: "invar s \<Longrightarrow> invar (snd (append s ctx sid fs))"
    and append_capacity: "invar s \<Longrightarrow> capacity (snd (append s ctx sid fs)) = capacity s"
    and append_cancelled: "append s (Some e) sid fs = (Some e, s)"
    and frames_cancelled: "frames s (Some e) sid = Inl e"
    and frames_defined: "invar s \<Longrightarrow> \<exists>fs. frames s None sid = Inr fs"
    and append_same: "invar s \<Longrightarrow> sid \<noteq> [] \<Longrightarrow> frames s None sid = Inr old \<Longrightarrow>
        frames (snd (append s None sid fs)) None sid = Inr (lastn (capacity s) (old @ fs))"
    and append_other: "invar s \<Longrightarrow> sid' \<noteq> sid \<or> sid = [] \<Longrightarrow>
        frames (snd (append s None sid fs)) None sid' = frames s None sid'"
begin

fun appends :: "'s \<Rightarrow> (string \<times> Frame list) list \<Rightarrow> 's" where
  "appends s [] = s"
| "appends s ((sid, fs) # ops) = appends (snd (append s None sid fs)) ops"

definition history :: "string \<Rightarrow> (string \<times> Frame list) list \<Rightarrow> Frame list" where
  "history sid ops = concat (map snd (filter (\<lambda>p. fst p = sid) ops))"

lemma appends_invar: "invar s \<Longrightarrow> invar (appends s ops) \<and> capacity (appends s ops) = capacity s"
  by (induction s ops rule: appends.induct) (auto simp: append_invar append_capacity)

lemma frames_appends:
  "invar s \<Longrightarrow> sid \<noteq> [] \<Longrightarrow> frames s None sid = Inr (lastn (capacity s) old) \<Longrightarrow>
     frames (appends s ops) None sid = Inr (lastn (capacity s) (old @ history sid ops))"
proof (induction s ops arbitrary: old rule: appends.induct)
  case (1 s) then show ?case by (simp add: history_def)
next
  case (2 s sid' fs ops)
  let ?s = "snd (append s None sid' fs)"
  have inv: "invar ?s" "capacity ?s = capacity s"
    using "2.prems" by (simp_all add: append_invar append_capacity)
  show ?case
  proof (cases "sid' = sid")
    case True
    then have "frames ?s None sid = Inr (lastn (capacity s) (old @ fs))"
      using append_same "2.prems" by (simp add: lastn_lastn_append)
    then show ?thesis using "2.IH" [of "old @ fs"] inv "2.prems" True by (simp add: history_def)
  next
    case False
    then have "frames ?s None sid = Inr (lastn (capacity s) old)"
      using append_other [of s sid sid' fs] "2.prems" by simp
    then show ?thesis using "2.IH" [of old] inv "2.prems" False by (simp add: history_def)
  qed
qed

lemma frames_bounded:
  "invar s \<Longrightarrow> sid \<noteq> [] \<Longrightarrow> frames s None sid = Inr [] \<Longrightarrow>
     \<exists>fs. frames (appends s ops) None sid = Inr fs \<and> length fs \<le> capacity s"
  using frames_appends [of s sid "[]" ops] by auto

end

section \<open>The code's store satisfies it\<close>

definition store_ok :: "FrameStore \<Rightarrow> bool" where
  "store_ok s \<longleftrightarrow> 1 \<le> sCapacity s \<and> sFrames s [] = None"

lemma cloneFrame_id [simp]: "cloneFrame f = f"
  by (simp add: cloneFrame_def cloneFloat64_def cloneInt64_def option.case_eq_if)

lemma cloneFrames_id [simp]: "cloneFrames fs = fs"
  by (simp add: cloneFrames_def map_idI)

lemma store_append_simp:
  "store_ok s \<Longrightarrow> store_append s None sid fs = (None,
     if sid = [] \<or> fs = [] then s
     else s\<lparr>sFrames := (sFrames s)(sid \<mapsto> lastn (nat (sCapacity s)) (map_list (sFrames s) sid @ fs))\<rparr>)"
  by (simp add: store_append_def Let_def drop_lastn drop_lastn_ge store_ok_def lastn_append_lastn)

lemma store_frames_simp [simp]: "store_frames s None sid = Inr (map_list (sFrames s) sid)"
  by (simp add: store_frames_def)

definition store_bounded :: "FrameStore \<Rightarrow> bool" where
  "store_bounded s \<longleftrightarrow> store_ok s \<and> (\<forall>sid. int (length (map_list (sFrames s) sid)) \<le> sCapacity s)"

lemma store_bounded_lastn:
  "store_bounded s \<Longrightarrow> lastn (nat (sCapacity s)) (map_list (sFrames s) sid) = map_list (sFrames s) sid"
  by (intro lastn_all) (simp add: store_bounded_def store_ok_def le_nat_iff)

lemma store_bounded_ok: "store_bounded s \<Longrightarrow> store_ok s"
  by (simp add: store_bounded_def)

interpretation store: frame_buffer store_append store_frames "\<lambda>s. nat (sCapacity s)" store_bounded
proof unfold_locales
  fix s ctx sid fs
  assume inv: "store_bounded s"
  then have ok: "store_ok s" by (simp add: store_bounded_def)
  show "store_append s None sid fs = (None, snd (store_append s None sid fs))"
    by (simp add: store_append_simp ok)
  show "store_bounded (snd (store_append s ctx sid fs))"
    using inv ok by (cases ctx)
      (auto simp: store_append_simp store_append_def [of s "Some _"] store_bounded_def store_ok_def)
  show "nat (sCapacity (snd (store_append s ctx sid fs))) = nat (sCapacity s)"
    using ok by (cases ctx) (auto simp: store_append_simp store_append_def [of s "Some _"])
  show "\<exists>fs. store_frames s None sid = Inr fs" by simp
next
  fix s sid old fs
  assume "store_bounded s" "sid \<noteq> []" "store_frames s None sid = Inr old"
  then show "store_frames (snd (store_append s None sid fs)) None sid = Inr (lastn (nat (sCapacity s)) (old @ fs))"
    by (auto simp: store_append_simp store_bounded_lastn store_bounded_ok)
next
  fix s :: FrameStore and sid' sid :: string and fs :: "Frame list"
  assume "store_bounded s" "sid' \<noteq> sid \<or> sid = []"
  then show "store_frames (snd (store_append s None sid fs)) None sid' = store_frames s None sid'"
    by (auto simp: store_append_simp store_bounded_def)
qed (simp_all add: store_append_def store_frames_def)

lemma NewFrameStore_bounded [simp]: "store_bounded (NewFrameStore c)"
  by (simp add: NewFrameStore_def store_bounded_def store_ok_def)

section \<open>Properties\<close>

text \<open>C3: The frame store refines the full history of the ingests: after any sequence of appends to
  any sessions, reading a session yields the last \<open>max 1 capacity\<close> frames of the concatenation
  of everything appended to that session, in order, untouched by the other sessions.\<close>

theorem store_refines_history:
  "sid \<noteq> [] \<Longrightarrow> store_frames (store.appends (NewFrameStore c) ops) None sid
     = Inr (lastn (nat (max 1 c)) (concat (map snd (filter (\<lambda>p. fst p = sid) ops))))"
  using store.frames_appends [of "NewFrameStore c" sid "[]" ops]
  by (simp add: store.history_def) (simp add: NewFrameStore_def max_def)

theorem store_refines_history_witness:
  "store_frames (store.appends (NewFrameStore 2)
     [(''a'', [sample_frame 1 0 0, sample_frame 2 0 0]), (''b'', [sample_frame 7 0 0]), (''a'', [sample_frame 3 0 0])])
     None ''a'' = Inr [sample_frame 2 0 0, sample_frame 3 0 0]"
  using store_refines_history [of "''a''" 2 "[(''a'', [sample_frame 1 0 0, sample_frame 2 0 0]),
     (''b'', [sample_frame 7 0 0]), (''a'', [sample_frame 3 0 0])]"] by (simp add: lastn_def)

end
