(* ===== verification/RejectionStore.thy ===== *)
theory RejectionStore
  imports Telemetry
begin

text \<open>
  \<^verbatim>\<open>internal/telemetry/rejection_summary_store.go\<close>: the in-memory log of the rejected parts of
  ingest batches and its aggregation per session.  The random identifier of a record and the
  clock are arguments (\<open>newID\<close>, \<open>now\<close>); an instant is the number of nanoseconds since the Unix
  epoch and \<open>zero_time\<close> is Go's zero \<^verbatim>\<open>time.Time\<close>.

  Totals and counts are integers without bound: they would wrap around only after \<open>2 ^ 63\<close> rejected frames
  of one session.

  The contract is the locale \<open>rejection_log\<close>: an append adds the record to its session's list,
  and a summary aggregates that list.
\<close>

section \<open>The store\<close>

definition zero_time :: int where "zero_time = - 62135596800000000000"

record RejectionSummaryRecord =
  rsID :: string
  rsSessionID :: string
  rsStatus :: string
  rsReceivedFrames :: int
  rsAcceptedFrames :: int
  rsRejectedFrames :: int
  rsAcceptedFromUnixMs :: int
  rsAcceptedToUnixMs :: int
  rsSummary :: "RejectionReasonCount list"
  rsIngestedAt :: int

record RejectedSummaryAggregate =
  agRejectedFrames :: int
  agSummary :: "RejectionReasonCount list"

type_synonym rejection_store = "string \<rightharpoonup> RejectionSummaryRecord list"

definition cloneRejectionSummary :: "RejectionReasonCount list \<Rightarrow> RejectionReasonCount list" where
  "cloneRejectionSummary summary = map (\<lambda>r. r) summary"

definition cloneRejectionSummaryRecord :: "RejectionSummaryRecord \<Rightarrow> RejectionSummaryRecord" where
  "cloneRejectionSummaryRecord r = r\<lparr>rsSummary := cloneRejectionSummary (rsSummary r)\<rparr>"

definition cloneRejectionSummaryRecords :: "RejectionSummaryRecord list \<Rightarrow> RejectionSummaryRecord list" where
  "cloneRejectionSummaryRecords records = map cloneRejectionSummaryRecord records"

definition rejections_append ::
  "rejection_store \<Rightarrow> ctx \<Rightarrow> string \<Rightarrow> int \<Rightarrow> RejectionSummaryRecord \<Rightarrow> ctx_err option \<times> rejection_store" where
  "rejections_append s ctx newID now r =
    (case ctx of Some e \<Rightarrow> (Some e, s)
     | None \<Rightarrow>
       if rsSessionID r = [] \<or> rsRejectedFrames r \<le> 0 then (None, s)
       else
         let r = cloneRejectionSummaryRecord r;
             r = (if rsID r = [] then r\<lparr>rsID := newID\<rparr> else r);
             r = (if rsIngestedAt r = zero_time then r\<lparr>rsIngestedAt := now\<rparr> else r)
         in (None, s(rsSessionID r \<mapsto> map_list s (rsSessionID r) @ [r])))"

definition aggregate_counts :: "RejectionSummaryRecord list \<Rightarrow> (string \<times> int) list" where
  "aggregate_counts records =
     fold (\<lambda>r m. fold (\<lambda>reason. add_count (reCode reason) (reCount reason)) (rsSummary r) m) records []"

definition aggregateRejectionSummaries :: "RejectionSummaryRecord list \<Rightarrow> RejectedSummaryAggregate" where
  "aggregateRejectionSummaries records =
     \<lparr>agRejectedFrames = fold (\<lambda>r total. total + rsRejectedFrames r) records 0,
      agSummary = sorted_reasons (aggregate_counts records)\<rparr>"

definition empty_aggregate :: RejectedSummaryAggregate where
  "empty_aggregate = \<lparr>agRejectedFrames = 0, agSummary = []\<rparr>"

definition rejections_summary ::
  "rejection_store \<Rightarrow> ctx \<Rightarrow> string \<Rightarrow> ctx_err + RejectedSummaryAggregate" where
  "rejections_summary s ctx sessionID =
    (case ctx of Some e \<Rightarrow> Inl e
     | None \<Rightarrow> if sessionID = [] then Inr empty_aggregate
       else Inr (aggregateRejectionSummaries (cloneRejectionSummaryRecords (map_list s sessionID))))"

fun summaries_loop ::
  "rejection_store \<Rightarrow> string list \<Rightarrow> string set \<Rightarrow> (string \<rightharpoonup> RejectedSummaryAggregate) \<Rightarrow>
   (string \<rightharpoonup> RejectedSummaryAggregate)" where
  "summaries_loop s [] seen result = result"
| "summaries_loop s (sid # sids) seen result =
    (if sid = [] then summaries_loop s sids seen result
     else if sid \<in> seen then summaries_loop s sids seen result
     else summaries_loop s sids (insert sid seen)
       (result(sid \<mapsto> aggregateRejectionSummaries (cloneRejectionSummaryRecords (map_list s sid)))))"

definition rejections_summaries ::
  "rejection_store \<Rightarrow> ctx \<Rightarrow> string list \<Rightarrow> ctx_err + (string \<rightharpoonup> RejectedSummaryAggregate)" where
  "rejections_summaries s ctx sessionIDs =
    (case ctx of Some e \<Rightarrow> Inl e
     | None \<Rightarrow> if sessionIDs = [] then Inr Map.empty
       else Inr (summaries_loop s sessionIDs {} Map.empty))"

section \<open>The contract\<close>

text \<open>What the store keeps of a record: nothing for an unnamed session or an empty rejection.\<close>

definition logged :: "RejectionSummaryRecord \<Rightarrow> bool" where
  "logged r \<longleftrightarrow> rsSessionID r \<noteq> [] \<and> 0 < rsRejectedFrames r"

definition reason_total :: "string \<Rightarrow> RejectionSummaryRecord list \<Rightarrow> int" where
  "reason_total c rs = sum_list (map reCount (filter (\<lambda>x. reCode x = c) (concat (map rsSummary rs))))"

locale rejection_log =
  fixes append :: "'s \<Rightarrow> ctx \<Rightarrow> string \<Rightarrow> int \<Rightarrow> RejectionSummaryRecord \<Rightarrow> ctx_err option \<times> 's"
    and summary :: "'s \<Rightarrow> ctx \<Rightarrow> string \<Rightarrow> ctx_err + RejectedSummaryAggregate"
    and records :: "'s \<Rightarrow> string \<Rightarrow> RejectionSummaryRecord list"
  assumes append_result: "fst (append s ctx i t r) = ctx"
    and append_cancelled: "snd (append s (Some e) i t r) = s"
    and append_kept: "logged r \<Longrightarrow> \<exists>r'. records (snd (append s None i t r)) (rsSessionID r) = records s (rsSessionID r) @ [r']
        \<and> rsRejectedFrames r' = rsRejectedFrames r \<and> rsSummary r' = rsSummary r"
    and append_frame: "\<not> logged r \<or> sid \<noteq> rsSessionID r \<Longrightarrow> records (snd (append s ctx i t r)) sid = records s sid"
    and summary_total: "summary s None sid = Inr g \<Longrightarrow> agRejectedFrames g = sum_list (map rsRejectedFrames (records s sid))"
    and summary_defined: "\<exists>g. summary s None sid = Inr g"
begin

fun appends :: "'s \<Rightarrow> (string \<times> int \<times> RejectionSummaryRecord) list \<Rightarrow> 's" where
  "appends s [] = s"
| "appends s ((i, t, r) # ops) = appends (snd (append s None i t r)) ops"

lemma total_appends:
  "sum_list (map rsRejectedFrames (records (appends s ops) sid)) =
     sum_list (map rsRejectedFrames (records s sid)) +
     sum_list (map rsRejectedFrames (filter (\<lambda>r. logged r \<and> rsSessionID r = sid) (map (snd \<circ> snd) ops)))"
proof (induction s ops rule: appends.induct)
  case (2 s i t r ops)
  show ?case
  proof (cases "logged r \<and> rsSessionID r = sid")
    case True
    then obtain r' where "records (snd (append s None i t r)) sid = records s sid @ [r']"
        "rsRejectedFrames r' = rsRejectedFrames r"
      using append_kept by blast
    with 2 True show ?thesis by simp
  next
    case False
    then have "records (snd (append s None i t r)) sid = records s sid"
      using append_frame [of r sid] by blast
    with 2 False show ?thesis by auto
  qed
qed simp

lemma summary_appends:
  "summary (appends s ops) None sid = Inr g \<Longrightarrow> records s sid = [] \<Longrightarrow>
     agRejectedFrames g = sum_list (map rsRejectedFrames (filter (\<lambda>r. logged r \<and> rsSessionID r = sid) (map (snd \<circ> snd) ops)))"
  using summary_total [of "appends s ops" sid g] total_appends [of s ops sid] by simp

end

section \<open>The code's store satisfies it\<close>

lemma clone_record [simp]: "cloneRejectionSummaryRecord r = r"
  by (simp add: cloneRejectionSummaryRecord_def cloneRejectionSummary_def)

lemma clone_records [simp]: "cloneRejectionSummaryRecords rs = rs"
  by (simp add: cloneRejectionSummaryRecords_def map_idI)

lemma fold_total: "fold (\<lambda>r total. total + rsRejectedFrames r) rs n = n + sum_list (map rsRejectedFrames rs)"
  by (induction rs arbitrary: n) auto

lemma aggregate_total [simp]: "agRejectedFrames (aggregateRejectionSummaries rs) = sum_list (map rsRejectedFrames rs)"
  by (simp add: aggregateRejectionSummaries_def fold_total)

lemma aggregate_counts_add_counts:
  "aggregate_counts rs = add_counts (map (\<lambda>x. (reCode x, reCount x)) (concat (map rsSummary rs))) []"
proof -
  have "fold (\<lambda>r m. fold (\<lambda>reason. add_count (reCode reason) (reCount reason)) (rsSummary r) m) rs m =
      add_counts (map (\<lambda>x. (reCode x, reCount x)) (concat (map rsSummary rs))) m" for m
    by (induction rs arbitrary: m) (simp_all add: add_counts_def fold_map comp_def)
  then show ?thesis by (simp add: aggregate_counts_def)
qed

definition named :: "rejection_store \<Rightarrow> bool" where "named s \<longleftrightarrow> s [] = None"

definition session_records :: "rejection_store \<Rightarrow> string \<Rightarrow> RejectionSummaryRecord list" where
  "session_records s sid = (if sid = [] then [] else map_list s sid)"

interpretation rejections: rejection_log rejections_append rejections_summary session_records
proof unfold_locales
  fix s ctx i t r e sid g
  show "fst (rejections_append s ctx i t r) = ctx"
    by (auto simp: rejections_append_def Let_def split: option.splits)
  show "snd (rejections_append s (Some e) i t r) = s" by (simp add: rejections_append_def)
  show "logged r \<Longrightarrow> \<exists>r'. session_records (snd (rejections_append s None i t r)) (rsSessionID r) =
      session_records s (rsSessionID r) @ [r'] \<and> rsRejectedFrames r' = rsRejectedFrames r \<and> rsSummary r' = rsSummary r"
    by (auto simp: rejections_append_def Let_def session_records_def logged_def)
  show "\<not> logged r \<or> sid \<noteq> rsSessionID r \<Longrightarrow>
      session_records (snd (rejections_append s ctx i t r)) sid = session_records s sid"
    by (auto simp: rejections_append_def Let_def session_records_def logged_def split: option.splits)
  show "rejections_summary s None sid = Inr g \<Longrightarrow>
      agRejectedFrames g = sum_list (map rsRejectedFrames (session_records s sid))"
    by (auto simp: rejections_summary_def session_records_def empty_aggregate_def split: if_splits)
  show "\<exists>g. rejections_summary s None sid = Inr g" by (simp add: rejections_summary_def)
qed

lemma session_records_empty [simp]: "session_records Map.empty sid = []"
  unfolding session_records_def map_list_def by (cases sid) simp_all

lemma aggregate_reasons:
  "set (agSummary (aggregateRejectionSummaries rs)) =
     (\<lambda>c. RejectionReasonCount c (reason_total c rs)) ` reCode ` set (concat (map rsSummary rs))"
proof -
  let ?ps = "map (\<lambda>x. (reCode x, reCount x)) (concat (map rsSummary rs))"
  have tot: "count_of (aggregate_counts rs) c = reason_total c rs" for c
    unfolding aggregate_counts_add_counts count_of_add_counts reason_total_def
    by (simp add: count_of_def filter_map comp_def)
  have mem: "RejectionReasonCount c n \<in> set (agSummary (aggregateRejectionSummaries rs)) \<longleftrightarrow>
      c \<in> reCode ` set (concat (map rsSummary rs)) \<and> n = reason_total c rs" for c n
    unfolding aggregateRejectionSummaries_def RejectedSummaryAggregate.simps set_sorted_reasons
    unfolding tot [symmetric] aggregate_counts_add_counts
    by (subst mem_alist_count_of) (auto simp: distinct_add_counts keys_add_counts image_image)
  show ?thesis
  proof (intro set_eqI)
    fix x show "x \<in> set (agSummary (aggregateRejectionSummaries rs)) \<longleftrightarrow>
        x \<in> (\<lambda>c. RejectionReasonCount c (reason_total c rs)) ` reCode ` set (concat (map rsSummary rs))"
      using mem [of "reCode x" "reCount x"] by (cases x) auto
  qed
qed

lemma summaries_loop_lookup:
  "summaries_loop s sids seen result sid =
     (if sid \<in> set sids \<and> sid \<noteq> [] \<and> sid \<notin> seen
      then Some (aggregateRejectionSummaries (map_list s sid)) else result sid)"
proof (induction s sids seen result rule: summaries_loop.induct)
  case (1 s seen result) show ?case by simp
next
  case (2 s sid' sids seen result)
  consider "sid' = []" | "sid' \<noteq> []" "sid' \<in> seen" | "sid' \<noteq> []" "sid' \<notin> seen" by blast
  then show ?case
  proof cases
    case 1 with "2.IH"(1) show ?thesis by auto
  next
    case 2 with "2.IH"(2) show ?thesis by auto
  next
    case 3
    note ih = "2.IH"(3) [OF 3, unfolded clone_records]
    show ?thesis using 3 by (simp add: ih)
  qed
qed

section \<open>Properties\<close>

definition sample_record :: "string \<Rightarrow> int \<Rightarrow> RejectionSummaryRecord" where
  "sample_record sid n = \<lparr>rsID = ''r'', rsSessionID = sid, rsStatus = ''partial'', rsReceivedFrames = n + 1,
     rsAcceptedFrames = 1, rsRejectedFrames = n, rsAcceptedFromUnixMs = 5, rsAcceptedToUnixMs = 9,
     rsSummary = [RejectionReasonCount ''invalid_rpm'' n], rsIngestedAt = 1\<rparr>"

text \<open>The batch query agrees with the single one: \<^verbatim>\<open>Summaries\<close> has an entry for exactly the
  non-empty requested ids, and each entry is what \<^verbatim>\<open>Summary\<close> returns for that id.\<close>

theorem summaries_agree_with_summary:
  "rejections_summaries s None sids = Inr m \<Longrightarrow>
     dom m = set sids - {[]} \<and> (\<forall>sid g. m sid = Some g \<longrightarrow> rejections_summary s None sid = Inr g)"
  by (auto simp: rejections_summaries_def rejections_summary_def summaries_loop_lookup split: if_splits)

theorem summaries_agree_with_summary_witness:
  "dom (\<lambda>sid. if sid = ''a'' then Some (aggregateRejectionSummaries []) else None) = set [''a'', []] - {[]}"
  using summaries_agree_with_summary [of Map.empty "[''a'', []]"
      "\<lambda>sid. if sid = ''a'' then Some (aggregateRejectionSummaries []) else None"]
  by (simp add: rejections_summaries_def fun_eq_iff map_list_def)

text \<open>The aggregate of a session is the sum of what was logged for it: its rejected frames are the
  sum over the appended records of the session (records of an unnamed session or without
  rejections are dropped), whatever was appended to other sessions in between.\<close>

theorem rejection_totals_add_up:
  "rejections_summary (rejections.appends Map.empty ops) None sid = Inr g \<Longrightarrow>
     agRejectedFrames g =
       sum_list (map rsRejectedFrames
         (filter (\<lambda>r. logged r \<and> rsSessionID r = sid) (map (snd \<circ> snd) ops)))"
  using rejections.summary_appends [of Map.empty ops sid g] by simp

theorem rejection_totals_add_up_witness:
  "agRejectedFrames (aggregateRejectionSummaries (session_records
      (rejections.appends Map.empty [(''i'', 0, sample_record ''a'' 2), (''j'', 0, sample_record ''a'' 3)]) ''a'')) = 5"
proof -
  let ?ops = "[(''i'', 0, sample_record ''a'' 2), (''j'', 0, sample_record ''a'' 3)]"
  have "rejections_summary (rejections.appends Map.empty ?ops) None ''a'' =
      Inr (aggregateRejectionSummaries (session_records (rejections.appends Map.empty ?ops) ''a''))"
    by (simp add: rejections_summary_def session_records_def)
  from rejection_totals_add_up [OF this] show ?thesis by (simp add: sample_record_def logged_def)
qed

end
