(* ===== verification/Laps.thy ===== *)
theory Laps
  imports Telemetry
begin

text \<open>
  \<^verbatim>\<open>internal/laps/lap.go\<close>: completed laps.  \<open>ExtractCompleted\<close> reads them off a frame
  stream (the first frame of lap \<open>n + 1\<close> that reports a last-lap time completes lap \<open>n\<close>); the
  remaining operations validate a lap, give it its identifier and order a list of laps.
\<close>

section \<open>Data\<close>

datatype lap_err =
    LapMissingSessionID | LapInvalidLapNumber | LapInvalidLapTime | LapInvalidBestLapTime
  | LapInvalidTimestamp | LapInvalidGapCount | LapInvalidSampleCount

record CompletedLap =
  lID :: string
  lSessionID :: string
  lLapNumber :: int
  lLapTimeMs :: int
  lCompletedAtUnixMs :: int
  lBestLapMs :: "int option"
  lSampleCount :: "int option"
  lTelemetryGapCount :: int

definition NewCompletedLapID :: "string \<Rightarrow> int \<Rightarrow> string" where
  "NewCompletedLapID sessionID lapNumber = ''lap_'' @ sessionID @ ''_'' @ itoa lapNumber"

definition lap_Validate :: "CompletedLap \<Rightarrow> lap_err option" where
  "lap_Validate lap =
    (if lSessionID lap = [] then Some LapMissingSessionID
     else if lLapNumber lap < 0 then Some LapInvalidLapNumber
     else if lLapTimeMs lap \<le> 0 then Some LapInvalidLapTime
     else if lCompletedAtUnixMs lap \<le> 0 then Some LapInvalidTimestamp
     else if (case lBestLapMs lap of None \<Rightarrow> False | Some b \<Rightarrow> b < 0) then Some LapInvalidBestLapTime
     else if (case lSampleCount lap of None \<Rightarrow> False | Some c \<Rightarrow> c \<le> 0) then Some LapInvalidSampleCount
     else if lTelemetryGapCount lap < 0 then Some LapInvalidGapCount
     else None)"

definition clone_int :: "int option \<Rightarrow> int option" where
  "clone_int v = (case v of None \<Rightarrow> None | Some x \<Rightarrow> Some x)"

definition lap_withDefaults :: "CompletedLap \<Rightarrow> CompletedLap" where
  "lap_withDefaults lap =
    (let lap = (if lID lap = [] \<and> lSessionID lap \<noteq> [] \<and> lLapNumber lap \<ge> 0
       then lap\<lparr>lID := NewCompletedLapID (lSessionID lap) (lLapNumber lap)\<rparr> else lap)
     in lap\<lparr>lBestLapMs := clone_int (lBestLapMs lap), lSampleCount := clone_int (lSampleCount lap)\<rparr>)"

fun extract_loop :: "string \<Rightarrow> int set \<Rightarrow> CompletedLap list \<Rightarrow> Frame list \<Rightarrow> CompletedLap list" where
  "extract_loop sessionID seen completed [] = completed"
| "extract_loop sessionID seen completed (frame # frames) =
    (case fLastLapMs frame of
       None \<Rightarrow> extract_loop sessionID seen completed frames
     | Some lastLap \<Rightarrow>
       if fLapNumber frame \<le> 0 \<or> lastLap \<le> 0 \<or> fTimestampUnixMs frame \<le> 0
       then extract_loop sessionID seen completed frames
       else let completedLapNumber = sub64 (fLapNumber frame) 1 in
         if completedLapNumber < 0 then extract_loop sessionID seen completed frames
         else if completedLapNumber \<in> seen then extract_loop sessionID seen completed frames
         else extract_loop sessionID (insert completedLapNumber seen)
           (completed @ [\<lparr>lID = NewCompletedLapID sessionID completedLapNumber,
              lSessionID = sessionID, lLapNumber = completedLapNumber, lLapTimeMs = lastLap,
              lCompletedAtUnixMs = fTimestampUnixMs frame, lBestLapMs = clone_int (fBestLapMs frame),
              lSampleCount = None, lTelemetryGapCount = 0\<rparr>]) frames)"

definition ExtractCompleted :: "string \<Rightarrow> Frame list \<Rightarrow> CompletedLap list" where
  "ExtractCompleted sessionID frames =
    (if sessionID = [] \<or> length frames = 0 then [] else extract_loop sessionID {} [] frames)"

definition cloneLaps :: "CompletedLap list \<Rightarrow> CompletedLap list" where
  "cloneLaps laps = map lap_withDefaults laps"

definition lap_less :: "CompletedLap \<Rightarrow> CompletedLap \<Rightarrow> bool" where
  "lap_less a b = (if lLapNumber a = lLapNumber b then lID a < lID b else lLapNumber a < lLapNumber b)"

definition sortByLapNumber :: "CompletedLap list \<Rightarrow> CompletedLap list" where
  "sortByLapNumber laps = sort_slice lap_less laps"

interpretation lap_less: slice_less lap_less UNIV
  by unfold_locales (auto simp: lap_less_def split: if_splits)

section \<open>Lemmas\<close>

lemma clone_int_id [simp]: "clone_int v = v"
  by (simp add: clone_int_def split: option.splits)

text \<open>A frame completes a lap when it reports a positive last-lap time in a lap after the first.\<close>

definition completes :: "Frame \<Rightarrow> int \<Rightarrow> bool" where
  "completes f n \<longleftrightarrow> (\<exists>t. fLastLapMs f = Some t \<and> 0 < t) \<and> 0 < fLapNumber f \<and> 0 < fTimestampUnixMs f
     \<and> n = fLapNumber f - 1"

definition lap_of :: "string \<Rightarrow> Frame \<Rightarrow> CompletedLap" where
  "lap_of sid f = \<lparr>lID = NewCompletedLapID sid (fLapNumber f - 1), lSessionID = sid,
     lLapNumber = fLapNumber f - 1, lLapTimeMs = the (fLastLapMs f),
     lCompletedAtUnixMs = fTimestampUnixMs f, lBestLapMs = fBestLapMs f,
     lSampleCount = None, lTelemetryGapCount = 0\<rparr>"

definition frame_in64 :: "Frame \<Rightarrow> bool" where
  "frame_in64 f \<longleftrightarrow> in64 (fTimestampUnixMs f) \<and> in64 (fLapNumber f) \<and> in64 (fCurrentLapMs f)
     \<and> (\<forall>v \<in> set_option (fLastLapMs f) \<union> set_option (fBestLapMs f). in64 v)"

lemma sub64_1: "in64 n \<Longrightarrow> 0 < n \<Longrightarrow> sub64 n 1 = n - 1"
  by (rule sub64_id) (auto simp: in64_def)

lemma extract_step:
  "frame_in64 f \<Longrightarrow> extract_loop sid seen acc (f # fs) =
     (if completes f (fLapNumber f - 1) \<and> fLapNumber f - 1 \<notin> seen
      then extract_loop sid (insert (fLapNumber f - 1) seen) (acc @ [lap_of sid f]) fs
      else extract_loop sid seen acc fs)"
  by (auto simp: completes_def lap_of_def frame_in64_def sub64_1 Let_def split: option.splits)

declare extract_loop.simps(2) [simp del]

text \<open>The loop keeps, for every lap number not seen yet, the lap of the first frame completing it.\<close>

fun first_completing :: "Frame list \<Rightarrow> int \<Rightarrow> Frame option" where
  "first_completing [] n = None"
| "first_completing (f # fs) n = (if completes f n then Some f else first_completing fs n)"

lemma first_completing_Some:
  "first_completing fs n = Some f \<Longrightarrow> f \<in> set fs \<and> completes f n"
  by (induction fs) (auto split: if_splits)

lemma completes_unique: "completes f n \<longleftrightarrow> completes f (fLapNumber f - 1) \<and> n = fLapNumber f - 1"
  by (auto simp: completes_def)

lemma extract_loop_spec:
  "\<forall>f \<in> set fs. frame_in64 f \<Longrightarrow>
   \<exists>laps. extract_loop sid seen acc fs = acc @ laps \<and> distinct (map lLapNumber laps)
     \<and> (\<forall>l. l \<in> set laps \<longleftrightarrow> (\<exists>n f. n \<notin> seen \<and> first_completing fs n = Some f \<and> l = lap_of sid f))"
proof (induction fs arbitrary: seen acc)
  case Nil show ?case by simp
next
  case (Cons f fs)
  let ?n = "fLapNumber f - 1"
  show ?case
  proof (cases "completes f ?n \<and> ?n \<notin> seen")
    case True
    from Cons.IH [of "insert ?n seen" "acc @ [lap_of sid f]"] Cons.prems
    obtain laps where laps: "extract_loop sid (insert ?n seen) (acc @ [lap_of sid f]) fs = (acc @ [lap_of sid f]) @ laps"
        "distinct (map lLapNumber laps)"
        "\<forall>l. l \<in> set laps \<longleftrightarrow> (\<exists>n g. n \<notin> insert ?n seen \<and> first_completing fs n = Some g \<and> l = lap_of sid g)"
      by auto
    have fresh: "?n \<notin> lLapNumber ` set laps"
    proof
      assume "?n \<in> lLapNumber ` set laps"
      then obtain n g where "n \<noteq> ?n" "first_completing fs n = Some g" "?n = lLapNumber (lap_of sid g)"
        using laps(3) by auto
      then show False using first_completing_Some [of fs n g] by (auto simp: completes_def lap_of_def)
    qed
    show ?thesis
    proof (intro exI [of _ "lap_of sid f # laps"] conjI allI)
      show "extract_loop sid seen acc (f # fs) = acc @ lap_of sid f # laps"
        using laps(1) True Cons.prems by (simp add: extract_step)
      show "distinct (map lLapNumber (lap_of sid f # laps))"
        using laps(2) fresh by (simp add: lap_of_def)
      fix l show "l \<in> set (lap_of sid f # laps) \<longleftrightarrow>
          (\<exists>n g. n \<notin> seen \<and> first_completing (f # fs) n = Some g \<and> l = lap_of sid g)"
      proof (cases "l = lap_of sid f")
        case t: True
        have "first_completing (f # fs) ?n = Some f" using True by simp
        with t True show ?thesis by auto
      next
        case ne: False
        have "first_completing (f # fs) n = (if n = ?n then Some f else first_completing fs n)" for n
          using True completes_unique [of f n] by auto
        with ne laps(3) show ?thesis by auto
      qed
    qed
  next
    case False
    from Cons.IH [of seen acc] Cons.prems
    obtain laps where laps: "extract_loop sid seen acc fs = acc @ laps" "distinct (map lLapNumber laps)"
        "\<forall>l. l \<in> set laps \<longleftrightarrow> (\<exists>n g. n \<notin> seen \<and> first_completing fs n = Some g \<and> l = lap_of sid g)"
      by auto
    have "first_completing (f # fs) n = first_completing fs n" if "n \<notin> seen" for n
      using False that completes_unique [of f n] by auto
    then have e: "(\<exists>n g. n \<notin> seen \<and> first_completing (f # fs) n = Some g \<and> l = lap_of sid g) \<longleftrightarrow>
        (\<exists>n g. n \<notin> seen \<and> first_completing fs n = Some g \<and> l = lap_of sid g)" for l
      by metis
    have "extract_loop sid seen acc (f # fs) = acc @ laps"
      using laps(1) False Cons.prems by (auto simp: extract_step)
    then show ?thesis unfolding e using laps(2,3) by blast
  qed
qed

lemma extract_completed_spec:
  assumes "\<forall>f \<in> set fs. frame_in64 f" "sid \<noteq> []"
  shows "distinct (map lLapNumber (ExtractCompleted sid fs))"
    and "l \<in> set (ExtractCompleted sid fs) \<longleftrightarrow> (\<exists>n f. first_completing fs n = Some f \<and> l = lap_of sid f)"
  using extract_loop_spec [of fs sid "{}" "[]"] assms by (auto simp: ExtractCompleted_def)

lemma extract_completed_valid:
  assumes "\<forall>f \<in> set fs. frame_in64 f" "\<forall>f \<in> set fs. frame_valid f" "l \<in> set (ExtractCompleted sid fs)"
  shows "lap_Validate l = None \<and> lSessionID l = sid \<and> lID l = NewCompletedLapID sid (lLapNumber l)"
proof -
  have sid: "sid \<noteq> []" using assms(3) by (auto simp: ExtractCompleted_def)
  then obtain n f where f: "first_completing fs n = Some f" "l = lap_of sid f"
    using extract_completed_spec(2) [OF assms(1)] assms(3) by blast
  then have "f \<in> set fs" "completes f n" by (auto dest: first_completing_Some)
  with assms(2) f sid show ?thesis
    by (auto simp: lap_of_def lap_Validate_def completes_def frame_valid_def
      isOptionalInt64NonNegative_def split: option.splits)
qed

lemma lap_withDefaults_id [simp]: "lID lap \<noteq> [] \<Longrightarrow> lap_withDefaults lap = lap"
  by (simp add: lap_withDefaults_def)

lemma lap_id_Nil [simp]: "NewCompletedLapID s n \<noteq> []"
  by (simp add: NewCompletedLapID_def)

lemma lap_withDefaults_idem [simp]: "lap_withDefaults (lap_withDefaults lap) = lap_withDefaults lap"
  by (simp add: lap_withDefaults_def)

lemma lap_withDefaults_sel [simp]:
  "lSessionID (lap_withDefaults lap) = lSessionID lap" "lLapNumber (lap_withDefaults lap) = lLapNumber lap"
  "lTelemetryGapCount (lap_withDefaults lap) = lTelemetryGapCount lap"
  "lLapTimeMs (lap_withDefaults lap) = lLapTimeMs lap"
  by (simp_all add: lap_withDefaults_def Let_def)

section \<open>Properties\<close>

text \<open>Lap identifiers do not collide: two laps share an identifier only if they are the same lap
  of the same session, whatever characters the session id contains.\<close>

theorem lap_id_injective:
  "NewCompletedLapID s m = NewCompletedLapID t n \<longleftrightarrow> s = t \<and> m = n"
proof
  assume "NewCompletedLapID s m = NewCompletedLapID t n"
  then have "s @ CHR ''_'' # itoa m = t @ CHR ''_'' # itoa n" by (simp add: NewCompletedLapID_def)
  then have "s = t \<and> itoa m = itoa n"
    by (intro append_sep_inj [of "CHR ''_''"] underscore_not_itoa)
  then show "s = t \<and> m = n" by (auto dest: itoa_inj)
qed simp

text \<open>C4: Lap extraction: a lap number occurs at most once, and the laps are exactly those of the first
  frame that completes each lap number (first report wins), with its time, instant and best lap.\<close>

theorem extract_completed_correct:
  "sid \<noteq> [] \<Longrightarrow> \<forall>f \<in> set fs. frame_in64 f \<Longrightarrow>
     distinct (map lLapNumber (ExtractCompleted sid fs)) \<and>
     set (ExtractCompleted sid fs) = {lap_of sid f |n f. first_completing fs n = Some f}"
  using extract_completed_spec [of fs sid] by blast

definition lap_frame :: "int \<Rightarrow> int \<Rightarrow> int \<Rightarrow> Frame" where
  "lap_frame ts lap lastMs = (sample_frame ts lap 0)\<lparr>fLastLapMs := Some lastMs\<rparr>"

lemma lap_frame_in64 [simp]: "in64 ts \<Longrightarrow> in64 lap \<Longrightarrow> in64 t \<Longrightarrow> frame_in64 (lap_frame ts lap t)"
  by (simp add: lap_frame_def frame_in64_def sample_frame_def in64_def)

theorem extract_completed_correct_witness:
  "set (ExtractCompleted ''s'' [lap_frame 10 1 90000, lap_frame 20 1 90000, lap_frame 30 2 88000]) =
     {lap_of ''s'' f |n f. first_completing [lap_frame 10 1 90000, lap_frame 20 1 90000, lap_frame 30 2 88000] n = Some f}"
  using extract_completed_correct [of "''s''" "[lap_frame 10 1 90000, lap_frame 20 1 90000, lap_frame 30 2 88000]"]
  by (simp add: in64_def)

end
