(* ===== verification/Gaps.thy ===== *)
theory Gaps
  imports Laps
begin

text \<open>
  \<^verbatim>\<open>internal/laps/gap.go\<close>: how many telemetry gaps a lap has.  A gap is an interval between
  consecutive frames that exceeds four times the median interval (at least 250 ms).  The
  arithmetic is 64-bit: \<open>gap_overflow\<close> shows that the threshold wraps for intervals that the
  validation of the frames does accept, and \<open>gap_count_majority\<close> is the bound without wrap-around.
\<close>

definition telemetryGapFloorMs :: int where "telemetryGapFloorMs = 250"

fun positiveTimestampDeltas :: "Frame list \<Rightarrow> int list" where
  "positiveTimestampDeltas (a # b # frames) =
     (let delta = sub64 (fTimestampUnixMs b) (fTimestampUnixMs a) in
      if delta \<le> 0 then positiveTimestampDeltas (b # frames)
      else delta # positiveTimestampDeltas (b # frames))"
| "positiveTimestampDeltas frames = []"

definition telemetryGapThresholdMs :: "int list \<Rightarrow> int" where
  "telemetryGapThresholdMs values =
    (if values = [] then telemetryGapFloorMs
     else let sorted = sort_slice (<) values; mid = length sorted div 2;
        threshold = (if length sorted mod 2 = 1 then mul64 4 (sorted ! mid)
          else mul64 2 (add64 (sorted ! (mid - 1)) (sorted ! mid)))
      in if threshold < telemetryGapFloorMs then telemetryGapFloorMs else threshold)"

definition frame_earlier :: "Frame \<Rightarrow> Frame \<Rightarrow> bool" where
  "frame_earlier a b = (fTimestampUnixMs a < fTimestampUnixMs b)"

definition CountTelemetryGaps :: "CompletedLap \<Rightarrow> Frame list \<Rightarrow> int" where
  "CountTelemetryGaps lap frames =
    (if frames = [] then 0
     else let lapFrames = filter (\<lambda>f. fLapNumber f = lLapNumber lap) frames in
       if length lapFrames < 2 then 0
       else let lapFrames = sort_slice frame_earlier lapFrames;
                deltas = positiveTimestampDeltas lapFrames in
         if deltas = [] then 0
         else let threshold = telemetryGapThresholdMs deltas
           in int (length (filter (\<lambda>delta. threshold < delta) deltas)))"

interpretation frame_earlier: slice_less frame_earlier UNIV
  by unfold_locales (auto simp: frame_earlier_def)

section \<open>Lemmas\<close>

lemma deltas_pos: "d \<in> set (positiveTimestampDeltas fs) \<Longrightarrow> 0 < d"
  by (induction fs rule: positiveTimestampDeltas.induct) (auto simp: Let_def split: if_splits)

lemma deltas_bound:
  "\<forall>f \<in> set fs. 0 < fTimestampUnixMs f \<and> fTimestampUnixMs f < 2 ^ 61 \<Longrightarrow>
     d \<in> set (positiveTimestampDeltas fs) \<Longrightarrow> d < 2 ^ 61"
proof (induction fs rule: positiveTimestampDeltas.induct)
  case (1 a b frames)
  have "sub64 (fTimestampUnixMs b) (fTimestampUnixMs a) = fTimestampUnixMs b - fTimestampUnixMs a"
    using 1(3) by (intro sub64_pos) (auto simp: in64_def)
  with 1 show ?case by (auto simp: Let_def split: if_splits)
qed simp_all

lemma length_deltas: "length (positiveTimestampDeltas fs) \<le> length fs - 1"
  by (induction fs rule: positiveTimestampDeltas.induct) (auto simp: Let_def)

lemma sort_slice_int: "sort_slice (<) xs = sort xs" for xs :: "int list"
proof (rule int_less.ordered_unique)
  show "int_less.ordered (sort_slice (<) xs)" by (rule int_less.ordered_sort_slice) simp
  show "int_less.ordered (sort xs)" by (simp add: int_less.ordered_def not_less)
qed auto

text \<open>Values above the element in the middle of a sorted list are fewer than half of it.\<close>

lemma above_middle:
  fixes xs :: "int list"
  assumes "sorted xs" "k < length xs" "xs ! k \<le> t"
  shows "length (filter (\<lambda>x. t < x) xs) \<le> length xs - Suc k"
proof -
  have "filter (\<lambda>x. t < x) (take (Suc k) xs) = []"
    using assms by (auto simp: filter_empty_conv in_set_conv_nth sorted_iff_nth_mono)
      (smt (verit) less_Suc_eq_le sorted_iff_nth_mono)
  then have "filter (\<lambda>x. t < x) xs = filter (\<lambda>x. t < x) (drop (Suc k) xs)"
    by (metis append_Nil append_take_drop_id filter_append)
  then show ?thesis using length_filter_le [of "\<lambda>x. t < x" "drop (Suc k) xs"] by simp
qed

lemma threshold_ge_middle:
  assumes "values \<noteq> []" "\<forall>v \<in> set values. 0 < v \<and> v < 2 ^ 61"
  shows "sort values ! (length values div 2) \<le> telemetryGapThresholdMs values"
    and "telemetryGapFloorMs \<le> telemetryGapThresholdMs values"
proof -
  let ?s = "sort values" and ?m = "length values div 2"
  have "0 < length values" using assms(1) by simp
  then have m: "?m < length values" "?m - 1 < length values" by arith+
  then have "?s ! ?m \<in> set values" "?s ! (?m - 1) \<in> set values"
    by (metis length_sort nth_mem set_sort)+
  with assms(2) have b: "0 < ?s ! ?m" "?s ! ?m < 2 ^ 61" "0 < ?s ! (?m - 1)" "?s ! (?m - 1) < 2 ^ 61"
    by auto
  then have "mul64 4 (?s ! ?m) = 4 * (?s ! ?m)" "add64 (?s ! (?m - 1)) (?s ! ?m) = ?s ! (?m - 1) + ?s ! ?m"
    by (auto intro!: mul64_id add64_id simp: in64_def)
  moreover have "mul64 2 (?s ! (?m - 1) + ?s ! ?m) = 2 * (?s ! (?m - 1) + ?s ! ?m)"
    by (rule mul64_id) (use b in \<open>auto simp: in64_def\<close>)
  ultimately show "?s ! ?m \<le> telemetryGapThresholdMs values"
      "telemetryGapFloorMs \<le> telemetryGapThresholdMs values"
    using b assms(1) by (auto simp: telemetryGapThresholdMs_def sort_slice_int Let_def)
qed

section \<open>Properties\<close>

text \<open>Gaps are the exception: with timestamps below \<open>2 ^ 61\<close> (no wrap-around) the gaps counted
  for a lap are at most half as many as the frames, because the threshold is never below the
  median interval.\<close>

theorem gap_count_majority:
  assumes "list_all (\<lambda>f. 0 < fTimestampUnixMs f \<and> fTimestampUnixMs f < 2 ^ 61) frames"
  shows "0 \<le> CountTelemetryGaps lap frames \<and> 2 * CountTelemetryGaps lap frames \<le> int (length frames)"
proof -
  define lf where "lf = sort_slice frame_earlier (filter (\<lambda>f. fLapNumber f = lLapNumber lap) frames)"
  define ds where "ds = positiveTimestampDeltas lf"
  have len: "length lf \<le> length frames" by (simp add: lf_def)
  have b: "\<forall>v \<in> set ds. 0 < v \<and> v < 2 ^ 61"
    using deltas_pos deltas_bound [of lf] assms by (auto simp: ds_def lf_def list_all_iff)
  have "2 * length (filter (\<lambda>d. telemetryGapThresholdMs ds < d) ds) \<le> length frames" if "ds \<noteq> []"
  proof -
    have "mset (filter (\<lambda>d. telemetryGapThresholdMs ds < d) ds) =
        mset (filter (\<lambda>d. telemetryGapThresholdMs ds < d) (sort ds))" by simp
    then have "length (filter (\<lambda>d. telemetryGapThresholdMs ds < d) ds) =
        length (filter (\<lambda>d. telemetryGapThresholdMs ds < d) (sort ds))" by (metis size_mset)
    also have "\<dots> \<le> length ds - Suc (length ds div 2)"
      using above_middle [of "sort ds" "length ds div 2"] threshold_ge_middle(1) [OF that b] that by simp
    finally show ?thesis using length_deltas [of lf] len by (simp add: ds_def)
  qed
  then show ?thesis
    by (auto simp: CountTelemetryGaps_def Let_def simp flip: lf_def ds_def)
qed

theorem gap_count_majority_witness:
  "2 * CountTelemetryGaps (lap_of ''s'' (lap_frame 1 1 90000))
     (map (\<lambda>t. sample_frame t 0 0) [1000, 1050, 1100, 1150, 9000, 9050, 9100]) \<le> 7"
  using gap_count_majority [of "map (\<lambda>t. sample_frame t 0 0) [1000, 1050, 1100, 1150, 9000, 9050, 9100]"
    "lap_of ''s'' (lap_frame 1 1 90000)"] by simp

text \<open>The threshold wraps around: two frames that both pass validation, \<open>2 ^ 62\<close> milliseconds
  apart, make the single interval of the lap its own median, which can never exceed four times
  itself; the 64-bit product is zero, and the interval is counted as a gap.\<close>

theorem gap_overflow:
  "frame_valid (sample_frame 1 0 0) \<and> frame_valid (sample_frame (2 ^ 62 + 1) 0 0)
   \<and> consistent (sample_frame 1 0 0) (sample_frame (2 ^ 62 + 1) 0 0)
   \<and> CountTelemetryGaps (lap_of ''s'' (lap_frame 1 1 90000)) [sample_frame 1 0 0, sample_frame (2 ^ 62 + 1) 0 0] = 1"
  by (simp add: consistent_def CountTelemetryGaps_def frame_earlier_def lap_of_def lap_frame_def
    telemetryGapThresholdMs_def telemetryGapFloorMs_def mul64_def sub64_def wrap64_def)

end
