(* ===== verification/LapSamples.thy ===== *)
theory LapSamples
  imports Laps
begin

text \<open>
  \<^verbatim>\<open>internal/laps/sample.go\<close>: resampling a lap by distance.  \<open>BuildLapSamples\<close> keeps the
  frames of the lap, orders them by time, requires every frame to carry a finite, non-negative,
  non-decreasing lap distance, collapses frames at the same distance, and interpolates a sample at
  every multiple of the step.  Its outcome says what Go does: a panic of \<^verbatim>\<open>make\<close> when the
  capacity computed from the last distance is not allocatable, a loop that does not end
  (\<open>SamplesDiverge\<close>, shown impossible), no samples, or the samples.
\<close>

section \<open>Data\<close>

definition DefaultSampleStepMeters :: int where "DefaultSampleStepMeters = 5"

datatype sample_err = ErrMissingLapID | ErrInvalidSampleDistance | ErrInvalidSampleSource
  | ErrInvalidSampleTimestamp | ErrInvalidSampleBucket

record LapSample =
  saID :: string
  saLapID :: string
  saDistanceMeters :: int
  saSource :: string
  saTimestampUnixMs :: "int option"
  saSpeedMps :: "f64 option"
  saRPM :: "f64 option"
  saGear :: "int option"
  saThrottle :: "f64 option"
  saBrake :: "f64 option"
  saSteering :: "f64 option"
  saFuelLiters :: "f64 option"
  saYawRadians :: "f64 option"
  saYawRate :: "f64 option"
  saWheelSpeedFL :: "f64 option"
  saWheelSpeedFR :: "f64 option"
  saWheelSpeedRL :: "f64 option"
  saWheelSpeedRR :: "f64 option"

definition NewLapSampleID :: "string \<Rightarrow> int \<Rightarrow> string" where
  "NewLapSampleID lapID distanceMeters = ''lap_sample_'' @ lapID @ ''_'' @ itoa distanceMeters"

definition sample_Validate :: "LapSample \<Rightarrow> sample_err option" where
  "sample_Validate sample =
    (if saLapID sample = [] then Some ErrMissingLapID
     else if saDistanceMeters sample < 0 then Some ErrInvalidSampleDistance
     else if saDistanceMeters sample mod DefaultSampleStepMeters \<noteq> 0 then Some ErrInvalidSampleBucket
     else if saSource sample = [] then Some ErrInvalidSampleSource
     else if (case saTimestampUnixMs sample of None \<Rightarrow> False | Some t \<Rightarrow> t \<le> 0) then Some ErrInvalidSampleTimestamp
     else None)"

definition sample_withDefaults :: "LapSample \<Rightarrow> LapSample" where
  "sample_withDefaults sample =
    (if saID sample = [] \<and> saLapID sample \<noteq> [] \<and> saDistanceMeters sample \<ge> 0
     then sample\<lparr>saID := NewLapSampleID (saLapID sample) (saDistanceMeters sample)\<rparr> else sample)"

section \<open>Interpolation\<close>

text \<open>The lap distance of a frame; every frame reaching this has been checked to have one.\<close>

definition lap_distance :: "Frame \<Rightarrow> f64" where
  "lap_distance f = (case fLapDistanceMeters f of None \<Rightarrow> FNaN | Some d \<Rightarrow> d)"

definition interpolationRatio :: "f64 \<Rightarrow> Frame \<Rightarrow> Frame \<Rightarrow> f64" where
  "interpolationRatio distance left right =
    (let ld = lap_distance left; rd = lap_distance right in
     if feq rd ld then Fin 0 else fdiv (fsub distance ld) (fsub rd ld))"

definition interpolateFloat64 :: "f64 \<Rightarrow> f64 \<Rightarrow> f64 \<Rightarrow> f64" where
  "interpolateFloat64 left right ratio = fadd left (fmul (fsub right left) ratio)"

definition interpolateOptionalFloat64 :: "f64 option \<Rightarrow> f64 option \<Rightarrow> f64 \<Rightarrow> f64 option" where
  "interpolateOptionalFloat64 left right ratio =
    (if fle ratio (Fin 0) then left
     else if fle (Fin 1) ratio then right
     else case (left, right) of (Some l, Some r) \<Rightarrow> Some (interpolateFloat64 l r ratio) | _ \<Rightarrow> None)"

definition interpolateInt64Ptr :: "int \<Rightarrow> int \<Rightarrow> f64 \<Rightarrow> int option" where
  "interpolateInt64Ptr left right ratio =
    Some (f_to_int64 (fround (fadd (f_of_int left) (fmul (fsub (f_of_int right) (f_of_int left)) ratio))))"

definition nearestGear :: "int \<Rightarrow> int \<Rightarrow> f64 \<Rightarrow> int" where
  "nearestGear left right ratio = (if flt ratio (Fin (1 / 2)) then left else right)"

definition interpolateSample :: "string \<Rightarrow> int \<Rightarrow> Frame \<Rightarrow> Frame \<Rightarrow> LapSample" where
  "interpolateSample lapID distanceMeters left right =
    (let ratio = interpolationRatio (f_of_int distanceMeters) left right in
     sample_withDefaults
      \<lparr>saID = [], saLapID = lapID, saDistanceMeters = distanceMeters, saSource = ''explicit_lap_distance'',
       saTimestampUnixMs = interpolateInt64Ptr (fTimestampUnixMs left) (fTimestampUnixMs right) ratio,
       saSpeedMps = Some (interpolateFloat64 (fSpeedMps left) (fSpeedMps right) ratio),
       saRPM = Some (interpolateFloat64 (fRPM left) (fRPM right) ratio),
       saGear = Some (nearestGear (fGear left) (fGear right) ratio),
       saThrottle = Some (interpolateFloat64 (fThrottle left) (fThrottle right) ratio),
       saBrake = Some (interpolateFloat64 (fBrake left) (fBrake right) ratio),
       saSteering = Some (interpolateFloat64 (fSteering left) (fSteering right) ratio),
       saFuelLiters = Some (interpolateFloat64 (fFuelLiters left) (fFuelLiters right) ratio),
       saYawRadians = interpolateOptionalFloat64 (fYawRadians left) (fYawRadians right) ratio,
       saYawRate = interpolateOptionalFloat64 (fYawRate left) (fYawRate right) ratio,
       saWheelSpeedFL = interpolateOptionalFloat64 (fWheelSpeedFL left) (fWheelSpeedFL right) ratio,
       saWheelSpeedFR = interpolateOptionalFloat64 (fWheelSpeedFR left) (fWheelSpeedFR right) ratio,
       saWheelSpeedRL = interpolateOptionalFloat64 (fWheelSpeedRL left) (fWheelSpeedRL right) ratio,
       saWheelSpeedRR = interpolateOptionalFloat64 (fWheelSpeedRR left) (fWheelSpeedRR right) ratio\<rparr>)"

section \<open>Sampling a lap\<close>

text \<open>The last frame at a distance wins.\<close>

fun collapse_loop :: "Frame list \<Rightarrow> Frame list \<Rightarrow> Frame list" where
  "collapse_loop collapsed [] = collapsed"
| "collapse_loop collapsed (f # fs) =
    (if feq (lap_distance f) (lap_distance (last collapsed))
     then collapse_loop (butlast collapsed @ [f]) fs else collapse_loop (collapsed @ [f]) fs)"

definition collapseDuplicateDistanceFrames :: "Frame list \<Rightarrow> Frame list" where
  "collapseDuplicateDistanceFrames frames = (case frames of [] \<Rightarrow> [] | f # fs \<Rightarrow> collapse_loop [f] fs)"

fun bracketFrames :: "Frame list \<Rightarrow> f64 \<Rightarrow> (Frame \<times> Frame) option" where
  "bracketFrames [] distance = None"
| "bracketFrames [lst] distance = (if feq distance (lap_distance lst) then Some (lst, lst) else None)"
| "bracketFrames (left # right # frames) distance =
    (let ld = lap_distance left; rd = lap_distance right in
     if feq distance ld then Some (left, left)
     else if fle ld distance \<and> fle distance rd \<and> flt ld rd then Some (left, right)
     else bracketFrames (right # frames) distance)"

fun distances_ok :: "Frame option \<Rightarrow> Frame list \<Rightarrow> bool" where
  "distances_ok prev [] = True"
| "distances_ok prev (f # fs) =
    (case fLapDistanceMeters f of
       None \<Rightarrow> False
     | Some d \<Rightarrow>
       if isNaN d \<or> isInf0 d \<or> flt d (Fin 0) then False
       else (case prev of None \<Rightarrow> distances_ok (Some f) fs
         | Some p \<Rightarrow> if flt d (lap_distance p) then False else distances_ok (Some f) fs))"

fun bucket_loop :: "nat \<Rightarrow> string \<Rightarrow> Frame list \<Rightarrow> f64 \<Rightarrow> f64 \<Rightarrow> int \<Rightarrow> int \<Rightarrow> LapSample list \<Rightarrow> LapSample list option" where
  "bucket_loop 0 lapID frames first lst step bucket samples = None"
| "bucket_loop (Suc fuel) lapID frames first lst step bucket samples =
    (if \<not> fle (f_of_int bucket) lst then Some samples
     else if flt (f_of_int bucket) first
       then bucket_loop fuel lapID frames first lst step (add64 bucket step) samples
     else case bracketFrames frames (f_of_int bucket) of
       None \<Rightarrow> bucket_loop fuel lapID frames first lst step (add64 bucket step) samples
     | Some (left, right) \<Rightarrow> bucket_loop fuel lapID frames first lst step (add64 bucket step)
         (samples @ [interpolateSample lapID bucket left right]))"

datatype sample_outcome = SamplesPanic | SamplesDiverge | SamplesNone | Samples "LapSample list"

text \<open>
  \<^verbatim>\<open>make([]LapSample, 0, n)\<close> panics when \<open>n\<close> is negative or the slice exceeds the address
  space; a \<^verbatim>\<open>LapSample\<close> has 168 bytes and amd64 allocates at most \<open>2 ^ 48\<close>.
\<close>

definition make_panics :: "int \<Rightarrow> bool" where
  "make_panics n = (n < 0 \<or> 2 ^ 48 < n * 168)"

definition BuildLapSamples :: "CompletedLap \<Rightarrow> Frame list \<Rightarrow> int \<Rightarrow> sample_outcome" where
  "BuildLapSamples lap frames stepMeters =
    (if stepMeters \<le> 0 \<or> lID lap = [] then SamplesNone
     else let lapFrames = filter (\<lambda>f. fLapNumber f = lLapNumber lap) frames in
       if length lapFrames < 2 then SamplesNone
       else let lapFrames = sort_slice (\<lambda>a b. fTimestampUnixMs a < fTimestampUnixMs b) lapFrames in
         if \<not> distances_ok None lapFrames then SamplesNone
         else let lapFrames = collapseDuplicateDistanceFrames lapFrames in
           if length lapFrames < 2 then SamplesNone
           else let firstDistance = lap_distance (hd lapFrames);
                    lastDistance = lap_distance (last lapFrames) in
             if fle lastDistance firstDistance then SamplesNone
             else let n = add64 (div64 (f_to_int64 lastDistance) stepMeters) 1 in
               if make_panics n then SamplesPanic
               else case bucket_loop (nat n + 1) (lID lap) lapFrames firstDistance lastDistance stepMeters 0 [] of
                   None \<Rightarrow> SamplesDiverge
                 | Some samples \<Rightarrow> if samples = [] then SamplesNone else Samples samples)"

definition sample_less :: "LapSample \<Rightarrow> LapSample \<Rightarrow> bool" where
  "sample_less a b = (if saDistanceMeters a = saDistanceMeters b then saID a < saID b
     else saDistanceMeters a < saDistanceMeters b)"

definition sortByDistance :: "LapSample list \<Rightarrow> LapSample list" where
  "sortByDistance samples = sort_slice sample_less samples"

definition cloneSamples :: "LapSample list \<Rightarrow> LapSample list" where
  "cloneSamples samples = map sample_withDefaults samples"

interpretation frame_by_time: slice_less "\<lambda>a b. fTimestampUnixMs a < fTimestampUnixMs b" UNIV
  by unfold_locales auto

interpretation sample_less: slice_less sample_less UNIV
  by unfold_locales (auto simp: sample_less_def split: if_splits)

section \<open>Distances\<close>

abbreviation dv :: "Frame \<Rightarrow> rat" where "dv f \<equiv> fval (lap_distance f)"

definition placed :: "Frame \<Rightarrow> bool" where
  "placed f = (is_fin (lap_distance f) \<and> 0 \<le> dv f)"

lemma distances_ok_Cons:
  "distances_ok prev (f # fs) \<longleftrightarrow> placed f \<and>
     (case prev of None \<Rightarrow> True | Some p \<Rightarrow> \<not> flt (lap_distance f) (lap_distance p)) \<and> distances_ok (Some f) fs"
proof (cases "fLapDistanceMeters f")
  case (Some d)
  have "is_fin d \<and> \<not> flt d (Fin 0) \<longleftrightarrow> is_fin d \<and> 0 \<le> fval d" by (auto simp: not_less)
  with Some show ?thesis by (auto simp: placed_def lap_distance_def is_fin_iff split: option.splits)
qed (simp add: placed_def lap_distance_def)

declare distances_ok.simps(2) [simp del]

lemma distances_ok_sorted:
  "distances_ok (Some p) fs \<Longrightarrow> placed p \<Longrightarrow> list_all placed fs \<and> sorted (map dv (p # fs))"
proof (induction fs arbitrary: p)
  case (Cons f fs)
  then have f: "placed f" "dv p \<le> dv f" and rest: "distances_ok (Some f) fs"
    by (auto simp: distances_ok_Cons placed_def)
  from Cons.IH [OF rest f(1)] have "list_all placed fs" "sorted (map dv (f # fs))" by auto
  then show ?case using f by (auto simp: list_all_iff intro: order_trans)
qed simp

lemma distances_ok_None:
  "distances_ok None fs \<Longrightarrow> list_all placed fs \<and> sorted (map dv fs)"
  by (cases fs) (auto simp: distances_ok_Cons dest!: distances_ok_sorted)

lemma collapse_loop_spec:
  "acc \<noteq> [] \<Longrightarrow> list_all placed (acc @ fs) \<Longrightarrow> sorted_wrt (<) (map dv acc) \<Longrightarrow> sorted (map dv (last acc # fs)) \<Longrightarrow>
     sorted_wrt (<) (map dv (collapse_loop acc fs)) \<and> set (collapse_loop acc fs) \<subseteq> set acc \<union> set fs \<and>
     dv (hd (collapse_loop acc fs)) = dv (hd acc) \<and> collapse_loop acc fs \<noteq> []"
proof (induction acc fs rule: collapse_loop.induct)
  case (2 acc f fs)
  obtain as a where acc: "acc = as @ [a]" using "2.prems"(1) by (metis rev_exhaust)
  have fin: "is_fin (lap_distance f)" "is_fin (lap_distance a)"
    using "2.prems"(2) by (auto simp: acc placed_def)
  have le: "dv a \<le> dv f" using "2.prems"(4) by (simp add: acc)
  show ?case
  proof (cases "dv f = dv a")
    case True
    then have eq: "feq (lap_distance f) (lap_distance (last acc))" using fin by (simp add: acc)
    have s: "sorted_wrt (<) (map dv (butlast acc @ [f]))" using "2.prems"(3) True by (simp add: acc sorted_wrt_append)
    have "dv (hd (butlast acc @ [f])) = dv (hd acc)" using True by (cases as) (auto simp: acc)
    with "2.IH"(1) [OF eq] "2.prems" s True eq show ?thesis by (auto simp: acc)
  next
    case False
    then have ne: "\<not> feq (lap_distance f) (lap_distance (last acc))" using fin by (simp add: acc)
    have "\<forall>x \<in> set as. dv x < dv a" using "2.prems"(3) by (auto simp: acc sorted_wrt_append)
    then have "sorted_wrt (<) (map dv (acc @ [f]))"
      using "2.prems"(3) False le by (auto simp: acc sorted_wrt_append)
    with "2.IH"(2) [OF ne] "2.prems" ne show ?thesis by (cases as) (auto simp: acc)
  qed
qed auto

lemma collapse_spec:
  assumes "distances_ok None fs"
  shows "sorted_wrt (<) (map dv (collapseDuplicateDistanceFrames fs))"
    and "set (collapseDuplicateDistanceFrames fs) \<subseteq> set fs"
    and "list_all placed (collapseDuplicateDistanceFrames fs)"
proof -
  note ok = distances_ok_None [OF assms]
  show "sorted_wrt (<) (map dv (collapseDuplicateDistanceFrames fs))"
    and sub: "set (collapseDuplicateDistanceFrames fs) \<subseteq> set fs"
    using ok collapse_loop_spec [of "[hd fs]" "tl fs"]
    by (cases fs; auto simp: collapseDuplicateDistanceFrames_def)+
  show "list_all placed (collapseDuplicateDistanceFrames fs)"
    using ok sub by (auto simp: list_all_iff)
qed

text \<open>Every distance between the first and the last frame is bracketed by neighbouring frames.\<close>

definition brackets :: "Frame list \<Rightarrow> f64 \<Rightarrow> Frame \<Rightarrow> Frame \<Rightarrow> bool" where
  "brackets frames d left right \<longleftrightarrow> left \<in> set frames \<and> right \<in> set frames \<and>
     dv left \<le> fval d \<and> fval d \<le> dv right \<and> (left = right \<or> dv left < dv right)"

lemma bracketFrames_total:
  assumes "frames \<noteq> []" "list_all placed frames" "sorted_wrt (<) (map dv frames)" "is_fin d"
    and "dv (hd frames) \<le> fval d" "fval d \<le> dv (last frames)"
  shows "\<exists>l r. bracketFrames frames d = Some (l, r) \<and> brackets frames d l r"
  using assms
proof (induction frames d rule: bracketFrames.induct)
  case (2 lst d)
  then show ?case by (auto simp: placed_def brackets_def)
next
  case (3 left right frames d)
  have fin: "is_fin (lap_distance left)" "is_fin (lap_distance right)" and lt: "dv left < dv right"
    using "3.prems" by (auto simp: placed_def)
  consider "fval d = dv left" | "dv left < fval d" "fval d \<le> dv right" | "dv right < fval d"
    using "3.prems"(5) by force
  then show ?case
  proof cases
    case 1 then show ?thesis using fin "3.prems"(4) by (simp add: brackets_def)
  next
    case 2 then show ?thesis using fin lt "3.prems"(4) by (simp add: brackets_def)
  next
    case 3
    then have "\<exists>l r. bracketFrames (right # frames) d = Some (l, r) \<and> brackets (right # frames) d l r"
      using "3.prems" fin lt by (intro "3.IH") auto
    with 3 fin lt "3.prems"(4) show ?thesis by (auto simp: brackets_def)
  qed
qed simp

section \<open>The loop over the buckets\<close>

definition sample_at :: "string \<Rightarrow> Frame list \<Rightarrow> f64 \<Rightarrow> int \<Rightarrow> LapSample option" where
  "sample_at lapID frames first bucket =
    (if flt (f_of_int bucket) first then None
     else map_option (\<lambda>(l, r). interpolateSample lapID bucket l r) (bracketFrames frames (f_of_int bucket)))"

lemma bucket_loop_spec:
  assumes "0 < step" "0 \<le> bucket" "bucket + int m * step \<le> 2 ^ 53" "is_fin lst"
    and "\<And>i. i < m \<Longrightarrow> of_int (bucket + int i * step) \<le> fval lst"
    and "fval lst < of_int (bucket + int m * step)"
  shows "bucket_loop (Suc m) lapID frames first lst step bucket samples =
    Some (samples @ List.map_filter (sample_at lapID frames first) (map (\<lambda>i. bucket + int i * step) [0..<m]))"
  using assms
proof (induction m arbitrary: bucket samples)
  case 0
  then show ?case by (simp add: f_of_int_exact map_filter_simps not_le)
next
  case (Suc m)
  have b: "bucket + step \<le> 2 ^ 53"
  proof -
    have "step * 1 \<le> step * int (Suc m)" using Suc.prems(1) by (intro mult_left_mono) auto
    then show ?thesis using Suc.prems(2,3) by (simp add: mult.commute)
  qed
  have add: "add64 bucket step = bucket + step" using Suc.prems(1,2) b by (simp add: add64_id in64_def)
  have fle: "fle (f_of_int bucket) lst"
    using Suc.prems(1,2,4) Suc.prems(5) [of 0] b by (simp add: f_of_int_exact)
  have upt: "map (\<lambda>i. bucket + int i * step) [0..<Suc m] =
      bucket # map (\<lambda>i. bucket + step + int i * step) [0..<m]"
    unfolding upt_conv_Cons [OF zero_less_Suc] map_Suc_upt [symmetric] by (simp add: algebra_simps)
  have "bucket_loop (Suc m) lapID frames first lst step (bucket + step) smp =
     Some (smp @ List.map_filter (sample_at lapID frames first) (map (\<lambda>i. bucket + step + int i * step) [0..<m]))" for smp
  proof (rule Suc.IH)
    fix i assume "i < m"
    then show "of_int (bucket + step + int i * step) \<le> fval lst"
      using Suc.prems(5) [of "Suc i"] by (simp add: algebra_simps)
  qed (use Suc.prems in \<open>auto simp: algebra_simps\<close>)
  note ih = this
  show ?case
  proof (cases "sample_at lapID frames first bucket")
    case None
    then have "bucket_loop (Suc (Suc m)) lapID frames first lst step bucket samples =
        bucket_loop (Suc m) lapID frames first lst step (bucket + step) samples"
      unfolding bucket_loop.simps(2) [of "Suc m"] add
      using fle by (auto simp: sample_at_def simp del: bucket_loop.simps split: if_splits)
    then show ?thesis unfolding ih upt using None by (simp add: map_filter_simps)
  next
    case (Some smp)
    then obtain l r where b: "\<not> flt (f_of_int bucket) first" "bracketFrames frames (f_of_int bucket) = Some (l, r)"
        "smp = interpolateSample lapID bucket l r"
      by (auto simp: sample_at_def split: if_splits)
    then have "bucket_loop (Suc (Suc m)) lapID frames first lst step bucket samples =
        bucket_loop (Suc m) lapID frames first lst step (bucket + step) (samples @ [smp])"
      unfolding bucket_loop.simps(2) [of "Suc m"] add
      using fle by (simp del: bucket_loop.simps)
    then show ?thesis unfolding ih upt using Some by (simp add: map_filter_simps)
  qed
qed

section \<open>The outcome of sampling a lap\<close>

text \<open>The frames that are interpolated: those of the lap, by time, one per distance.\<close>

definition lap_curve :: "CompletedLap \<Rightarrow> Frame list \<Rightarrow> Frame list" where
  "lap_curve lap frames = collapseDuplicateDistanceFrames
    (sort_slice (\<lambda>a b. fTimestampUnixMs a < fTimestampUnixMs b) (filter (\<lambda>f. fLapNumber f = lLapNumber lap) frames))"

lemma div_le_self: "0 \<le> a \<Longrightarrow> 0 < b \<Longrightarrow> a div b \<le> (a :: int)"
  using zdiv_mono2 [of a 1 b] by simp

lemma capacity_bounds:
  assumes "is_fin d" "0 \<le> fval d" "0 < step" "step \<le> 1000"
    and "\<not> make_panics (add64 (div64 (f_to_int64 d) step) 1)"
  shows "f_to_int64 d = \<lfloor>fval d\<rfloor>" and "add64 (div64 (f_to_int64 d) step) 1 = \<lfloor>fval d\<rfloor> div step + 1"
    and "(\<lfloor>fval d\<rfloor> div step + 1) * step \<le> 2 ^ 53" and "0 \<le> \<lfloor>fval d\<rfloor> div step"
proof -
  let ?T = "\<lfloor>fval d\<rfloor>"
  have T: "0 \<le> ?T" using assms(2) by simp
  have lt: "?T < 2 ^ 63"
  proof (rule ccontr)
    assume "\<not> ?T < 2 ^ 63"
    then have "f_to_int64 d = - (2 ^ 63)" using assms(2) by (simp add: f_to_int64_def rat_trunc_def)
    moreover define q :: int where "q = 2 ^ 63 div step"
    moreover have "2 ^ 63 div 1000 \<le> q" "q \<le> 2 ^ 63"
      unfolding q_def using assms(3,4) by (intro zdiv_mono2 div_le_self; simp)+
    ultimately have "add64 (div64 (f_to_int64 d) step) 1 = - q + 1" "1 < q"
      by (auto simp: div64_def add64_id in64_def)
    with assms(5) show False by (simp add: make_panics_def)
  qed
  then show t: "f_to_int64 d = ?T" using assms(1,2) T by (simp add: f_to_int64_def rat_trunc_def)
  have q: "0 \<le> ?T div step" "?T div step \<le> ?T"
    using T assms(3) by (auto intro: div_le_self simp: pos_imp_zdiv_nonneg_iff)
  then show "0 \<le> ?T div step" by simp
  have "?T div step < 2 ^ 63 - 1 \<or> ?T = 2 ^ 63 - 1 \<and> ?T div step = 2 ^ 63 - 1" using q lt by linarith
  then have n: "add64 (div64 (f_to_int64 d) step) 1 = (if ?T div step < 2 ^ 63 - 1 then ?T div step + 1 else - (2 ^ 63))"
    using q T lt unfolding t by (auto simp: div64_def add64_id in64_def) (simp add: add64_def wrap64_def)
  with assms(5) show n: "add64 (div64 (f_to_int64 d) step) 1 = ?T div step + 1"
    by (auto simp: make_panics_def split: if_splits)
  have "?T div step + 1 \<le> 2 ^ 43" using assms(5) unfolding n make_panics_def by auto
  then have "(?T div step + 1) * step \<le> 2 ^ 43 * 1000" using assms(3,4) q by (intro mult_mono) auto
  then show "(?T div step + 1) * step \<le> 2 ^ 53" by simp
qed

lemma bucket_mem:
  assumes "0 < step" "0 \<le> T"
  shows "b \<in> set (map (\<lambda>i. int i * step) [0..<nat (T div step + 1)]) \<longleftrightarrow> 0 \<le> b \<and> b mod step = 0 \<and> b \<le> T"
proof
  assume "b \<in> set (map (\<lambda>i. int i * step) [0..<nat (T div step + 1)])"
  then have "b \<in> (\<lambda>i. int i * step) ` {0..<nat (T div step + 1)}" by (simp only: set_map set_upt)
  then obtain i where i: "b = int i * step" "i \<in> {0..<nat (T div step + 1)}" by (rule imageE)
  then have "int i < T div step + 1" unfolding atLeastLessThan_iff by linarith
  then have "int i * step \<le> T div step * step" using assms(1) by (intro mult_right_mono) auto
  also have "\<dots> \<le> T" using assms(1) div_mult_mod_eq [of T step] pos_mod_sign [of step T] by linarith
  finally show "0 \<le> b \<and> b mod step = 0 \<and> b \<le> T" using i assms(1) by simp
next
  assume b: "0 \<le> b \<and> b mod step = 0 \<and> b \<le> T"
  then have "b = int (nat (b div step)) * step" using assms(1) div_mult_mod_eq [of b step]
    by (simp add: pos_imp_zdiv_nonneg_iff)
  moreover have "b div step \<le> T div step" using b assms(1) by (intro zdiv_mono1) auto
  ultimately show "b \<in> set (map (\<lambda>i. int i * step) [0..<nat (T div step + 1)])" using b assms
    by (auto simp: pos_imp_zdiv_nonneg_iff nat_less_iff intro!: image_eqI [of _ _ "nat (b div step)"])
qed

lemma bucket_top: "0 < step \<Longrightarrow> T < (T div step + 1) * (step :: int)"
  using div_mult_mod_eq [of T step] pos_mod_bound [of step T] unfolding distrib_right by linarith

lemma lap_loop:
  assumes "0 < step" "step \<le> 1000" "is_fin d" "0 \<le> fval d"
    and "\<not> make_panics (add64 (div64 (f_to_int64 d) step) 1)"
  shows "bucket_loop (nat (add64 (div64 (f_to_int64 d) step) 1) + 1) lapID frames first d step 0 [] =
      Some (List.map_filter (sample_at lapID frames first) (map (\<lambda>i. int i * step) [0..<nat (\<lfloor>fval d\<rfloor> div step + 1)]))"
    and "(\<lfloor>fval d\<rfloor> div step + 1) * step \<le> 2 ^ 53"
proof -
  let ?T = "\<lfloor>fval d\<rfloor>"
  let ?n = "nat (?T div step + 1)"
  note cb = capacity_bounds [OF assms(3,4,1,2,5)]
  have T: "0 \<le> ?T" using assms(4) by simp
  have n: "int ?n = ?T div step + 1" using cb(4) by simp
  have "bucket_loop (Suc ?n) lapID frames first d step 0 [] =
      Some ([] @ List.map_filter (sample_at lapID frames first) (map (\<lambda>i. 0 + int i * step) [0..<?n]))"
  proof (rule bucket_loop_spec)
    show "0 + int ?n * step \<le> 2 ^ 53" using cb(3) by (simp add: n)
    fix i assume "i < ?n"
    then have "int i * step \<in> set (map (\<lambda>i. int i * step) [0..<?n])" by auto
    then have "int i * step \<le> ?T" unfolding bucket_mem [OF assms(1) T] by simp
    then show "of_int (0 + int i * step) \<le> fval d" by (simp add: le_floor_iff)
  next
    show "fval d < of_int (0 + int ?n * step)"
      unfolding n using bucket_top [OF assms(1), of ?T] by (simp add: floor_less_iff)
  qed (use assms in auto)
  then show "bucket_loop (nat (add64 (div64 (f_to_int64 d) step) 1) + 1) lapID frames first d step 0 [] =
      Some (List.map_filter (sample_at lapID frames first) (map (\<lambda>i. int i * step) [0..<?n]))"
    using cb by simp
  show "(?T div step + 1) * step \<le> 2 ^ 53" by (rule cb(3))
qed

lemma BuildLapSamples_cases:
  fixes lap :: CompletedLap and fs :: "Frame list" and step :: int
  assumes "0 < step" "step \<le> 1000"
  defines "frames \<equiv> lap_curve lap fs"
  defines "n \<equiv> nat (\<lfloor>dv (last frames)\<rfloor> div step + 1)"
  defines "ss \<equiv> List.map_filter (sample_at (lID lap) frames (lap_distance (hd frames))) (map (\<lambda>i. int i * step) [0..<n])"
  shows "BuildLapSamples lap fs step \<noteq> SamplesDiverge"
    and "BuildLapSamples lap fs step = Samples xs \<Longrightarrow> xs = ss \<and> xs \<noteq> [] \<and> 2 \<le> length frames \<and>
      list_all placed frames \<and> sorted_wrt (<) (map dv frames) \<and> set frames \<subseteq> set fs \<and>
      (\<lfloor>dv (last frames)\<rfloor> div step + 1) * step \<le> 2 ^ 53"
proof -
  let ?sorted = "sort_slice (\<lambda>a b. fTimestampUnixMs a < fTimestampUnixMs b) (filter (\<lambda>f. fLapNumber f = lLapNumber lap) fs)"
  let ?d = "lap_distance (last frames)"
  have loop: "bucket_loop (nat (add64 (div64 (f_to_int64 ?d) step) 1) + 1) (lID lap) frames first ?d step 0 [] =
        Some (List.map_filter (sample_at (lID lap) frames first) (map (\<lambda>i. int i * step) [0..<n])) \<and>
      (\<lfloor>dv (last frames)\<rfloor> div step + 1) * step \<le> 2 ^ 53"
    if "placed (last frames)" "\<not> make_panics (add64 (div64 (f_to_int64 ?d) step) 1)" for first
    using lap_loop [OF assms(1,2), of ?d] that by (simp add: placed_def n_def)
  have placed_last: "placed (last frames)" if "distances_ok None ?sorted" "2 \<le> length frames"
    using collapse_spec(3) [OF that(1)] that(2) unfolding frames_def lap_curve_def list_all_iff
    by (metis last_in_set list.size(3) not_numeral_le_zero)
  show "BuildLapSamples lap fs step \<noteq> SamplesDiverge"
    using placed_last loop
    by (auto simp: BuildLapSamples_def Let_def frames_def lap_curve_def simp del: bucket_loop.simps split: option.splits)
  show "xs = ss \<and> xs \<noteq> [] \<and> 2 \<le> length frames \<and>
      list_all placed frames \<and> sorted_wrt (<) (map dv frames) \<and> set frames \<subseteq> set fs \<and>
      (\<lfloor>dv (last frames)\<rfloor> div step + 1) * step \<le> 2 ^ 53" if "BuildLapSamples lap fs step = Samples xs"
  proof -
    have b: "distances_ok None ?sorted" "2 \<le> length frames" "\<not> make_panics (add64 (div64 (f_to_int64 ?d) step) 1)"
      using that by (auto simp: BuildLapSamples_def Let_def frames_def lap_curve_def simp del: bucket_loop.simps split: if_splits)
    note l = loop [OF placed_last [OF b(1,2)] b(3), of "lap_distance (hd frames)"]
    have "xs = ss \<and> xs \<noteq> []"
      using that l unfolding ss_def frames_def lap_curve_def n_def
      by (auto simp: BuildLapSamples_def Let_def simp del: bucket_loop.simps split: if_splits option.splits)
    then show ?thesis
      using collapse_spec [OF b(1)] l b(2) by (auto simp: frames_def lap_curve_def)
  qed
qed

lemma interpolateSample_sel [simp]:
  "saDistanceMeters (interpolateSample lapID b l r) = b" "saLapID (interpolateSample lapID b l r) = lapID"
  "saSource (interpolateSample lapID b l r) = ''explicit_lap_distance''"
  "saTimestampUnixMs (interpolateSample lapID b l r) =
     interpolateInt64Ptr (fTimestampUnixMs l) (fTimestampUnixMs r) (interpolationRatio (f_of_int b) l r)"
  by (simp_all add: interpolateSample_def sample_withDefaults_def Let_def)

lemma interpolateSample_id: "lapID \<noteq> [] \<Longrightarrow> 0 \<le> b \<Longrightarrow> saID (interpolateSample lapID b l r) = NewLapSampleID lapID b"
  by (simp add: interpolateSample_def sample_withDefaults_def Let_def)

lemma sample_at_spec:
  assumes "frames \<noteq> []" "list_all placed frames" "sorted_wrt (<) (map dv frames)"
    and "0 \<le> b" "b \<le> 2 ^ 53" "of_int b \<le> dv (last frames)"
  shows "of_int b < dv (hd frames) \<Longrightarrow> sample_at lapID frames (lap_distance (hd frames)) b = None"
    and "dv (hd frames) \<le> of_int b \<Longrightarrow> \<exists>l r. bracketFrames frames (f_of_int b) = Some (l, r) \<and>
      brackets frames (f_of_int b) l r \<and>
      sample_at lapID frames (lap_distance (hd frames)) b = Some (interpolateSample lapID b l r)"
proof -
  have b: "f_of_int b = Fin (of_int b)" using assms(4,5) by (simp add: f_of_int_exact)
  have h: "is_fin (lap_distance (hd frames))" using assms(1,2) by (cases frames) (auto simp: placed_def)
  show "of_int b < dv (hd frames) \<Longrightarrow> sample_at lapID frames (lap_distance (hd frames)) b = None"
    using h by (simp add: sample_at_def b)
  assume le: "dv (hd frames) \<le> of_int b"
  with bracketFrames_total [OF assms(1-3), of "f_of_int b"] assms(6)
  obtain l r where "bracketFrames frames (f_of_int b) = Some (l, r)" "brackets frames (f_of_int b) l r"
    by (auto simp: b)
  with h le show "\<exists>l r. bracketFrames frames (f_of_int b) = Some (l, r) \<and>
      brackets frames (f_of_int b) l r \<and>
      sample_at lapID frames (lap_distance (hd frames)) b = Some (interpolateSample lapID b l r)"
    by (auto simp: sample_at_def b)
qed

lemma samples_distances:
  assumes "frames \<noteq> []" "list_all placed frames" "sorted_wrt (<) (map dv frames)"
    and "\<And>b. b \<in> set bs \<Longrightarrow> 0 \<le> b \<and> b \<le> 2 ^ 53 \<and> of_int b \<le> dv (last frames)"
  shows "map saDistanceMeters (List.map_filter (sample_at lapID frames (lap_distance (hd frames))) bs) =
    filter (\<lambda>b. dv (hd frames) \<le> of_int b) bs"
  using assms(4)
proof (induction bs)
  case (Cons b bs)
  then have "0 \<le> b" "b \<le> 2 ^ 53" "of_int b \<le> dv (last frames)" by auto
  note sp = sample_at_spec [OF assms(1-3) this, of lapID]
  show ?case
  proof (cases "dv (hd frames) \<le> of_int b")
    case True
    with sp(2) obtain l r where "sample_at lapID frames (lap_distance (hd frames)) b = Some (interpolateSample lapID b l r)" by blast
    with Cons True show ?thesis by (simp add: map_filter_simps)
  next
    case False
    with sp(1) Cons show ?thesis by (simp add: map_filter_simps)
  qed
qed (simp add: map_filter_simps)

lemma sorted_buckets: "0 < step \<Longrightarrow> sorted_wrt (<) (map (\<lambda>i. int i * step) [0..<n])"
  by (induction n) (auto simp: sorted_wrt_append)

lemma bracketFrames_order:
  "bracketFrames frames d = Some (l, r) \<Longrightarrow> sorted_wrt R frames \<Longrightarrow> l = r \<or> R l r"
proof (induction frames d rule: bracketFrames.induct)
  case (3 left right frames d)
  then show ?case by (auto simp: Let_def split: if_splits)
qed (auto split: if_splits)

lemma sorted_collapse_loop: "sorted_wrt R (acc @ fs) \<Longrightarrow> acc \<noteq> [] \<Longrightarrow> sorted_wrt R (collapse_loop acc fs)"
proof (induction acc fs rule: collapse_loop.induct)
  case (2 acc f fs)
  then have "sorted_wrt R (butlast acc @ f # fs)" by (cases acc rule: rev_cases) (auto simp: sorted_wrt_append)
  with 2 show ?case by simp
qed simp

lemma lap_curve_by_time:
  "sorted_wrt (\<lambda>f g. fTimestampUnixMs f \<le> fTimestampUnixMs g) (lap_curve lap fs)"
proof -
  let ?fs = "sort_slice (\<lambda>a b. fTimestampUnixMs a < fTimestampUnixMs b) (filter (\<lambda>f. fLapNumber f = lLapNumber lap) fs)"
  have "sorted_wrt (\<lambda>f g. fTimestampUnixMs f \<le> fTimestampUnixMs g) ?fs"
    using frame_by_time.ordered_sort_slice [of "filter (\<lambda>f. fLapNumber f = lLapNumber lap) fs"]
    by (simp add: frame_by_time.ordered_def not_less)
  then show ?thesis
    using sorted_collapse_loop [of _ "[hd ?fs]" "tl ?fs"]
    by (cases ?fs) (auto simp: lap_curve_def collapseDuplicateDistanceFrames_def)
qed

section \<open>Interpolated values\<close>

lemma ratio_unit:
  assumes "is_fin (lap_distance l)" "is_fin (lap_distance r)" "f64_ok (lap_distance l)" "f64_ok (lap_distance r)"
    and "0 \<le> dv l" "dv l \<le> of_int b" "of_int b \<le> dv r" "0 \<le> b" "b \<le> 2 ^ 53"
  shows "is_fin (interpolationRatio (f_of_int b) l r)" "0 \<le> fval (interpolationRatio (f_of_int b) l r)"
    "fval (interpolationRatio (f_of_int b) l r) \<le> 1"
proof -
  have b: "f_of_int b = Fin (of_int b)" "f64_ok (Fin (of_int b))" using assms(8,9) by (simp_all add: f_of_int_exact)
  let ?x = "fsub (Fin (of_int b)) (lap_distance l)" and ?y = "fsub (lap_distance r) (lap_distance l)"
  have "is_fin (interpolationRatio (f_of_int b) l r) \<and> 0 \<le> fval (interpolationRatio (f_of_int b) l r) \<and>
    fval (interpolationRatio (f_of_int b) l r) \<le> 1"
  proof (cases "dv r = dv l")
    case True with assms show ?thesis by (simp add: interpolationRatio_def)
  next
    case False
    then have lt: "dv l < dv r" using assms by linarith
    note y = fsub_pos [OF assms(2,1,4,3,5) lt]
    have bd: "of_int b < pow2 1024" using f64_ok_rep [OF b(2)] by (simp add: abs_less_iff)
    have rb: "rep (of_int b)" using f64_ok_rep [OF b(2)] by simp
    have x: "is_fin ?x"
      using assms bd rb by (intro is_fin_fsub_bound [where r = "of_int b"]) (auto simp: abs_le_iff)
    have "0 \<le> fval ?x" using x assms by (simp add: fval_fsub rnd_rat_nonneg)
    moreover have "fval ?x \<le> fval ?y" using x y assms by (intro fsub_mono_left) auto
    ultimately show ?thesis
      using fdiv_unit [of ?x ?y] x y False assms by (simp add: interpolationRatio_def Let_def b)
  qed
  then show "is_fin (interpolationRatio (f_of_int b) l r)" "0 \<le> fval (interpolationRatio (f_of_int b) l r)"
    "fval (interpolationRatio (f_of_int b) l r) \<le> 1" by auto
qed

lemma fround_between:
  assumes "is_fin x" "of_int a \<le> fval x" "fval x \<le> of_int b" "0 \<le> a" "in64 b"
  shows "a \<le> f_to_int64 (fround x) \<and> f_to_int64 (fround x) \<le> b"
proof -
  define t where "t = \<lfloor>fval x + 1 / 2\<rfloor>"
  have t: "a \<le> t" "t \<le> b" using assms(2,3) unfolding t_def by linarith+
  have "0 \<le> fval x" using assms(2,4) by (meson of_int_0_le_iff order_trans)
  then have "fval (fround x) = of_int t" "is_fin (fround x)"
    using assms(1) unfolding t_def by (cases x; simp add: Let_def floor_eq_iff)+
  then show ?thesis using t assms(4,5) by (simp add: f_to_int64_def rat_trunc_def in64_def)
qed

lemma interpolateInt64_between:
  assumes "0 \<le> a" "a \<le> b" "b \<le> 2 ^ 53" "is_fin ratio" "0 \<le> fval ratio" "fval ratio \<le> 1"
  shows "\<exists>t. interpolateInt64Ptr a b ratio = Some t \<and> a \<le> t \<and> t \<le> b"
proof -
  have fa: "f_of_int a = Fin (of_int a)" and fb: "f_of_int b = Fin (of_int b)"
    using assms by (simp_all add: f_of_int_exact)
  have rep: "rep (of_int a)" "rep (of_int b)" "rep (of_int (b - a))"
    using assms(1-3) by (intro rep_int; simp)+
  have big: "of_int n < pow2 1024" if "0 \<le> n" "n \<le> 2 ^ 53" for n :: int
    using f64_ok_Fin_int [of n] that by (simp add: f64_ok_def abs_less_iff)
  let ?d = "fsub (Fin (of_int b)) (Fin (of_int a))"
  have d: "is_fin ?d" using rep(3) assms(1-3) big [of "b - a"]
    by (intro is_fin_fsub_bound [where r = "of_int (b - a)"]) auto
  then have dv: "fval ?d = of_int b - of_int a" using rep(3) by (simp add: fval_fsub rnd_rat_rep)
  have q: "0 \<le> fval ?d * fval ratio" "fval ?d * fval ratio \<le> of_int (b - a)"
    using assms(2,5,6) unfolding dv by (auto simp: mult_left_le)
  have m: "is_fin (fmul ?d ratio)"
    using d assms(1-4) q rep(3) big [of "b - a"]
    by (simp add: fmul_fin is_fin_rnds_bound [where r = "of_int (b - a)"])
  have mv: "0 \<le> fval (fmul ?d ratio)" "fval (fmul ?d ratio) \<le> of_int (b - a)"
    using m d assms(4) q rep(3) by (auto simp: fval_fmul intro: rnd_rat_nonneg rnd_rat_le_rep)
  let ?s = "fadd (Fin (of_int a)) (fmul ?d ratio)"
  have s: "is_fin ?s"
    using m mv rep(2) assms(1-3) big [of b] by (intro is_fin_fadd_bound [where r = "of_int b"]) auto
  have "of_int a \<le> fval ?s" "fval ?s \<le> of_int b"
    using s m mv rep by (auto simp: fval_fadd intro: rnd_rat_le_rep rep_le_rnd_rat)
  with s show ?thesis
    using fround_between [of ?s a b] assms(1-3) unfolding interpolateInt64Ptr_def fa fb by (auto simp: in64_def)
qed

section \<open>Properties\<close>

text \<open>C5: Sampling a lap ends, for every step up to a kilometre: the loop over the buckets never runs
  on, whatever the distances of the frames.\<close>

theorem sampling_terminates:
  "0 < step \<Longrightarrow> step \<le> 1000 \<Longrightarrow> BuildLapSamples lap frames step \<noteq> SamplesDiverge"
  by (rule BuildLapSamples_cases(1))

definition placed_frame :: "int \<Rightarrow> rat \<Rightarrow> Frame" where
  "placed_frame ts d = (sample_frame ts 1 0)\<lparr>fLapDistanceMeters := Some (Fin d)\<rparr>"

definition demo_lap :: CompletedLap where
  "demo_lap = lap_of ''s'' (lap_frame 30 2 90000)"

definition demo_frames :: "Frame list" where
  "demo_frames = [placed_frame 30 12, placed_frame 10 3, placed_frame 20 7, placed_frame 21 7]"

definition samples_of :: "sample_outcome \<Rightarrow> LapSample list" where
  "samples_of r = (case r of Samples ss \<Rightarrow> ss | _ \<Rightarrow> [])"

theorem sampling_terminates_witness:
  "BuildLapSamples demo_lap demo_frames 5 \<noteq> SamplesDiverge"
  by (rule sampling_terminates) auto

lemma Samples_buckets:
  assumes "0 < step" "step \<le> 1000" "BuildLapSamples lap fs step = Samples ss"
  defines "frames \<equiv> lap_curve lap fs"
  defines "bs \<equiv> map (\<lambda>i. int i * step) [0..<nat (\<lfloor>dv (last frames)\<rfloor> div step + 1)]"
  shows "ss = List.map_filter (sample_at (lID lap) frames (lap_distance (hd frames))) bs"
    and "frames \<noteq> []" "list_all placed frames" "sorted_wrt (<) (map dv frames)" "set frames \<subseteq> set fs"
    and "b \<in> set bs \<longleftrightarrow> 0 \<le> b \<and> b mod step = 0 \<and> of_int b \<le> dv (last frames)"
    and "b \<in> set bs \<Longrightarrow> 0 \<le> b \<and> b \<le> 2 ^ 53 \<and> of_int b \<le> dv (last frames)"
proof -
  let ?T = "\<lfloor>dv (last frames)\<rfloor>"
  note c = BuildLapSamples_cases(2) [OF assms(1-3), folded frames_def, folded bs_def]
  then show "ss = List.map_filter (sample_at (lID lap) frames (lap_distance (hd frames))) bs"
    and ne: "frames \<noteq> []" and pl: "list_all placed frames" and "sorted_wrt (<) (map dv frames)" "set frames \<subseteq> set fs"
    by auto
  have T: "0 \<le> ?T" using ne pl by (cases frames rule: rev_cases) (auto simp: placed_def)
  show iff: "b \<in> set bs \<longleftrightarrow> 0 \<le> b \<and> b mod step = 0 \<and> of_int b \<le> dv (last frames)" for b
    unfolding bs_def bucket_mem [OF assms(1) T] by (simp add: le_floor_iff)
  assume "b \<in> set bs"
  with iff have b: "0 \<le> b" "of_int b \<le> dv (last frames)" by auto
  then have "b \<le> ?T" by (simp add: le_floor_iff)
  with bucket_top [OF assms(1), of ?T] show "0 \<le> b \<and> b \<le> 2 ^ 53 \<and> of_int b \<le> dv (last frames)" using c b by auto
qed

lemma sample_distances_ok:
  assumes "0 < step" "step \<le> 1000" "BuildLapSamples lap fs step = Samples ss" "s \<in> set ss"
  shows "0 \<le> saDistanceMeters s \<and> saDistanceMeters s mod step = 0"
proof -
  let ?frames = "lap_curve lap fs"
  let ?bs = "map (\<lambda>i. int i * step) [0..<nat (\<lfloor>dv (last ?frames)\<rfloor> div step + 1)]"
  note b = Samples_buckets [OF assms(1-3)]
  have "map saDistanceMeters ss = filter (\<lambda>b. dv (hd ?frames) \<le> of_int b) ?bs"
    unfolding b(1) using b(7) by (intro samples_distances b(2-4)) auto
  moreover have "saDistanceMeters s \<in> set (map saDistanceMeters ss)" using assms(4) by simp
  ultimately have "saDistanceMeters s \<in> set ?bs" by (simp only: set_filter mem_Collect_eq)
  then show ?thesis unfolding b(6) by blast
qed

text \<open>A lap whose frames span a multiple of the step is sampled.\<close>

lemma BuildLapSamples_found:
  fixes lap :: CompletedLap and fs :: "Frame list" and step b :: int
  defines "frames \<equiv> lap_curve lap fs"
  assumes "0 < step" "step \<le> 1000" "lID lap \<noteq> []"
    and "2 \<le> length (filter (\<lambda>f. fLapNumber f = lLapNumber lap) fs)" "2 \<le> length frames"
    and ok: "distances_ok None (sort_slice (\<lambda>a b. fTimestampUnixMs a < fTimestampUnixMs b)
      (filter (\<lambda>f. fLapNumber f = lLapNumber lap) fs))"
    and "dv (hd frames) < dv (last frames)"
    and np: "\<not> make_panics (add64 (div64 (f_to_int64 (lap_distance (last frames))) step) 1)"
    and b: "0 \<le> b" "b mod step = 0" "dv (hd frames) \<le> of_int b" "of_int b \<le> dv (last frames)"
  shows "\<exists>ss. BuildLapSamples lap fs step = Samples ss \<and> b \<in> set (map saDistanceMeters ss)"
proof -
  let ?bs = "map (\<lambda>i. int i * step) [0..<nat (\<lfloor>dv (last frames)\<rfloor> div step + 1)]"
  let ?ss = "List.map_filter (sample_at (lID lap) frames (lap_distance (hd frames))) ?bs"
  have ne: "frames \<noteq> []" using assms(6) by auto
  note c = collapse_spec [OF ok, folded lap_curve_def [of lap fs], folded frames_def]
  have pl: "placed (last frames)" "placed (hd frames)" using c(3) ne by (auto simp: list_all_iff)
  then have T: "0 \<le> \<lfloor>dv (last frames)\<rfloor>" by (simp add: placed_def)
  have d: "is_fin (lap_distance (last frames))" "0 \<le> dv (last frames)" using pl by (auto simp: placed_def)
  note l = lap_loop [OF assms(2,3) d np]
  have mem: "0 \<le> x \<and> x \<le> 2 ^ 53 \<and> of_int x \<le> dv (last frames)" if "x \<in> set ?bs" for x
  proof -
    have "0 \<le> x" "x \<le> \<lfloor>dv (last frames)\<rfloor>" using that unfolding bucket_mem [OF assms(2) T] by auto
    moreover from this have "x \<le> 2 ^ 53" using l(2) bucket_top [OF assms(2), of "\<lfloor>dv (last frames)\<rfloor>"] by linarith
    ultimately show ?thesis by (simp add: le_floor_iff)
  qed
  have "map saDistanceMeters ?ss = filter (\<lambda>b. dv (hd frames) \<le> of_int b) ?bs"
    using mem by (intro samples_distances ne c(1,3)) auto
  then have s: "b \<in> set (map saDistanceMeters ?ss)"
    using b unfolding bucket_mem [OF assms(2) T] by (simp add: bucket_mem [OF assms(2) T, simplified] le_floor_iff)
  have "BuildLapSamples lap fs step = (if ?ss = [] then SamplesNone else Samples ?ss)"
    using assms(2,4-6,8) ok np pl l(1) ne
    by (simp add: BuildLapSamples_def Let_def frames_def lap_curve_def placed_def not_le del: bucket_loop.simps)
  moreover have "?ss \<noteq> []" using s by (metis list.map(1) list.set(1) empty_iff)
  ultimately show ?thesis using s by simp
qed

text \<open>The samples of a lap are one for every multiple of the step between the lap distance of its
  first and its last frame, in increasing order, and for no other distance.\<close>

theorem samples_cover_lap:
  assumes "0 < step" "step \<le> 1000" "BuildLapSamples lap fs step = Samples ss"
  shows "sorted_wrt (<) (map saDistanceMeters ss) \<and>
    set (map saDistanceMeters ss) = {d. d mod step = 0 \<and> dv (hd (lap_curve lap fs)) \<le> of_int d \<and>
      of_int d \<le> dv (last (lap_curve lap fs))}"
proof -
  let ?frames = "lap_curve lap fs"
  let ?bs = "map (\<lambda>i. int i * step) [0..<nat (\<lfloor>dv (last ?frames)\<rfloor> div step + 1)]"
  note b = Samples_buckets [OF assms]
  have d: "map saDistanceMeters ss = filter (\<lambda>b. dv (hd ?frames) \<le> of_int b) ?bs"
    unfolding b(1) using b(7) by (intro samples_distances b(2-4)) auto
  have "0 \<le> dv (hd ?frames)" using b(2,3) by (cases ?frames) (auto simp: placed_def)
  then have "0 \<le> x" if "dv (hd ?frames) \<le> of_int x" for x :: int
    using that by (meson of_int_0_le_iff order_trans)
  moreover have "sorted_wrt (<) (filter (\<lambda>b. dv (hd ?frames) \<le> of_int b) ?bs)"
    using sorted_buckets [OF assms(1)] by (rule sorted_wrt_filter)
  ultimately show ?thesis unfolding d set_filter b(6) by auto
qed

lemma demo_samples: "\<exists>s. BuildLapSamples demo_lap demo_frames 5 =
    Samples (samples_of (BuildLapSamples demo_lap demo_frames 5)) \<and> s \<in> set (samples_of (BuildLapSamples demo_lap demo_frames 5))"
proof -
  let ?c = "lap_curve demo_lap demo_frames"
  have c: "?c = [placed_frame 10 3, placed_frame 21 7, placed_frame 30 12]" by code_simp
  have id: "lID demo_lap \<noteq> []" by code_simp
  have n: "2 \<le> length (filter (\<lambda>f. fLapNumber f = lLapNumber demo_lap) demo_frames)" by code_simp
  have ok: "distances_ok None (sort_slice (\<lambda>a b. fTimestampUnixMs a < fTimestampUnixMs b)
      (filter (\<lambda>f. fLapNumber f = lLapNumber demo_lap) demo_frames))" by code_simp
  have d: "lap_distance (placed_frame t x) = Fin x" for t x by (simp add: placed_frame_def lap_distance_def)
  have t: "\<not> make_panics (add64 (div64 (f_to_int64 (Fin 12)) 5) 1)" by code_simp
  obtain ss where "BuildLapSamples demo_lap demo_frames 5 = Samples ss" "5 \<in> set (map saDistanceMeters ss)"
    using BuildLapSamples_found [of 5 demo_lap demo_frames 5] id n ok t by (auto simp: c d)
  then show ?thesis by (auto simp: samples_of_def)
qed

theorem samples_cover_lap_witness:
  "set (map saDistanceMeters (samples_of (BuildLapSamples demo_lap demo_frames 5))) =
    {d. d mod 5 = 0 \<and> dv (hd (lap_curve demo_lap demo_frames)) \<le> of_int d \<and>
      of_int d \<le> dv (last (lap_curve demo_lap demo_frames))}"
  using samples_cover_lap [of 5 demo_lap demo_frames "samples_of (BuildLapSamples demo_lap demo_frames 5)"] demo_samples by auto

lemma sample_interpolates:
  assumes "0 < step" "step \<le> 1000" "BuildLapSamples lap fs step = Samples ss" "s \<in> set ss"
    and "\<forall>f \<in> set fs. f64_ok (lap_distance f)"
    and "\<forall>f \<in> set fs. 0 \<le> fTimestampUnixMs f \<and> fTimestampUnixMs f \<le> 2 ^ 53"
  shows "\<exists>l r t. l \<in> set fs \<and> r \<in> set fs \<and> s = interpolateSample (lID lap) (saDistanceMeters s) l r \<and>
    dv l \<le> of_int (saDistanceMeters s) \<and> of_int (saDistanceMeters s) \<le> dv r \<and>
    is_fin (interpolationRatio (f_of_int (saDistanceMeters s)) l r) \<and>
    0 \<le> fval (interpolationRatio (f_of_int (saDistanceMeters s)) l r) \<and>
    fval (interpolationRatio (f_of_int (saDistanceMeters s)) l r) \<le> 1 \<and>
    saTimestampUnixMs s = Some t \<and> fTimestampUnixMs l \<le> t \<and> t \<le> fTimestampUnixMs r \<and>
    saID s = NewLapSampleID (lID lap) (saDistanceMeters s)"
proof -
  let ?frames = "lap_curve lap fs"
  note B = Samples_buckets [OF assms(1-3)]
  from assms(4) obtain b where b: "b \<in> set (map (\<lambda>i. int i * step) [0..<nat (\<lfloor>dv (last ?frames)\<rfloor> div step + 1)])"
      "sample_at (lID lap) ?frames (lap_distance (hd ?frames)) b = Some s"
    unfolding B(1) map_filter_def by force
  note bb = B(7) [OF b(1)]
  have "dv (hd ?frames) \<le> of_int b"
    using sample_at_spec(1) [OF B(2-4), of b "lID lap"] bb b(2) by force
  then obtain l r where lr: "bracketFrames ?frames (f_of_int b) = Some (l, r)" "brackets ?frames (f_of_int b) l r"
      "s = interpolateSample (lID lap) b l r"
    using sample_at_spec(2) [OF B(2-4), of b "lID lap"] bb b(2) by force
  have lrin: "l \<in> set ?frames" "r \<in> set ?frames" "dv l \<le> of_int b" "of_int b \<le> dv r"
    using lr(2) bb by (auto simp: brackets_def f_of_int_exact)
  have infs: "l \<in> set fs" "r \<in> set fs" using lrin B(5) by auto
  have pl: "is_fin (lap_distance l)" "is_fin (lap_distance r)" "0 \<le> dv l"
    using lrin B(3) by (auto simp: list_all_iff placed_def)
  note ratio = ratio_unit [OF pl(1,2) _ _ pl(3) lrin(3,4)]
  have ok: "f64_ok (lap_distance l)" "f64_ok (lap_distance r)" using assms(5) infs by auto
  have "fTimestampUnixMs l \<le> fTimestampUnixMs r"
    using bracketFrames_order [OF lr(1) lap_curve_by_time] by auto
  then obtain t where "interpolateInt64Ptr (fTimestampUnixMs l) (fTimestampUnixMs r) (interpolationRatio (f_of_int b) l r) = Some t"
      "fTimestampUnixMs l \<le> t" "t \<le> fTimestampUnixMs r"
    using interpolateInt64_between [of "fTimestampUnixMs l" "fTimestampUnixMs r"] ratio [OF ok] bb assms(6) infs by meson
  moreover have "lID lap \<noteq> []" using assms(3) by (auto simp: BuildLapSamples_def split: if_splits)
  ultimately show ?thesis
    using lr(3) infs lrin(3,4) ratio [OF ok] bb by (auto simp: interpolateSample_id)
qed

text \<open>C6: Every sample of a lap interpolates two frames of the lap that bracket its distance, with a
  ratio in the unit interval (no overflow, no division by zero) and a timestamp between theirs, and
  carries the identifier of its lap and distance.\<close>

theorem samples_interpolate_lap:
  assumes "0 < step" "step \<le> 1000" "BuildLapSamples lap fs step = Samples ss" "s \<in> set ss"
    and "\<forall>f \<in> set fs. f64_ok (lap_distance f)"
    and "\<forall>f \<in> set fs. 0 \<le> fTimestampUnixMs f \<and> fTimestampUnixMs f \<le> 2 ^ 53"
  shows "\<exists>l r t. l \<in> set fs \<and> r \<in> set fs \<and> s = interpolateSample (lID lap) (saDistanceMeters s) l r \<and>
    dv l \<le> of_int (saDistanceMeters s) \<and> of_int (saDistanceMeters s) \<le> dv r \<and>
    is_fin (interpolationRatio (f_of_int (saDistanceMeters s)) l r) \<and>
    0 \<le> fval (interpolationRatio (f_of_int (saDistanceMeters s)) l r) \<and>
    fval (interpolationRatio (f_of_int (saDistanceMeters s)) l r) \<le> 1 \<and>
    saTimestampUnixMs s = Some t \<and> fTimestampUnixMs l \<le> t \<and> t \<le> fTimestampUnixMs r \<and>
    saID s = NewLapSampleID (lID lap) (saDistanceMeters s)"
  using assms by (rule sample_interpolates)

theorem samples_interpolate_lap_witness:
  "\<exists>s l r t. s \<in> set (samples_of (BuildLapSamples demo_lap demo_frames 5)) \<and>
    l \<in> set demo_frames \<and> r \<in> set demo_frames \<and> s = interpolateSample (lID demo_lap) (saDistanceMeters s) l r \<and>
    saTimestampUnixMs s = Some t \<and> fTimestampUnixMs l \<le> t \<and> t \<le> fTimestampUnixMs r"
proof -
  obtain s where s: "BuildLapSamples demo_lap demo_frames 5 = Samples (samples_of (BuildLapSamples demo_lap demo_frames 5))"
      "s \<in> set (samples_of (BuildLapSamples demo_lap demo_frames 5))"
    using demo_samples by blast
  have "list_all (\<lambda>f. f64_ok (lap_distance f) \<and> 0 \<le> fTimestampUnixMs f \<and> fTimestampUnixMs f \<le> 2 ^ 53) demo_frames"
    using f64_ok_Fin_int [of 3] f64_ok_Fin_int [of 7] f64_ok_Fin_int [of 12]
    by (simp add: demo_frames_def placed_frame_def sample_frame_def lap_distance_def)
  then show ?thesis
    using samples_interpolate_lap [OF _ _ s] s(2) by (auto simp: list_all_iff)
qed

text \<open>A session of valid frames can crash the sampler: lap distances are only required to be finite,
  and a final distance of \<open>2 ^ 63\<close> metres converts to the least 64-bit integer, so the capacity
  passed to \<^verbatim>\<open>make\<close> is negative and the request panics.\<close>

theorem sampler_panics_on_valid_frames:
  "list_all (\<lambda>f. frame_validate f = None) [placed_frame 10 0, placed_frame 20 9223372036854775808] \<and>
   BuildLapSamples demo_lap [placed_frame 10 0, placed_frame 20 9223372036854775808] DefaultSampleStepMeters = SamplesPanic"
  by code_simp

end
