(* ===== verification/LapRepo.thy ===== *)
theory LapRepo
  imports LapSamples
begin

text \<open>
  \<^verbatim>\<open>internal/laps/memory_repository.go\<close>: the in-memory store of laps and lap samples.
  Both tables keep the first row written under a key; a later lap under the same key only
  refreshes its gap count.  The interface \<open>keyed_table\<close> states that contract once and gives the
  content of a table after any sequence of writes; both tables are interpretations of it.
\<close>

section \<open>The contract\<close>

locale keyed_table =
  fixes put :: "'s \<Rightarrow> 'a \<Rightarrow> 's" and row :: "'s \<Rightarrow> 'k \<Rightarrow> 'a option"
    and key :: "'a \<Rightarrow> 'k" and merge :: "'a \<Rightarrow> 'a \<Rightarrow> 'a"
  assumes row_put: "row (put s x) k =
      (if k = key x then Some (case row s k of None \<Rightarrow> x | Some old \<Rightarrow> merge old x) else row s k)"
    and key_merge: "key (merge old x) = key old"
begin

definition written :: "'k \<Rightarrow> 'a option \<Rightarrow> 'a list \<Rightarrow> 'a option" where
  "written k old xs = (case (old, filter (\<lambda>x. key x = k) xs) of
     (None, []) \<Rightarrow> None | (None, y # ys) \<Rightarrow> Some (foldl merge y ys) | (Some o', ys) \<Rightarrow> Some (foldl merge o' ys))"

lemma row_puts: "row (foldl put s xs) k = written k (row s k) xs"
proof (induction xs arbitrary: s)
  case Nil then show ?case by (simp add: written_def split: option.split)
next
  case (Cons x xs)
  then show ?case by (auto simp: row_put written_def split: option.split)
qed

lemma key_foldl_merge: "key (foldl merge x xs) = key x"
  by (induction xs arbitrary: x) (auto simp: key_merge)

lemma key_written: "written k None xs = Some y \<Longrightarrow> key y = k"
  by (auto simp: written_def key_foldl_merge filter_eq_Cons_iff split: list.splits)

end

section \<open>Data\<close>

text \<open>
  The inner Go maps are association lists in order of insertion; the listing operations sort them,
  and the order of a listing is shown not to depend on the iteration order of the map.
\<close>

datatype repo_err = RepoCtx ctx_err | RepoLap lap_err | RepoSample sample_err

record lap_repo =
  rpLaps :: "string \<Rightarrow> (int \<times> CompletedLap) list option"
  rpSamples :: "string \<Rightarrow> (int \<times> LapSample) list option"

definition NewMemoryRepository :: lap_repo where
  "NewMemoryRepository = \<lparr>rpLaps = Map.empty, rpSamples = Map.empty\<rparr>"

section \<open>Operations\<close>

definition put_lap :: "lap_repo \<Rightarrow> CompletedLap \<Rightarrow> lap_repo" where
  "put_lap r lap =
    (let byLap = map_list (rpLaps r) (lSessionID lap);
         byLap = (case map_of byLap (lLapNumber lap) of
            Some existing \<Rightarrow> AList.update (lLapNumber lap) (existing\<lparr>lTelemetryGapCount := lTelemetryGapCount lap\<rparr>) byLap
          | None \<Rightarrow> AList.update (lLapNumber lap) lap byLap)
     in r\<lparr>rpLaps := (rpLaps r)(lSessionID lap \<mapsto> byLap)\<rparr>)"

fun upsert_laps_loop :: "lap_repo \<Rightarrow> CompletedLap list \<Rightarrow> repo_err option \<times> lap_repo" where
  "upsert_laps_loop r [] = (None, r)"
| "upsert_laps_loop r (lap # laps) =
    (let lap = lap_withDefaults lap in
     case lap_Validate lap of Some e \<Rightarrow> (Some (RepoLap e), r) | None \<Rightarrow> upsert_laps_loop (put_lap r lap) laps)"

definition UpsertCompleted :: "lap_repo \<Rightarrow> ctx \<Rightarrow> CompletedLap list \<Rightarrow> repo_err option \<times> lap_repo" where
  "UpsertCompleted r ctx completed =
    (case ctx of Some e \<Rightarrow> (Some (RepoCtx e), r)
     | None \<Rightarrow> if length completed = 0 then (None, r) else upsert_laps_loop r completed)"

definition UpdateTelemetryGapCount :: "lap_repo \<Rightarrow> ctx \<Rightarrow> string \<Rightarrow> int \<Rightarrow> int \<Rightarrow> repo_err option \<times> lap_repo" where
  "UpdateTelemetryGapCount r ctx sessionID lapNumber cnt =
    (case ctx of Some e \<Rightarrow> (Some (RepoCtx e), r)
     | None \<Rightarrow>
       if sessionID = [] then (None, r)
       else if lapNumber < 0 then (Some (RepoLap LapInvalidLapNumber), r)
       else if cnt < 0 then (Some (RepoLap LapInvalidGapCount), r)
       else (case rpLaps r sessionID of None \<Rightarrow> (None, r)
         | Some byLap \<Rightarrow> (case map_of byLap lapNumber of None \<Rightarrow> (None, r)
           | Some lap \<Rightarrow> (None, r\<lparr>rpLaps := (rpLaps r)(sessionID \<mapsto>
               AList.update lapNumber (lap\<lparr>lTelemetryGapCount := cnt\<rparr>) byLap)\<rparr>))))"

definition ListBySession :: "lap_repo \<Rightarrow> ctx \<Rightarrow> string \<Rightarrow> ctx_err + CompletedLap list" where
  "ListBySession r ctx sessionID =
    (case ctx of Some e \<Rightarrow> Inl e
     | None \<Rightarrow> if sessionID = [] then Inr []
       else Inr (cloneLaps (sortByLapNumber (map (\<lambda>(n, lap). lap_withDefaults lap) (map_list (rpLaps r) sessionID)))))"

definition put_sample :: "lap_repo \<Rightarrow> LapSample \<Rightarrow> lap_repo" where
  "put_sample r sample =
    (let byDistance = map_list (rpSamples r) (saLapID sample);
         byDistance = (case map_of byDistance (saDistanceMeters sample) of
            Some _ \<Rightarrow> byDistance
          | None \<Rightarrow> AList.update (saDistanceMeters sample) sample byDistance)
     in r\<lparr>rpSamples := (rpSamples r)(saLapID sample \<mapsto> byDistance)\<rparr>)"

fun upsert_samples_loop :: "lap_repo \<Rightarrow> LapSample list \<Rightarrow> repo_err option \<times> lap_repo" where
  "upsert_samples_loop r [] = (None, r)"
| "upsert_samples_loop r (sample # samples) =
    (let sample = sample_withDefaults sample in
     case sample_Validate sample of Some e \<Rightarrow> (Some (RepoSample e), r)
     | None \<Rightarrow> upsert_samples_loop (put_sample r sample) samples)"

definition UpsertSamples :: "lap_repo \<Rightarrow> ctx \<Rightarrow> LapSample list \<Rightarrow> repo_err option \<times> lap_repo" where
  "UpsertSamples r ctx samples =
    (case ctx of Some e \<Rightarrow> (Some (RepoCtx e), r)
     | None \<Rightarrow> if length samples = 0 then (None, r) else upsert_samples_loop r samples)"

definition ListSamples :: "lap_repo \<Rightarrow> ctx \<Rightarrow> string \<Rightarrow> ctx_err + LapSample list" where
  "ListSamples r ctx lapID =
    (case ctx of Some e \<Rightarrow> Inl e
     | None \<Rightarrow> if lapID = [] then Inr []
       else Inr (cloneSamples (sortByDistance (map (\<lambda>(n, s). sample_withDefaults s) (map_list (rpSamples r) lapID)))))"

section \<open>The tables satisfy the contract\<close>

definition lap_row :: "lap_repo \<Rightarrow> string \<times> int \<Rightarrow> CompletedLap option" where
  "lap_row r k = map_of (map_list (rpLaps r) (fst k)) (snd k)"

definition sample_row :: "lap_repo \<Rightarrow> string \<times> int \<Rightarrow> LapSample option" where
  "sample_row r k = map_of (map_list (rpSamples r) (fst k)) (snd k)"

definition lap_key :: "CompletedLap \<Rightarrow> string \<times> int" where
  "lap_key lap = (lSessionID lap, lLapNumber lap)"

definition sample_key :: "LapSample \<Rightarrow> string \<times> int" where
  "sample_key s = (saLapID s, saDistanceMeters s)"

definition refresh_gap :: "CompletedLap \<Rightarrow> CompletedLap \<Rightarrow> CompletedLap" where
  "refresh_gap old lap = old\<lparr>lTelemetryGapCount := lTelemetryGapCount lap\<rparr>"

definition keep_first :: "'a \<Rightarrow> 'a \<Rightarrow> 'a" where
  "keep_first old x = old"

interpretation lap_table: keyed_table put_lap lap_row lap_key refresh_gap
  by unfold_locales
    (auto simp: lap_row_def put_lap_def lap_key_def refresh_gap_def Let_def update_conv split: option.splits)

interpretation sample_table: keyed_table put_sample sample_row sample_key keep_first
  by unfold_locales
    (auto simp: sample_row_def put_sample_def sample_key_def keep_first_def Let_def update_conv split: option.splits)

section \<open>Well-formed repositories\<close>

definition laps_ok :: "string \<Rightarrow> (int \<times> CompletedLap) list \<Rightarrow> bool" where
  "laps_ok sid byLap \<longleftrightarrow> distinct (map fst byLap) \<and>
     (\<forall>(n, lap) \<in> set byLap. lap_key lap = (sid, n) \<and> lID lap \<noteq> [] \<and> lap_Validate lap = None)"

definition samples_ok :: "string \<Rightarrow> (int \<times> LapSample) list \<Rightarrow> bool" where
  "samples_ok lid byDistance \<longleftrightarrow> distinct (map fst byDistance) \<and>
     (\<forall>(d, s) \<in> set byDistance. sample_key s = (lid, d) \<and> saID s \<noteq> [] \<and> sample_Validate s = None)"

definition repo_ok :: "lap_repo \<Rightarrow> bool" where
  "repo_ok r \<longleftrightarrow> (\<forall>sid. laps_ok sid (map_list (rpLaps r) sid)) \<and> (\<forall>lid. samples_ok lid (map_list (rpSamples r) lid))"

lemma repo_ok_new: "repo_ok NewMemoryRepository"
  by (simp add: repo_ok_def NewMemoryRepository_def laps_ok_def samples_ok_def)

lemma lap_Validate_gap: "lap_Validate lap = None \<Longrightarrow> 0 \<le> g \<Longrightarrow> lap_Validate (lap\<lparr>lTelemetryGapCount := g\<rparr>) = None"
  by (auto simp: lap_Validate_def split: if_splits option.splits)

lemma lap_Validate_fields: "lap_Validate lap = None \<Longrightarrow> lSessionID lap \<noteq> [] \<and> 0 \<le> lLapNumber lap \<and> 0 \<le> lTelemetryGapCount lap"
  by (auto simp: lap_Validate_def split: if_splits option.splits)

lemma set_update: "x \<in> set (AList.update k v xs) \<Longrightarrow> x = (k, v) \<or> x \<in> set xs"
  by (induction xs) (auto split: if_splits)

lemma laps_ok_update:
  "laps_ok sid byLap \<Longrightarrow> lap_key lap = (sid, n) \<Longrightarrow> lID lap \<noteq> [] \<Longrightarrow> lap_Validate lap = None \<Longrightarrow>
     laps_ok sid (AList.update n lap byLap)"
  unfolding laps_ok_def by (auto simp: distinct_update dest!: set_update)

lemma laps_ok_lookup:
  "laps_ok sid byLap \<Longrightarrow> map_of byLap n = Some lap \<Longrightarrow> lap_key lap = (sid, n) \<and> lID lap \<noteq> [] \<and> lap_Validate lap = None"
  unfolding laps_ok_def by (auto dest!: map_of_SomeD)

lemma laps_ok_mem: "laps_ok sid byLap \<Longrightarrow> (n, lap) \<in> set byLap \<Longrightarrow>
    lap_key lap = (sid, n) \<and> lID lap \<noteq> [] \<and> lap_Validate lap = None"
  unfolding laps_ok_def by auto

lemma samples_ok_mem: "samples_ok lid byDistance \<Longrightarrow> (d, s) \<in> set byDistance \<Longrightarrow>
    sample_key s = (lid, d) \<and> saID s \<noteq> [] \<and> sample_Validate s = None"
  unfolding samples_ok_def by auto

lemma laps_ok_gap:
  "laps_ok sid byLap \<Longrightarrow> map_of byLap n = Some lap \<Longrightarrow> 0 \<le> g \<Longrightarrow>
     laps_ok sid (AList.update n (lap\<lparr>lTelemetryGapCount := g\<rparr>) byLap)"
  using laps_ok_lookup [of sid byLap n lap] by (intro laps_ok_update) (auto simp: lap_key_def lap_Validate_gap)

lemma repo_ok_put_lap:
  assumes "repo_ok r" "lID lap \<noteq> []" "lap_Validate lap = None"
  shows "repo_ok (put_lap r lap)"
proof -
  let ?l = "map_list (rpLaps r) (lSessionID lap)"
  have l: "laps_ok (lSessionID lap) ?l" using assms(1) by (simp add: repo_ok_def)
  have "laps_ok (lSessionID lap) (AList.update (lLapNumber lap) (old\<lparr>lTelemetryGapCount := lTelemetryGapCount lap\<rparr>) ?l)"
    if "map_of ?l (lLapNumber lap) = Some old" for old
    using l that lap_Validate_fields [OF assms(3)] by (intro laps_ok_gap) auto
  moreover have "laps_ok (lSessionID lap) (AList.update (lLapNumber lap) lap ?l)"
    using l assms by (intro laps_ok_update) (auto simp: lap_key_def)
  ultimately show ?thesis
    using assms(1) by (auto simp: repo_ok_def put_lap_def Let_def split: option.splits)
qed

lemma repo_ok_put_sample:
  assumes "repo_ok r" "saID s \<noteq> []" "sample_Validate s = None"
  shows "repo_ok (put_sample r s)"
proof -
  let ?l = "map_list (rpSamples r) (saLapID s)"
  have l: "samples_ok (saLapID s) ?l" using assms(1) by (simp add: repo_ok_def)
  then have "samples_ok (saLapID s) (AList.update (saDistanceMeters s) s ?l)"
    using assms unfolding samples_ok_def by (auto simp: distinct_update sample_key_def dest!: set_update)
  with l assms(1) show ?thesis
    by (auto simp: repo_ok_def put_sample_def Let_def split: option.splits)
qed

lemma sample_withDefaults_id: "sample_Validate (sample_withDefaults s) = None \<Longrightarrow> saID (sample_withDefaults s) \<noteq> []"
  by (auto simp: sample_Validate_def sample_withDefaults_def NewLapSampleID_def split: if_splits)

lemma lap_withDefaults_lID: "lap_Validate (lap_withDefaults lap) = None \<Longrightarrow> lID (lap_withDefaults lap) \<noteq> []"
  by (auto simp: lap_withDefaults_def Let_def NewCompletedLapID_def dest!: lap_Validate_fields split: if_splits)

lemma repo_ok_upsert_laps_loop: "repo_ok r \<Longrightarrow> repo_ok (snd (upsert_laps_loop r laps))"
  by (induction laps arbitrary: r)
    (auto simp: Let_def repo_ok_put_lap lap_withDefaults_lID split: option.splits)

lemma repo_ok_upsert_samples_loop: "repo_ok r \<Longrightarrow> repo_ok (snd (upsert_samples_loop r ss))"
  by (induction ss arbitrary: r)
    (auto simp: Let_def repo_ok_put_sample sample_withDefaults_id split: option.splits)

lemma repo_ok_update_gap: "repo_ok r \<Longrightarrow> repo_ok (snd (UpdateTelemetryGapCount r ctx sid n g))"
proof -
  assume r: "repo_ok r"
  have "laps_ok sid (AList.update n (lap\<lparr>lTelemetryGapCount := g\<rparr>) byLap)"
    if "rpLaps r sid = Some byLap" "map_of byLap n = Some lap" "0 \<le> g" for byLap lap
  proof (rule laps_ok_gap [OF _ that(2,3)])
    show "laps_ok sid byLap" using r that(1) by (metis map_list_def option.simps(5) repo_ok_def)
  qed
  with r show ?thesis
    by (auto simp: repo_ok_def UpdateTelemetryGapCount_def split: option.splits)
qed

section \<open>Listings\<close>

lemma ListBySession_spec:
  assumes "repo_ok r" "sid \<noteq> []"
  shows "\<exists>ls. ListBySession r None sid = Inr ls \<and> sorted_wrt (<) (map lLapNumber ls) \<and>
    (\<forall>l. l \<in> set ls \<longleftrightarrow> lap_row r (sid, lLapNumber l) = Some l) \<and> (\<forall>l \<in> set ls. lSessionID l = sid \<and> lap_Validate l = None)"
proof -
  let ?b = "map_list (rpLaps r) sid"
  have ok: "laps_ok sid ?b" using assms(1) by (simp add: repo_ok_def)
  have w: "map (\<lambda>(n, lap). lap_withDefaults lap) ?b = map snd ?b"
    by (auto dest!: laps_ok_mem [OF ok])
  have n: "map fst ?b = map lLapNumber (map snd ?b)" using ok by (auto simp: laps_ok_def lap_key_def)
  let ?s = "sortByLapNumber (map snd ?b)"
  have id: "cloneLaps ?s = ?s"
    by (auto simp: cloneLaps_def sortByLapNumber_def dest!: laps_ok_mem [OF ok] intro!: map_idI)
  have "distinct (map lLapNumber ?s)"
  proof -
    have "mset (map lLapNumber ?s) = mset (map fst ?b)"
      unfolding n by (metis mset_map mset_sort_slice sortByLapNumber_def)
    then show ?thesis using ok by (metis laps_ok_def mset_eq_imp_distinct_iff)
  qed
  moreover have "sorted_wrt (\<lambda>x y. lLapNumber x \<le> lLapNumber y) ?s"
    using lap_less.ordered_sort_slice [of "map snd ?b"]
    unfolding lap_less.ordered_def sortByLapNumber_def
    by (rule sorted_wrt_mono_rel [rotated]) (auto simp: lap_less_def split: if_splits)
  ultimately have "sorted_wrt (<) (map lLapNumber ?s)"
    by (simp add: strict_sorted_iff sorted_map)
  moreover have "l \<in> set ?s \<longleftrightarrow> lap_row r (sid, lLapNumber l) = Some l" for l
  proof -
    have "l \<in> set ?s \<longleftrightarrow> (lLapNumber l, l) \<in> set ?b"
      using ok by (force simp: sortByLapNumber_def laps_ok_def lap_key_def)
    then show ?thesis using ok by (simp add: lap_row_def laps_ok_def)
  qed
  moreover have "\<forall>l \<in> set ?s. lSessionID l = sid \<and> lap_Validate l = None"
    using ok by (auto simp: sortByLapNumber_def laps_ok_def lap_key_def)
  ultimately show ?thesis
    using assms(2) by (simp add: ListBySession_def w id)
qed

lemma ListSamples_spec:
  assumes "repo_ok r" "lid \<noteq> []"
  shows "\<exists>ss. ListSamples r None lid = Inr ss \<and> sorted_wrt (<) (map saDistanceMeters ss) \<and>
    (\<forall>s. s \<in> set ss \<longleftrightarrow> sample_row r (lid, saDistanceMeters s) = Some s) \<and> (\<forall>s \<in> set ss. saLapID s = lid \<and> sample_Validate s = None)"
proof -
  let ?b = "map_list (rpSamples r) lid"
  have ok: "samples_ok lid ?b" using assms(1) by (simp add: repo_ok_def)
  have w: "map (\<lambda>(n, s). sample_withDefaults s) ?b = map snd ?b"
    by (auto simp: sample_withDefaults_def dest!: samples_ok_mem [OF ok])
  have n: "map fst ?b = map saDistanceMeters (map snd ?b)" using ok by (auto simp: samples_ok_def sample_key_def)
  let ?s = "sortByDistance (map snd ?b)"
  have id: "cloneSamples ?s = ?s"
    by (auto simp: cloneSamples_def sortByDistance_def sample_withDefaults_def dest!: samples_ok_mem [OF ok] intro!: map_idI)
  have "distinct (map saDistanceMeters ?s)"
  proof -
    have "mset (map saDistanceMeters ?s) = mset (map fst ?b)"
      unfolding n by (metis mset_map mset_sort_slice sortByDistance_def)
    then show ?thesis using ok by (metis samples_ok_def mset_eq_imp_distinct_iff)
  qed
  moreover have "sorted_wrt (\<lambda>x y. saDistanceMeters x \<le> saDistanceMeters y) ?s"
    using sample_less.ordered_sort_slice [of "map snd ?b"]
    unfolding sample_less.ordered_def sortByDistance_def
    by (rule sorted_wrt_mono_rel [rotated]) (auto simp: sample_less_def split: if_splits)
  ultimately have "sorted_wrt (<) (map saDistanceMeters ?s)"
    by (simp add: strict_sorted_iff sorted_map)
  moreover have "s \<in> set ?s \<longleftrightarrow> sample_row r (lid, saDistanceMeters s) = Some s" for s
  proof -
    have "s \<in> set ?s \<longleftrightarrow> (saDistanceMeters s, s) \<in> set ?b"
      using ok by (force simp: sortByDistance_def samples_ok_def sample_key_def)
    then show ?thesis using ok by (simp add: sample_row_def samples_ok_def)
  qed
  moreover have "\<forall>s \<in> set ?s. saLapID s = lid \<and> sample_Validate s = None"
    using ok by (auto simp: sortByDistance_def samples_ok_def sample_key_def)
  ultimately show ?thesis
    using assms(2) by (simp add: ListSamples_def w id)
qed

section \<open>Upserts as table writes\<close>

lemma upsert_laps_loop_ok:
  "list_all (\<lambda>lap. lap_Validate (lap_withDefaults lap) = None) laps \<Longrightarrow>
     upsert_laps_loop r laps = (None, foldl put_lap r (map lap_withDefaults laps))"
  by (induction laps arbitrary: r) (auto simp: Let_def)

lemma upsert_samples_loop_ok:
  "list_all (\<lambda>s. sample_Validate (sample_withDefaults s) = None) ss \<Longrightarrow>
     upsert_samples_loop r ss = (None, foldl put_sample r (map sample_withDefaults ss))"
  by (induction ss arbitrary: r) (auto simp: Let_def)

lemma upsert_laps_loop_append:
  "list_all (\<lambda>lap. lap_Validate (lap_withDefaults lap) = None) pre \<Longrightarrow>
     upsert_laps_loop r (pre @ laps) = upsert_laps_loop (snd (upsert_laps_loop r pre)) laps"
  by (induction pre arbitrary: r) (auto simp: Let_def)

section \<open>Properties\<close>

datatype lap_op = OpLaps ctx "CompletedLap list" | OpGap ctx string int int | OpSamples ctx "LapSample list"

fun run_lap_op :: "lap_repo \<Rightarrow> lap_op \<Rightarrow> lap_repo" where
  "run_lap_op r (OpLaps ctx laps) = snd (UpsertCompleted r ctx laps)"
| "run_lap_op r (OpGap ctx sid n g) = snd (UpdateTelemetryGapCount r ctx sid n g)"
| "run_lap_op r (OpSamples ctx ss) = snd (UpsertSamples r ctx ss)"

lemma repo_ok_run: "repo_ok r \<Longrightarrow> repo_ok (foldl run_lap_op r ops)"
proof (induction ops arbitrary: r)
  case (Cons op ops)
  have "repo_ok (run_lap_op r op)"
    using Cons.prems
    by (cases op) (auto simp: UpsertCompleted_def UpsertSamples_def repo_ok_upsert_laps_loop
      repo_ok_upsert_samples_loop repo_ok_update_gap split: option.splits)
  with Cons.IH show ?case by simp
qed simp

text \<open>C7: Whatever sequence of operations ran, failing ones and cancelled ones included, the listings of the
  repository are strictly ordered (one row per lap number, one per distance) and hold only valid rows of
  the session or lap asked for.\<close>

theorem lap_listings_well_formed:
  "\<exists>ls ss. ListBySession (foldl run_lap_op NewMemoryRepository ops) None sid = Inr ls \<and>
     ListSamples (foldl run_lap_op NewMemoryRepository ops) None lid = Inr ss \<and>
     sorted_wrt (<) (map lLapNumber ls) \<and> list_all (\<lambda>l. lSessionID l = sid \<and> lap_Validate l = None) ls \<and>
     sorted_wrt (<) (map saDistanceMeters ss) \<and> list_all (\<lambda>s. saLapID s = lid \<and> sample_Validate s = None) ss"
proof -
  have ok: "repo_ok (foldl run_lap_op NewMemoryRepository ops)" by (rule repo_ok_run [OF repo_ok_new])
  have "\<exists>ls. ListBySession (foldl run_lap_op NewMemoryRepository ops) None sid = Inr ls \<and>
     sorted_wrt (<) (map lLapNumber ls) \<and> list_all (\<lambda>l. lSessionID l = sid \<and> lap_Validate l = None) ls"
    using ListBySession_spec [OF ok, of sid] by (cases "sid = []") (auto simp: ListBySession_def list_all_iff)
  moreover have "\<exists>ss. ListSamples (foldl run_lap_op NewMemoryRepository ops) None lid = Inr ss \<and>
     sorted_wrt (<) (map saDistanceMeters ss) \<and> list_all (\<lambda>s. saLapID s = lid \<and> sample_Validate s = None) ss"
    using ListSamples_spec [OF ok, of lid] by (cases "lid = []") (auto simp: ListSamples_def list_all_iff)
  ultimately show ?thesis by blast
qed

lemma lap_row_new [simp]: "lap_row NewMemoryRepository k = None"
  by (simp add: lap_row_def NewMemoryRepository_def)

text \<open>C8: The first report of a lap wins: after storing valid laps in a new repository, the listing of a session
  has one lap per reported number, with the data of the first report and the gap count of the last.\<close>

theorem first_lap_report_wins:
  assumes "list_all (\<lambda>lap. lap_Validate (lap_withDefaults lap) = None) laps" "sid \<noteq> []"
  shows "\<exists>r ls. UpsertCompleted NewMemoryRepository None laps = (None, r) \<and> ListBySession r None sid = Inr ls \<and>
    sorted_wrt (<) (map lLapNumber ls) \<and>
    set ls = {foldl refresh_gap l rest |n l rest. filter (\<lambda>x. lap_key x = (sid, n)) (map lap_withDefaults laps) = l # rest}"
proof -
  let ?r = "foldl put_lap NewMemoryRepository (map lap_withDefaults laps)"
  have u: "UpsertCompleted NewMemoryRepository None laps = (None, ?r)"
    using upsert_laps_loop_ok [OF assms(1)] by (simp add: UpsertCompleted_def)
  have ok: "repo_ok ?r"
    using repo_ok_upsert_laps_loop [OF repo_ok_new, of laps] upsert_laps_loop_ok [OF assms(1)] by simp
  have row: "lap_row ?r k = lap_table.written k None (map lap_withDefaults laps)" for k
    by (simp add: lap_table.row_puts)
  obtain ls where ls: "ListBySession ?r None sid = Inr ls" "sorted_wrt (<) (map lLapNumber ls)"
      "\<forall>l. l \<in> set ls \<longleftrightarrow> lap_row ?r (sid, lLapNumber l) = Some l"
    using ListBySession_spec [OF ok assms(2)] by blast
  have "l \<in> set ls \<longleftrightarrow> (\<exists>n. lap_table.written (sid, n) None (map lap_withDefaults laps) = Some l)" for l
    using ls(3) lap_table.key_written [of "(sid, _)" "map lap_withDefaults laps" l] unfolding row
    by (metis lap_key_def snd_conv)
  then have "set ls = {foldl refresh_gap l rest |n l rest. filter (\<lambda>x. lap_key x = (sid, n)) (map lap_withDefaults laps) = l # rest}"
    by (force simp: lap_table.written_def split: list.splits)
  with u ls show ?thesis by blast
qed

text \<open>An invalid lap stops the batch with its error after the laps before it have been stored, and nothing
  after it is stored.\<close>

theorem invalid_lap_stops_batch:
  assumes "list_all (\<lambda>lap. lap_Validate (lap_withDefaults lap) = None) before" "lap_Validate (lap_withDefaults bad) = Some e"
  shows "UpsertCompleted r None (before @ bad # after) = (Some (RepoLap e), snd (UpsertCompleted r None before))"
proof -
  have "upsert_laps_loop r (before @ bad # after) = (Some (RepoLap e), snd (upsert_laps_loop r before))"
    unfolding upsert_laps_loop_append [OF assms(1)] using assms(2) by (simp add: Let_def)
  then show ?thesis by (cases before) (auto simp: UpsertCompleted_def)
qed

definition demo_report :: "int \<Rightarrow> int \<Rightarrow> int \<Rightarrow> CompletedLap" where
  "demo_report n ms gaps = \<lparr>lID = [], lSessionID = ''s'', lLapNumber = n, lLapTimeMs = ms, lCompletedAtUnixMs = 10,
     lBestLapMs = None, lSampleCount = None, lTelemetryGapCount = gaps\<rparr>"

lemma demo_report_valid [simp]:
  "0 \<le> n \<Longrightarrow> 0 < ms \<Longrightarrow> 0 \<le> g \<Longrightarrow> lap_Validate (lap_withDefaults (demo_report n ms g)) = None"
  "0 \<le> n \<Longrightarrow> 0 < ms \<Longrightarrow> g < 0 \<Longrightarrow> lap_Validate (lap_withDefaults (demo_report n ms g)) = Some LapInvalidGapCount"
  by (simp_all add: demo_report_def lap_withDefaults_def lap_Validate_def Let_def)

theorem first_lap_report_wins_witness:
  "\<exists>r ls. UpsertCompleted NewMemoryRepository None [demo_report 1 90000 0, demo_report 1 88000 2] = (None, r) \<and>
    ListBySession r None ''s'' = Inr ls \<and> sorted_wrt (<) (map lLapNumber ls)"
  using first_lap_report_wins [of "[demo_report 1 90000 0, demo_report 1 88000 2]" "''s''"] by auto

theorem invalid_lap_stops_batch_witness:
  "UpsertCompleted NewMemoryRepository None ([demo_report 1 90000 0] @ demo_report 2 88000 (-1) # [demo_report 3 1 0]) =
     (Some (RepoLap LapInvalidGapCount), snd (UpsertCompleted NewMemoryRepository None [demo_report 1 90000 0]))"
  by (rule invalid_lap_stops_batch) simp_all

text \<open>The laps extracted from valid frames, with any gap counts, are always accepted by the repository:
  storing them fails for no session and no frame stream.\<close>

theorem extracted_laps_are_stored:
  assumes "list_all frame_valid fs" "list_all frame_in64 fs"
  shows "fst (UpsertCompleted r None (map (\<lambda>l. l\<lparr>lTelemetryGapCount := \<bar>g l\<bar>\<rparr>) (ExtractCompleted sid fs))) = None"
proof -
  let ?laps = "map (\<lambda>l. l\<lparr>lTelemetryGapCount := \<bar>g l\<bar>\<rparr>) (ExtractCompleted sid fs)"
  have "list_all (\<lambda>lap. lap_Validate (lap_withDefaults lap) = None) ?laps"
  proof (unfold list_all_iff, rule ballI)
    fix lap assume "lap \<in> set ?laps"
    then obtain l where l: "l \<in> set (ExtractCompleted sid fs)" "lap = l\<lparr>lTelemetryGapCount := \<bar>g l\<bar>\<rparr>" by auto
    then have "lap_Validate l = None" "lID l \<noteq> []"
      using extract_completed_valid [of fs l sid] assms by (auto simp: list_all_iff)
    then show "lap_Validate (lap_withDefaults lap) = None" by (simp add: l lap_Validate_gap)
  qed
  then show ?thesis by (simp add: UpsertCompleted_def upsert_laps_loop_ok)
qed

theorem extracted_laps_are_stored_witness:
  "fst (UpsertCompleted NewMemoryRepository None (map (\<lambda>l. l\<lparr>lTelemetryGapCount := \<bar>2\<bar>\<rparr>)
     (ExtractCompleted ''s'' [lap_frame 10 1 90000, lap_frame 30 2 88000]))) = None"
proof -
  have "frame_valid (lap_frame t n ms)" if "0 < t" "0 \<le> n" "0 \<le> ms" for t n ms
    using sample_frame_valid [of t n 0] that by (simp add: lap_frame_def frame_valid_def isOptionalInt64NonNegative_def)
  then show ?thesis by (intro extracted_laps_are_stored) (simp_all add: in64_def)
qed

end
