(* ===== verification/Geometry.thy ===== *)
theory Geometry
  imports Prelude Float64
begin

text \<open>
  \<^verbatim>\<open>internal/geometry/centerline.go\<close>: a polyline with accumulated lengths, the projection of a
  position onto it, and the arithmetic of distances along a closed track.  All coordinates are
  \<open>f64\<close>; no expression is fused, as on amd64.
\<close>

section \<open>Data\<close>

datatype geo_err = ErrCenterlineTooShort | ErrCenterlineInvalidPoint int | ErrCenterlineZeroLength
  | ErrInvalidTrackLength | ErrInvalidProjectionDistance | ErrTrackerRequired

record Point =
  pX :: f64
  pY :: f64
  pZ :: f64

record Segment =
  sgStart :: Point
  sgEnd :: Point
  sgStartMeters :: f64
  sgEndMeters :: f64
  sgLength :: f64

record Centerline =
  clPoints :: "Point list"
  clSegments :: "Segment list"
  clTotalMeters :: f64
  clClosed :: bool

record Projection =
  pjSegmentIndex :: int
  pjSegmentRatio :: f64
  pjPoint :: Point
  pjDistanceFromStart :: f64
  pjNormalizedProgress :: f64
  pjOffCenterlineMeters :: f64

section \<open>Distances\<close>

definition Distance :: "Point \<Rightarrow> Point \<Rightarrow> f64" where
  "Distance a b =
    (let dx = fsub (pX b) (pX a); dy = fsub (pY b) (pY a); dz = fsub (pZ b) (pZ a)
     in fsqrt (fadd (fadd (fmul dx dx) (fmul dy dy)) (fmul dz dz)))"

definition newSegment :: "Point \<Rightarrow> Point \<Rightarrow> f64 \<Rightarrow> Segment option" where
  "newSegment start end startMeters =
    (let len = Distance start end in
     if feq len (Fin 0) then None
     else Some \<lparr>sgStart = start, sgEnd = end, sgStartMeters = startMeters, sgEndMeters = fadd startMeters len, sgLength = len\<rparr>)"

definition samePoint :: "Point \<Rightarrow> Point \<Rightarrow> bool" where
  "samePoint a b = (feq (pX a) (pX b) \<and> feq (pY a) (pY b) \<and> feq (pZ a) (pZ b))"

definition geo_isFinite :: "f64 \<Rightarrow> bool" where
  "geo_isFinite value = (\<not> isNaN value \<and> \<not> isInf0 value)"

definition normalizeDistance :: "f64 \<Rightarrow> f64 \<Rightarrow> f64" where
  "normalizeDistance distance totalMeters =
    (if fle totalMeters (Fin 0) then Fin 0
     else let normalized = fmod distance totalMeters;
              normalized = (if flt normalized (Fin 0) then fadd normalized totalMeters else normalized)
       in if feq normalized totalMeters then Fin 0 else normalized)"

definition normalizedProgress :: "f64 \<Rightarrow> f64 \<Rightarrow> bool \<Rightarrow> f64" where
  "normalizedProgress distanceFromStart totalMeters isClosed =
    (if fle totalMeters (Fin 0) then Fin 0
     else if \<not> isClosed then
       (if fle distanceFromStart (Fin 0) then Fin 0
        else if fle totalMeters distanceFromStart then Fin 1
        else fdiv distanceFromStart totalMeters)
     else fdiv (normalizeDistance distanceFromStart totalMeters) totalMeters)"

definition NormalizeProgress :: "f64 \<Rightarrow> f64 \<Rightarrow> f64" where
  "NormalizeProgress distanceFromStart totalMeters = normalizedProgress distanceFromStart totalMeters True"

definition ForwardDelta :: "f64 \<Rightarrow> f64 \<Rightarrow> f64 \<Rightarrow> geo_err + f64" where
  "ForwardDelta previousMeters currentMeters totalMeters =
    (if fle totalMeters (Fin 0) then Inl ErrInvalidTrackLength
     else let previous = normalizeDistance previousMeters totalMeters;
              current = normalizeDistance currentMeters totalMeters
       in if fle previous current then Inr (fsub current previous)
          else Inr (fadd (fsub totalMeters previous) current))"

section \<open>Building a centerline\<close>

fun first_invalid :: "int \<Rightarrow> Point list \<Rightarrow> int option" where
  "first_invalid i [] = None"
| "first_invalid i (p # ps) =
    (if \<not> geo_isFinite (pX p) \<or> \<not> geo_isFinite (pY p) \<or> \<not> geo_isFinite (pZ p) then Some i
     else first_invalid (i + 1) ps)"

fun segments_loop :: "Segment list \<Rightarrow> f64 \<Rightarrow> Point list \<Rightarrow> Segment list \<times> f64" where
  "segments_loop segments totalM (p # q # ps) =
    (case newSegment p q totalM of
       None \<Rightarrow> segments_loop segments totalM (q # ps)
     | Some segment \<Rightarrow> segments_loop (segments @ [segment]) (sgEndMeters segment) (q # ps))"
| "segments_loop segments totalM _ = (segments, totalM)"

definition NewCenterline :: "Point list \<Rightarrow> bool \<Rightarrow> geo_err + Centerline" where
  "NewCenterline points isClosed =
    (if length points < 2 then Inl ErrCenterlineTooShort
     else case first_invalid 0 points of Some i \<Rightarrow> Inl (ErrCenterlineInvalidPoint i)
     | None \<Rightarrow>
       let (segments, totalM) = segments_loop [] (Fin 0) points;
           (segments, totalM) =
             (if isClosed \<and> \<not> samePoint (hd points) (last points)
              then (case newSegment (last points) (hd points) totalM of
                  None \<Rightarrow> (segments, totalM)
                | Some segment \<Rightarrow> (segments @ [segment], sgEndMeters segment))
              else (segments, totalM))
       in if fle totalM (Fin 0) \<or> length segments = 0 then Inl ErrCenterlineZeroLength
          else Inr \<lparr>clPoints = points, clSegments = segments, clTotalMeters = totalM, clClosed = isClosed\<rparr>)"

section \<open>Projection\<close>

definition projectOnSegment :: "Point \<Rightarrow> Segment \<Rightarrow> f64 \<times> Point" where
  "projectOnSegment point segment =
    (let dx = fsub (pX (sgEnd segment)) (pX (sgStart segment));
         dy = fsub (pY (sgEnd segment)) (pY (sgStart segment));
         dz = fsub (pZ (sgEnd segment)) (pZ (sgStart segment));
         denominator = fadd (fadd (fmul dx dx) (fmul dy dy)) (fmul dz dz)
     in if feq denominator (Fin 0) then (Fin 0, sgStart segment)
        else let ratio = fdiv (fadd (fadd (fmul (fsub (pX point) (pX (sgStart segment))) dx)
                     (fmul (fsub (pY point) (pY (sgStart segment))) dy))
                   (fmul (fsub (pZ point) (pZ (sgStart segment))) dz)) denominator;
                 ratio = (if flt ratio (Fin 0) then Fin 0 else ratio);
                 ratio = (if flt (Fin 1) ratio then Fin 1 else ratio)
          in (ratio, \<lparr>pX = fadd (pX (sgStart segment)) (fmul dx ratio),
                 pY = fadd (pY (sgStart segment)) (fmul dy ratio),
                 pZ = fadd (pZ (sgStart segment)) (fmul dz ratio)\<rparr>))"

definition no_projection :: Projection where
  "no_projection = \<lparr>pjSegmentIndex = - 1, pjSegmentRatio = Fin 0, pjPoint = \<lparr>pX = Fin 0, pY = Fin 0, pZ = Fin 0\<rparr>,
     pjDistanceFromStart = Fin 0, pjNormalizedProgress = Fin 0, pjOffCenterlineMeters = FInf False\<rparr>"

fun project_loop :: "Centerline \<Rightarrow> Point \<Rightarrow> Projection \<Rightarrow> int \<Rightarrow> Segment list \<Rightarrow> Projection" where
  "project_loop c point best i [] = best"
| "project_loop c point best i (segment # segments) =
    (let (ratio, projected) = projectOnSegment point segment; distance = Distance point projected in
     if fle (pjOffCenterlineMeters best) distance then project_loop c point best (i + 1) segments
     else let distanceFromStart = fadd (sgStartMeters segment) (fmul (sgLength segment) ratio);
              distanceFromStart = (if clClosed c then normalizeDistance distanceFromStart (clTotalMeters c) else distanceFromStart)
       in project_loop c point
         \<lparr>pjSegmentIndex = i, pjSegmentRatio = ratio, pjPoint = projected, pjDistanceFromStart = distanceFromStart,
          pjNormalizedProgress = normalizedProgress distanceFromStart (clTotalMeters c) (clClosed c),
          pjOffCenterlineMeters = distance\<rparr> (i + 1) segments)"

definition Project :: "Centerline \<Rightarrow> Point \<Rightarrow> Projection" where
  "Project c point = project_loop c point no_projection 0 (clSegments c)"

section \<open>Arithmetic of distances\<close>

lemma normalizeDistance_range:
  assumes "is_fin d" "is_fin t" "f64_ok t" "0 < fval t"
  shows "is_fin (normalizeDistance d t)" "0 \<le> fval (normalizeDistance d t)" "fval (normalizeDistance d t) < fval t"
proof -
  note m = fmod_bound [OF assms(1,2,4)] and t = f64_ok_rep [OF assms(3,2)]
  let ?r = "fmod d t"
  have a: "is_fin (fadd ?r t)" "0 \<le> fval (fadd ?r t)" "fval (fadd ?r t) \<le> fval t" if "fval ?r < 0"
  proof -
    show f: "is_fin (fadd ?r t)"
      using m t assms(2,4) that by (intro is_fin_fadd_bound [where r = "fval t"]) auto
    show "0 \<le> fval (fadd ?r t)" "fval (fadd ?r t) \<le> fval t"
      using f m t assms(2,4) that by (auto simp: fval_fadd intro: rnd_rat_nonneg rnd_rat_le_rep)
  qed
  let ?n = "if fval ?r < 0 then fadd ?r t else ?r"
  have n: "is_fin ?n" "0 \<le> fval ?n" "fval ?n \<le> fval t" using a m by auto
  have "normalizeDistance d t = (if fval ?n = fval t then Fin 0 else ?n)"
    using assms m n by (simp add: normalizeDistance_def Let_def)
  then show "is_fin (normalizeDistance d t)" "0 \<le> fval (normalizeDistance d t)" "fval (normalizeDistance d t) < fval t"
    using n assms(4) by auto
qed

lemma normalizedProgress_range:
  assumes "is_fin d" "is_fin t" "f64_ok t"
  shows "is_fin (normalizedProgress d t c)" "0 \<le> fval (normalizedProgress d t c)" "fval (normalizedProgress d t c) \<le> 1"
proof -
  have "is_fin (normalizedProgress d t c) \<and> 0 \<le> fval (normalizedProgress d t c) \<and> fval (normalizedProgress d t c) \<le> 1"
  proof (cases "0 < fval t")
    case True
    note n = normalizeDistance_range [OF assms True]
    show ?thesis
      using fdiv_unit [of d t] fdiv_unit [of "normalizeDistance d t" t] n True assms
      by (auto simp: normalizedProgress_def)
  qed (use assms in \<open>simp add: normalizedProgress_def\<close>)
  then show "is_fin (normalizedProgress d t c)" "0 \<le> fval (normalizedProgress d t c)" "fval (normalizedProgress d t c) \<le> 1"
    by auto
qed

lemma ForwardDelta_nonneg:
  assumes "is_fin p" "is_fin c" "is_fin t" "f64_ok t" "0 < fval t" "fval t \<le> pow2 1022"
  shows "\<exists>d. ForwardDelta p c t = Inr d \<and> is_fin d \<and> 0 \<le> fval d"
proof -
  let ?p = "normalizeDistance p t" and ?c = "normalizeDistance c t"
  note p = normalizeDistance_range [OF assms(1,3-5)] and c = normalizeDistance_range [OF assms(2-5)]
  have big: "pow2 1022 < pow2 1024" "pow2 1023 < pow2 1024" by (auto intro!: pow2_strict)
  have dbl: "pow2 1023 = 2 * pow2 1022" using pow2_Suc [of 1022] by simp
  note rep = rep_pow2 [of 1022, simplified] rep_pow2 [of 1023, simplified]
  show ?thesis
  proof (cases "fval ?p \<le> fval ?c")
    case True
    have f: "is_fin (fsub ?c ?p)" using p c assms big rep True by (intro is_fin_fsub_bound [where r = "pow2 1022"]) auto
    then show ?thesis using p c assms True by (auto simp: ForwardDelta_def Let_def fval_fsub intro!: rnd_rat_nonneg)
  next
    case False
    have f: "is_fin (fsub t ?p)" using p c assms big rep by (intro is_fin_fsub_bound [where r = "pow2 1022"]) auto
    have v: "0 \<le> fval (fsub t ?p)" "fval (fsub t ?p) \<le> pow2 1022"
      using f p assms rep by (auto simp: fval_fsub intro!: rnd_rat_nonneg rnd_rat_le_rep)
    have g: "is_fin (fadd (fsub t ?p) ?c)"
      using f v p c assms big rep dbl by (intro is_fin_fadd_bound [where r = "pow2 1023"]) auto
    then show ?thesis using f v p c assms False
      by (auto simp: ForwardDelta_def Let_def fval_fadd intro!: rnd_rat_nonneg)
  qed
qed

section \<open>Centerlines\<close>

fun contiguous :: "f64 \<Rightarrow> Segment list \<Rightarrow> bool" where
  "contiguous m [] = True"
| "contiguous m (s # ss) = (sgStartMeters s = m \<and> sgEndMeters s = fadd m (sgLength s) \<and>
     \<not> feq (sgLength s) (Fin 0) \<and> sgLength s = Distance (sgStart s) (sgEnd s) \<and> contiguous (sgEndMeters s) ss)"

definition line_end :: "f64 \<Rightarrow> Segment list \<Rightarrow> f64" where
  "line_end m ss = (if ss = [] then m else sgEndMeters (last ss))"

lemma contiguous_snoc: "contiguous m (ss @ [s]) \<longleftrightarrow> contiguous m ss \<and> contiguous (line_end m ss) [s]"
  by (induction ss arbitrary: m) (auto simp: line_end_def)

lemma line_end_snoc [simp]: "line_end m (ss @ [s]) = sgEndMeters s"
  by (simp add: line_end_def)

lemma newSegment_contiguous: "newSegment p q m = Some s \<Longrightarrow> contiguous m [s]"
  by (auto simp: newSegment_def Let_def split: if_splits)

lemma segments_loop_contiguous:
  "contiguous m segs \<Longrightarrow> line_end m segs = totalM \<Longrightarrow> segments_loop segs totalM ps = (segs', totalM') \<Longrightarrow>
     contiguous m segs' \<and> line_end m segs' = totalM'"
proof (induction segs totalM ps rule: segments_loop.induct)
  case (1 segs totalM p q ps)
  show ?case
  proof (cases "newSegment p q totalM")
    case None with 1 show ?thesis by simp
  next
    case (Some a)
    have "contiguous m (segs @ [a])"
      using newSegment_contiguous [OF Some] "1.prems" by (simp only: contiguous_snoc simp_thms)
    from "1.IH"(2) [OF Some this] "1.prems" Some show ?thesis by simp
  qed
qed auto

lemma NewCenterline_segments:
  assumes "NewCenterline ps c = Inr cl"
  shows "contiguous (Fin 0) (clSegments cl) \<and> clSegments cl \<noteq> [] \<and> clTotalMeters cl = line_end (Fin 0) (clSegments cl)
    \<and> \<not> fle (clTotalMeters cl) (Fin 0) \<and> clPoints cl = ps \<and> clClosed cl = c"
proof -
  obtain segs t where l: "segments_loop [] (Fin 0) ps = (segs, t)" by fastforce
  have c: "contiguous (Fin 0) segs \<and> line_end (Fin 0) segs = t"
    using segments_loop_contiguous [OF _ _ l, of "Fin 0"] by (simp add: line_end_def)
  then show ?thesis
    using assms newSegment_contiguous [of "last ps" "hd ps" t]
    by (auto simp: NewCenterline_def l contiguous_snoc Let_def split: if_splits option.splits)
qed

section \<open>Properties\<close>

text \<open>Distances along a closed track stay on the track: for every finite distance and positive finite length,
  the normalised distance is in \<open>[0, length)\<close>, the progress in \<open>[0, 1]\<close>, and the forward delta is finite and
  non-negative, whatever the rounding.\<close>

theorem track_arithmetic_in_range:
  assumes "is_fin d" "is_fin e" "is_fin t" "f64_ok t" "0 < fval t" "fval t \<le> pow2 1022"
  shows "is_fin (normalizeDistance d t) \<and> 0 \<le> fval (normalizeDistance d t) \<and> fval (normalizeDistance d t) < fval t \<and>
    is_fin (normalizedProgress d t c) \<and> 0 \<le> fval (normalizedProgress d t c) \<and> fval (normalizedProgress d t c) \<le> 1 \<and>
    (\<exists>delta. ForwardDelta d e t = Inr delta \<and> is_fin delta \<and> 0 \<le> fval delta)"
  using normalizeDistance_range [OF assms(1,3,4,5)] normalizedProgress_range [OF assms(1,3,4)]
    ForwardDelta_nonneg [OF assms] by blast

theorem track_arithmetic_in_range_witness:
  "fval (normalizeDistance (Fin (- 5)) (Fin 1000)) < 1000 \<and>
   (\<exists>delta. ForwardDelta (Fin (- 5)) (Fin 20) (Fin 1000) = Inr delta \<and> is_fin delta \<and> 0 \<le> fval delta)"
proof -
  have "f64_ok (Fin (of_int 1000))" by (rule f64_ok_Fin_int) simp
  moreover have "(1000 :: rat) \<le> pow2 1022"
  proof -
    have "(1000 :: rat) \<le> pow2 10" by (simp add: pow2_powi)
    also have "\<dots> \<le> pow2 1022" by simp
    finally show ?thesis .
  qed
  ultimately show ?thesis
    using track_arithmetic_in_range [of "Fin (- 5)" "Fin 20" "Fin 1000" True] by simp
qed

text \<open>A centerline is a chain: its segments have non-zero length, each starts at the accumulated distance
  where the previous one ends, the first at zero, and the total length is where the last one ends.\<close>

theorem centerline_is_a_chain:
  "NewCenterline ps c = Inr cl \<Longrightarrow>
     clSegments cl \<noteq> [] \<and> contiguous (Fin 0) (clSegments cl) \<and> clTotalMeters cl = sgEndMeters (last (clSegments cl)) \<and>
     \<not> fle (clTotalMeters cl) (Fin 0) \<and> clPoints cl = ps \<and> clClosed cl = c"
  by (metis NewCenterline_segments line_end_def)

definition demo_points :: "Point list" where
  "demo_points = map (\<lambda>(x, y). \<lparr>pX = Fin x, pY = Fin y, pZ = Fin 0\<rparr>) [(0, 0), (3, 4), (3, 4), (9, 12)]"

definition demo_line :: Centerline where
  "demo_line = (case NewCenterline demo_points False of Inr cl \<Rightarrow> cl | Inl _ \<Rightarrow> \<lparr>clPoints = [], clSegments = [], clTotalMeters = Fin 0, clClosed = False\<rparr>)"

lemma demo_line_built: "NewCenterline demo_points False = Inr demo_line"
proof -
  have "isl (NewCenterline demo_points False) = False" by code_simp
  then show ?thesis by (cases "NewCenterline demo_points False") (auto simp: demo_line_def)
qed

theorem centerline_is_a_chain_witness:
  "contiguous (Fin 0) (clSegments demo_line) \<and> clTotalMeters demo_line = sgEndMeters (last (clSegments demo_line))"
  using centerline_is_a_chain [OF demo_line_built] by simp

section \<open>The nearest segment\<close>

definition off_line :: "Point \<Rightarrow> Segment \<Rightarrow> f64" where
  "off_line pt s = Distance pt (snd (projectOnSegment pt s))"

definition projection_on :: "Centerline \<Rightarrow> Point \<Rightarrow> int \<Rightarrow> Segment \<Rightarrow> Projection" where
  "projection_on c pt i s =
    (let ratio = fst (projectOnSegment pt s); d = fadd (sgStartMeters s) (fmul (sgLength s) ratio);
         d = (if clClosed c then normalizeDistance d (clTotalMeters c) else d)
     in \<lparr>pjSegmentIndex = i, pjSegmentRatio = ratio, pjPoint = snd (projectOnSegment pt s), pjDistanceFromStart = d,
         pjNormalizedProgress = normalizedProgress d (clTotalMeters c) (clClosed c), pjOffCenterlineMeters = off_line pt s\<rparr>)"

lemma project_loop_step:
  "project_loop c pt best i (s # ss) =
     project_loop c pt (if fle (pjOffCenterlineMeters best) (off_line pt s) then best else projection_on c pt i s) (i + 1) ss"
  by (auto simp: Let_def off_line_def projection_on_def split: prod.split)

declare project_loop.simps(2) [simp del]

lemma off_projection_on [simp]: "pjOffCenterlineMeters (projection_on c pt i s) = off_line pt s"
  by (simp add: projection_on_def Let_def)

lemma project_loop_least:
  assumes "list_all (\<lambda>s. \<not> isNaN (off_line pt s)) ss" "\<not> isNaN (pjOffCenterlineMeters best)"
  shows "fle (pjOffCenterlineMeters (project_loop c pt best i ss)) (pjOffCenterlineMeters best) \<and>
    list_all (\<lambda>s. fle (pjOffCenterlineMeters (project_loop c pt best i ss)) (off_line pt s)) ss \<and>
    (project_loop c pt best i ss = best \<or>
     (\<exists>j < length ss. project_loop c pt best i ss = projection_on c pt (i + int j) (ss ! j)))"
  using assms
proof (induction ss arbitrary: best i)
  case Nil then show ?case by (simp add: fle_refl)
next
  case (Cons s ss)
  let ?b = "if fle (pjOffCenterlineMeters best) (off_line pt s) then best else projection_on c pt i s"
  let ?r = "project_loop c pt ?b (i + 1) ss"
  have b: "\<not> isNaN (pjOffCenterlineMeters ?b)" "fle (pjOffCenterlineMeters ?b) (pjOffCenterlineMeters best)"
      "fle (pjOffCenterlineMeters ?b) (off_line pt s)"
    using Cons.prems by (auto simp: fle_refl intro: fle_linear)
  note ih = Cons.IH [of ?b "i + 1"]
  have le: "fle (pjOffCenterlineMeters ?r) (pjOffCenterlineMeters ?b)"
      "list_all (\<lambda>s. fle (pjOffCenterlineMeters ?r) (off_line pt s)) ss"
    using ih Cons.prems b by auto
  have "?r = ?b \<or> (\<exists>j < length ss. ?r = projection_on c pt (i + 1 + int j) (ss ! j))"
    using ih Cons.prems b by auto
  then have "?r = best \<or> (\<exists>j < length (s # ss). ?r = projection_on c pt (i + int j) ((s # ss) ! j))"
  proof
    assume "?r = ?b"
    then show ?thesis by (cases "fle (pjOffCenterlineMeters best) (off_line pt s)") (auto intro: exI [of _ 0])
  next
    assume "\<exists>j < length ss. ?r = projection_on c pt (i + 1 + int j) (ss ! j)"
    then obtain j where "j < length ss" "?r = projection_on c pt (i + 1 + int j) (ss ! j)" by blast
    then show ?thesis by (intro disjI2 exI [of _ "Suc j"]) (simp add: add.assoc)
  qed
  with le b show ?case unfolding project_loop_step by (auto intro: fle_trans)
qed

definition clamp_unit :: "f64 \<Rightarrow> f64" where
  "clamp_unit q = (let q = (if flt q (Fin 0) then Fin 0 else q) in if flt (Fin 1) q then Fin 1 else q)"

lemma clamp_unit_range: "clamp_unit q \<noteq> FNaN \<Longrightarrow> is_fin (clamp_unit q) \<and> 0 \<le> fval (clamp_unit q) \<and> fval (clamp_unit q) \<le> 1"
  by (cases q) (auto simp: clamp_unit_def split: if_splits)

lemma ratio_clamped: "fst (projectOnSegment pt s) = Fin 0 \<or> (\<exists>q. fst (projectOnSegment pt s) = clamp_unit q)"
  unfolding projectOnSegment_def clamp_unit_def Let_def by (simp only: split: if_split) auto

lemma ratio_of_projection:
  assumes "\<not> isNaN (off_line pt s)"
  shows "is_fin (fst (projectOnSegment pt s))" "0 \<le> fval (fst (projectOnSegment pt s))" "fval (fst (projectOnSegment pt s)) \<le> 1"
proof -
  let ?r = "fst (projectOnSegment pt s)"
  have nan: "fmul x FNaN = FNaN" "fadd x FNaN = FNaN" "fsub x FNaN = FNaN" for x by (cases x; simp add: fsub_def)+
  have "?r \<noteq> FNaN"
  proof
    assume "?r = FNaN"
    then have "isNaN (off_line pt s)"
      by (auto simp: off_line_def projectOnSegment_def Distance_def Let_def isNaN_def nan fsub_def split: if_splits)
    with assms show False by simp
  qed
  then show "is_fin ?r" "0 \<le> fval ?r" "fval ?r \<le> 1"
    using ratio_clamped [of pt s] clamp_unit_range by force+
qed

text \<open>C9: Projection finds the nearest segment: for a point whose distance to every segment is a number and to some
  segment finite, the result is the clamped projection on a segment of the line, with a ratio in \<open>[0, 1]\<close>, and no
  segment of the line is nearer.\<close>

theorem projection_is_nearest:
  assumes "list_all (\<lambda>s. \<not> isNaN (off_line pt s)) (clSegments c)" "s \<in> set (clSegments c)" "is_fin (off_line pt s)"
  shows "\<exists>j. j < length (clSegments c) \<and> Project c pt = projection_on c pt (int j) (clSegments c ! j) \<and>
    list_all (\<lambda>s. fle (pjOffCenterlineMeters (Project c pt)) (off_line pt s)) (clSegments c) \<and>
    0 \<le> fval (pjSegmentRatio (Project c pt)) \<and> fval (pjSegmentRatio (Project c pt)) \<le> 1"
proof -
  have n: "\<not> isNaN (pjOffCenterlineMeters no_projection)" by (simp add: no_projection_def isNaN_def)
  note l = project_loop_least [OF assms(1) n, of c 0, folded Project_def]
  have "fle (pjOffCenterlineMeters (Project c pt)) (off_line pt s)" using l assms(2) by (auto simp: list_all_iff)
  then have "pjOffCenterlineMeters (Project c pt) \<noteq> FInf False" using assms(3) by (auto simp: fle_def is_fin_Fin)
  then have "Project c pt \<noteq> no_projection" by (auto simp: no_projection_def)
  then obtain j where j: "j < length (clSegments c)" "Project c pt = projection_on c pt (int j) (clSegments c ! j)"
    using l by auto
  have "\<not> isNaN (off_line pt (clSegments c ! j))" using assms(1) j(1) by (simp add: list_all_length)
  then show ?thesis using ratio_of_projection [of pt "clSegments c ! j"] j l
    by (auto simp: projection_on_def Let_def intro!: exI [of _ j])
qed

definition demo_segment :: Segment where
  "demo_segment = \<lparr>sgStart = \<lparr>pX = Fin 0, pY = Fin 0, pZ = Fin 0\<rparr>, sgEnd = \<lparr>pX = Fin 8, pY = Fin 0, pZ = Fin 0\<rparr>,
     sgStartMeters = Fin 0, sgEndMeters = Fin 8, sgLength = Fin 8\<rparr>"

theorem projection_is_nearest_witness:
  "0 \<le> fval (pjSegmentRatio (Project \<lparr>clPoints = [], clSegments = [demo_segment], clTotalMeters = Fin 8, clClosed = True\<rparr>
     \<lparr>pX = Fin 2, pY = Fin 1, pZ = Fin 0\<rparr>))"
proof -
  have "is_fin (off_line \<lparr>pX = Fin 2, pY = Fin 1, pZ = Fin 0\<rparr> demo_segment)" by code_simp
  then show ?thesis
    using projection_is_nearest [of "\<lparr>pX = Fin 2, pY = Fin 1, pZ = Fin 0\<rparr>"
      "\<lparr>clPoints = [], clSegments = [demo_segment], clTotalMeters = Fin 8, clClosed = True\<rparr>" demo_segment]
    by (auto simp: is_fin_iff)
qed

end
