(* ===== verification/LapContinuity.thy ===== *)
theory LapContinuity
  imports Geometry
begin

text \<open>
  \<^verbatim>\<open>internal/geometry/lap_continuity.go\<close>: the tracker that turns projected distances into lap
  counts.  An update is a transition of its state: the first one (or a change between an open and a
  closed line) initialises it, a later one is jitter, a forward step (possibly over the line), a
  reverse step or a large jump that leaves the position alone.
\<close>

section \<open>Data\<close>

record LapContinuityOptions =
  oJitterToleranceMeters :: f64
  oMaxForwardDeltaMeters :: f64
  oMaxReverseDeltaMeters :: f64

record LapContinuityState =
  cInitialized :: bool
  cClosed :: bool
  cLapIndex :: int
  cLapCount :: int
  cDistanceMeters :: f64
  cProgress :: f64
  cForwardDeltaMeters :: f64
  cReverseDeltaMeters :: f64
  cTotalForwardMeters :: f64
  cWrappedStartFinishLine :: bool
  cReversed :: bool
  cLargeJump :: bool
  cAccepted :: bool

record LapContinuityTracker =
  tOptions :: LapContinuityOptions
  tState :: LapContinuityState

definition zero_continuity :: LapContinuityState where
  "zero_continuity = \<lparr>cInitialized = False, cClosed = False, cLapIndex = 0, cLapCount = 0, cDistanceMeters = Fin 0,
     cProgress = Fin 0, cForwardDeltaMeters = Fin 0, cReverseDeltaMeters = Fin 0, cTotalForwardMeters = Fin 0,
     cWrappedStartFinishLine = False, cReversed = False, cLargeJump = False, cAccepted = False\<rparr>"

definition DefaultLapContinuityOptions :: LapContinuityOptions where
  "DefaultLapContinuityOptions = \<lparr>oJitterToleranceMeters = Fin 1, oMaxForwardDeltaMeters = Fin 250, oMaxReverseDeltaMeters = Fin 25\<rparr>"

section \<open>Operations\<close>

definition normalizeLapContinuityOptions :: "LapContinuityOptions \<Rightarrow> LapContinuityOptions" where
  "normalizeLapContinuityOptions options =
    (let defaults = DefaultLapContinuityOptions;
         options = (if flt (oJitterToleranceMeters options) (Fin 0)
           then options\<lparr>oJitterToleranceMeters := oJitterToleranceMeters defaults\<rparr> else options);
         options = (if fle (oMaxForwardDeltaMeters options) (Fin 0)
           then options\<lparr>oMaxForwardDeltaMeters := oMaxForwardDeltaMeters defaults\<rparr> else options);
         options = (if fle (oMaxReverseDeltaMeters options) (Fin 0)
           then options\<lparr>oMaxReverseDeltaMeters := oMaxReverseDeltaMeters defaults\<rparr> else options)
     in options)"

definition NewLapContinuityTracker :: "LapContinuityOptions \<Rightarrow> LapContinuityTracker" where
  "NewLapContinuityTracker options = \<lparr>tOptions = normalizeLapContinuityOptions options, tState = zero_continuity\<rparr>"

definition tracker_Reset :: "LapContinuityTracker \<Rightarrow> LapContinuityTracker" where
  "tracker_Reset t = t\<lparr>tState := zero_continuity\<rparr>"

definition tracker_State :: "LapContinuityTracker \<Rightarrow> LapContinuityState" where
  "tracker_State t = tState t"

definition clampOpenDistance :: "f64 \<Rightarrow> f64 \<Rightarrow> f64" where
  "clampOpenDistance distanceMeters totalMeters =
    (if flt distanceMeters (Fin 0) then Fin 0
     else if flt totalMeters distanceMeters then totalMeters else distanceMeters)"

text \<open>\<^verbatim>\<open>ForwardDelta\<close> returns 0 beside an error, and \<^verbatim>\<open>updateClosed\<close> ignores the error.\<close>

definition delta_or_zero :: "geo_err + f64 \<Rightarrow> f64" where
  "delta_or_zero r = (case r of Inl _ \<Rightarrow> Fin 0 | Inr d \<Rightarrow> d)"

definition updateClosed :: "LapContinuityOptions \<Rightarrow> LapContinuityState \<Rightarrow> f64 \<Rightarrow> f64 \<Rightarrow> f64 \<Rightarrow> LapContinuityState" where
  "updateClosed opts state currentDistance currentProgress totalMeters =
    (let forwardDelta = delta_or_zero (ForwardDelta (cDistanceMeters state) currentDistance totalMeters);
         reverseDelta = delta_or_zero (ForwardDelta currentDistance (cDistanceMeters state) totalMeters)
     in if fle forwardDelta (oJitterToleranceMeters opts) \<or> fle reverseDelta (oJitterToleranceMeters opts)
        then state\<lparr>cAccepted := True\<rparr>
        else if fle forwardDelta (oMaxForwardDeltaMeters opts) \<and> flt forwardDelta reverseDelta
        then let state = state\<lparr>cForwardDeltaMeters := forwardDelta,
                   cTotalForwardMeters := fadd (cTotalForwardMeters state) forwardDelta\<rparr>;
                 state = (if flt currentDistance (cDistanceMeters state)
                   then state\<lparr>cWrappedStartFinishLine := True, cLapIndex := cLapIndex state + 1, cLapCount := cLapCount state + 1\<rparr>
                   else state)
             in state\<lparr>cDistanceMeters := currentDistance, cProgress := currentProgress, cAccepted := True\<rparr>
        else if fle reverseDelta (oMaxReverseDeltaMeters opts)
        then state\<lparr>cReverseDeltaMeters := reverseDelta, cReversed := True, cDistanceMeters := currentDistance,
               cProgress := currentProgress, cAccepted := True\<rparr>
        else state\<lparr>cLargeJump := True\<rparr>)"

definition updateOpen :: "LapContinuityOptions \<Rightarrow> LapContinuityState \<Rightarrow> f64 \<Rightarrow> f64 \<Rightarrow> LapContinuityState" where
  "updateOpen opts state currentDistance currentProgress =
    (let delta = fsub currentDistance (cDistanceMeters state) in
     if fle (fabs delta) (oJitterToleranceMeters opts) then state\<lparr>cAccepted := True\<rparr>
     else if flt (Fin 0) delta \<and> fle delta (oMaxForwardDeltaMeters opts)
     then state\<lparr>cForwardDeltaMeters := delta, cTotalForwardMeters := fadd (cTotalForwardMeters state) delta,
            cDistanceMeters := currentDistance, cProgress := currentProgress, cAccepted := True\<rparr>
     else if flt delta (Fin 0) \<and> fle (fabs delta) (oMaxReverseDeltaMeters opts)
     then state\<lparr>cReverseDeltaMeters := fabs delta, cReversed := True, cDistanceMeters := currentDistance,
            cProgress := currentProgress, cAccepted := True\<rparr>
     else state\<lparr>cLargeJump := True\<rparr>)"

definition tracker_Update ::
  "LapContinuityTracker \<Rightarrow> f64 \<Rightarrow> f64 \<Rightarrow> bool \<Rightarrow> geo_err option \<times> LapContinuityState \<times> LapContinuityTracker" where
  "tracker_Update t distanceMeters totalMeters isClosed =
    (if fle totalMeters (Fin 0) then (Some ErrInvalidTrackLength, tState t, t)
     else if \<not> geo_isFinite distanceMeters then (Some ErrInvalidProjectionDistance, tState t, t)
     else let currentDistance = (if isClosed then normalizeDistance distanceMeters totalMeters
                else clampOpenDistance distanceMeters totalMeters);
              currentProgress = normalizedProgress currentDistance totalMeters isClosed
       in if \<not> cInitialized (tState t) \<or> cClosed (tState t) \<noteq> isClosed
          then let state = zero_continuity\<lparr>cInitialized := True, cClosed := isClosed, cDistanceMeters := currentDistance,
                     cProgress := currentProgress, cAccepted := True\<rparr>
               in (None, state, t\<lparr>tState := state\<rparr>)
          else let state = (tState t)\<lparr>cForwardDeltaMeters := Fin 0, cReverseDeltaMeters := Fin 0,
                     cWrappedStartFinishLine := False, cReversed := False, cLargeJump := False, cAccepted := False\<rparr>;
                   state = (if isClosed then updateClosed (tOptions t) state currentDistance currentProgress totalMeters
                     else updateOpen (tOptions t) state currentDistance currentProgress)
               in (None, state, t\<lparr>tState := state\<rparr>))"

definition UpdateLapContinuity ::
  "LapContinuityTracker option \<Rightarrow> Projection \<Rightarrow> Centerline \<Rightarrow> geo_err option \<times> LapContinuityState \<times> LapContinuityTracker option" where
  "UpdateLapContinuity tracker projection centerline =
    (case tracker of None \<Rightarrow> (Some ErrTrackerRequired, zero_continuity, None)
     | Some t \<Rightarrow> (let (e, s, t') = tracker_Update t (pjDistanceFromStart projection) (clTotalMeters centerline) (clClosed centerline)
         in (e, s, Some t')))"

section \<open>The invariant\<close>

definition continuity_ok :: "LapContinuityState \<Rightarrow> bool" where
  "continuity_ok s \<longleftrightarrow> is_fin (cDistanceMeters s) \<and> 0 \<le> fval (cDistanceMeters s) \<and>
     is_fin (cProgress s) \<and> 0 \<le> fval (cProgress s) \<and> fval (cProgress s) \<le> 1 \<and>
     cLapIndex s = cLapCount s \<and> 0 \<le> cLapCount s \<and> (cLapCount s = 0 \<or> cClosed s) \<and> fle (Fin 0) (cTotalForwardMeters s) \<and>
     \<not> (cWrappedStartFinishLine s \<and> cReversed s) \<and> (cAccepted s \<longrightarrow> \<not> cLargeJump s)"

lemma fle_Fin0: "is_fin x \<Longrightarrow> 0 \<le> fval x \<Longrightarrow> fle (Fin 0) x"
  by simp

lemma ForwardDelta_0_le:
  assumes "is_fin p" "is_fin c" "is_fin t" "f64_ok t"
  shows "fle (Fin 0) (delta_or_zero (ForwardDelta p c t))"
proof (cases "0 < fval t")
  case True
  note np = normalizeDistance_range [OF assms(1,3,4) True] and nc = normalizeDistance_range [OF assms(2,3,4) True]
  show ?thesis
    using np nc assms True
    by (auto simp: ForwardDelta_def delta_or_zero_def Let_def intro!: fsub_nonneg fadd_nonneg)
qed (use assms in \<open>simp add: ForwardDelta_def delta_or_zero_def\<close>)

lemma current_distance_range:
  assumes "geo_isFinite d" "is_fin t" "f64_ok t" "\<not> fle t (Fin 0)"
  shows "is_fin (if c then normalizeDistance d t else clampOpenDistance d t)"
    "0 \<le> fval (if c then normalizeDistance d t else clampOpenDistance d t)"
proof -
  have d: "is_fin d" using assms(1) by (simp add: geo_isFinite_def is_fin_iff)
  have t: "0 < fval t" using assms(2,4) by simp
  show "is_fin (if c then normalizeDistance d t else clampOpenDistance d t)"
    "0 \<le> fval (if c then normalizeDistance d t else clampOpenDistance d t)"
    using normalizeDistance_range [OF d assms(2,3) t] d t assms(2) by (auto simp: clampOpenDistance_def)
qed

lemma updateClosed_ok:
  assumes "continuity_ok s" "cClosed s" "\<not> cWrappedStartFinishLine s" "\<not> cReversed s" "\<not> cLargeJump s" "\<not> cAccepted s"
    and "is_fin d" "0 \<le> fval d" "is_fin p" "0 \<le> fval p" "fval p \<le> 1" "is_fin t" "f64_ok t"
  shows "continuity_ok (updateClosed opts s d p t) \<and> cClosed (updateClosed opts s d p t)"
  using assms ForwardDelta_0_le [OF _ assms(7,12,13), of "cDistanceMeters s"]
  by (auto simp: updateClosed_def Let_def continuity_ok_def intro!: fadd_nonneg)

lemma updateOpen_ok:
  assumes "continuity_ok s" "\<not> cWrappedStartFinishLine s" "\<not> cReversed s" "\<not> cLargeJump s" "\<not> cAccepted s"
    and "is_fin d" "0 \<le> fval d" "is_fin p" "0 \<le> fval p" "fval p \<le> 1"
  shows "continuity_ok (updateOpen opts s d p) \<and> cClosed (updateOpen opts s d p) = cClosed s"
  using assms by (auto simp: updateOpen_def Let_def continuity_ok_def fle_def [of "Fin 0" "fsub _ _"] intro!: fadd_nonneg)

lemma tracker_Update_ok:
  assumes "continuity_ok (tState tr)" "is_fin t" "f64_ok t"
  shows "continuity_ok (tState (snd (snd (tracker_Update tr d t c))))"
proof (cases "fle t (Fin 0) \<or> \<not> geo_isFinite d")
  case True then show ?thesis using assms by (auto simp: tracker_Update_def)
next
  case False
  then have f: "geo_isFinite d" "\<not> fle t (Fin 0)" by auto
  let ?d = "if c then normalizeDistance d t else clampOpenDistance d t"
  note d = current_distance_range [OF f(1) assms(2,3) f(2), of c]
  note p = normalizedProgress_range [OF d(1) assms(2,3), of c]
  let ?s = "(tState tr)\<lparr>cForwardDeltaMeters := Fin 0, cReverseDeltaMeters := Fin 0,
      cWrappedStartFinishLine := False, cReversed := False, cLargeJump := False, cAccepted := False\<rparr>"
  have s: "continuity_ok ?s" using assms(1) by (simp add: continuity_ok_def)
  have "continuity_ok (updateClosed (tOptions tr) ?s ?d (normalizedProgress ?d t c) t)" if "cClosed (tState tr)"
    using updateClosed_ok [OF s _ _ _ _ _ d p assms(2,3)] that by simp
  moreover have "continuity_ok (updateOpen (tOptions tr) ?s ?d (normalizedProgress ?d t c))"
    using updateOpen_ok [OF s _ _ _ _ d p] by simp
  moreover have "continuity_ok (zero_continuity\<lparr>cInitialized := True, cClosed := c, cDistanceMeters := ?d,
      cProgress := normalizedProgress ?d t c, cAccepted := True\<rparr>)"
    using d p by (simp add: continuity_ok_def zero_continuity_def)
  ultimately show ?thesis using f by (auto simp: tracker_Update_def Let_def)
qed

section \<open>Runs\<close>

fun run_tracker :: "LapContinuityTracker \<Rightarrow> (f64 \<times> f64 \<times> bool) list \<Rightarrow> (geo_err option \<times> LapContinuityState) list \<times> LapContinuityTracker" where
  "run_tracker tr [] = ([], tr)"
| "run_tracker tr ((d, t, c) # ins) =
    (let (e, s, tr') = tracker_Update tr d t c; (rs, tr'') = run_tracker tr' ins in ((e, s) # rs, tr''))"

lemma run_tracker_ok:
  "continuity_ok (tState tr) \<Longrightarrow> list_all (\<lambda>(d, t, c). is_fin t \<and> f64_ok t) ins \<Longrightarrow>
     continuity_ok (tState (snd (run_tracker tr ins)))"
proof (induction tr ins rule: run_tracker.induct)
  case (2 tr d t c ins)
  then show ?case using tracker_Update_ok [of tr t d c] by (auto simp: Let_def split: prod.splits)
qed simp

text \<open>Whatever distances arrive (not numbers and infinities included), on lines of finite length, the state of
  the tracker is well formed: a finite non-negative distance, a progress in \<open>[0, 1]\<close>, equal lap index and lap count,
  laps only on a closed line, a non-negative forward total, and never both a wrap and a reverse.\<close>

theorem tracker_state_well_formed:
  "list_all (\<lambda>(d, t, c). is_fin t \<and> f64_ok t) ins \<Longrightarrow>
     continuity_ok (tState (snd (run_tracker (NewLapContinuityTracker opts) ins)))"
  by (rule run_tracker_ok) (simp_all add: continuity_ok_def NewLapContinuityTracker_def zero_continuity_def)

theorem tracker_state_well_formed_witness:
  "continuity_ok (tState (snd (run_tracker (NewLapContinuityTracker DefaultLapContinuityOptions)
     [(Fin 90, Fin (of_int 100), True), (FNaN, Fin (of_int 100), True), (Fin 5, Fin (of_int 100), True)])))"
  using f64_ok_Fin_int [of 100] by (intro tracker_state_well_formed) simp

lemma update_count:
  assumes "cInitialized (tState tr)" "cClosed (tState tr)"
  shows "cInitialized (tState (snd (snd (tracker_Update tr d t True)))) \<and> cClosed (tState (snd (snd (tracker_Update tr d t True)))) \<and>
    cLapCount (tState (snd (snd (tracker_Update tr d t True)))) = cLapCount (tState tr) +
      (if fst (tracker_Update tr d t True) = None \<and> cWrappedStartFinishLine (fst (snd (tracker_Update tr d t True))) then 1 else 0)"
  using assms by (auto simp: tracker_Update_def updateClosed_def Let_def)

text \<open>Laps are counted by wraps: on a closed line the lap count grows by exactly the number of accepted updates
  that report crossing the line; errors, jitter, reverse steps and large jumps never change it.\<close>

theorem laps_counted_by_wraps:
  "cInitialized (tState tr) \<Longrightarrow> cClosed (tState tr) \<Longrightarrow> list_all (\<lambda>(d, t, c). c) ins \<Longrightarrow>
     cLapCount (tState (snd (run_tracker tr ins))) = cLapCount (tState tr) +
       int (length (filter (\<lambda>(e, s). e = None \<and> cWrappedStartFinishLine s) (fst (run_tracker tr ins))))"
proof (induction tr ins rule: run_tracker.induct)
  case (2 tr d t c ins)
  then have c: "c" by simp
  show ?case
    using 2 update_count [OF "2.prems"(1,2), of d t] c by (auto simp: Let_def split: prod.splits)
qed simp

definition demo_tracker :: LapContinuityTracker where
  "demo_tracker = snd (snd (tracker_Update (NewLapContinuityTracker DefaultLapContinuityOptions) (Fin 90) (Fin 100) True))"

theorem laps_counted_by_wraps_witness:
  "cLapCount (tState (snd (run_tracker demo_tracker [(Fin 5, Fin 100, True), (Fin 50, Fin 100, True)]))) =
     cLapCount (tState demo_tracker) + int (length (filter (\<lambda>(e, s). e = None \<and> cWrappedStartFinishLine s)
       (fst (run_tracker demo_tracker [(Fin 5, Fin 100, True), (Fin 50, Fin 100, True)]))))"
proof -
  have "cInitialized (tState demo_tracker)" "cClosed (tState demo_tracker)" by code_simp+
  then show ?thesis by (rule laps_counted_by_wraps) simp
qed

end
