(* ===== verification/Tracks.thy ===== *)
theory Tracks
  imports Prelude Float64
begin

text \<open>
  \<^verbatim>\<open>internal/tracks/track.go\<close>, \<^verbatim>\<open>catalog.go\<close> and \<^verbatim>\<open>catalog_summary.go\<close>: the track catalogue, its
  validation, and the selectable layouts derived from it.  An error of the validation is the
  path prefix of its message and the sentinel it wraps; the table of identifiers that the code
  shares through a map is passed along.
\<close>

section \<open>Data\<close>

record TrackPoint =
  tpIndex :: int
  tpX :: f64
  tpY :: f64
  tpZ :: f64
  tpAccumulatedMeters :: f64
  tpHeadingRadians :: f64
  tpCurvature :: f64

record Source =
  srcURL :: string
  srcSourceType :: string
  srcRetrievedAt :: string
  srcNote :: string

record Sector =
  scNumber :: int
  scName :: string
  scStartMeters :: f64
  scEndMeters :: f64
  scSources :: "Source list"

record Corner =
  coID :: string
  coNumber :: int
  coName :: string
  coDefinitionMode :: string
  coStartMeters :: f64
  coApexMeters :: f64
  coEndMeters :: f64
  coDirection :: string
  coRadiusMeters :: f64
  coSeverity :: string
  coConfidence :: f64
  coSources :: "Source list"

record CatalogLayout =
  loID :: string
  loName :: string
  loLengthMeters :: f64
  loSources :: "Source list"
  loSectors :: "Sector list"
  loCorners :: "Corner list"
  loCenterLine :: "TrackPoint list"

record CatalogTrack =
  trID :: string
  trName :: string
  trCountry :: string
  trSources :: "Source list"
  trLayouts :: "CatalogLayout list"

record ApprovedGeometryLayout =
  agTrackID :: string
  agLayoutID :: string
  agLengthMeters :: f64
  agCenterLine :: "TrackPoint list"

record Catalog =
  caCatalogVersion :: string
  caTracks :: "CatalogTrack list"
  caApprovedGeometry :: "ApprovedGeometryLayout list"

datatype cat_err =
    ErrUnsupportedCatalogVersion | ErrMissingCatalogVersion | ErrMissingTrackID | ErrMissingTrackName
  | ErrMissingLayoutID | ErrMissingLayoutName | ErrMissingSectorName | ErrMissingCornerID | ErrMissingCornerName
  | ErrDuplicateID | ErrInvalidLength | ErrInvalidDistanceRange | ErrOverlappingDistanceRange | ErrMissingSourceURL
  | ErrMissingSourceType | ErrMissingSourceRetrievedAt | ErrMissingMetadataSource | ErrUnsupportedSourceOfTruthSource
  | ErrInvalidCenterLine | ErrUnsupportedCornerDefinitionMode

type_synonym cat_error = "string \<times> cat_err"
type_synonym ids = "string \<Rightarrow> string option"

definition CatalogVersionV1 :: string where "CatalogVersionV1 = ''telemetry-one.track-catalog.v1''"
definition CornerDefinitionCatalogManual :: string where "CornerDefinitionCatalogManual = ''catalog_manual''"
definition CornerDefinitionCatalogEnumerated :: string where "CornerDefinitionCatalogEnumerated = ''catalog_enumerated''"

definition indexed :: "string \<Rightarrow> int \<Rightarrow> string" where
  "indexed path i = path @ ''['' @ itoa i @ '']''"

section \<open>Validation\<close>

definition isFinite :: "f64 \<Rightarrow> bool" where
  "isFinite value = (\<not> isNaN value \<and> \<not> isInf0 value)"

definition pointDistance :: "TrackPoint \<Rightarrow> TrackPoint \<Rightarrow> f64" where
  "pointDistance a b =
    (let dx = fsub (tpX b) (tpX a); dy = fsub (tpY b) (tpY a); dz = fsub (tpZ b) (tpZ a)
     in fsqrt (fadd (fadd (fmul dx dx) (fmul dy dy)) (fmul dz dz)))"

definition rememberID :: "ids \<Rightarrow> string \<Rightarrow> string \<Rightarrow> cat_error + ids" where
  "rememberID ids i path = (case ids i of
     Some existingPath \<Rightarrow> Inl (path @ '' duplicates '' @ existingPath, ErrDuplicateID)
   | None \<Rightarrow> Inr (ids(i \<mapsto> path)))"

fun sources_loop :: "string \<Rightarrow> int \<Rightarrow> Source list \<Rightarrow> cat_error option" where
  "sources_loop path i [] = None"
| "sources_loop path i (s # ss) =
    (if srcURL s = [] then Some (indexed path i @ ''.url'', ErrMissingSourceURL)
     else if srcSourceType s = [] then Some (indexed path i @ ''.sourceType'', ErrMissingSourceType)
     else if srcRetrievedAt s = [] then Some (indexed path i @ ''.retrievedAt'', ErrMissingSourceRetrievedAt)
     else sources_loop path (i + 1) ss)"

definition validateSources :: "string \<Rightarrow> Source list \<Rightarrow> cat_error option" where
  "validateSources path sources = sources_loop path 0 sources"

definition requireSources :: "string \<Rightarrow> Source list \<Rightarrow> cat_error option" where
  "requireSources path sources =
    (if length sources = 0 then Some (path, ErrMissingMetadataSource) else validateSources path sources)"

definition isProductionSourceType :: "string \<Rightarrow> bool" where
  "isProductionSourceType sourceType =
    (sourceType = ''official_gran_turismo_tracklist_asset'' \<or> sourceType = ''gt7info_course_csv'')"

fun production_loop :: "string \<Rightarrow> int \<Rightarrow> Source list \<Rightarrow> cat_error option" where
  "production_loop path i [] = None"
| "production_loop path i (s # ss) =
    (if \<not> isProductionSourceType (srcSourceType s)
     then Some (indexed path i @ ''.sourceType'', ErrUnsupportedSourceOfTruthSource)
     else production_loop path (i + 1) ss)"

definition requireProductionSources :: "string \<Rightarrow> Source list \<Rightarrow> cat_error option" where
  "requireProductionSources path sources =
    (case requireSources path sources of Some e \<Rightarrow> Some e | None \<Rightarrow> production_loop path 0 sources)"

fun sectors_loop :: "string \<Rightarrow> f64 \<Rightarrow> int \<Rightarrow> f64 \<Rightarrow> Sector list \<Rightarrow> cat_error option" where
  "sectors_loop path lengthMeters i previousEnd [] = None"
| "sectors_loop path lengthMeters i previousEnd (s # ss) =
    (if scName s = [] then Some (indexed path i @ ''.name'', ErrMissingSectorName)
     else case validateSources (indexed path i @ ''.sources'') (scSources s) of Some e \<Rightarrow> Some e
     | None \<Rightarrow>
       if flt (scStartMeters s) (Fin 0) \<or> fle (scEndMeters s) (scStartMeters s) \<or> flt lengthMeters (scEndMeters s)
       then Some (indexed path i, ErrInvalidDistanceRange)
       else if i > 0 \<and> flt (scStartMeters s) previousEnd then Some (indexed path i, ErrOverlappingDistanceRange)
       else sectors_loop path lengthMeters (i + 1) (scEndMeters s) ss)"

definition validateSectors :: "string \<Rightarrow> Sector list \<Rightarrow> f64 \<Rightarrow> cat_error option" where
  "validateSectors path sectors lengthMeters = sectors_loop path lengthMeters 0 (Fin 0) sectors"

text \<open>\<open>Some w\<close>: the range is valid and \<open>w\<close> says that it wraps around the line.\<close>

definition validateCornerRange :: "Corner \<Rightarrow> f64 \<Rightarrow> bool option" where
  "validateCornerRange c lengthMeters =
    (let s = coStartMeters c; a = coApexMeters c; e = coEndMeters c in
     if \<not> isFinite s \<or> \<not> isFinite a \<or> \<not> isFinite e then None
     else if flt s (Fin 0) \<or> flt a (Fin 0) \<or> flt e (Fin 0) \<or> flt lengthMeters s \<or> flt lengthMeters a \<or> flt lengthMeters e then None
     else if flt s e then (if fle a s \<or> fle e a then None else Some False)
     else if feq s e then None
     else if flt a s \<and> fle e a then None
     else Some True)"

fun corners_loop :: "string \<Rightarrow> f64 \<Rightarrow> int \<Rightarrow> int \<Rightarrow> f64 \<Rightarrow> f64 option \<Rightarrow> bool \<Rightarrow> ids \<Rightarrow> Corner list \<Rightarrow> cat_error + ids" where
  "corners_loop path lengthMeters n i previousEnd firstStart hasWrap ids [] = Inr ids"
| "corners_loop path lengthMeters n i previousEnd firstStart hasWrap ids (c # cs) =
    (if coID c = [] then Inl (indexed path i @ ''.id'', ErrMissingCornerID)
     else if coName c = [] then Inl (indexed path i @ ''.name'', ErrMissingCornerName)
     else if coDefinitionMode c \<noteq> CornerDefinitionCatalogManual \<and> coDefinitionMode c \<noteq> CornerDefinitionCatalogEnumerated
     then Inl (indexed path i @ ''.definitionMode'', ErrUnsupportedCornerDefinitionMode)
     else case rememberID ids (coID c) (indexed path i) of Inl e \<Rightarrow> Inl e
     | Inr ids \<Rightarrow>
       (case validateSources (indexed path i @ ''.sources'') (coSources c) of Some e \<Rightarrow> Inl e
        | None \<Rightarrow>
          if coDefinitionMode c = CornerDefinitionCatalogEnumerated
          then (if \<not> feq (coStartMeters c) (Fin 0) \<or> \<not> feq (coApexMeters c) (Fin 0) \<or> \<not> feq (coEndMeters c) (Fin 0)
            then Inl (indexed path i, ErrInvalidDistanceRange)
            else corners_loop path lengthMeters n (i + 1) previousEnd firstStart hasWrap ids cs)
          else (case validateCornerRange c lengthMeters of None \<Rightarrow> Inl (indexed path i, ErrInvalidDistanceRange)
            | Some wrapAround \<Rightarrow>
              let first = (case firstStart of None \<Rightarrow> coStartMeters c | Some f \<Rightarrow> f) in
              if hasWrap \<or> wrapAround \<and> i \<noteq> n - 1 then Inl (indexed path i, ErrOverlappingDistanceRange)
              else if i > 0 \<and> flt (coStartMeters c) previousEnd then Inl (indexed path i, ErrOverlappingDistanceRange)
              else if wrapAround \<and> n > 1 \<and> flt first (coEndMeters c) then Inl (indexed path i, ErrOverlappingDistanceRange)
              else if wrapAround then corners_loop path lengthMeters n (i + 1) lengthMeters (Some first) True ids cs
              else corners_loop path lengthMeters n (i + 1) (coEndMeters c) (Some first) hasWrap ids cs)))"

definition validateCorners :: "string \<Rightarrow> Corner list \<Rightarrow> f64 \<Rightarrow> ids \<Rightarrow> cat_error + ids" where
  "validateCorners path corners lengthMeters ids =
    corners_loop path lengthMeters (int (length corners)) 0 (Fin 0) None False ids corners"

fun centerline_loop :: "string \<Rightarrow> f64 \<Rightarrow> int \<Rightarrow> f64 \<Rightarrow> TrackPoint option \<Rightarrow> TrackPoint list \<Rightarrow> cat_error option" where
  "centerline_loop path lengthMeters i previousAccumulated prev [] = None"
| "centerline_loop path lengthMeters i previousAccumulated prev (p # ps) =
    (if \<not> isFinite (tpX p) \<or> \<not> isFinite (tpY p) \<or> \<not> isFinite (tpZ p) \<or> \<not> isFinite (tpAccumulatedMeters p)
     then Some (indexed path i, ErrInvalidCenterLine)
     else if flt (tpAccumulatedMeters p) (Fin 0) \<or> flt lengthMeters (tpAccumulatedMeters p)
     then Some (indexed path i @ ''.accumulatedMeters'', ErrInvalidCenterLine)
     else if fle (tpAccumulatedMeters p) previousAccumulated
     then Some (indexed path i @ ''.accumulatedMeters'', ErrInvalidCenterLine)
     else if (case prev of None \<Rightarrow> False | Some q \<Rightarrow> feq (pointDistance q p) (Fin 0))
     then Some (indexed path i, ErrInvalidCenterLine)
     else centerline_loop path lengthMeters (i + 1) (tpAccumulatedMeters p) (Some p) ps)"

definition validateCenterLine :: "string \<Rightarrow> TrackPoint list \<Rightarrow> f64 \<Rightarrow> cat_error option" where
  "validateCenterLine path centerLine lengthMeters =
    (if length centerLine = 0 then None
     else if length centerLine < 2 then Some (path, ErrInvalidCenterLine)
     else case centerline_loop path lengthMeters 0 (Fin (- 1)) None centerLine of Some e \<Rightarrow> Some e
     | None \<Rightarrow> if \<not> feq (tpAccumulatedMeters (hd centerLine)) (Fin 0)
         then Some (path @ ''[0].accumulatedMeters'', ErrInvalidCenterLine) else None)"

definition layout_validate :: "CatalogLayout \<Rightarrow> string \<Rightarrow> ids \<Rightarrow> cat_error + ids" where
  "layout_validate l path ids =
    (if loID l = [] then Inl (path @ ''.id'', ErrMissingLayoutID)
     else if loName l = [] then Inl (path @ ''.name'', ErrMissingLayoutName)
     else case rememberID ids (loID l) path of Inl e \<Rightarrow> Inl e
     | Inr ids \<Rightarrow>
       if fle (loLengthMeters l) (Fin 0) then Inl (path @ ''.lengthMeters'', ErrInvalidLength)
       else case validateSources (path @ ''.sources'') (loSources l) of Some e \<Rightarrow> Inl e
       | None \<Rightarrow> (case validateSectors (path @ ''.sectors'') (loSectors l) (loLengthMeters l) of Some e \<Rightarrow> Inl e
         | None \<Rightarrow> (case validateCorners (path @ ''.corners'') (loCorners l) (loLengthMeters l) ids of Inl e \<Rightarrow> Inl e
           | Inr ids \<Rightarrow> (case validateCenterLine (path @ ''.centerLine'') (loCenterLine l) (loLengthMeters l) of
                 Some e \<Rightarrow> Inl e | None \<Rightarrow> Inr ids))))"

fun layouts_loop :: "string \<Rightarrow> int \<Rightarrow> ids \<Rightarrow> CatalogLayout list \<Rightarrow> cat_error + ids" where
  "layouts_loop trackPath i ids [] = Inr ids"
| "layouts_loop trackPath i ids (l # ls) =
    (case layout_validate l (indexed (trackPath @ ''.layouts'') i) ids of Inl e \<Rightarrow> Inl e
     | Inr ids \<Rightarrow> layouts_loop trackPath (i + 1) ids ls)"

fun tracks_loop :: "int \<Rightarrow> ids \<Rightarrow> CatalogTrack list \<Rightarrow> cat_error + ids" where
  "tracks_loop i ids [] = Inr ids"
| "tracks_loop i ids (t # ts) =
    (let trackPath = indexed ''tracks'' i in
     if trID t = [] then Inl (trackPath @ ''.id'', ErrMissingTrackID)
     else if trName t = [] then Inl (trackPath @ ''.name'', ErrMissingTrackName)
     else case rememberID ids (trID t) trackPath of Inl e \<Rightarrow> Inl e
     | Inr ids \<Rightarrow> (case validateSources (trackPath @ ''.sources'') (trSources t) of Some e \<Rightarrow> Inl e
       | None \<Rightarrow> (case layouts_loop trackPath 0 ids (trLayouts t) of Inl e \<Rightarrow> Inl e
         | Inr ids \<Rightarrow> tracks_loop (i + 1) ids ts)))"

definition catalog_Validate :: "Catalog \<Rightarrow> cat_error option" where
  "catalog_Validate c =
    (if caCatalogVersion c = [] then Some ([], ErrMissingCatalogVersion)
     else if caCatalogVersion c \<noteq> CatalogVersionV1 then Some ([], ErrUnsupportedCatalogVersion)
     else case tracks_loop 0 Map.empty (caTracks c) of Inl e \<Rightarrow> Some e | Inr _ \<Rightarrow> None)"

section \<open>Source of truth\<close>

text \<open>The checks over an indexed list, one after the other.\<close>

fun first_error :: "(string \<Rightarrow> 'a \<Rightarrow> cat_error option) \<Rightarrow> string \<Rightarrow> int \<Rightarrow> 'a list \<Rightarrow> cat_error option" where
  "first_error f path i [] = None"
| "first_error f path i (x # xs) = (case f (indexed path i) x of Some e \<Rightarrow> Some e | None \<Rightarrow> first_error f path (i + 1) xs)"

definition layout_sources_check :: "string \<Rightarrow> CatalogLayout \<Rightarrow> cat_error option" where
  "layout_sources_check layoutPath l =
    (case requireProductionSources (layoutPath @ ''.sources'') (loSources l) of Some e \<Rightarrow> Some e
     | None \<Rightarrow> (case first_error (\<lambda>p s. requireProductionSources (p @ ''.sources'') (scSources s))
           (layoutPath @ ''.sectors'') 0 (loSectors l) of Some e \<Rightarrow> Some e
       | None \<Rightarrow> first_error (\<lambda>p c. requireProductionSources (p @ ''.sources'') (coSources c))
           (layoutPath @ ''.corners'') 0 (loCorners l)))"

definition track_sources_check :: "string \<Rightarrow> CatalogTrack \<Rightarrow> cat_error option" where
  "track_sources_check trackPath t =
    (case requireProductionSources (trackPath @ ''.sources'') (trSources t) of Some e \<Rightarrow> Some e
     | None \<Rightarrow> first_error layout_sources_check (trackPath @ ''.layouts'') 0 (trLayouts t))"

definition ValidateSourceOfTruth :: "Catalog \<Rightarrow> cat_error option" where
  "ValidateSourceOfTruth c =
    (case catalog_Validate c of Some e \<Rightarrow> Some e | None \<Rightarrow> first_error track_sources_check ''tracks'' 0 (caTracks c))"

section \<open>The selectable layouts\<close>

record CatalogTrackLayoutSummaryItem =
  liID :: string
  liName :: string
  liLengthMeters :: f64
  liSources :: "Source list"

record CatalogTrackLayoutItem =
  tiID :: string
  tiName :: string
  tiCountry :: string
  tiSources :: "Source list"
  tiLayouts :: "CatalogTrackLayoutSummaryItem list"

record CatalogTrackLayoutSummary =
  suCatalogVersion :: string
  suTracks :: "CatalogTrackLayoutItem list"

definition filterProductionSources :: "Source list \<Rightarrow> Source list" where
  "filterProductionSources sources = filter (\<lambda>s. isProductionSourceType (srcSourceType s)) sources"

definition hasSelectableLayoutMetadata :: "CatalogTrack \<Rightarrow> CatalogLayout \<Rightarrow> bool" where
  "hasSelectableLayoutMetadata t l =
    (if trID t = [] \<or> trName t = [] \<or> loID l = [] \<or> loName l = [] then False
     else if length (trSources t) = 0 \<or> length (loSources l) = 0 then False
     else validateSources ''track.sources'' (trSources t) = None \<and> validateSources ''layout.sources'' (loSources l) = None)"

fun summary_layouts :: "CatalogTrack \<Rightarrow> CatalogLayout list \<Rightarrow> CatalogTrackLayoutSummaryItem list" where
  "summary_layouts t [] = []"
| "summary_layouts t (l # ls) =
    (if \<not> hasSelectableLayoutMetadata t l then summary_layouts t ls
     else let layoutSources = filterProductionSources (loSources l) in
       if length layoutSources = 0 then summary_layouts t ls
       else \<lparr>liID = loID l, liName = loName l, liLengthMeters = loLengthMeters l, liSources = layoutSources\<rparr> # summary_layouts t ls)"

fun summary_tracks :: "CatalogTrack list \<Rightarrow> CatalogTrackLayoutItem list" where
  "summary_tracks [] = []"
| "summary_tracks (t # ts) =
    (let trackSources = filterProductionSources (trSources t) in
     if length trackSources = 0 then summary_tracks ts
     else let layouts = summary_layouts t (trLayouts t) in
       if length layouts = 0 then summary_tracks ts
       else \<lparr>tiID = trID t, tiName = trName t, tiCountry = trCountry t, tiSources = trackSources, tiLayouts = layouts\<rparr> # summary_tracks ts)"

definition BuildCatalogTrackLayoutSummary :: "Catalog \<Rightarrow> CatalogTrackLayoutSummary" where
  "BuildCatalogTrackLayoutSummary c = \<lparr>suCatalogVersion = caCatalogVersion c, suTracks = summary_tracks (caTracks c)\<rparr>"

definition FindSelectableTrackLayout :: "Catalog \<Rightarrow> string \<Rightarrow> string \<Rightarrow> (CatalogTrack \<times> CatalogLayout) option" where
  "FindSelectableTrackLayout c trackID layoutID =
    (case find (\<lambda>t. trID t = trackID) (caTracks c) of None \<Rightarrow> None
     | Some t \<Rightarrow>
       if length (filterProductionSources (trSources t)) = 0 then None
       else (case find (\<lambda>l. loID l = layoutID) (trLayouts t) of None \<Rightarrow> None
         | Some l \<Rightarrow>
           if length (filterProductionSources (loSources l)) = 0 then None
           else if length (trSources t) = 0 \<or> length (loSources l) = 0 then None
           else if validateSources ''track.sources'' (trSources t) \<noteq> None \<or> validateSources ''layout.sources'' (loSources l) \<noteq> None
           then None
           else Some (t, l)))"

section \<open>Identifiers\<close>

text \<open>A step that remembers \<open>xs\<close> succeeded: the new names are fresh, distinct and now known.\<close>

definition remembers :: "string list \<Rightarrow> ids \<Rightarrow> ids \<Rightarrow> bool" where
  "remembers xs ids ids' \<longleftrightarrow> distinct xs \<and> set xs \<inter> dom ids = {} \<and> dom ids' = dom ids \<union> set xs"

lemma remembers_Nil [simp]: "remembers [] ids ids"
  by (simp add: remembers_def)

lemma remembers_append: "remembers xs ids ids' \<Longrightarrow> remembers ys ids' ids'' \<Longrightarrow> remembers (xs @ ys) ids ids''"
  by (auto simp: remembers_def)

lemma rememberID_remembers: "rememberID ids x p = Inr ids' \<Longrightarrow> remembers [x] ids ids'"
  by (auto simp: rememberID_def remembers_def split: option.splits)

lemma remembers_Cons: "rememberID ids x p = Inr ids' \<Longrightarrow> remembers ys ids' ids'' \<Longrightarrow> remembers (x # ys) ids ids''"
  using remembers_append [of "[x]" ids ids' ys ids''] rememberID_remembers by simp

lemma corners_loop_remembers:
  "corners_loop path len n i pe fs hw ids cs = Inr ids' \<Longrightarrow> remembers (map coID cs) ids ids'"
  by (induction path len n i pe fs hw ids cs rule: corners_loop.induct)
    (auto simp: Let_def intro: remembers_Cons split: if_splits sum.splits option.splits)

definition layout_ids :: "CatalogLayout \<Rightarrow> string list" where
  "layout_ids l = loID l # map coID (loCorners l)"

definition track_ids :: "CatalogTrack \<Rightarrow> string list" where
  "track_ids t = trID t # concat (map layout_ids (trLayouts t))"

lemma layout_validate_remembers: "layout_validate l path ids = Inr ids' \<Longrightarrow> remembers (layout_ids l) ids ids'"
  by (auto simp: layout_validate_def layout_ids_def validateCorners_def
    intro!: remembers_Cons corners_loop_remembers split: if_splits sum.splits option.splits)

lemma layouts_loop_remembers: "layouts_loop tp i ids ls = Inr ids' \<Longrightarrow> remembers (concat (map layout_ids ls)) ids ids'"
  by (induction tp i ids ls rule: layouts_loop.induct)
    (auto intro: remembers_append layout_validate_remembers split: sum.splits)

lemma tracks_loop_remembers: "tracks_loop i ids ts = Inr ids' \<Longrightarrow> remembers (concat (map track_ids ts)) ids ids'"
proof (induction i ids ts rule: tracks_loop.induct)
  case (2 i ids t ts)
  then obtain ids1 ids2 where i: "rememberID ids (trID t) (indexed ''tracks'' i) = Inr ids1"
      "layouts_loop (indexed ''tracks'' i) 0 ids1 (trLayouts t) = Inr ids2" "tracks_loop (i + 1) ids2 ts = Inr ids'"
    by (auto simp: Let_def split: if_splits sum.splits option.splits)
  have "remembers (track_ids t) ids ids2"
    unfolding track_ids_def using i(1,2) by (intro remembers_Cons layouts_loop_remembers)
  moreover have "remembers (concat (map track_ids ts)) ids2 ids'"
    using "2.IH" "2.prems" by (auto simp: Let_def i split: if_splits sum.splits option.splits)
  ultimately show ?case by (simp add: remembers_append)
qed simp

section \<open>Selectable layouts\<close>

lemma sources_loop_iff: "sources_loop path i ss = None \<longleftrightarrow> list_all (\<lambda>s. srcURL s \<noteq> [] \<and> srcSourceType s \<noteq> [] \<and> srcRetrievedAt s \<noteq> []) ss"
  by (induction path i ss rule: sources_loop.induct) auto

lemma validateSources_iff: "validateSources path ss = None \<longleftrightarrow> list_all (\<lambda>s. srcURL s \<noteq> [] \<and> srcSourceType s \<noteq> [] \<and> srcRetrievedAt s \<noteq> []) ss"
  by (simp add: validateSources_def sources_loop_iff)

definition selectable :: "CatalogTrack \<Rightarrow> CatalogLayout \<Rightarrow> bool" where
  "selectable t l \<longleftrightarrow> filterProductionSources (trSources t) \<noteq> [] \<and> filterProductionSources (loSources l) \<noteq> []"

lemma layouts_loop_validates:
  "layouts_loop tp i ids ls = Inr ids' \<Longrightarrow> l \<in> set ls \<Longrightarrow> \<exists>p j k. layout_validate l p j = Inr k"
  by (induction tp i ids ls rule: layouts_loop.induct) (auto split: sum.splits)

lemma layouts_loop_members:
  assumes "layouts_loop tp i ids ls = Inr ids'" "l \<in> set ls"
  shows "loID l \<noteq> [] \<and> loName l \<noteq> [] \<and> (\<exists>path. validateSources path (loSources l) = None)"
proof -
  obtain p j k where "layout_validate l p j = Inr k" using layouts_loop_validates [OF assms] by blast
  then show ?thesis by (auto simp: layout_validate_def split: if_splits sum.splits option.splits)
qed

lemma tracks_loop_members:
  "tracks_loop i ids ts = Inr ids' \<Longrightarrow> t \<in> set ts \<Longrightarrow> trID t \<noteq> [] \<and> trName t \<noteq> [] \<and>
     (\<exists>path. validateSources path (trSources t) = None) \<and> (\<exists>tp ids ids'. layouts_loop tp 0 ids (trLayouts t) = Inr ids')"
  by (induction i ids ts rule: tracks_loop.induct)
    (auto simp: Let_def split: sum.splits if_splits option.splits)

text \<open>What a valid catalogue gives each of its layouts.\<close>

lemma catalog_valid_layout:
  assumes "catalog_Validate c = None" "t \<in> set (caTracks c)" "l \<in> set (trLayouts t)"
  shows "hasSelectableLayoutMetadata t l \<longleftrightarrow> trSources t \<noteq> [] \<and> loSources l \<noteq> []"
    and "validateSources p (trSources t) = None" "validateSources p (loSources l) = None"
proof -
  obtain ids' where r: "tracks_loop 0 Map.empty (caTracks c) = Inr ids'"
    using assms(1) by (auto simp: catalog_Validate_def split: if_splits sum.splits)
  note t = tracks_loop_members [OF r assms(2)]
  then obtain tp ids ids'' where "layouts_loop tp 0 ids (trLayouts t) = Inr ids''" by blast
  note l = layouts_loop_members [OF this assms(3)]
  show "validateSources p (trSources t) = None" "validateSources p (loSources l) = None"
    using t l by (auto simp: validateSources_iff)
  show "hasSelectableLayoutMetadata t l \<longleftrightarrow> trSources t \<noteq> [] \<and> loSources l \<noteq> []"
    using t l by (auto simp: hasSelectableLayoutMetadata_def validateSources_iff)
qed

lemma catalog_ids_distinct:
  "catalog_Validate c = None \<Longrightarrow> distinct (concat (map track_ids (caTracks c)))"
  using tracks_loop_remembers [of 0 Map.empty "caTracks c"]
  by (auto simp: catalog_Validate_def remembers_def split: if_splits sum.splits)

lemma distinct_track_ids:
  assumes "distinct (concat (map track_ids ts))"
  shows "distinct (map trID ts)" and "t \<in> set ts \<Longrightarrow> distinct (map loID (trLayouts t))"
proof -
  have l: "distinct (concat (map layout_ids ls)) \<Longrightarrow> distinct (map loID ls)" for ls
    by (induction ls) (auto simp: layout_ids_def)
  show "distinct (map trID ts)" using assms by (induction ts) (auto simp: track_ids_def)
  show "distinct (map loID (trLayouts t))" if "t \<in> set ts"
    using assms that l by (induction ts) (auto simp: track_ids_def)
qed

lemma find_distinct: "distinct (map f xs) \<Longrightarrow> x \<in> set xs \<Longrightarrow> find (\<lambda>y. f y = f x) xs = Some x"
  by (induction xs) (auto simp: rev_image_eqI)

lemma filterProductionSources_ne: "filterProductionSources ss \<noteq> [] \<Longrightarrow> ss \<noteq> []"
  by (auto simp: filterProductionSources_def)

lemma find_Some: "find P xs = Some x \<Longrightarrow> x \<in> set xs \<and> P x"
  by (induction xs) (auto split: if_splits)

lemma FindSelectable_iff:
  assumes "catalog_Validate c = None"
  shows "FindSelectableTrackLayout c tid lid = Some (t, l) \<longleftrightarrow>
    t \<in> set (caTracks c) \<and> l \<in> set (trLayouts t) \<and> trID t = tid \<and> loID l = lid \<and> selectable t l"
proof
  assume f: "FindSelectableTrackLayout c tid lid = Some (t, l)"
  then have "find (\<lambda>t. trID t = tid) (caTracks c) = Some t" "find (\<lambda>l. loID l = lid) (trLayouts t) = Some l" "selectable t l"
    by (auto simp: FindSelectableTrackLayout_def selectable_def split: option.splits if_splits)
  then show "t \<in> set (caTracks c) \<and> l \<in> set (trLayouts t) \<and> trID t = tid \<and> loID l = lid \<and> selectable t l"
    by (auto dest!: find_Some)
next
  assume a: "t \<in> set (caTracks c) \<and> l \<in> set (trLayouts t) \<and> trID t = tid \<and> loID l = lid \<and> selectable t l"
  note d = distinct_track_ids [OF catalog_ids_distinct [OF assms]]
  have "find (\<lambda>t. trID t = tid) (caTracks c) = Some t" "find (\<lambda>l. loID l = lid) (trLayouts t) = Some l"
    using a find_distinct [OF d(1)] find_distinct [OF d(2)] by auto
  then show "FindSelectableTrackLayout c tid lid = Some (t, l)"
    using a catalog_valid_layout [OF assms, of t l]
    by (auto simp: FindSelectableTrackLayout_def selectable_def dest: filterProductionSources_ne)
qed

lemma summary_layouts_set:
  "(\<exists>x \<in> set (summary_layouts t ls). liID x = lid) \<longleftrightarrow>
     (\<exists>l \<in> set ls. loID l = lid \<and> hasSelectableLayoutMetadata t l \<and> filterProductionSources (loSources l) \<noteq> [])"
  by (induction t ls rule: summary_layouts.induct) (auto simp: Let_def)

lemma summary_tracks_set:
  "(\<exists>x \<in> set (summary_tracks ts). tiID x = tid \<and> (\<exists>y \<in> set (tiLayouts x). liID y = lid)) \<longleftrightarrow>
     (\<exists>t \<in> set ts. trID t = tid \<and> filterProductionSources (trSources t) \<noteq> [] \<and>
        (\<exists>y \<in> set (summary_layouts t (trLayouts t)). liID y = lid))"
  by (induction ts rule: summary_tracks.induct) (auto simp: Let_def)

section \<open>Properties\<close>

text \<open>A catalogue that validates names everything once: the identifiers of its tracks, layouts and corners are
  pairwise distinct.\<close>

theorem valid_catalog_ids_distinct:
  "catalog_Validate c = None \<Longrightarrow> distinct (concat (map track_ids (caTracks c)))"
  by (rule catalog_ids_distinct)

text \<open>Listing and lookup agree: in a valid catalogue, the summary offers a layout of a track exactly when the
  lookup that serves a manual selection finds that pair.\<close>

theorem summary_agrees_with_lookup:
  "catalog_Validate c = None \<Longrightarrow>
     (\<exists>x y. x \<in> set (suTracks (BuildCatalogTrackLayoutSummary c)) \<and> tiID x = tid \<and> y \<in> set (tiLayouts x) \<and> liID y = lid) \<longleftrightarrow>
     FindSelectableTrackLayout c tid lid \<noteq> None"
proof -
  assume v: "catalog_Validate c = None"
  have "(\<exists>x y. x \<in> set (summary_tracks (caTracks c)) \<and> tiID x = tid \<and> y \<in> set (tiLayouts x) \<and> liID y = lid) \<longleftrightarrow>
      (\<exists>t \<in> set (caTracks c). \<exists>l \<in> set (trLayouts t). trID t = tid \<and> loID l = lid \<and> selectable t l)"
    using summary_tracks_set [of "caTracks c" tid lid] catalog_valid_layout(1) [OF v]
    unfolding summary_layouts_set selectable_def by (metis filterProductionSources_ne)
  also have "\<dots> \<longleftrightarrow> (\<exists>t l. FindSelectableTrackLayout c tid lid = Some (t, l))"
    using FindSelectable_iff [OF v, of tid lid] by blast
  also have "\<dots> \<longleftrightarrow> FindSelectableTrackLayout c tid lid \<noteq> None" by auto
  finally show ?thesis by (simp add: BuildCatalogTrackLayoutSummary_def)
qed

definition demo_source :: Source where
  "demo_source = \<lparr>srcURL = ''u'', srcSourceType = ''gt7info_course_csv'', srcRetrievedAt = ''d'', srcNote = []\<rparr>"

definition demo_corner :: "string \<Rightarrow> rat \<Rightarrow> rat \<Rightarrow> rat \<Rightarrow> Corner" where
  "demo_corner i s a e = \<lparr>coID = i, coNumber = 1, coName = i, coDefinitionMode = CornerDefinitionCatalogManual,
     coStartMeters = Fin s, coApexMeters = Fin a, coEndMeters = Fin e, coDirection = [], coRadiusMeters = Fin 0,
     coSeverity = [], coConfidence = Fin 1, coSources = [demo_source]\<rparr>"

definition demo_layout :: CatalogLayout where
  "demo_layout = \<lparr>loID = ''l'', loName = ''L'', loLengthMeters = Fin 1000, loSources = [demo_source],
     loSectors = [\<lparr>scNumber = 1, scName = ''s'', scStartMeters = Fin 0, scEndMeters = Fin 400, scSources = [demo_source]\<rparr>,
       \<lparr>scNumber = 2, scName = ''s'', scStartMeters = Fin 400, scEndMeters = Fin 1000, scSources = [demo_source]\<rparr>],
     loCorners = [demo_corner ''c1'' 100 150 200, demo_corner ''c2'' 900 950 50], loCenterLine = []\<rparr>"

definition demo_track :: CatalogTrack where
  "demo_track = \<lparr>trID = ''t'', trName = ''T'', trCountry = [], trSources = [demo_source], trLayouts = [demo_layout]\<rparr>"

definition demo_catalog :: Catalog where
  "demo_catalog = \<lparr>caCatalogVersion = CatalogVersionV1, caTracks = [demo_track], caApprovedGeometry = []\<rparr>"

lemma demo_catalog_valid: "ValidateSourceOfTruth demo_catalog = None"
  by code_simp

lemma source_of_truth_valid: "ValidateSourceOfTruth c = None \<Longrightarrow> catalog_Validate c = None"
  by (auto simp: ValidateSourceOfTruth_def split: option.splits)

theorem valid_catalog_ids_distinct_witness: "distinct (concat (map track_ids (caTracks demo_catalog)))"
  by (rule valid_catalog_ids_distinct [OF source_of_truth_valid [OF demo_catalog_valid]])

theorem summary_agrees_with_lookup_witness:
  "(\<exists>x y. x \<in> set (suTracks (BuildCatalogTrackLayoutSummary demo_catalog)) \<and> tiID x = ''t'' \<and> y \<in> set (tiLayouts x) \<and> liID y = ''l'')
     = (FindSelectableTrackLayout demo_catalog ''t'' ''l'' \<noteq> None)"
  by (rule summary_agrees_with_lookup [OF source_of_truth_valid [OF demo_catalog_valid]])

lemma first_error_None: "first_error f path i xs = None \<Longrightarrow> x \<in> set xs \<Longrightarrow> \<exists>p. f p x = None"
  by (induction xs arbitrary: i) (auto split: option.splits)

lemma production_loop_iff: "production_loop path i ss = None \<longleftrightarrow> list_all (\<lambda>s. isProductionSourceType (srcSourceType s)) ss"
  by (induction path i ss rule: production_loop.induct) auto

lemma requireProductionSources_filter: "requireProductionSources p ss = None \<Longrightarrow> filterProductionSources ss = ss \<and> ss \<noteq> []"
  by (auto simp: requireProductionSources_def requireSources_def production_loop_iff filterProductionSources_def
    list_all_iff filter_id_conv split: option.splits if_splits)

text \<open>The seed boundary is as strict as the selection needs: every layout of a catalogue that passes it is found by
  the lookup that serves a manual selection, and the summary drops none of its sources.\<close>

theorem source_of_truth_selectable:
  assumes "ValidateSourceOfTruth c = None" "t \<in> set (caTracks c)" "l \<in> set (trLayouts t)"
  shows "FindSelectableTrackLayout c (trID t) (loID l) = Some (t, l) \<and>
    filterProductionSources (trSources t) = trSources t \<and> filterProductionSources (loSources l) = loSources l"
proof -
  have "first_error track_sources_check ''tracks'' 0 (caTracks c) = None"
    using assms(1) source_of_truth_valid [OF assms(1)] by (simp add: ValidateSourceOfTruth_def)
  from first_error_None [OF this assms(2)] obtain p where p: "track_sources_check p t = None" by blast
  then have t: "requireProductionSources (p @ ''.sources'') (trSources t) = None"
    "first_error layout_sources_check (p @ ''.layouts'') 0 (trLayouts t) = None"
    by (auto simp: track_sources_check_def split: option.splits)
  from first_error_None [OF t(2) assms(3)] obtain q where "layout_sources_check q l = None" by blast
  then have "requireProductionSources (q @ ''.sources'') (loSources l) = None"
    by (auto simp: layout_sources_check_def split: option.splits)
  with t(1) show ?thesis
    using FindSelectable_iff [OF source_of_truth_valid [OF assms(1)], of "trID t" "loID l" t l] assms(2,3)
    by (auto simp: selectable_def dest!: requireProductionSources_filter)
qed

theorem source_of_truth_selectable_witness:
  "FindSelectableTrackLayout demo_catalog (trID demo_track) (loID demo_layout) = Some (demo_track, demo_layout)"
  using source_of_truth_selectable [OF demo_catalog_valid, of demo_track demo_layout]
  by (simp add: demo_catalog_def demo_track_def)

section \<open>Sectors\<close>

definition sector_numbers :: "Sector \<Rightarrow> bool" where
  "sector_numbers s = (\<not> isNaN (scStartMeters s) \<and> \<not> isNaN (scEndMeters s))"

lemma sectors_loop_ordered:
  "sectors_loop path len i pe ss = None \<Longrightarrow> list_all sector_numbers ss \<Longrightarrow> \<not> isNaN len \<Longrightarrow> \<not> isNaN pe \<Longrightarrow>
     0 < i \<or> ss = [] \<or> pe = Fin 0 \<Longrightarrow> 0 \<le> i \<Longrightarrow>
     list_all (\<lambda>s. fle (Fin 0) (scStartMeters s) \<and> flt (scStartMeters s) (scEndMeters s) \<and> fle (scEndMeters s) len \<and>
       fle pe (scStartMeters s)) ss \<and>
     sorted_wrt (\<lambda>a b. fle (scEndMeters a) (scStartMeters b)) ss"
proof (induction path len i pe ss rule: sectors_loop.induct)
  case (2 path len i pe s ss)
  have nan: "\<not> isNaN (scStartMeters s)" "\<not> isNaN (scEndMeters s)" "\<not> isNaN (Fin 0)"
    using "2.prems"(2) by (auto simp: sector_numbers_def isNaN_def)
  have src: "scName s \<noteq> []" "validateSources (indexed path i @ ''.sources'') (scSources s) = None"
    and r: "\<not> (flt (scStartMeters s) (Fin 0) \<or> fle (scEndMeters s) (scStartMeters s) \<or> flt len (scEndMeters s))"
    and o: "\<not> (i > 0 \<and> flt (scStartMeters s) pe)"
    and rest: "sectors_loop path len (i + 1) (scEndMeters s) ss = None"
    using "2.prems"(1) by (auto split: if_splits option.splits)
  have h: "fle (Fin 0) (scStartMeters s)" "flt (scStartMeters s) (scEndMeters s)" "fle (scEndMeters s) len" "fle pe (scStartMeters s)"
  proof -
    show "fle (Fin 0) (scStartMeters s)" using r nan_flt_fle(1) [OF nan(1,3)] by simp
    then show "fle pe (scStartMeters s)"
      using o "2.prems"(5) nan_flt_fle(1) [OF nan(1) "2.prems"(4)] by auto
    show "flt (scStartMeters s) (scEndMeters s)" using r nan_flt_fle(2) [OF nan(2,1)] by simp
    show "fle (scEndMeters s) len" using r nan_flt_fle(1) [OF "2.prems"(3) nan(2)] by simp
  qed
  have ih: "list_all (\<lambda>s'. fle (Fin 0) (scStartMeters s') \<and> flt (scStartMeters s') (scEndMeters s') \<and> fle (scEndMeters s') len \<and>
       fle (scEndMeters s) (scStartMeters s')) ss \<and> sorted_wrt (\<lambda>a b. fle (scEndMeters a) (scStartMeters b)) ss"
    using "2.IH" [OF src(1,2) r o rest] "2.prems" nan by auto
  then have "list_all (\<lambda>s'. fle pe (scStartMeters s')) ss"
    using h(2,4) fle_trans' by (auto simp: list_all_iff)
  with ih h show ?case by (auto simp: list_all_iff)
qed simp

text \<open>The sectors of a valid layout divide the line: each is a proper interval within the length, and a later
  sector starts no earlier than an earlier one ends (for coordinates that are numbers, as JSON numbers are).\<close>

theorem sectors_ordered:
  assumes "layout_validate l path ids = Inr ids'" "list_all sector_numbers (loSectors l)" "\<not> isNaN (loLengthMeters l)"
  shows "list_all (\<lambda>s. fle (Fin 0) (scStartMeters s) \<and> flt (scStartMeters s) (scEndMeters s) \<and>
      fle (scEndMeters s) (loLengthMeters l)) (loSectors l) \<and>
    sorted_wrt (\<lambda>a b. fle (scEndMeters a) (scStartMeters b)) (loSectors l)"
proof -
  have "sectors_loop (path @ ''.sectors'') (loLengthMeters l) 0 (Fin 0) (loSectors l) = None"
    using assms(1) by (auto simp: layout_validate_def validateSectors_def split: if_splits option.splits sum.splits)
  then show ?thesis
    using sectors_loop_ordered [of "path @ ''.sectors''" "loLengthMeters l" 0 "Fin 0" "loSectors l"] assms(2,3)
    by (auto simp: list_all_iff isNaN_def)
qed

lemma demo_layout_valid: "\<exists>ids'. layout_validate demo_layout ''p'' Map.empty = Inr ids'"
proof -
  have "\<not> isl (layout_validate demo_layout ''p'' Map.empty)" by code_simp
  then show ?thesis by (cases "layout_validate demo_layout ''p'' Map.empty") auto
qed

theorem sectors_ordered_witness:
  "sorted_wrt (\<lambda>a b. fle (scEndMeters a) (scStartMeters b)) (loSectors demo_layout)"
proof -
  obtain ids' where "layout_validate demo_layout ''p'' Map.empty = Inr ids'" using demo_layout_valid by blast
  moreover have "list_all sector_numbers (loSectors demo_layout)" "\<not> isNaN (loLengthMeters demo_layout)"
    by (auto simp: demo_layout_def sector_numbers_def isNaN_def)
  ultimately show ?thesis by (blast dest: sectors_ordered)
qed

text \<open>Not-a-number lengths and sector bounds pass validation: the code compares them without the finiteness test it
  applies to corners and points.\<close>

theorem nan_sectors_accepted:
  "catalog_Validate (demo_catalog\<lparr>caTracks := [demo_track\<lparr>trLayouts := [demo_layout\<lparr>loLengthMeters := FNaN,
     loSectors := [\<lparr>scNumber = 1, scName = ''s'', scStartMeters = FNaN, scEndMeters = FNaN, scSources = []\<rparr>]\<rparr>]\<rparr>]\<rparr>) = None"
  by code_simp

end
