(* ===== verification/ApprovedGeometry.thy ===== *)
theory ApprovedGeometry
  imports Tracks "HOL-Library.Sublist"
begin

text \<open>
  \<^verbatim>\<open>internal/tracks/approved_geometry.go\<close>: validation of the approved geometry overlay and the
  capabilities of a layout derived from it.  Reading the embedded JSON is not modelled; the
  manifest is a field of the catalogue.
\<close>

section \<open>Validation\<close>

definition geometryTolerance :: "f64 \<Rightarrow> f64 \<Rightarrow> f64" where
  "geometryTolerance a b =
    (let m = fmax (fabs a) (fabs b) in if fle m (Fin 1) then Fin 1 else fmul m (rnd (1 / 100)))"

definition pointFinite :: "TrackPoint \<Rightarrow> bool" where
  "pointFinite p = (isFinite (tpX p) \<and> isFinite (tpY p) \<and> isFinite (tpZ p))"

definition approvedGeometryKey :: "string \<Rightarrow> string \<Rightarrow> string" where
  "approvedGeometryKey trackID layoutID = trackID @ ''::'' @ layoutID"

text \<open>The loop over the points after the first: the last point and its distance, or the error.\<close>

fun approved_points_loop :: "string \<Rightarrow> int \<Rightarrow> TrackPoint \<Rightarrow> f64 \<Rightarrow> TrackPoint list \<Rightarrow> cat_error + TrackPoint \<times> f64" where
  "approved_points_loop path i previous previousAccumulated [] = Inr (previous, previousAccumulated)"
| "approved_points_loop path i previous previousAccumulated (p # ps) =
    (let pointPath = indexed (path @ ''.centerLine'') i in
     if \<not> pointFinite p \<or> \<not> isFinite (tpAccumulatedMeters p) then Inl (pointPath, ErrInvalidCenterLine)
     else if fle (tpAccumulatedMeters p) previousAccumulated then Inl (pointPath @ ''.accumulatedMeters'', ErrInvalidCenterLine)
     else let delta = fsub (tpAccumulatedMeters p) previousAccumulated; segmentLength = pointDistance previous p in
       if fle segmentLength (Fin 0) \<or> flt (geometryTolerance delta segmentLength) (fabs (fsub segmentLength delta))
       then Inl (pointPath, ErrInvalidCenterLine)
       else approved_points_loop path (i + 1) p (tpAccumulatedMeters p) ps)"

definition approved_center_line :: "string \<Rightarrow> ApprovedGeometryLayout \<Rightarrow> cat_error option" where
  "approved_center_line path l =
    (if length (agCenterLine l) < 2 then Some (path @ ''.centerLine'', ErrInvalidCenterLine)
     else let first = hd (agCenterLine l) in
       if \<not> isFinite (tpAccumulatedMeters first) \<or> \<not> feq (tpAccumulatedMeters first) (Fin 0)
       then Some (path @ ''.centerLine[0].accumulatedMeters'', ErrInvalidCenterLine)
       else if \<not> pointFinite first then Some (path @ ''.centerLine[0]'', ErrInvalidCenterLine)
       else (case approved_points_loop path 1 first (tpAccumulatedMeters first) (tl (agCenterLine l)) of Inl e \<Rightarrow> Some e
         | Inr (previous, previousAccumulated) \<Rightarrow>
           if flt (geometryTolerance (agLengthMeters l) previousAccumulated) (fabs (fsub previousAccumulated (agLengthMeters l)))
           then Some (indexed (path @ ''.centerLine'') (int (length (agCenterLine l)) - 1) @ ''.accumulatedMeters'', ErrInvalidCenterLine)
           else if flt (geometryTolerance (agLengthMeters l) (pointDistance first previous)) (pointDistance first previous)
           then Some (path @ ''.centerLine'', ErrInvalidCenterLine)
           else None))"

text \<open>The result keeps the table of identifiers also when a later check fails.\<close>

definition validateApprovedGeometryLayout :: "string \<Rightarrow> ApprovedGeometryLayout \<Rightarrow> ids \<Rightarrow> cat_error option \<times> ids" where
  "validateApprovedGeometryLayout path l ids =
    (if agTrackID l = [] then (Some (path @ ''.trackId'', ErrMissingTrackID), ids)
     else if agLayoutID l = [] then (Some (path @ ''.layoutId'', ErrMissingLayoutID), ids)
     else if fle (agLengthMeters l) (Fin 0) then (Some (path @ ''.lengthMeters'', ErrInvalidLength), ids)
     else case rememberID ids (approvedGeometryKey (agTrackID l) (agLayoutID l)) path of Inl e \<Rightarrow> (Some e, ids)
     | Inr ids \<Rightarrow> (approved_center_line path l, ids))"

fun manifest_loop :: "int \<Rightarrow> ids \<Rightarrow> ApprovedGeometryLayout list \<Rightarrow> cat_error option" where
  "manifest_loop i ids [] = None"
| "manifest_loop i ids (l # ls) =
    (case validateApprovedGeometryLayout (indexed ''layouts'' i) l ids of (Some e, _) \<Rightarrow> Some e
     | (None, ids) \<Rightarrow> manifest_loop (i + 1) ids ls)"

definition manifest_Validate :: "ApprovedGeometryLayout list \<Rightarrow> cat_error option" where
  "manifest_Validate m = manifest_loop 0 Map.empty m"

fun sanitize_loop :: "bool \<Rightarrow> int \<Rightarrow> ids \<Rightarrow> ApprovedGeometryLayout list \<Rightarrow> ApprovedGeometryLayout list \<Rightarrow> cat_error + ApprovedGeometryLayout list" where
  "sanitize_loop skipInvalid i ids out [] = Inr out"
| "sanitize_loop skipInvalid i ids out (l # ls) =
    (case validateApprovedGeometryLayout (indexed ''layouts'' i) l ids of
       (Some e, ids) \<Rightarrow> if skipInvalid then sanitize_loop skipInvalid (i + 1) ids out ls else Inl e
     | (None, ids) \<Rightarrow> sanitize_loop skipInvalid (i + 1) ids (out @ [l]) ls)"

definition sanitized :: "ApprovedGeometryLayout list \<Rightarrow> bool \<Rightarrow> cat_error + ApprovedGeometryLayout list" where
  "sanitized m skipInvalid = (if length m = 0 then Inr m else sanitize_loop skipInvalid 0 Map.empty [] m)"

definition PrepareApprovedGeometry :: "Catalog \<Rightarrow> bool \<Rightarrow> cat_error + Catalog" where
  "PrepareApprovedGeometry c skipInvalid =
    (case sanitized (caApprovedGeometry c) skipInvalid of Inl e \<Rightarrow> Inl e
     | Inr m \<Rightarrow> Inr (c\<lparr>caApprovedGeometry := m\<rparr>))"

section \<open>Capabilities\<close>

record Capability =
  cpState :: string
  cpReason :: string

record LayoutCapabilities =
  lcDetection :: Capability
  lcDistanceDelta :: Capability
  lcMicroSectors :: Capability
  lcCornerAnalysis :: Capability
  lcOfficialCornerNames :: Capability

definition availableCapability :: Capability where
  "availableCapability = \<lparr>cpState = ''available'', cpReason = []\<rparr>"

definition partialCapability :: "string \<Rightarrow> Capability" where
  "partialCapability reason = \<lparr>cpState = ''partial'', cpReason = reason\<rparr>"

definition unavailableCapability :: "string \<Rightarrow> Capability" where
  "unavailableCapability reason = \<lparr>cpState = ''unavailable'', cpReason = reason\<rparr>"

definition hasSpatialCornerDefinitions :: "CatalogLayout \<Rightarrow> bool" where
  "hasSpatialCornerDefinitions l = list_ex (\<lambda>c. coDefinitionMode c = CornerDefinitionCatalogManual) (loCorners l)"

definition hasOfficialCornerNames :: "CatalogLayout \<Rightarrow> bool" where
  "hasOfficialCornerNames l = list_ex (\<lambda>c. coDefinitionMode c = CornerDefinitionCatalogManual \<and> coName c \<noteq> []) (loCorners l)"

fun layout_by_id_loop :: "string \<Rightarrow> string \<Rightarrow> CatalogTrack list \<Rightarrow> (CatalogTrack \<times> CatalogLayout) option" where
  "layout_by_id_loop trackID layoutID [] = None"
| "layout_by_id_loop trackID layoutID (t # ts) =
    (if trID t \<noteq> trackID then layout_by_id_loop trackID layoutID ts
     else case find (\<lambda>l. loID l = layoutID) (trLayouts t) of Some l \<Rightarrow> Some (t, l)
     | None \<Rightarrow> layout_by_id_loop trackID layoutID ts)"

definition layoutByID :: "Catalog \<Rightarrow> string \<Rightarrow> string \<Rightarrow> (CatalogTrack \<times> CatalogLayout) option" where
  "layoutByID c trackID layoutID = layout_by_id_loop trackID layoutID (caTracks c)"

datatype approvedGeometryState = GeometryMissing | GeometryInvalid | GeometryValid ApprovedGeometryLayout

definition approvedGeometryFor :: "Catalog \<Rightarrow> string \<Rightarrow> string \<Rightarrow> approvedGeometryState" where
  "approvedGeometryFor c trackID layoutID =
    (case find (\<lambda>a. agTrackID a = trackID \<and> agLayoutID a = layoutID) (caApprovedGeometry c) of
       None \<Rightarrow> GeometryMissing
     | Some a \<Rightarrow> if fst (validateApprovedGeometryLayout ''approvedGeometry'' a Map.empty) \<noteq> None then GeometryInvalid else GeometryValid a)"

definition all_unavailable :: "Capability \<Rightarrow> string \<Rightarrow> LayoutCapabilities" where
  "all_unavailable detection reason = \<lparr>lcDetection = detection, lcDistanceDelta = unavailableCapability reason,
     lcMicroSectors = unavailableCapability reason, lcCornerAnalysis = unavailableCapability reason,
     lcOfficialCornerNames = unavailableCapability reason\<rparr>"

definition catalog_LayoutCapabilities :: "Catalog \<Rightarrow> string \<Rightarrow> string \<Rightarrow> LayoutCapabilities" where
  "catalog_LayoutCapabilities c trackID layoutID =
    (case layoutByID c trackID layoutID of
       None \<Rightarrow> all_unavailable (unavailableCapability ''layout_not_found'') ''layout_not_found''
     | Some (t, l) \<Rightarrow>
       (case approvedGeometryFor c (trID t) (loID l) of
          GeometryMissing \<Rightarrow> all_unavailable availableCapability ''approved_geometry_missing''
        | GeometryInvalid \<Rightarrow> all_unavailable availableCapability ''approved_geometry_invalid''
        | GeometryValid approved \<Rightarrow>
          \<lparr>lcDetection = availableCapability,
           lcDistanceDelta = (if flt (geometryTolerance (loLengthMeters l) (agLengthMeters approved)) (fabs (fsub (agLengthMeters approved) (loLengthMeters l)))
             then unavailableCapability ''approved_geometry_length_mismatch'' else availableCapability),
           lcMicroSectors = (if length (agCenterLine approved) \<ge> 8 then availableCapability
             else partialCapability ''approved_geometry_insufficient_density''),
           lcCornerAnalysis = (if hasSpatialCornerDefinitions l then availableCapability
             else partialCapability ''no_spatial_corner_definitions''),
           lcOfficialCornerNames = (if hasOfficialCornerNames l then availableCapability
             else partialCapability ''enumerated_corners_only'')\<rparr>))"

section \<open>Lemmas\<close>

definition well_formed :: "ApprovedGeometryLayout \<Rightarrow> bool" where
  "well_formed l \<longleftrightarrow> agTrackID l \<noteq> [] \<and> agLayoutID l \<noteq> [] \<and> \<not> fle (agLengthMeters l) (Fin 0) \<and> approved_center_line [] l = None"

definition geometry_key :: "ApprovedGeometryLayout \<Rightarrow> string" where
  "geometry_key l = approvedGeometryKey (agTrackID l) (agLayoutID l)"

lemma points_loop_path:
  "approved_points_loop path i q a ps = Inr r \<longleftrightarrow> approved_points_loop path' j q a ps = Inr r"
  by (induction path i q a ps arbitrary: j rule: approved_points_loop.induct) (auto simp: Let_def)

lemma center_line_path: "approved_center_line path l = None \<longleftrightarrow> approved_center_line path' l = None"
proof -
  have "approved_points_loop path 1 p a ps = Inr r \<longleftrightarrow> approved_points_loop path' 1 p a ps = Inr r" for p a ps r
    by (rule points_loop_path)
  then show ?thesis
    by (auto simp: approved_center_line_def Let_def split: sum.splits prod.splits if_splits)
      (metis sum.distinct(1) sum.exhaust_sel)+
qed

lemma validateApproved_None:
  "fst (validateApprovedGeometryLayout path l ids) = None \<longleftrightarrow> well_formed l \<and> ids (geometry_key l) = None"
  using center_line_path [of path l "[]"]
  by (auto simp: validateApprovedGeometryLayout_def well_formed_def geometry_key_def rememberID_def split: option.splits)

lemma validateApproved_ids:
  "fst (validateApprovedGeometryLayout path l ids) = None \<Longrightarrow> snd (validateApprovedGeometryLayout path l ids) = ids(geometry_key l \<mapsto> path)"
  "dom ids \<subseteq> dom (snd (validateApprovedGeometryLayout path l ids))"
  by (auto simp: validateApprovedGeometryLayout_def geometry_key_def rememberID_def split: option.splits if_splits)

lemma manifest_loop_iff:
  "manifest_loop i ids ls = None \<longleftrightarrow> list_all well_formed ls \<and> distinct (map geometry_key ls) \<and> set (map geometry_key ls) \<inter> dom ids = {}"
proof (induction i ids ls rule: manifest_loop.induct)
  case (2 i ids l ls)
  obtain e ids' where v: "validateApprovedGeometryLayout (indexed ''layouts'' i) l ids = (e, ids')" by fastforce
  show ?case
  proof (cases e)
    case (Some x)
    then have "\<not> (well_formed l \<and> ids (geometry_key l) = None)" using validateApproved_None [of "indexed ''layouts'' i" l ids] v by simp
    with v Some show ?thesis by auto
  next
    case None
    then have "well_formed l" "ids (geometry_key l) = None" "ids' = ids(geometry_key l \<mapsto> indexed ''layouts'' i)"
      using validateApproved_None [of "indexed ''layouts'' i" l ids] validateApproved_ids(1) [of "indexed ''layouts'' i" l ids] v by auto
    then have "dom ids' = insert (geometry_key l) (dom ids)" "geometry_key l \<notin> dom ids" by auto
    moreover have "manifest_loop i ids (l # ls) = manifest_loop (i + 1) ids' ls" using v None by simp
    ultimately show ?thesis using "2.IH" [OF v [symmetric] None] \<open>well_formed l\<close> by auto
  qed
qed simp

lemma sanitize_loop_spec:
  "\<exists>xs. sanitize_loop True i ids out ls = Inr (out @ xs) \<and> subseq xs ls \<and> list_all well_formed xs \<and>
     distinct (map geometry_key xs) \<and> set (map geometry_key xs) \<inter> dom ids = {}"
proof (induction ls arbitrary: i ids out)
  case Nil then show ?case by simp
next
  case (Cons l ls)
  obtain e ids' where v: "validateApprovedGeometryLayout (indexed ''layouts'' i) l ids = (e, ids')" by fastforce
  have sub: "dom ids \<subseteq> dom ids'" using validateApproved_ids(2) [of ids "indexed ''layouts'' i" l] v by simp
  show ?case
  proof (cases e)
    case (Some x)
    obtain xs where "sanitize_loop True (i + 1) ids' out ls = Inr (out @ xs)" "subseq xs ls" "list_all well_formed xs"
        "distinct (map geometry_key xs)" "set (map geometry_key xs) \<inter> dom ids' = {}"
      using Cons.IH by blast
    with v Some sub show ?thesis by (intro exI [of _ xs]) auto
  next
    case None
    have wf: "well_formed l" "ids (geometry_key l) = None" "ids' = ids(geometry_key l \<mapsto> indexed ''layouts'' i)"
      using validateApproved_None [of "indexed ''layouts'' i" l ids] validateApproved_ids(1) [of "indexed ''layouts'' i" l ids] v None by auto
    obtain xs where "sanitize_loop True (i + 1) ids' (out @ [l]) ls = Inr ((out @ [l]) @ xs)" "subseq xs ls" "list_all well_formed xs"
        "distinct (map geometry_key xs)" "set (map geometry_key xs) \<inter> dom ids' = {}"
      using Cons.IH by blast
    with v None wf show ?thesis by (intro exI [of _ "l # xs"]) auto
  qed
qed

section \<open>Properties\<close>

text \<open>C10: Sanitising never fails and yields a valid overlay: skipping invalid layouts returns a subsequence of the
  manifest that the strict validation accepts.\<close>

theorem sanitized_manifest_valid:
  "\<exists>out. sanitized m True = Inr out \<and> subseq out m \<and> manifest_Validate out = None"
proof (cases "m = []")
  case True then show ?thesis by (simp add: sanitized_def manifest_Validate_def)
next
  case False
  then show ?thesis
    using sanitize_loop_spec [of 0 Map.empty "[]" m] by (auto simp: sanitized_def manifest_Validate_def manifest_loop_iff)
qed

definition demo_point :: "rat \<Rightarrow> rat \<Rightarrow> TrackPoint" where
  "demo_point x a = \<lparr>tpIndex = 0, tpX = Fin x, tpY = Fin 0, tpZ = Fin 0, tpAccumulatedMeters = Fin a, tpHeadingRadians = Fin 0, tpCurvature = Fin 0\<rparr>"

definition demo_geometry :: "TrackPoint list \<Rightarrow> ApprovedGeometryLayout" where
  "demo_geometry ps = \<lparr>agTrackID = ''t'', agLayoutID = ''l'', agLengthMeters = Fin 20, agCenterLine = ps\<rparr>"

text \<open>An invalid entry of the overlay suppresses a valid one of the same layout: the key is remembered before the
  geometry is checked, so skipping the invalid entry also drops the valid entry as a duplicate.\<close>

theorem invalid_geometry_shadows_valid:
  "sanitized [demo_geometry [], demo_geometry [demo_point 0 0, demo_point 10 10, demo_point 0 20]] True = Inr [] \<and>
   sanitized [demo_geometry [demo_point 0 0, demo_point 10 10, demo_point 0 20]] True =
     Inr [demo_geometry [demo_point 0 0, demo_point 10 10, demo_point 0 20]]"
proof
  have key: "geometry_key (demo_geometry ps) = geometry_key (demo_geometry [])" for ps by (simp add: geometry_key_def demo_geometry_def)
  have bad: "validateApprovedGeometryLayout p (demo_geometry []) Map.empty =
      (Some (p @ ''.centerLine'', ErrInvalidCenterLine), Map.empty(geometry_key (demo_geometry []) \<mapsto> p))" for p
    by (simp add: validateApprovedGeometryLayout_def demo_geometry_def geometry_key_def rememberID_def approved_center_line_def fle_def)
  let ?good = "demo_geometry [demo_point 0 0, demo_point 10 10, demo_point 0 20]"
  have dup: "fst (validateApprovedGeometryLayout p ?good (Map.empty(geometry_key (demo_geometry []) \<mapsto> q))) \<noteq> None" for p q
    unfolding validateApproved_None key [of "[demo_point 0 0, demo_point 10 10, demo_point 0 20]"] by simp
  obtain e ids' where d: "validateApprovedGeometryLayout (indexed ''layouts'' 1) ?good
      (Map.empty(geometry_key (demo_geometry []) \<mapsto> indexed ''layouts'' 0)) = (Some e, ids')"
    using dup [of "indexed ''layouts'' 1" "indexed ''layouts'' 0"] by (metis option.exhaust prod.collapse)
  show "sanitized [demo_geometry [], ?good] True = Inr []"
    by (simp add: sanitized_def bad d)
  have "well_formed ?good" by code_simp
  then have "fst (validateApprovedGeometryLayout (indexed ''layouts'' 0) ?good Map.empty) = None"
    unfolding validateApproved_None by simp
  then show "sanitized [?good] True = Inr [?good]"
    by (cases "validateApprovedGeometryLayout (indexed ''layouts'' 0) ?good Map.empty") (simp add: sanitized_def)
qed

text \<open>Capabilities are backed by data: distance deltas are offered for a layout only when the layout is in the
  catalogue and the overlay holds a well-formed approved geometry for it, within the tolerance of its length.\<close>

theorem distance_delta_backed:
  assumes "lcDistanceDelta (catalog_LayoutCapabilities c tid lid) = availableCapability"
  shows "\<exists>t l a. t \<in> set (caTracks c) \<and> l \<in> set (trLayouts t) \<and> trID t = tid \<and> loID l = lid \<and>
    a \<in> set (caApprovedGeometry c) \<and> agTrackID a = tid \<and> agLayoutID a = lid \<and> well_formed a \<and>
    \<not> flt (geometryTolerance (loLengthMeters l) (agLengthMeters a)) (fabs (fsub (agLengthMeters a) (loLengthMeters l)))"
proof -
  have un: "unavailableCapability r \<noteq> availableCapability" for r
    by (simp add: unavailableCapability_def availableCapability_def)
  obtain t l a where b: "layoutByID c tid lid = Some (t, l)" "approvedGeometryFor c (trID t) (loID l) = GeometryValid a"
      "\<not> flt (geometryTolerance (loLengthMeters l) (agLengthMeters a)) (fabs (fsub (agLengthMeters a) (loLengthMeters l)))"
    using assms un by (auto simp: catalog_LayoutCapabilities_def all_unavailable_def split: option.splits approvedGeometryState.splits if_splits)
  have "layout_by_id_loop tid lid ts = Some (t, l) \<Longrightarrow> t \<in> set ts \<and> l \<in> set (trLayouts t) \<and> trID t = tid \<and> loID l = lid" for ts
    by (induction ts) (auto split: if_splits option.splits dest: find_Some)
  with b(1) have m: "t \<in> set (caTracks c)" "l \<in> set (trLayouts t)" "trID t = tid" "loID l = lid" by (auto simp: layoutByID_def)
  have "a \<in> set (caApprovedGeometry c) \<and> agTrackID a = tid \<and> agLayoutID a = lid \<and> well_formed a"
    using b(2) m validateApproved_None [of "''approvedGeometry''" a Map.empty]
    by (auto simp: approvedGeometryFor_def split: option.splits if_splits dest!: find_Some)
  with b(3) m show ?thesis by blast
qed

definition demo_geometry_catalog :: Catalog where
  "demo_geometry_catalog = demo_catalog\<lparr>caTracks := [demo_track\<lparr>trLayouts := [demo_layout\<lparr>loLengthMeters := Fin 20\<rparr>]\<rparr>],
     caApprovedGeometry := [demo_geometry [demo_point 0 0, demo_point 10 10, demo_point 0 20]]\<rparr>"

theorem distance_delta_backed_witness:
  "\<exists>a. a \<in> set (caApprovedGeometry demo_geometry_catalog) \<and> agTrackID a = ''t'' \<and> agLayoutID a = ''l'' \<and> well_formed a"
proof -
  have "lcDistanceDelta (catalog_LayoutCapabilities demo_geometry_catalog ''t'' ''l'') = availableCapability" by code_simp
  from distance_delta_backed [OF this] show ?thesis by blast
qed

end
