(* ===== verification/Detection.thy ===== *)
theory Detection
  imports ApprovedGeometry Telemetry
begin

text \<open>
  \<^verbatim>\<open>internal/tracks/detection.go\<close>: the layout of a session is detected by comparing the length
  of its first complete lap with the catalogue.
\<close>

section \<open>Data\<close>

record DetectionOptions =
  doMinCompletedLapFrames :: int
  doLengthToleranceRatio :: f64
  doAmbiguousScoreMargin :: f64
  doMinDetectedConfidence :: f64

record DetectionEvidence =
  deReason :: string
  deMessage :: string
  deTrackID :: string
  deLayoutID :: string
  deCatalogMeters :: f64
  deObservedMeters :: f64
  deDifferenceMeters :: f64
  deConfidence :: f64

record DetectionResult =
  dsStatus :: string
  dsTrackID :: "string option"
  dsLayoutID :: "string option"
  dsTrackName :: "string option"
  dsLayoutName :: "string option"
  dsConfidence :: f64
  dsObservedLengthMeters :: f64
  dsReasons :: "string list"
  dsEvidence :: "DetectionEvidence list"
  dsNextAction :: string
  dsCapabilities :: "LayoutCapabilities option"

record layoutCandidate =
  cdTrackID :: string
  cdTrackName :: string
  cdLayoutID :: string
  cdLayoutName :: string
  cdLengthMeters :: f64
  cdDifference :: f64
  cdConfidence :: f64

definition evidence_of :: "string \<Rightarrow> string \<Rightarrow> DetectionEvidence" where
  "evidence_of reason message = \<lparr>deReason = reason, deMessage = message, deTrackID = [], deLayoutID = [],
     deCatalogMeters = Fin 0, deObservedMeters = Fin 0, deDifferenceMeters = Fin 0, deConfidence = Fin 0\<rparr>"

definition DefaultDetectionOptions :: DetectionOptions where
  "DefaultDetectionOptions = \<lparr>doMinCompletedLapFrames = 20, doLengthToleranceRatio = rnd (3 / 100),
     doAmbiguousScoreMargin = rnd (5 / 100), doMinDetectedConfidence = rnd (65 / 100)\<rparr>"

definition normalizeDetectionOptions :: "DetectionOptions \<Rightarrow> DetectionOptions" where
  "normalizeDetectionOptions options =
    (let defaults = DefaultDetectionOptions;
         options = (if doMinCompletedLapFrames options \<le> 0 then options\<lparr>doMinCompletedLapFrames := doMinCompletedLapFrames defaults\<rparr> else options);
         options = (if fle (doLengthToleranceRatio options) (Fin 0) then options\<lparr>doLengthToleranceRatio := doLengthToleranceRatio defaults\<rparr> else options);
         options = (if fle (doAmbiguousScoreMargin options) (Fin 0) then options\<lparr>doAmbiguousScoreMargin := doAmbiguousScoreMargin defaults\<rparr> else options);
         options = (if fle (doMinDetectedConfidence options) (Fin 0) then options\<lparr>doMinDetectedConfidence := doMinDetectedConfidence defaults\<rparr> else options)
     in options)"

section \<open>The length of the first complete lap\<close>

definition frameDistance :: "Frame \<Rightarrow> Frame \<Rightarrow> f64" where
  "frameDistance a b =
    (let dx = fsub (fPositionX b) (fPositionX a); dy = fsub (fPositionY b) (fPositionY a); dz = fsub (fPositionZ b) (fPositionZ a)
     in fsqrt (fadd (fadd (fmul dx dx) (fmul dy dy)) (fmul dz dz)))"

fun length_loop :: "int \<Rightarrow> Frame \<Rightarrow> int \<Rightarrow> f64 \<Rightarrow> int \<Rightarrow> Frame list \<Rightarrow> f64 option" where
  "length_loop minFrames previous currentLap currentLength currentSamples [] = None"
| "length_loop minFrames previous currentLap currentLength currentSamples (f # fs) =
    (let currentLength = (if fIsOnTrack f \<and> fIsOnTrack previous then fadd currentLength (frameDistance previous f) else currentLength);
         currentSamples = currentSamples + 1
     in if fLapNumber f > currentLap
        then if currentSamples \<ge> minFrames \<and> flt (Fin 0) currentLength then Some currentLength
             else length_loop minFrames f (fLapNumber f) (Fin 0) 1 fs
        else length_loop minFrames f currentLap currentLength currentSamples fs)"

definition observedCompletedLapLength :: "Frame list \<Rightarrow> int \<Rightarrow> f64 option" where
  "observedCompletedLapLength frames minFrames =
    (if int (length frames) < minFrames then None
     else case frames of [] \<Rightarrow> None | f # fs \<Rightarrow> length_loop minFrames f (fLapNumber f) (Fin 0) 1 fs)"

section \<open>Candidates\<close>

definition candidate_confidence :: "f64 \<Rightarrow> f64 \<Rightarrow> f64" where
  "candidate_confidence difference allowed =
    (if flt (Fin 0) allowed
     then fadd (rnd (65 / 100)) (fmul (rnd (20 / 100)) (fsub (Fin 1) (fdiv difference allowed)))
     else rnd (85 / 100))"

fun layout_candidates :: "CatalogTrack \<Rightarrow> f64 \<Rightarrow> f64 \<Rightarrow> CatalogLayout list \<Rightarrow> layoutCandidate list" where
  "layout_candidates t observedLength toleranceRatio [] = []"
| "layout_candidates t observedLength toleranceRatio (l # ls) =
    (if \<not> hasSelectableLayoutMetadata t l then layout_candidates t observedLength toleranceRatio ls
     else if fle (loLengthMeters l) (Fin 0) then layout_candidates t observedLength toleranceRatio ls
     else let difference = fabs (fsub observedLength (loLengthMeters l)); allowed = fmul (loLengthMeters l) toleranceRatio in
       if flt allowed difference then layout_candidates t observedLength toleranceRatio ls
       else \<lparr>cdTrackID = trID t, cdTrackName = trName t, cdLayoutID = loID l, cdLayoutName = loName l,
          cdLengthMeters = loLengthMeters l, cdDifference = difference, cdConfidence = candidate_confidence difference allowed\<rparr>
         # layout_candidates t observedLength toleranceRatio ls)"

definition candidate_less :: "layoutCandidate \<Rightarrow> layoutCandidate \<Rightarrow> bool" where
  "candidate_less a b = (if feq (cdConfidence a) (cdConfidence b) then cdLayoutID a < cdLayoutID b
     else flt (cdConfidence b) (cdConfidence a))"

definition matchingCandidates :: "Catalog \<Rightarrow> f64 \<Rightarrow> f64 \<Rightarrow> layoutCandidate list" where
  "matchingCandidates c observedLength toleranceRatio =
    sort_slice candidate_less (concat (map (\<lambda>t. layout_candidates t observedLength toleranceRatio (trLayouts t)) (caTracks c)))"

definition ambiguousEvidence :: "layoutCandidate list \<Rightarrow> f64 \<Rightarrow> f64 \<Rightarrow> DetectionEvidence list" where
  "ambiguousEvidence candidates observedLength margin =
    (if length candidates = 0 then []
     else let bestConfidence = cdConfidence (hd candidates) in
       map (\<lambda>c. (evidence_of ''ambiguous_length'' ''multiple catalog layouts have similar observed lap length evidence'')
           \<lparr>deTrackID := cdTrackID c, deLayoutID := cdLayoutID c, deCatalogMeters := cdLengthMeters c,
            deObservedMeters := observedLength, deDifferenceMeters := cdDifference c, deConfidence := cdConfidence c\<rparr>)
         (filter (\<lambda>c. \<not> flt margin (fsub bestConfidence (cdConfidence c))) candidates))"

section \<open>Detection\<close>

definition fallbackResult :: "string \<Rightarrow> f64 \<Rightarrow> f64 \<Rightarrow> string \<Rightarrow> DetectionEvidence list \<Rightarrow> DetectionResult" where
  "fallbackResult status confidence observedLength nextAction evidence =
    \<lparr>dsStatus = status, dsTrackID = None, dsLayoutID = None, dsTrackName = None, dsLayoutName = None,
     dsConfidence = confidence, dsObservedLengthMeters = observedLength,
     dsReasons = (case evidence of [] \<Rightarrow> [] | e # _ \<Rightarrow> [deReason e]), dsEvidence = evidence,
     dsNextAction = nextAction, dsCapabilities = None\<rparr>"

definition candidate_evidence :: "string \<Rightarrow> string \<Rightarrow> layoutCandidate \<Rightarrow> f64 \<Rightarrow> DetectionEvidence" where
  "candidate_evidence reason message best observed = (evidence_of reason message)
     \<lparr>deTrackID := cdTrackID best, deLayoutID := cdLayoutID best, deCatalogMeters := cdLengthMeters best,
      deObservedMeters := observed, deDifferenceMeters := cdDifference best, deConfidence := cdConfidence best\<rparr>"

definition ambiguous :: "layoutCandidate list \<Rightarrow> f64 \<Rightarrow> bool" where
  "ambiguous candidates margin = (case candidates of
     best # second # _ \<Rightarrow> (flt (Fin 0) (cdDifference best) \<or> feq (cdDifference second) (Fin 0)) \<and>
       fle (fsub (cdConfidence best) (cdConfidence second)) margin
   | _ \<Rightarrow> False)"

definition DetectTrack :: "Frame list \<Rightarrow> Catalog \<Rightarrow> DetectionOptions \<Rightarrow> DetectionResult" where
  "DetectTrack frames c options =
    (let options = normalizeDetectionOptions options in
     case observedCompletedLapLength frames (doMinCompletedLapFrames options) of
       None \<Rightarrow>
         if int (length frames) < doMinCompletedLapFrames options
         then fallbackResult ''pending'' (Fin 0) (Fin 0) ''collect_more_frames''
           [evidence_of ''insufficient_data'' ''not enough retained frames to detect a completed lap'']
         else fallbackResult ''pending'' (Fin 0) (Fin 0) ''wait_for_completed_lap''
           [evidence_of ''no_completed_lap'' ''no completed lap was observed in retained frames'']
     | Some observed \<Rightarrow>
         let candidates = matchingCandidates c observed (doLengthToleranceRatio options) in
         if length candidates = 0
         then fallbackResult ''unknown'' (Fin 0) observed ''prompt_manual_track_selection''
           [(evidence_of ''no_catalog_match'' ''observed lap length is outside catalog tolerance'')\<lparr>deObservedMeters := observed\<rparr>]
         else let best = hd candidates in
           if ambiguous candidates (doAmbiguousScoreMargin options)
           then fallbackResult ''ambiguous'' (Fin 0) observed ''prompt_manual_track_selection''
             (ambiguousEvidence candidates observed (doAmbiguousScoreMargin options))
           else if flt (cdConfidence best) (doMinDetectedConfidence options)
           then fallbackResult ''low_confidence'' (cdConfidence best) observed ''prompt_manual_track_selection''
             [candidate_evidence ''low_confidence'' ''best catalog layout match is below the minimum detection confidence'' best observed]
           else \<lparr>dsStatus = ''detected'', dsTrackID = Some (cdTrackID best), dsLayoutID = Some (cdLayoutID best),
             dsTrackName = Some (cdTrackName best), dsLayoutName = Some (cdLayoutName best), dsConfidence = cdConfidence best,
             dsObservedLengthMeters = observed, dsReasons = [''length_match''],
             dsEvidence = [candidate_evidence ''length_match'' ''observed completed lap length matched one catalog layout within tolerance'' best observed],
             dsNextAction = ''use_detected_catalog_layout'',
             dsCapabilities = Some (catalog_LayoutCapabilities c (cdTrackID best) (cdLayoutID best))\<rparr>)"

text \<open>
  The callback orders candidates with different layouts totally, so that \<^verbatim>\<open>sort.Slice\<close> has one
  result: a strict weak order on the candidates whose confidence is a number.
\<close>

lemma feq_flt_number: "\<not> isNaN x \<Longrightarrow> \<not> isNaN y \<Longrightarrow> feq x y \<longleftrightarrow> \<not> flt x y \<and> \<not> flt y x"
  by (cases x; cases y) (auto simp: isNaN_def)

lemma flt_asym: "flt x y \<Longrightarrow> \<not> flt y x"
  by (cases x; cases y) auto

lemma flt_neg_trans: "\<not> isNaN y \<Longrightarrow> \<not> flt x y \<Longrightarrow> \<not> flt y z \<Longrightarrow> \<not> flt x z"
  by (cases x; cases y; cases z) (auto simp: isNaN_def)

interpretation candidate_less: slice_less candidate_less "{c. \<not> isNaN (cdConfidence c)}"
proof
  fix x y assume "x \<in> {c. \<not> isNaN (cdConfidence c)}" "y \<in> {c. \<not> isNaN (cdConfidence c)}" "candidate_less x y"
  then show "\<not> candidate_less y x"
    by (auto simp: candidate_less_def feq_flt_number dest: flt_asym split: if_splits)
next
  fix x y z
  assume n: "x \<in> {c. \<not> isNaN (cdConfidence c)}" "y \<in> {c. \<not> isNaN (cdConfidence c)}" "z \<in> {c. \<not> isNaN (cdConfidence c)}"
    and l: "\<not> candidate_less y x" "\<not> candidate_less z y"
  let ?x = "cdConfidence x" and ?y = "cdConfidence y" and ?z = "cdConfidence z"
  have 1: "\<not> flt ?x ?y" "\<not> flt ?y ?z" using l n by (auto simp: candidate_less_def feq_flt_number split: if_splits)
  have 2: "\<not> flt ?x ?z" using flt_neg_trans [of ?y ?x ?z] 1 n by auto
  show "\<not> candidate_less z x"
  proof (cases "flt ?z ?x")
    case True then show ?thesis using 2 n by (auto simp: candidate_less_def feq_flt_number)
  next
    case False
    have "\<not> flt ?y ?x" "\<not> flt ?z ?y"
      using flt_neg_trans [of ?z ?y ?x] flt_neg_trans [of ?x ?z ?y] False 1 2 n by auto
    with l n 1 2 False show ?thesis by (auto simp: candidate_less_def feq_flt_number split: if_splits)
  qed
qed

section \<open>Confidence\<close>

lemma allowed_range:
  assumes "is_fin len" "f64_ok len" "0 < fval len"
  shows "is_fin (fmul len (rnd (3 / 100)))" "0 \<le> fval (fmul len (rnd (3 / 100)))"
proof -
  have k: "is_fin (rnd (3 / 100))" "0 \<le> fval (rnd (3 / 100))" "fval (rnd (3 / 100)) \<le> 1" by code_simp+
  note l = f64_ok_rep [OF assms(2,1)]
  have "fval len * fval (rnd (3 / 100)) \<le> fval len" using k(2,3) assms(3) by (simp add: mult_left_le)
  then show f: "is_fin (fmul len (rnd (3 / 100)))"
    using l k assms by (simp add: fmul_fin is_fin_rnds_bound [where r = "fval len"])
  show "0 \<le> fval (fmul len (rnd (3 / 100)))" using f k assms by (simp add: fval_fmul rnd_rat_nonneg)
qed

lemma candidate_confidence_range:
  assumes "is_fin allowed" "0 \<le> fval allowed" "is_fin d" "0 \<le> fval d" "fval d \<le> fval allowed"
  shows "is_fin (candidate_confidence d allowed)" "fval (rnd (65 / 100)) \<le> fval (candidate_confidence d allowed)"
proof -
  have c: "is_fin (rnd (65 / 100))" "is_fin (rnd (20 / 100))" "0 \<le> fval (rnd (20 / 100))" "fval (rnd (20 / 100)) \<le> 1"
      "0 \<le> fval (rnd (65 / 100))" "fval (rnd (65 / 100)) \<le> 1" "is_fin (rnd (85 / 100))" "fval (rnd (65 / 100)) \<le> fval (rnd (85 / 100))"
    by code_simp+
  have r1: "rep 1" "rep 2" "(1 :: rat) < pow2 1024" "(2 :: rat) < pow2 1024"
    using rep_int [of 1] rep_int [of 2] pow2_strict [of 0 1024] pow2_strict [of 1 1024] by (auto simp: pow2_powi)
  have "is_fin (candidate_confidence d allowed) \<and> fval (rnd (65 / 100)) \<le> fval (candidate_confidence d allowed)"
  proof (cases "0 < fval allowed")
    case False then show ?thesis using assms c by (simp add: candidate_confidence_def)
  next
    case True
    let ?q = "fdiv d allowed"
    note q = fdiv_unit [OF assms(3,1,4,5) True]
    let ?s = "fsub (Fin 1) ?q"
    have s: "is_fin ?s" using q r1 by (intro is_fin_fsub_bound [where r = 1]) auto
    have sv: "0 \<le> fval ?s" "fval ?s \<le> 1" using s q r1 by (auto simp: fval_fsub intro: rnd_rat_nonneg rnd_rat_le_rep)
    let ?m = "fmul (rnd (20 / 100)) ?s"
    have p: "0 \<le> fval (rnd (20 / 100)) * fval ?s" "fval (rnd (20 / 100)) * fval ?s \<le> 1"
      using c sv by (auto intro: mult_le_one)
    have m: "is_fin ?m" using p c s r1 by (simp add: fmul_fin is_fin_rnds_bound [where r = 1])
    have mv: "0 \<le> fval ?m" "fval ?m \<le> 1" using m p c s r1 by (auto simp: fval_fmul intro: rnd_rat_nonneg rnd_rat_le_rep)
    have a: "is_fin (fadd (rnd (65 / 100)) ?m)" using c m mv r1 by (intro is_fin_fadd_bound [where r = 2]) auto
    have "rep (fval (rnd (65 / 100)))" using f64_ok_rep [OF f64_ok_rnd c(1)] by simp
    then have "fval (rnd (65 / 100)) \<le> fval (fadd (rnd (65 / 100)) ?m)"
      using a c m mv by (auto simp: fval_fadd intro: rep_le_rnd_rat)
    with a True assms(1) show ?thesis by (simp add: candidate_confidence_def)
  qed
  then show "is_fin (candidate_confidence d allowed)" "fval (rnd (65 / 100)) \<le> fval (candidate_confidence d allowed)" by auto
qed

definition lengths_ok :: "Catalog \<Rightarrow> bool" where
  "lengths_ok c = list_all (\<lambda>t. list_all (\<lambda>l. is_fin (loLengthMeters l) \<and> f64_ok (loLengthMeters l)) (trLayouts t)) (caTracks c)"

definition candidate_of :: "f64 \<Rightarrow> f64 \<Rightarrow> CatalogTrack \<Rightarrow> CatalogLayout \<Rightarrow> layoutCandidate \<Rightarrow> bool" where
  "candidate_of observed ratio t l x \<longleftrightarrow> hasSelectableLayoutMetadata t l \<and> \<not> fle (loLengthMeters l) (Fin 0) \<and>
     \<not> flt (fmul (loLengthMeters l) ratio) (fabs (fsub observed (loLengthMeters l))) \<and>
     x = \<lparr>cdTrackID = trID t, cdTrackName = trName t, cdLayoutID = loID l, cdLayoutName = loName l,
          cdLengthMeters = loLengthMeters l, cdDifference = fabs (fsub observed (loLengthMeters l)),
          cdConfidence = candidate_confidence (fabs (fsub observed (loLengthMeters l))) (fmul (loLengthMeters l) ratio)\<rparr>"

lemma layout_candidates_set: "x \<in> set (layout_candidates t observed ratio ls) \<longleftrightarrow> (\<exists>l \<in> set ls. candidate_of observed ratio t l x)"
  by (induction t observed ratio ls rule: layout_candidates.induct) (auto simp: candidate_of_def Let_def)

lemma matchingCandidates_set:
  "x \<in> set (matchingCandidates c observed ratio) \<longleftrightarrow> (\<exists>t \<in> set (caTracks c). \<exists>l \<in> set (trLayouts t). candidate_of observed ratio t l x)"
  by (auto simp: matchingCandidates_def layout_candidates_set)

lemma candidate_confident:
  assumes "candidate_of observed (rnd (3 / 100)) t l x" "is_fin (loLengthMeters l)" "f64_ok (loLengthMeters l)" "flt (Fin 0) observed"
  shows "is_fin (cdConfidence x)" "fval (rnd (65 / 100)) \<le> fval (cdConfidence x)"
proof -
  have len: "0 < fval (loLengthMeters l)" using assms(1,2) by (simp add: candidate_of_def)
  note a = allowed_range [OF assms(2,3) len]
  let ?d = "fabs (fsub observed (loLengthMeters l))"
  have nlt: "\<not> flt (fmul (loLengthMeters l) (rnd (3 / 100))) ?d" using assms(1) by (simp add: candidate_of_def)
  have "is_fin ?d"
  proof (rule ccontr)
    assume "\<not> is_fin ?d"
    then have "?d = FInf False"
      using assms(2,4) by (cases observed; cases "loLengthMeters l"; cases "fsub observed (loLengthMeters l)")
        (auto simp: fsub_def rnd_def Let_def split: if_splits)
    with nlt a show False by (cases "fmul (loLengthMeters l) (rnd (3 / 100))") auto
  qed
  moreover have "0 \<le> fval ?d" by (cases "fsub observed (loLengthMeters l)") auto
  ultimately show "is_fin (cdConfidence x)" "fval (rnd (65 / 100)) \<le> fval (cdConfidence x)"
    using candidate_confidence_range [OF a, of ?d] nlt a assms(1) by (auto simp: candidate_of_def)
qed

lemma length_loop_positive: "length_loop m p cl len n fs = Some r \<Longrightarrow> flt (Fin 0) r"
  by (induction m p cl len n fs rule: length_loop.induct) (auto simp: Let_def split: if_splits)

lemma observed_positive: "observedCompletedLapLength fs m = Some r \<Longrightarrow> flt (Fin 0) r"
  by (auto simp: observedCompletedLapLength_def dest: length_loop_positive split: if_splits list.splits)

lemma normalize_default: "normalizeDetectionOptions DefaultDetectionOptions = DefaultDetectionOptions"
  by code_simp

lemma candidate_better: "flt (cdConfidence x) (cdConfidence y) \<Longrightarrow> candidate_less y x"
  by (cases "cdConfidence x"; cases "cdConfidence y") (auto simp: candidate_less_def)

section \<open>Properties\<close>

text \<open>With the default options the low-confidence outcome cannot occur: a layout within the length tolerance always
  scores at least the minimum confidence, so a match is either detected or ambiguous.\<close>

theorem low_confidence_unreachable:
  assumes "lengths_ok c"
  shows "dsStatus (DetectTrack frames c DefaultDetectionOptions) \<noteq> ''low_confidence''"
proof (cases "observedCompletedLapLength frames (doMinCompletedLapFrames DefaultDetectionOptions)")
  case None
  then show ?thesis by (simp add: DetectTrack_def normalize_default fallbackResult_def Let_def)
next
  case (Some observed)
  let ?cs = "matchingCandidates c observed (doLengthToleranceRatio DefaultDetectionOptions)"
  have "\<not> flt (cdConfidence (hd ?cs)) (doMinDetectedConfidence DefaultDetectionOptions)" if ne: "?cs \<noteq> []"
  proof -
    obtain t l where tl: "t \<in> set (caTracks c)" "l \<in> set (trLayouts t)" "candidate_of observed (rnd (3 / 100)) t l (hd ?cs)"
      using hd_in_set [OF ne] unfolding matchingCandidates_set by (auto simp: DefaultDetectionOptions_def)
    have "is_fin (loLengthMeters l)" "f64_ok (loLengthMeters l)" using assms tl by (auto simp: lengths_ok_def list_all_iff)
    note h = candidate_confident [OF tl(3) this observed_positive [OF Some]]
    have "is_fin (rnd (65 / 100))" by code_simp
    with h show ?thesis by (simp add: DefaultDetectionOptions_def)
  qed
  with Some show ?thesis by (simp add: DetectTrack_def normalize_default fallbackResult_def Let_def)
qed

theorem low_confidence_unreachable_witness:
  "dsStatus (DetectTrack [sample_frame 1 1 0] demo_catalog DefaultDetectionOptions) \<noteq> ''low_confidence''"
proof (rule low_confidence_unreachable)
  show "lengths_ok demo_catalog"
    using f64_ok_Fin_int [of 1000] by (simp add: lengths_ok_def demo_catalog_def demo_track_def demo_layout_def)
qed

text \<open>C12: A detected layout is justified: it is a selectable layout of the catalogue whose length is within the
  tolerance of the observed length, and no other layout within the tolerance scores higher.\<close>

theorem detected_layout_justified:
  assumes "lengths_ok c" "dsStatus (DetectTrack frames c DefaultDetectionOptions) = ''detected''"
  shows "\<exists>observed t l x. observedCompletedLapLength frames 20 = Some observed \<and> t \<in> set (caTracks c) \<and> l \<in> set (trLayouts t) \<and>
    candidate_of observed (rnd (3 / 100)) t l x \<and>
    dsTrackID (DetectTrack frames c DefaultDetectionOptions) = Some (trID t) \<and>
    dsLayoutID (DetectTrack frames c DefaultDetectionOptions) = Some (loID l) \<and>
    dsConfidence (DetectTrack frames c DefaultDetectionOptions) = cdConfidence x \<and>
    list_all (\<lambda>y. \<not> flt (cdConfidence x) (cdConfidence y)) (matchingCandidates c observed (rnd (3 / 100)))"
proof -
  have opt: "doLengthToleranceRatio DefaultDetectionOptions = rnd (3 / 100)" "doMinCompletedLapFrames DefaultDetectionOptions = 20"
    by (simp_all add: DefaultDetectionOptions_def)
  obtain observed where o: "observedCompletedLapLength frames 20 = Some observed"
    using assms(2) by (cases "observedCompletedLapLength frames 20")
      (auto simp: DetectTrack_def normalize_default fallbackResult_def Let_def opt split: if_splits)
  let ?cs = "matchingCandidates c observed (rnd (3 / 100))"
  have ne: "?cs \<noteq> []" and r: "dsTrackID (DetectTrack frames c DefaultDetectionOptions) = Some (cdTrackID (hd ?cs))"
      "dsLayoutID (DetectTrack frames c DefaultDetectionOptions) = Some (cdLayoutID (hd ?cs))"
      "dsConfidence (DetectTrack frames c DefaultDetectionOptions) = cdConfidence (hd ?cs)"
    using assms(2) o by (auto simp: DetectTrack_def normalize_default fallbackResult_def Let_def opt split: if_splits)
  have conf: "\<not> isNaN (cdConfidence y)" if y: "y \<in> set ?cs" for y
  proof -
    obtain t l where tl: "t \<in> set (caTracks c)" "l \<in> set (trLayouts t)" "candidate_of observed (rnd (3 / 100)) t l y"
      using y unfolding matchingCandidates_set by auto
    have "is_fin (loLengthMeters l)" "f64_ok (loLengthMeters l)" using assms(1) tl by (auto simp: lengths_ok_def list_all_iff)
    then show ?thesis using candidate_confident(1) [OF tl(3)] observed_positive [OF o] by (auto simp: is_fin_iff)
  qed
  then have "candidate_less.ordered ?cs"
    unfolding matchingCandidates_def by (intro candidate_less.ordered_sort_slice) auto
  then have ord: "list_all (\<lambda>y. \<not> flt (cdConfidence (hd ?cs)) (cdConfidence y)) ?cs"
  proof (cases ?cs)
    case (Cons x xs)
    then have "\<not> candidate_less y x" if "y \<in> set xs" for y
      using \<open>candidate_less.ordered ?cs\<close> that by (auto simp: candidate_less.ordered_def)
    then show ?thesis using candidate_better Cons by (auto simp: list_all_iff)
  qed simp
  obtain t l where tl: "t \<in> set (caTracks c)" "l \<in> set (trLayouts t)" "candidate_of observed (rnd (3 / 100)) t l (hd ?cs)"
    using hd_in_set [OF ne] unfolding matchingCandidates_set by auto
  then have "cdTrackID (hd ?cs) = trID t" "cdLayoutID (hd ?cs) = loID l" by (auto simp: candidate_of_def)
  with o tl r ord show ?thesis by auto
qed

definition demo_drive :: "Frame list" where
  "demo_drive = map (\<lambda>i. (sample_frame (10 + i) (if i < 20 then 1 else 2) 0)
       \<lparr>fPositionX := Fin (if i < 20 then 0 else 1000), fIsOnTrack := i \<ge> 19\<rparr>)
     [0, 1, 2, 3, 4, 5, 6, 7, 8, 9, 10, 11, 12, 13, 14, 15, 16, 17, 18, 19, 20]"

theorem detected_layout_justified_witness:
  "\<exists>observed t l x. observedCompletedLapLength demo_drive 20 = Some observed \<and> t \<in> set (caTracks demo_catalog) \<and>
     l \<in> set (trLayouts t) \<and> candidate_of observed (rnd (3 / 100)) t l x \<and>
     dsLayoutID (DetectTrack demo_drive demo_catalog DefaultDetectionOptions) = Some (loID l)"
proof -
  have l: "lengths_ok demo_catalog"
    using f64_ok_Fin_int [of 1000] by (simp add: lengths_ok_def demo_catalog_def demo_track_def demo_layout_def)
  have o: "observedCompletedLapLength demo_drive 20 = Some (Fin 1000)" by code_simp
  have m: "map cdLayoutID (matchingCandidates demo_catalog (Fin 1000) (rnd (3 / 100))) = [''l'']" by code_simp
  have c: "map (\<lambda>x. flt (cdConfidence x) (rnd (65 / 100))) (matchingCandidates demo_catalog (Fin 1000) (rnd (3 / 100))) = [False]" by code_simp
  obtain x where x: "matchingCandidates demo_catalog (Fin 1000) (rnd (3 / 100)) = [x]" "\<not> flt (cdConfidence x) (rnd (65 / 100))"
    using m c by (auto simp: map_eq_Cons_conv)
  have "dsStatus (DetectTrack demo_drive demo_catalog DefaultDetectionOptions) = ''detected''"
    unfolding DetectTrack_def normalize_default Let_def
    using o x by (simp add: DefaultDetectionOptions_def ambiguous_def)
  from detected_layout_justified [OF l this] show ?thesis by blast
qed

end
