(* ===== verification/Corners.thy ===== *)
theory Corners
  imports Tracks
begin

text \<open>
  \<^verbatim>\<open>internal/corners/resolver.go\<close> and \<^verbatim>\<open>analysis.go\<close>: which catalogue corner a distance lies
  in, and the analysis of the samples inside one corner.
\<close>

section \<open>Resolving a distance\<close>

datatype corner_err = ErrInvalidDistance | ErrInvalidCornerLength | ErrInvalidAnalysisLength

record Resolution =
  reStatus :: string
  reReason :: string
  reCornerID :: string
  reCornerName :: string
  reNumber :: int
  reStartMeters :: f64
  reApexMeters :: f64
  reEndMeters :: f64

definition noCorner :: "string \<Rightarrow> Resolution" where
  "noCorner reason = \<lparr>reStatus = ''no_corner'', reReason = reason, reCornerID = [], reCornerName = [], reNumber = 0,
     reStartMeters = Fin 0, reApexMeters = Fin 0, reEndMeters = Fin 0\<rparr>"

definition containsDistance :: "Corner \<Rightarrow> f64 \<Rightarrow> bool \<Rightarrow> bool" where
  "containsDistance c distance isClosed =
    (if flt (coStartMeters c) (coEndMeters c) then fle (coStartMeters c) distance \<and> flt distance (coEndMeters c)
     else if \<not> isClosed \<or> feq (coStartMeters c) (coEndMeters c) then False
     else fle (coStartMeters c) distance \<or> flt distance (coEndMeters c))"

definition corner_normalizeDistance :: "f64 \<Rightarrow> f64 \<Rightarrow> f64" where
  "corner_normalizeDistance distance totalMeters =
    (let normalized = fmod distance totalMeters in
     if flt normalized (Fin 0) then fadd normalized totalMeters else normalized)"

definition resolved :: "Corner \<Rightarrow> Resolution" where
  "resolved c = \<lparr>reStatus = ''in_corner'', reReason = [], reCornerID = coID c, reCornerName = coName c, reNumber = coNumber c,
     reStartMeters = coStartMeters c, reApexMeters = coApexMeters c, reEndMeters = coEndMeters c\<rparr>"

fun find_corner :: "f64 \<Rightarrow> bool \<Rightarrow> Corner list \<Rightarrow> Corner option" where
  "find_corner distance isClosed [] = None"
| "find_corner distance isClosed (c # cs) =
    (if coDefinitionMode c \<noteq> CornerDefinitionCatalogManual then find_corner distance isClosed cs
     else if containsDistance c distance isClosed then Some c
     else find_corner distance isClosed cs)"

fun no_corner_reason :: "Corner list \<Rightarrow> string" where
  "no_corner_reason [] = ''outside_corner_range''"
| "no_corner_reason (c # cs) =
    (if coDefinitionMode c = CornerDefinitionCatalogEnumerated then ''catalog_has_enumerated_corners''
     else if coDefinitionMode c \<noteq> CornerDefinitionCatalogManual then ''unsupported_corner_definition''
     else no_corner_reason cs)"

definition ResolveCurrent :: "CatalogLayout \<Rightarrow> f64 \<Rightarrow> bool \<Rightarrow> corner_err + Resolution" where
  "ResolveCurrent layout distanceFromStart isClosed =
    (if fle (loLengthMeters layout) (Fin 0) then Inl ErrInvalidCornerLength
     else if \<not> isFinite distanceFromStart then Inl ErrInvalidDistance
     else if length (loCorners layout) = 0 then Inr (noCorner ''catalog_has_no_corners'')
     else let distance = (if isClosed then corner_normalizeDistance distanceFromStart (loLengthMeters layout) else distanceFromStart)
       in if \<not> isClosed \<and> (flt distance (Fin 0) \<or> fle (loLengthMeters layout) distance)
          then Inr (noCorner ''outside_corner_range'')
          else (case find_corner distance isClosed (loCorners layout) of
              Some c \<Rightarrow> Inr (resolved c)
            | None \<Rightarrow> Inr (noCorner (no_corner_reason (loCorners layout)))))"

section \<open>Analysing a corner\<close>

record AnalysisSample =
  asTimestampUnixMs :: int
  asDistanceFromStart :: f64
  asProgress :: f64
  asSpeedMps :: f64
  asThrottle :: "f64 option"
  asBrake :: "f64 option"

record AnalysisOptions =
  aoBrakeAppliedThreshold :: f64
  aoThrottleAppliedThreshold :: f64

record ScalarMetric =
  smStatus :: string
  smReason :: string
  smValue :: f64

record PointMetric =
  pmStatus :: string
  pmReason :: string
  pmDistanceFromStart :: f64
  pmTimestampUnixMs :: int
  pmTimeOffsetMs :: int

record Analysis =
  anStatus :: string
  anReason :: string
  anCornerID :: string
  anCornerName :: string
  anNumber :: int
  anSampleCount :: int
  anEntrySpeedKph :: ScalarMetric
  anMinimumSpeedKph :: ScalarMetric
  anExitSpeedKph :: ScalarMetric
  anMaxBrakePercent :: ScalarMetric
  anFirstThrottleReapplication :: PointMetric
  anExitAccelerationDeltaKph :: ScalarMetric

definition availableScalar :: "f64 \<Rightarrow> ScalarMetric" where
  "availableScalar value = \<lparr>smStatus = ''available'', smReason = [], smValue = value\<rparr>"

definition unavailableScalar :: "string \<Rightarrow> ScalarMetric" where
  "unavailableScalar reason = \<lparr>smStatus = ''unavailable'', smReason = reason, smValue = Fin 0\<rparr>"

definition unavailablePoint :: "string \<Rightarrow> PointMetric" where
  "unavailablePoint reason = \<lparr>pmStatus = ''unavailable'', pmReason = reason, pmDistanceFromStart = Fin 0,
     pmTimestampUnixMs = 0, pmTimeOffsetMs = 0\<rparr>"

definition speedKph :: "f64 \<Rightarrow> f64" where
  "speedKph speedMps = fmul speedMps (rnd (36 / 10))"

definition DefaultAnalysisOptions :: AnalysisOptions where
  "DefaultAnalysisOptions = \<lparr>aoBrakeAppliedThreshold = rnd (5 / 100), aoThrottleAppliedThreshold = rnd (5 / 100)\<rparr>"

definition normalizeAnalysisOptions :: "AnalysisOptions \<Rightarrow> AnalysisOptions" where
  "normalizeAnalysisOptions options =
    (let bad = (\<lambda>t. fle t (Fin 0) \<or> flt (Fin 1) t \<or> \<not> isFinite t);
         options = (if bad (aoBrakeAppliedThreshold options)
           then options\<lparr>aoBrakeAppliedThreshold := aoBrakeAppliedThreshold DefaultAnalysisOptions\<rparr> else options)
     in if bad (aoThrottleAppliedThreshold options)
        then options\<lparr>aoThrottleAppliedThreshold := aoThrottleAppliedThreshold DefaultAnalysisOptions\<rparr> else options)"

definition validSample :: "AnalysisSample \<Rightarrow> bool" where
  "validSample s = (isFinite (asDistanceFromStart s) \<and> isFinite (asProgress s) \<and> isFinite (asSpeedMps s) \<and> fle (Fin 0) (asSpeedMps s))"

definition validCornerRange :: "Corner \<Rightarrow> f64 \<Rightarrow> bool" where
  "validCornerRange c len =
    (let s = coStartMeters c; a = coApexMeters c; e = coEndMeters c in
     if \<not> isFinite s \<or> \<not> isFinite a \<or> \<not> isFinite e then False
     else if flt s (Fin 0) \<or> flt a (Fin 0) \<or> flt e (Fin 0) \<or> flt len s \<or> flt len a \<or> flt len e then False
     else if flt s e then flt s a \<and> flt a e
     else if feq s e then False
     else fle s a \<or> flt a e)"

definition distanceAtOrAfterApex :: "f64 \<Rightarrow> Corner \<Rightarrow> bool" where
  "distanceAtOrAfterApex distance c =
    (if flt (coStartMeters c) (coEndMeters c) then fle (coApexMeters c) distance
     else if fle (coStartMeters c) (coApexMeters c) then fle (coApexMeters c) distance \<or> flt distance (coEndMeters c)
     else flt distance (coEndMeters c) \<and> fle (coApexMeters c) distance)"

definition unavailableAnalysis :: "Corner \<Rightarrow> string \<Rightarrow> Analysis" where
  "unavailableAnalysis c reason = \<lparr>anStatus = ''unavailable'', anReason = reason, anCornerID = coID c, anCornerName = coName c,
     anNumber = coNumber c, anSampleCount = 0, anEntrySpeedKph = unavailableScalar reason,
     anMinimumSpeedKph = unavailableScalar reason, anExitSpeedKph = unavailableScalar reason,
     anMaxBrakePercent = unavailableScalar reason, anFirstThrottleReapplication = unavailablePoint reason,
     anExitAccelerationDeltaKph = unavailableScalar reason\<rparr>"

fun brake_loop :: "bool \<Rightarrow> f64 \<Rightarrow> AnalysisSample list \<Rightarrow> bool \<times> f64" where
  "brake_loop hasBrake maxBrake [] = (hasBrake, maxBrake)"
| "brake_loop hasBrake maxBrake (s # ss) =
    (case asBrake s of None \<Rightarrow> brake_loop hasBrake maxBrake ss
     | Some b \<Rightarrow> if \<not> isFinite b then brake_loop hasBrake maxBrake ss
         else brake_loop True (if flt maxBrake b then b else maxBrake) ss)"

definition maxBrakeMetric :: "AnalysisSample list \<Rightarrow> ScalarMetric" where
  "maxBrakeMetric samples =
    (let (hasBrake, maxBrake) = brake_loop False (Fin 0) samples in
     if \<not> hasBrake then unavailableScalar ''missing_brake_data'' else availableScalar (fmul maxBrake (Fin 100)))"

fun throttle_loop :: "int \<Rightarrow> Corner \<Rightarrow> f64 \<Rightarrow> bool \<Rightarrow> bool \<Rightarrow> AnalysisSample list \<Rightarrow> PointMetric" where
  "throttle_loop entry c threshold previousBelow hasThrottle [] =
    (if \<not> hasThrottle then unavailablePoint ''missing_throttle_data'' else unavailablePoint ''no_throttle_reapplication'')"
| "throttle_loop entry c threshold previousBelow hasThrottle (s # ss) =
    (case asThrottle s of None \<Rightarrow> throttle_loop entry c threshold previousBelow hasThrottle ss
     | Some t \<Rightarrow>
       if \<not> isFinite t then throttle_loop entry c threshold previousBelow hasThrottle ss
       else if \<not> distanceAtOrAfterApex (asDistanceFromStart s) c then throttle_loop entry c threshold (flt t threshold) True ss
       else if previousBelow \<and> fle threshold t
       then \<lparr>pmStatus = ''available'', pmReason = [], pmDistanceFromStart = asDistanceFromStart s,
              pmTimestampUnixMs = asTimestampUnixMs s, pmTimeOffsetMs = sub64 (asTimestampUnixMs s) entry\<rparr>
       else throttle_loop entry c threshold (flt t threshold) True ss)"

definition throttleReapplicationMetric :: "AnalysisSample list \<Rightarrow> Corner \<Rightarrow> f64 \<Rightarrow> PointMetric" where
  "throttleReapplicationMetric samples c threshold =
    throttle_loop (asTimestampUnixMs (hd samples)) c threshold False False samples"

definition exitAccelerationMetric :: "AnalysisSample list \<Rightarrow> AnalysisSample \<Rightarrow> ScalarMetric" where
  "exitAccelerationMetric samples minSample =
    (if length samples < 2 then unavailableScalar ''insufficient_samples''
     else let exit = last samples in
       if asTimestampUnixMs exit < asTimestampUnixMs minSample then unavailableScalar ''acceleration_not_derived''
       else availableScalar (speedKph (fsub (asSpeedMps exit) (asSpeedMps minSample))))"

definition hasUnavailableMetric :: "Analysis \<Rightarrow> bool" where
  "hasUnavailableMetric a = (smStatus (anEntrySpeedKph a) = ''unavailable'' \<or> smStatus (anMinimumSpeedKph a) = ''unavailable''
     \<or> smStatus (anExitSpeedKph a) = ''unavailable'' \<or> smStatus (anMaxBrakePercent a) = ''unavailable''
     \<or> pmStatus (anFirstThrottleReapplication a) = ''unavailable'' \<or> smStatus (anExitAccelerationDeltaKph a) = ''unavailable'')"

fun in_corner_loop :: "Corner \<Rightarrow> f64 \<Rightarrow> bool \<Rightarrow> AnalysisSample list \<Rightarrow> AnalysisSample list" where
  "in_corner_loop c len isClosed [] = []"
| "in_corner_loop c len isClosed (s # ss) =
    (if \<not> validSample s then in_corner_loop c len isClosed ss
     else let distance = (if isClosed then corner_normalizeDistance (asDistanceFromStart s) len else asDistanceFromStart s)
       in if containsDistance c distance isClosed then s\<lparr>asDistanceFromStart := distance\<rparr> # in_corner_loop c len isClosed ss
          else in_corner_loop c len isClosed ss)"

fun min_sample :: "AnalysisSample \<Rightarrow> AnalysisSample list \<Rightarrow> AnalysisSample" where
  "min_sample m [] = m"
| "min_sample m (s # ss) = min_sample (if flt (asSpeedMps s) (asSpeedMps m) then s else m) ss"

definition AnalyzeCorner :: "Corner \<Rightarrow> AnalysisSample list \<Rightarrow> f64 \<Rightarrow> bool \<Rightarrow> AnalysisOptions \<Rightarrow> corner_err + Analysis" where
  "AnalyzeCorner c samples len isClosed options =
    (if fle len (Fin 0) then Inl ErrInvalidAnalysisLength
     else if coDefinitionMode c \<noteq> CornerDefinitionCatalogManual then Inr (unavailableAnalysis c ''unsupported_corner_definition'')
     else if \<not> validCornerRange c len then Inr (unavailableAnalysis c ''invalid_corner_range'')
     else if length samples = 0 then Inr (unavailableAnalysis c ''no_samples'')
     else let options = normalizeAnalysisOptions options; inCorner = in_corner_loop c len isClosed samples in
       if length inCorner = 0 then Inr (unavailableAnalysis c ''no_samples_in_corner'')
       else let minSample = min_sample (hd inCorner) (tl inCorner);
                analysis = \<lparr>anStatus = ''complete'', anReason = [], anCornerID = coID c, anCornerName = coName c,
                  anNumber = coNumber c, anSampleCount = int (length inCorner),
                  anEntrySpeedKph = availableScalar (speedKph (asSpeedMps (hd inCorner))),
                  anMinimumSpeedKph = availableScalar (speedKph (asSpeedMps minSample)),
                  anExitSpeedKph = availableScalar (speedKph (asSpeedMps (last inCorner))),
                  anMaxBrakePercent = maxBrakeMetric inCorner,
                  anFirstThrottleReapplication = throttleReapplicationMetric inCorner c (aoThrottleAppliedThreshold options),
                  anExitAccelerationDeltaKph = exitAccelerationMetric inCorner minSample\<rparr>
         in Inr (if hasUnavailableMetric analysis then analysis\<lparr>anStatus := ''partial''\<rparr> else analysis))"

section \<open>The corners of a valid layout are disjoint\<close>

lemma isFinite_fin: "isFinite x \<longleftrightarrow> is_fin x"
  by (simp add: isFinite_def is_fin_iff)

lemma corner_range:
  assumes "validateCornerRange c len = Some w"
  shows "is_fin (coStartMeters c)" "is_fin (coEndMeters c)" "is_fin (coApexMeters c)" "0 \<le> fval (coStartMeters c)"
    "0 \<le> fval (coEndMeters c)" "w \<longleftrightarrow> fval (coEndMeters c) < fval (coStartMeters c)" "fval (coEndMeters c) \<noteq> fval (coStartMeters c)"
  using assms by (auto simp: validateCornerRange_def isFinite_fin Let_def split: if_splits)

definition manual_containing :: "f64 \<Rightarrow> bool \<Rightarrow> Corner list \<Rightarrow> Corner list" where
  "manual_containing d cl cs = filter (\<lambda>c. coDefinitionMode c = CornerDefinitionCatalogManual \<and> containsDistance c d cl) cs"

lemma manual_not_enumerated: "CornerDefinitionCatalogManual \<noteq> CornerDefinitionCatalogEnumerated"
  by (simp add: CornerDefinitionCatalogManual_def CornerDefinitionCatalogEnumerated_def)

lemma corners_loop_disjoint:
  assumes "is_fin d"
  shows "corners_loop path len n i pe fs hw ids cs = Inr ids' \<Longrightarrow> \<not> hw \<or> cs = [] \<Longrightarrow> i + int (length cs) = n \<Longrightarrow> 0 \<le> i \<Longrightarrow>
    (i = 0 \<longrightarrow> pe = Fin 0) \<Longrightarrow> (cs \<noteq> [] \<longrightarrow> is_fin pe \<and> (\<forall>f. fs = Some f \<longrightarrow> 0 < i \<and> is_fin f \<and> fval f \<le> fval pe)) \<Longrightarrow>
    length (manual_containing d cl cs) \<le> 1 \<and>
    (manual_containing d cl cs = [] \<or> fval pe \<le> fval d \<or> (\<forall>f. fs = Some f \<longrightarrow> fval d < fval f))"
proof (induction path len n i pe fs hw ids cs rule: corners_loop.induct)
  case (1 path len n i pe fs hw ids)
  then show ?case by (simp add: manual_containing_def)
next
  case (2 path len n i pe fs hw ids c cs)
  have hw: "\<not> hw" using "2.prems"(2) by simp
  have pe: "is_fin pe" "\<And>f. fs = Some f \<Longrightarrow> 0 < i \<and> is_fin f \<and> fval f \<le> fval pe" using "2.prems"(6) by auto
  obtain ids1 where i1: "coID c \<noteq> []" "coName c \<noteq> []" "rememberID ids (coID c) (indexed path i) = Inr ids1"
      "validateSources (indexed path i @ ''.sources'') (coSources c) = None"
      "\<not> (coDefinitionMode c \<noteq> CornerDefinitionCatalogManual \<and> coDefinitionMode c \<noteq> CornerDefinitionCatalogEnumerated)"
    using "2.prems"(1) by (auto split: if_splits sum.splits option.splits)
  show ?case
  proof (cases "coDefinitionMode c = CornerDefinitionCatalogEnumerated")
    case True
    then have ok: "\<not> (\<not> feq (coStartMeters c) (Fin 0) \<or> \<not> feq (coApexMeters c) (Fin 0) \<or> \<not> feq (coEndMeters c) (Fin 0))"
      and rest: "corners_loop path len n (i + 1) pe fs hw ids1 cs = Inr ids'"
      using "2.prems"(1) i1 by (auto split: if_splits)
    have m: "manual_containing d cl (c # cs) = manual_containing d cl cs"
      using True manual_not_enumerated by (simp add: manual_containing_def)
    show ?thesis unfolding m
      by (rule "2.IH"(1) [OF i1(1,2,5) i1(3,4) True ok rest]) (use "2.prems" hw pe in auto)
  next
    case False
    then have man: "coDefinitionMode c = CornerDefinitionCatalogManual" using i1(5) by simp
    obtain w where w: "validateCornerRange c len = Some w"
      using "2.prems"(1) i1 False by (auto split: if_splits option.splits)
    note r = corner_range [OF w]
    let ?first = "case fs of None \<Rightarrow> coStartMeters c | Some f \<Rightarrow> f"
    have chk: "\<not> (hw \<or> w \<and> i \<noteq> n - 1)" "\<not> (i > 0 \<and> flt (coStartMeters c) pe)" "\<not> (w \<and> n > 1 \<and> flt ?first (coEndMeters c))"
      using "2.prems"(1) i1 False w by (auto simp: Let_def split: if_splits)
    have start: "fval pe \<le> fval (coStartMeters c)"
      using chk(2) r(1,4) pe(1) "2.prems"(4,5) by (cases "i = 0") auto
    show ?thesis
    proof (cases w)
      case True
      then have nil: "cs = []" using chk(1) "2.prems"(3) by auto
      have "fval d < fval f" if f: "fs = Some f" "fval d < fval (coEndMeters c)" for f
        using chk(3) True pe(2) [OF f(1)] f r(2) "2.prems"(3) nil by auto
      moreover have "\<not> flt (coStartMeters c) (coEndMeters c)" using r True by simp
      ultimately show ?thesis
        using man r start assms unfolding nil by (auto simp: manual_containing_def containsDistance_def)
    next
      case w0: False
      have rest: "corners_loop path len n (i + 1) (coEndMeters c) (Some ?first) hw ids1 cs = Inr ids'"
        using "2.prems"(1) i1 False w w0 chk by (auto simp: Let_def split: if_splits)
      have se: "fval (coStartMeters c) < fval (coEndMeters c)" using r(6,7) w0 by linarith
      have first: "is_fin ?first" "fval ?first \<le> fval (coStartMeters c)" using pe(2) start r(1) by (auto split: option.splits)
      have ih: "length (manual_containing d cl cs) \<le> 1 \<and>
          (manual_containing d cl cs = [] \<or> fval (coEndMeters c) \<le> fval d \<or> (\<forall>f. Some ?first = Some f \<longrightarrow> fval d < fval f))"
        by (rule "2.IH"(3) [OF i1(1,2,5) i1(3,4) False w refl chk w0 rest]) (use "2.prems" hw se first r in auto)
      have c: "containsDistance c d cl \<longleftrightarrow> fval (coStartMeters c) \<le> fval d \<and> fval d < fval (coEndMeters c)"
        using se r assms by (simp add: containsDistance_def)
      show ?thesis
      proof (cases "containsDistance c d cl")
        case True
        with ih c first have "manual_containing d cl cs = []" by auto
        with True man c start show ?thesis by (simp add: manual_containing_def)
      next
        case False
        with ih se start show ?thesis by (auto simp: manual_containing_def split: option.splits)
      qed
    qed
  qed
qed

lemma layout_validate_corners:
  assumes "layout_validate l path ids = Inr ids'"
  obtains j k where "corners_loop (path @ ''.corners'') (loLengthMeters l) (int (length (loCorners l))) 0 (Fin 0) None False j (loCorners l) = Inr k"
  using assms by (auto simp: layout_validate_def validateCorners_def split: if_splits option.splits sum.splits)

text \<open>C11: The corners of a valid layout do not overlap: a distance lies in at most one of its manual corners, the
  corner that wraps around the start line included.\<close>

theorem corners_disjoint:
  assumes "layout_validate l path ids = Inr ids'" "is_fin d"
  shows "length (manual_containing d isClosed (loCorners l)) \<le> 1"
proof -
  obtain j k where "corners_loop (path @ ''.corners'') (loLengthMeters l) (int (length (loCorners l))) 0 (Fin 0) None False j (loCorners l) = Inr k"
    using layout_validate_corners [OF assms(1)] .
  from corners_loop_disjoint [OF assms(2) this, of isClosed] show ?thesis by simp
qed

theorem corners_disjoint_witness: "length (manual_containing (Fin 920) True (loCorners demo_layout)) \<le> 1"
proof -
  obtain ids' where "layout_validate demo_layout ''p'' Map.empty = Inr ids'" using demo_layout_valid by blast
  then show ?thesis by (rule corners_disjoint) simp
qed

lemma find_corner_filter: "find_corner d cl cs = (case manual_containing d cl cs of [] \<Rightarrow> None | c # _ \<Rightarrow> Some c)"
  by (induction cs) (auto simp: manual_containing_def)

lemma corner_normalize_range:
  assumes "is_fin d" "is_fin t" "f64_ok t" "0 < fval t"
  shows "is_fin (corner_normalizeDistance d t) \<and> 0 \<le> fval (corner_normalizeDistance d t) \<and> fval (corner_normalizeDistance d t) \<le> fval t"
proof -
  have m: "is_fin (fmod d t)" "\<bar>fval (fmod d t)\<bar> < fval t"
    using assms fmod_bound [of d t] by (auto simp: fmod_def Let_def is_fin_iff isNaN_def isInf0_def)
  note t = f64_ok_rep [OF assms(3,2)]
  have "is_fin (fadd (fmod d t) t)" if "fval (fmod d t) < 0"
    using m t assms(2,4) that by (intro is_fin_fadd_bound [where r = "fval t"]) auto
  then show ?thesis
    using m t assms by (auto simp: corner_normalizeDistance_def Let_def fval_fadd intro: rnd_rat_nonneg rnd_rat_le_rep)
qed

lemma corners_loop_Cons:
  "corners_loop path len n i pe fs hw ids (c # cs) = Inr ids' \<Longrightarrow>
     \<exists>pe fs hw ids. corners_loop path len n (i + 1) pe fs hw ids cs = Inr ids'"
  by (simp add: Let_def split: if_splits sum.splits option.splits) blast+

lemma corners_loop_head:
  "corners_loop path len n i pe fs hw ids (c # cs) = Inr ids' \<Longrightarrow> coDefinitionMode c = CornerDefinitionCatalogManual \<Longrightarrow>
     \<exists>w. validateCornerRange c len = Some w"
  by (auto simp: CornerDefinitionCatalogManual_def CornerDefinitionCatalogEnumerated_def split: if_splits sum.splits option.splits)

lemma corners_loop_within:
  "corners_loop path len n i pe fs hw ids cs = Inr ids' \<Longrightarrow> c \<in> set cs \<Longrightarrow> coDefinitionMode c = CornerDefinitionCatalogManual \<Longrightarrow>
     \<exists>w. validateCornerRange c len = Some w"
proof (induction cs arbitrary: i pe fs hw ids)
  case (Cons c' cs)
  then show ?case using corners_loop_head [OF Cons.prems(1)] corners_loop_Cons [OF Cons.prems(1)] by (metis set_ConsD)
qed simp

text \<open>Resolution is exact on a valid layout: the resolver answers with the one manual corner that contains the
  (on a closed line, normalised) distance, and with no corner when none does.\<close>

theorem resolve_current_exact:
  assumes "layout_validate l path ids = Inr ids'" "is_fin (loLengthMeters l)" "f64_ok (loLengthMeters l)" "is_fin d"
  shows "\<exists>r. ResolveCurrent l d isClosed = Inr r \<and>
    (case manual_containing (if isClosed then corner_normalizeDistance d (loLengthMeters l) else d) isClosed (loCorners l) of
       [] \<Rightarrow> reStatus r = ''no_corner'' | [c] \<Rightarrow> r = resolved c | _ \<Rightarrow> False)"
proof -
  let ?len = "loLengthMeters l"
  let ?x = "if isClosed then corner_normalizeDistance d ?len else d"
  let ?m = "manual_containing ?x isClosed (loCorners l)"
  have len: "0 < fval ?len" "\<not> fle ?len (Fin 0)"
  proof -
    show "\<not> fle ?len (Fin 0)" using assms(1) by (auto simp: layout_validate_def split: if_splits sum.splits)
    then show "0 < fval ?len" using assms(2) by simp
  qed
  have x: "is_fin ?x" using corner_normalize_range [OF assms(4,2,3) len(1)] assms(4) by simp
  have one: "length ?m \<le> 1" by (rule corners_disjoint [OF assms(1) x])
  have out: "?m = []" if "\<not> isClosed" "flt d (Fin 0) \<or> fle ?len d"
  proof -
    obtain j k where cl: "corners_loop (path @ ''.corners'') ?len (int (length (loCorners l))) 0 (Fin 0) None False j (loCorners l) = Inr k"
      using layout_validate_corners [OF assms(1)] .
    note w = corners_loop_within [OF cl]
    have "\<not> containsDistance c d isClosed" if c: "c \<in> set (loCorners l)" "coDefinitionMode c = CornerDefinitionCatalogManual" for c
    proof -
      obtain w where "validateCornerRange c ?len = Some w" using w c by blast
      note v = this
      note r = corner_range [OF v]
      have "fval (coEndMeters c) \<le> fval ?len"
        using v assms(2) r(1-3) by (auto simp: validateCornerRange_def Let_def isFinite_fin split: if_splits)
      with r that(1,2) assms(2,4) \<open>\<not> isClosed\<close> \<open>flt d (Fin 0) \<or> fle ?len d\<close> show ?thesis by (auto simp: containsDistance_def)
    qed
    with \<open>\<not> isClosed\<close> show ?thesis by (auto simp: manual_containing_def)
  qed
  have nc: "reStatus (noCorner reason) = ''no_corner''" for reason by (simp add: noCorner_def)
  consider "?m = []" | c where "?m = [c]"
    using one by (cases ?m rule: list.exhaust) (auto simp: Suc_le_eq)
  then show ?thesis
  proof cases
    case 1
    then have "find_corner ?x isClosed (loCorners l) = None" by (simp add: find_corner_filter)
    with 1 assms(4) len show ?thesis by (auto simp: ResolveCurrent_def Let_def isFinite_fin nc)
  next
    case (2 c)
    then have "find_corner ?x isClosed (loCorners l) = Some c" "loCorners l \<noteq> []"
      by (auto simp: find_corner_filter manual_containing_def)
    moreover have "\<not> (\<not> isClosed \<and> (flt ?x (Fin 0) \<or> fle ?len ?x))" using out 2 by auto
    ultimately show ?thesis using 2 assms(4) len by (auto simp: ResolveCurrent_def Let_def isFinite_fin)
  qed
qed

theorem resolve_current_exact_witness:
  "\<exists>r. ResolveCurrent demo_layout (Fin 1920) True = Inr r \<and>
    (case manual_containing (corner_normalizeDistance (Fin 1920) (Fin (of_int 1000))) True (loCorners demo_layout) of
       [] \<Rightarrow> reStatus r = ''no_corner'' | [c] \<Rightarrow> r = resolved c | _ \<Rightarrow> False)"
proof -
  obtain ids' where v: "layout_validate demo_layout ''p'' Map.empty = Inr ids'" using demo_layout_valid by blast
  have "loLengthMeters demo_layout = Fin (of_int 1000)" by (simp add: demo_layout_def)
  then show ?thesis using resolve_current_exact [OF v, of "Fin 1920" True] f64_ok_Fin_int [of 1000] by simp
qed

text \<open>The resolver's own normalisation can return the length of the line: a distance just before the start rounds
  up to it, where the geometry package returns zero, so the half-open corner that starts at zero is missed.\<close>

theorem resolver_normalises_to_length:
  "corner_normalizeDistance (Fin (- (1 / 1152921504606846976))) (Fin 1000) = Fin 1000 \<and>
   containsDistance (demo_corner ''c'' 0 10 20) (Fin 0) True \<and>
   \<not> containsDistance (demo_corner ''c'' 0 10 20) (Fin 1000) True"
  by code_simp

section \<open>The metrics of a corner\<close>

lemma speedKph_mono: "is_fin x \<Longrightarrow> is_fin y \<Longrightarrow> 0 \<le> fval x \<Longrightarrow> fval x \<le> fval y \<Longrightarrow> fle (speedKph x) (speedKph y)"
proof -
  assume a: "is_fin x" "is_fin y" "0 \<le> fval x" "fval x \<le> fval y"
  have k: "is_fin (rnd (36 / 10))" "0 \<le> fval (rnd (36 / 10))" by code_simp+
  show ?thesis unfolding speedKph_def using a k
    by (simp add: fmul_fin) (intro rnds_mono mult_nonneg_nonneg mult_right_mono; simp)
qed

lemma min_sample_le:
  "list_all validSample (m # ss) \<Longrightarrow> min_sample m ss \<in> set (m # ss) \<and>
     list_all (\<lambda>s. fval (asSpeedMps (min_sample m ss)) \<le> fval (asSpeedMps s)) (m # ss)"
proof (induction m ss rule: min_sample.induct)
  case (2 m s ss)
  let ?m = "if flt (asSpeedMps s) (asSpeedMps m) then s else m"
  have v: "is_fin (asSpeedMps s)" "is_fin (asSpeedMps m)"
    using "2.prems" by (simp_all add: validSample_def isFinite_fin)
  have v3: "list_all validSample (?m # ss)" using "2.prems" by simp
  have "fval (asSpeedMps ?m) \<le> fval (asSpeedMps s)" "fval (asSpeedMps ?m) \<le> fval (asSpeedMps m)" using v by auto
  with "2.IH" [OF v3] show ?case by (auto simp: list_all_iff)
qed simp

lemma in_corner_loop_valid: "list_all validSample (in_corner_loop c len cl ss) \<and> length (in_corner_loop c len cl ss) \<le> length ss"
  if "is_fin len" "f64_ok len" "0 < fval len"
proof (induction ss)
  case (Cons s ss)
  have "validSample (s\<lparr>asDistanceFromStart := (if cl then corner_normalizeDistance (asDistanceFromStart s) len else asDistanceFromStart s)\<rparr>)"
    if "validSample s"
    using that corner_normalize_range [of "asDistanceFromStart s" len] \<open>is_fin len\<close> \<open>f64_ok len\<close> \<open>0 < fval len\<close>
    by (simp add: validSample_def isFinite_fin)
  with Cons show ?case by (simp add: Let_def)
qed simp

text \<open>An analysis is consistent: when it is not unavailable it counts at least one and at most all of the samples,
  its minimum speed is no greater than its entry and exit speeds, and it is complete exactly when every metric is
  available.\<close>

theorem analysis_consistent:
  assumes "AnalyzeCorner c ss len isClosed opts = Inr a" "anStatus a \<noteq> ''unavailable''" "is_fin len" "f64_ok len"
  shows "0 < anSampleCount a \<and> anSampleCount a \<le> int (length ss) \<and>
    fle (smValue (anMinimumSpeedKph a)) (smValue (anEntrySpeedKph a)) \<and>
    fle (smValue (anMinimumSpeedKph a)) (smValue (anExitSpeedKph a)) \<and>
    anStatus a = (if hasUnavailableMetric a then ''partial'' else ''complete'')"
proof -
  let ?in = "in_corner_loop c len isClosed ss"
  have ne: "?in \<noteq> []" and len: "\<not> fle len (Fin 0)" and pre: "coDefinitionMode c = CornerDefinitionCatalogManual"
      "validCornerRange c len" "ss \<noteq> []"
    using assms(1,2) by (auto simp: AnalyzeCorner_def unavailableAnalysis_def Let_def split: if_splits)
  have l: "0 < fval len" using len assms(3) by simp
  note v = in_corner_loop_valid [OF assms(3,4) l, of c isClosed ss]
  let ?m = "min_sample (hd ?in) (tl ?in)"
  have m: "?m \<in> set ?in" "list_all (\<lambda>s. fval (asSpeedMps ?m) \<le> fval (asSpeedMps s)) ?in"
    using min_sample_le [of "hd ?in" "tl ?in"] v ne by auto
  have fle: "fle (speedKph (asSpeedMps ?m)) (speedKph (asSpeedMps s))" if "s \<in> set ?in" for s
    using m that v by (intro speedKph_mono) (auto simp: list_all_iff validSample_def isFinite_fin)
  define X where "X = \<lparr>anStatus = ''complete'', anReason = [], anCornerID = coID c, anCornerName = coName c,
      anNumber = coNumber c, anSampleCount = int (length ?in),
      anEntrySpeedKph = availableScalar (speedKph (asSpeedMps (hd ?in))),
      anMinimumSpeedKph = availableScalar (speedKph (asSpeedMps ?m)),
      anExitSpeedKph = availableScalar (speedKph (asSpeedMps (last ?in))),
      anMaxBrakePercent = maxBrakeMetric ?in,
      anFirstThrottleReapplication = throttleReapplicationMetric ?in c (aoThrottleAppliedThreshold (normalizeAnalysisOptions opts)),
      anExitAccelerationDeltaKph = exitAccelerationMetric ?in ?m\<rparr>"
  have hu: "hasUnavailableMetric (X\<lparr>anStatus := st\<rparr>) = hasUnavailableMetric X" for st
    by (simp add: hasUnavailableMetric_def)
  have "a = (if hasUnavailableMetric X then X\<lparr>anStatus := ''partial''\<rparr> else X)"
    using assms(1) ne pre len unfolding AnalyzeCorner_def Let_def X_def by simp
  moreover have "0 < anSampleCount X" "anSampleCount X \<le> int (length ss)" "anStatus X = ''complete''"
    "fle (smValue (anMinimumSpeedKph X)) (smValue (anEntrySpeedKph X))" "fle (smValue (anMinimumSpeedKph X)) (smValue (anExitSpeedKph X))"
    using ne v fle [of "hd ?in"] fle [of "last ?in"] by (simp_all add: X_def availableScalar_def)
  ultimately show ?thesis by (simp add: hu)
qed

definition demo_sample :: "int \<Rightarrow> rat \<Rightarrow> rat \<Rightarrow> AnalysisSample" where
  "demo_sample ts d v = \<lparr>asTimestampUnixMs = ts, asDistanceFromStart = Fin d, asProgress = Fin 0, asSpeedMps = Fin v,
     asThrottle = Some (Fin 1), asBrake = None\<rparr>"

definition demo_analysis :: "corner_err + Analysis" where
  "demo_analysis = AnalyzeCorner (demo_corner ''c'' 100 150 200) [demo_sample 10 120 30, demo_sample 20 160 20] (Fin 1000) True DefaultAnalysisOptions"

theorem analysis_consistent_witness:
  "\<exists>a. demo_analysis = Inr a \<and> fle (smValue (anMinimumSpeedKph a)) (smValue (anEntrySpeedKph a))"
proof -
  have "(case demo_analysis of Inl _ \<Rightarrow> False | Inr a \<Rightarrow> anStatus a \<noteq> ''unavailable'')" by code_simp
  then obtain a where a: "demo_analysis = Inr a" "anStatus a \<noteq> ''unavailable''" by (auto split: sum.splits)
  with analysis_consistent [OF a(1) [unfolded demo_analysis_def] a(2)] f64_ok_Fin_int [of 1000] show ?thesis by auto
qed

end
