(* ===== verification/Events.thy ===== *)
theory Events
  imports Prelude Float64
begin

text \<open>
  \<^verbatim>\<open>internal/events/event.go\<close> and \<^verbatim>\<open>repository.go\<close>: the engineer event contract.  The string
  types of the code stay strings; a nil reference is \<open>None\<close> and validates.
\<close>

section \<open>Data\<close>

datatype ev_err =
    EvMissingEventID | EvMissingSessionID | EvMissingVersion | EvUnsupportedVersion | EvMissingType | EvUnsupportedType
  | EvMissingSeverity | EvUnsupportedSeverity | EvInvalidConfidence | EvInvalidTimestamp | EvInvalidTimeRange
  | EvInvalidLapNumber | EvMissingSource | EvUnsupportedSourceKind | EvMissingMetricName | EvInvalidMetricValue
  | EvUnsupportedMetricStatus | EvUnsupportedMetricRole | EvMissingMetrics | EvRawTelemetryMetric | EvInvalidCatalogRef

record TimeRange =
  tgStartUnixMs :: int
  tgEndUnixMs :: int

record CatalogRef =
  crID :: "string option"
  crName :: "string option"
  crDisplayStrategy :: string

record MetricEvidence =
  mvName :: string
  mvValue :: f64
  mvUnit :: string
  mvStatus :: string
  mvReason :: string
  mvRole :: string

record EventSource =
  esKind :: string
  esRuleID :: string
  esRuleVersion :: string

record EngineerEvent =
  eEventID :: string
  eSessionID :: string
  eVersion :: string
  eType :: string
  eSeverity :: string
  eConfidence :: f64
  eTimestampUnixMs :: int
  eTimeRange :: "TimeRange option"
  eLapNumber :: int
  eTrack :: "CatalogRef option"
  eLayout :: "CatalogRef option"
  eCorner :: "CatalogRef option"
  eMetrics :: "MetricEvidence list"
  eSource :: EventSource

definition ContractVersionV1 :: string where "ContractVersionV1 = ''telemetry-one.engineer-event.v1''"

section \<open>Validation\<close>

definition finite64 :: "f64 \<Rightarrow> bool" where
  "finite64 value = (\<not> isNaN value \<and> \<not> isInf0 value)"

definition supportedType :: "string \<Rightarrow> bool" where
  "supportedType t = (t \<in> set [''early_braking'', ''late_braking'', ''late_throttle'', ''low_exit_speed'',
     ''inconsistent_corner'', ''lap_time_regression'', ''off_track_stint''])"

definition supportedSeverity :: "string \<Rightarrow> bool" where
  "supportedSeverity s = (s \<in> set [''low'', ''medium'', ''high''])"

definition rawTelemetryMetric :: "string \<Rightarrow> bool" where
  "rawTelemetryMetric name = (name \<in> set [''positionX'', ''positionY'', ''positionZ'', ''yawRadians'', ''yawRate'', ''speedMps'',
     ''rpm'', ''gear'', ''throttle'', ''brake'', ''steering'', ''fuelLiters'', ''wheelSpeedFL'', ''wheelSpeedFR'',
     ''wheelSpeedRL'', ''wheelSpeedRR'', ''isOnTrack''])"

definition ref_Validate :: "CatalogRef option \<Rightarrow> ev_err option" where
  "ref_Validate r = (case r of None \<Rightarrow> None
     | Some r \<Rightarrow>
       if crDisplayStrategy r = ''catalog_name''
       then (if crID r = None \<or> crID r = Some [] \<or> crName r = None \<or> crName r = Some [] then Some EvInvalidCatalogRef else None)
       else if crDisplayStrategy r = ''id_only''
       then (if crID r = None \<or> crID r = Some [] \<or> crName r \<noteq> None then Some EvInvalidCatalogRef else None)
       else if crDisplayStrategy r = ''none''
       then (if crID r \<noteq> None \<or> crName r \<noteq> None then Some EvInvalidCatalogRef else None)
       else Some EvInvalidCatalogRef)"

definition metric_Validate :: "MetricEvidence \<Rightarrow> ev_err option" where
  "metric_Validate m =
    (if mvName m = [] then Some EvMissingMetricName
     else if rawTelemetryMetric (mvName m) then Some EvRawTelemetryMetric
     else if \<not> finite64 (mvValue m) then Some EvInvalidMetricValue
     else if mvStatus m \<noteq> ''available'' \<and> mvStatus m \<noteq> ''unavailable'' then Some EvUnsupportedMetricStatus
     else if mvRole m \<noteq> [] \<and> mvRole m \<noteq> ''actual'' \<and> mvRole m \<noteq> ''reference'' \<and> mvRole m \<noteq> ''delta'' \<and> mvRole m \<noteq> ''threshold''
     then Some EvUnsupportedMetricRole
     else None)"

definition source_Validate :: "EventSource \<Rightarrow> ev_err option" where
  "source_Validate s =
    (if esKind s = [] \<or> esRuleVersion s = [] then Some EvMissingSource
     else if esKind s \<noteq> ''deterministic_rule'' then Some EvUnsupportedSourceKind else None)"

fun metrics_loop :: "MetricEvidence list \<Rightarrow> ev_err option" where
  "metrics_loop [] = None"
| "metrics_loop (m # ms) = (case metric_Validate m of Some e \<Rightarrow> Some e | None \<Rightarrow> metrics_loop ms)"

definition range_invalid :: "TimeRange option \<Rightarrow> bool" where
  "range_invalid r = (case r of None \<Rightarrow> False
     | Some r \<Rightarrow> tgStartUnixMs r \<le> 0 \<or> tgEndUnixMs r \<le> 0 \<or> tgStartUnixMs r > tgEndUnixMs r)"

definition event_Validate :: "EngineerEvent \<Rightarrow> ev_err option" where
  "event_Validate e =
    (if eEventID e = [] then Some EvMissingEventID
     else if eSessionID e = [] then Some EvMissingSessionID
     else if eVersion e = [] then Some EvMissingVersion
     else if eVersion e \<noteq> ContractVersionV1 then Some EvUnsupportedVersion
     else if eType e = [] then Some EvMissingType
     else if \<not> supportedType (eType e) then Some EvUnsupportedType
     else if eSeverity e = [] then Some EvMissingSeverity
     else if \<not> supportedSeverity (eSeverity e) then Some EvUnsupportedSeverity
     else if \<not> finite64 (eConfidence e) \<or> flt (eConfidence e) (Fin 0) \<or> flt (Fin 1) (eConfidence e) then Some EvInvalidConfidence
     else if eTimestampUnixMs e \<le> 0 then Some EvInvalidTimestamp
     else if range_invalid (eTimeRange e) then Some EvInvalidTimeRange
     else if eLapNumber e < 0 then Some EvInvalidLapNumber
     else case ref_Validate (eTrack e) of Some x \<Rightarrow> Some x
     | None \<Rightarrow> (case ref_Validate (eLayout e) of Some x \<Rightarrow> Some x
       | None \<Rightarrow> (case ref_Validate (eCorner e) of Some x \<Rightarrow> Some x
         | None \<Rightarrow>
           if length (eMetrics e) = 0 then Some EvMissingMetrics
           else (case metrics_loop (eMetrics e) of Some x \<Rightarrow> Some x
             | None \<Rightarrow> source_Validate (eSource e)))))"

record Query =
  qSessionID :: string
  qLapNumber :: "int option"
  qCornerID :: string
  qType :: string

definition query_Validate :: "Query \<Rightarrow> ev_err option" where
  "query_Validate q =
    (if qSessionID q = [] then Some EvMissingSessionID
     else if (case qLapNumber q of None \<Rightarrow> False | Some n \<Rightarrow> n < 0) then Some EvInvalidLapNumber
     else if qType q \<noteq> [] \<and> \<not> supportedType (qType q) then Some EvUnsupportedType
     else None)"

section \<open>Lemmas\<close>

lemma metrics_loop_iff: "metrics_loop ms = None \<longleftrightarrow> list_all (\<lambda>m. metric_Validate m = None) ms"
  by (induction ms) (auto split: option.splits)

lemma event_Validate_iff:
  "event_Validate e = None \<longleftrightarrow> eEventID e \<noteq> [] \<and> eSessionID e \<noteq> [] \<and> eVersion e = ContractVersionV1 \<and> supportedType (eType e) \<and>
     supportedSeverity (eSeverity e) \<and> is_fin (eConfidence e) \<and> 0 \<le> fval (eConfidence e) \<and> fval (eConfidence e) \<le> 1 \<and>
     0 < eTimestampUnixMs e \<and> \<not> range_invalid (eTimeRange e) \<and> 0 \<le> eLapNumber e \<and> ref_Validate (eTrack e) = None \<and>
     ref_Validate (eLayout e) = None \<and> ref_Validate (eCorner e) = None \<and> eMetrics e \<noteq> [] \<and>
     list_all (\<lambda>m. metric_Validate m = None) (eMetrics e) \<and> source_Validate (eSource e) = None"
proof -
  have c: "\<not> (\<not> finite64 x \<or> flt x (Fin 0) \<or> flt (Fin 1) x) \<longleftrightarrow> is_fin x \<and> 0 \<le> fval x \<and> fval x \<le> 1" for x
    by (auto simp: finite64_def is_fin_iff [symmetric])
  have t: "\<not> supportedType []" "\<not> supportedSeverity []" "ContractVersionV1 \<noteq> []"
    by (simp_all add: supportedType_def supportedSeverity_def ContractVersionV1_def)
  show ?thesis
    unfolding event_Validate_def metrics_loop_iff [symmetric] using c [of "eConfidence e"] t
    by (auto split: option.splits)
qed

end
