(* ===== verification/Dedup.thy ===== *)
theory Dedup
  imports Events
begin

text \<open>
  \<^verbatim>\<open>internal/events/dedup.go\<close>: events with the same key are suppressed inside a cooldown window
  around the last accepted one.
\<close>

section \<open>Data\<close>

definition DefaultEventCooldownWindowMs :: int where "DefaultEventCooldownWindowMs = 30000"

record DedupDecision =
  ddEvent :: EngineerEvent
  ddKey :: string
  ddDecision :: string
  ddReason :: string
  ddPreviousEventID :: string
  ddPreviousTimestampUnixMs :: int

record EventDeduplicator =
  edCooldownWindowMs :: int
  edSeen :: "(string \<times> EngineerEvent) list"

definition normalizeDedupOptions :: "int \<Rightarrow> int" where
  "normalizeDedupOptions w = (if w \<le> 0 then DefaultEventCooldownWindowMs else w)"

definition NewEventDeduplicator :: "int \<Rightarrow> EventDeduplicator" where
  "NewEventDeduplicator w = \<lparr>edCooldownWindowMs = normalizeDedupOptions w, edSeen = []\<rparr>"

section \<open>Operations\<close>

definition catalogRefID :: "CatalogRef option \<Rightarrow> string" where
  "catalogRefID ref = (case ref of None \<Rightarrow> ''<none>''
     | Some r \<Rightarrow> (case crID r of None \<Rightarrow> ''<none>''
       | Some i \<Rightarrow> let i = trim_space i in if i = [] then ''<none>'' else i))"

definition DedupKey :: "EngineerEvent \<Rightarrow> string" where
  "DedupKey e =
    (let parts = [trim_space (eSessionID e), eType e, ''lap:'' @ itoa (eLapNumber e), ''track:'' @ catalogRefID (eTrack e),
         ''layout:'' @ catalogRefID (eLayout e), ''corner:'' @ catalogRefID (eCorner e),
         ''source_kind:'' @ esKind (eSource e), ''rule_id:'' @ esRuleID (eSource e), ''rule_version:'' @ esRuleVersion (eSource e)];
       parts = (case eTimeRange e of None \<Rightarrow> parts
         | Some r \<Rightarrow> parts @ [''time_range:'' @ itoa (tgStartUnixMs r) @ ''-'' @ itoa (tgEndUnixMs r)])
     in string_join ''|'' parts)"

definition decide :: "EventDeduplicator \<Rightarrow> EngineerEvent \<Rightarrow> DedupDecision" where
  "decide d e =
    (let key = DedupKey e;
         decision = \<lparr>ddEvent = e, ddKey = key, ddDecision = ''accepted'', ddReason = ''first_seen'',
           ddPreviousEventID = [], ddPreviousTimestampUnixMs = 0\<rparr>
     in case map_of (edSeen d) key of
       Some previous \<Rightarrow>
         let decision = decision\<lparr>ddPreviousEventID := eEventID previous, ddPreviousTimestampUnixMs := eTimestampUnixMs previous\<rparr>;
             delta = sub64 (eTimestampUnixMs e) (eTimestampUnixMs previous)
         in if delta \<ge> 0 \<and> delta < edCooldownWindowMs d
            then decision\<lparr>ddDecision := ''suppressed'', ddReason := ''duplicate_inside_cooldown''\<rparr>
            else if delta < 0 \<and> sub64 0 delta < edCooldownWindowMs d
            then decision\<lparr>ddDecision := ''suppressed'', ddReason := ''out_of_order_inside_cooldown''\<rparr>
            else decision\<lparr>ddReason := ''cooldown_expired''\<rparr>
     | None \<Rightarrow> if length (edSeen d) > 0 then decision\<lparr>ddReason := ''different_context''\<rparr> else decision)"

fun filter_loop :: "EventDeduplicator \<Rightarrow> EngineerEvent list \<Rightarrow> DedupDecision list \<Rightarrow> EngineerEvent list \<Rightarrow>
    EngineerEvent list \<times> DedupDecision list \<times> EventDeduplicator" where
  "filter_loop d accepted decisions [] = (accepted, decisions, d)"
| "filter_loop d accepted decisions (e # es) =
    (let decision = decide d e in
     if ddDecision decision = ''suppressed'' then filter_loop d accepted (decisions @ [decision]) es
     else filter_loop (d\<lparr>edSeen := AList.update (ddKey decision) e (edSeen d)\<rparr>) (accepted @ [e]) (decisions @ [decision]) es)"

definition dedup_Filter :: "EventDeduplicator \<Rightarrow> EngineerEvent list \<Rightarrow> EngineerEvent list \<times> DedupDecision list \<times> EventDeduplicator" where
  "dedup_Filter d events =
    filter_loop (d\<lparr>edCooldownWindowMs := normalizeDedupOptions (edCooldownWindowMs d)\<rparr>) [] [] events"

section \<open>Behaviour\<close>

text \<open>An event is suppressed when the last accepted event with its key lies within the window.\<close>

definition suppressed :: "int \<Rightarrow> EngineerEvent option \<Rightarrow> EngineerEvent \<Rightarrow> bool" where
  "suppressed w prev e \<longleftrightarrow> (\<exists>p. prev = Some p \<and> \<bar>eTimestampUnixMs e - eTimestampUnixMs p\<bar> < w)"

definition time_ok :: "EngineerEvent \<Rightarrow> bool" where
  "time_ok e \<longleftrightarrow> 0 \<le> eTimestampUnixMs e \<and> in64 (eTimestampUnixMs e)"

definition seen_ok :: "EventDeduplicator \<Rightarrow> bool" where
  "seen_ok d \<longleftrightarrow> 0 < edCooldownWindowMs d \<and> (\<forall>k p. map_of (edSeen d) k = Some p \<longrightarrow> DedupKey p = k \<and> time_ok p)"

lemma decide_key [simp]: "ddKey (decide d e) = DedupKey e"
  by (simp add: decide_def Let_def split: option.splits)

lemma decide_event [simp]: "ddEvent (decide d e) = e"
  by (simp add: decide_def Let_def split: option.splits)

lemma decide_suppressed:
  assumes "seen_ok d" "time_ok e"
  shows "ddDecision (decide d e) = ''suppressed'' \<longleftrightarrow> suppressed (edCooldownWindowMs d) (map_of (edSeen d) (DedupKey e)) e"
proof (cases "map_of (edSeen d) (DedupKey e)")
  case None then show ?thesis by (simp add: decide_def suppressed_def Let_def)
next
  case (Some p)
  then have p: "time_ok p" using assms(1) by (auto simp: seen_ok_def)
  let ?d = "eTimestampUnixMs e - eTimestampUnixMs p"
  have s: "sub64 (eTimestampUnixMs e) (eTimestampUnixMs p) = ?d"
    using p assms(2) by (simp add: time_ok_def sub64_pos)
  have n: "sub64 0 ?d = - ?d" using p assms(2) by (subst sub64_id) (auto simp: time_ok_def in64_def)
  show ?thesis using Some s n by (auto simp: decide_def suppressed_def Let_def)
qed

fun accepted_of :: "int \<Rightarrow> (string \<Rightarrow> EngineerEvent option) \<Rightarrow> EngineerEvent list \<Rightarrow> EngineerEvent list" where
  "accepted_of w seen [] = []"
| "accepted_of w seen (e # es) =
    (if suppressed w (seen (DedupKey e)) e then accepted_of w seen es
     else e # accepted_of w (seen(DedupKey e \<mapsto> e)) es)"

lemma filter_loop_spec:
  "seen_ok d \<Longrightarrow> list_all time_ok es \<Longrightarrow>
     fst (filter_loop d acc ds es) = acc @ accepted_of (edCooldownWindowMs d) (map_of (edSeen d)) es \<and>
     seen_ok (snd (snd (filter_loop d acc ds es))) \<and>
     edCooldownWindowMs (snd (snd (filter_loop d acc ds es))) = edCooldownWindowMs d"
proof (induction es arbitrary: d acc ds)
  case (Cons e es)
  let ?d = "d\<lparr>edSeen := AList.update (DedupKey e) e (edSeen d)\<rparr>"
  have "seen_ok ?d" using Cons.prems by (auto simp: seen_ok_def update_conv)
  moreover have "map_of (edSeen ?d) = (map_of (edSeen d))(DedupKey e \<mapsto> e)" by (simp add: update_conv')
  ultimately show ?case
    using Cons.IH [of ?d "acc @ [e]"] Cons.IH [of d acc] Cons.prems decide_suppressed [of d e] by (simp add: Let_def fun_upd_def)
qed simp

lemma filter_loop_append:
  "filter_loop d acc ds (xs @ ys) = (case filter_loop d acc ds xs of (a, c, d') \<Rightarrow> filter_loop d' a c ys)"
  by (induction xs arbitrary: d acc ds) (auto simp: Let_def)

section \<open>Properties\<close>

text \<open>The events accepted before, newest last.\<close>

definition last_with_key :: "string \<Rightarrow> EngineerEvent list \<Rightarrow> EngineerEvent option" where
  "last_with_key k es = (let xs = filter (\<lambda>e. DedupKey e = k) es in if xs = [] then None else Some (last xs))"

lemma last_with_key_snoc: "last_with_key k (es @ [e]) = (if DedupKey e = k then Some e else last_with_key k es)"
  by (simp add: last_with_key_def Let_def)

lemma sorted_map_last: "sorted (map f xs) \<Longrightarrow> a \<in> set xs \<Longrightarrow> f a \<le> f (last xs)"
  by (induction xs rule: rev_induct) (auto simp: sorted_append)

lemma accepted_of_separated:
  assumes "sorted (map eTimestampUnixMs (acc @ es))" "\<And>k. seen k = last_with_key k acc"
    and "sorted_wrt (\<lambda>a b. DedupKey a = DedupKey b \<longrightarrow> w \<le> eTimestampUnixMs b - eTimestampUnixMs a) acc"
  shows "sorted_wrt (\<lambda>a b. DedupKey a = DedupKey b \<longrightarrow> w \<le> eTimestampUnixMs b - eTimestampUnixMs a) (acc @ accepted_of w seen es)"
  using assms
proof (induction es arbitrary: acc seen)
  case (Cons e es)
  show ?case
  proof (cases "suppressed w (seen (DedupKey e)) e")
    case True
    then show ?thesis using Cons.IH [of acc seen] Cons.prems by (auto simp: sorted_append)
  next
    case False
    have later: "w \<le> eTimestampUnixMs e - eTimestampUnixMs a" if a: "a \<in> set acc" "DedupKey a = DedupKey e" for a
    proof -
      let ?xs = "filter (\<lambda>y. DedupKey y = DedupKey e) acc"
      let ?p = "last ?xs"
      have mem: "a \<in> set ?xs" using a by simp
      then have ne: "?xs \<noteq> []" by (metis empty_iff list.set(1))
      then have p: "seen (DedupKey e) = Some ?p" by (simp only: Cons.prems(2) last_with_key_def Let_def if_False)
      have "sorted (map eTimestampUnixMs ?xs)" using Cons.prems(1) by (simp add: sorted_append sorted_filter)
      note srt = this
      have "eTimestampUnixMs a \<le> eTimestampUnixMs ?p" by (rule sorted_map_last [OF srt mem])
      moreover have "?p \<in> set ?xs" by (rule last_in_set [OF ne])
      then have "?p \<in> set acc" by simp
      then have "eTimestampUnixMs ?p \<le> eTimestampUnixMs e" using Cons.prems(1) by (auto simp: sorted_append)
      ultimately show ?thesis using False p by (auto simp: suppressed_def)
    qed
    have "sorted_wrt (\<lambda>a b. DedupKey a = DedupKey b \<longrightarrow> w \<le> eTimestampUnixMs b - eTimestampUnixMs a)
        ((acc @ [e]) @ accepted_of w (seen(DedupKey e \<mapsto> e)) es)"
      using Cons.prems later by (intro Cons.IH) (auto simp: last_with_key_snoc sorted_wrt_append)
    then show ?thesis using False by simp
  qed
qed simp

fun run_filter :: "EventDeduplicator \<Rightarrow> EngineerEvent list list \<Rightarrow> EngineerEvent list" where
  "run_filter d [] = []"
| "run_filter d (b # bs) = (let (a, ds, d') = dedup_Filter d b in a @ run_filter d' bs)"

lemma normalize_seen_ok: "seen_ok d \<Longrightarrow> d\<lparr>edCooldownWindowMs := normalizeDedupOptions (edCooldownWindowMs d)\<rparr> = d"
  by (simp add: seen_ok_def normalizeDedupOptions_def)

lemma run_filter_eq:
  "seen_ok d \<Longrightarrow> list_all time_ok (concat bs) \<Longrightarrow> run_filter d bs = accepted_of (edCooldownWindowMs d) (map_of (edSeen d)) (concat bs)"
proof (induction bs arbitrary: d)
  case (Cons b bs)
  obtain a ds d' where f: "filter_loop d [] [] b = (a, ds, d')" by (metis prod_cases3)
  note s1 = filter_loop_spec [OF Cons.prems(1), of b "[]" "[]"]
  have b: "seen_ok d'" "edCooldownWindowMs d' = edCooldownWindowMs d" using s1 Cons.prems(2) f by auto
  have "fst (filter_loop d [] [] (b @ concat bs)) = accepted_of (edCooldownWindowMs d) (map_of (edSeen d)) (b @ concat bs)"
    using filter_loop_spec [OF Cons.prems(1), of "b @ concat bs" "[]" "[]"] Cons.prems(2) by simp
  moreover have "fst (filter_loop d [] [] (b @ concat bs)) = a @ accepted_of (edCooldownWindowMs d') (map_of (edSeen d')) (concat bs)"
    using filter_loop_spec [OF b(1), of "concat bs" a ds] Cons.prems(2) by (simp add: filter_loop_append f)
  ultimately show ?case
    using Cons.IH [OF b(1)] Cons.prems(2) b f by (simp add: dedup_Filter_def normalize_seen_ok [OF Cons.prems(1)])
qed simp

lemma seen_ok_new: "seen_ok (NewEventDeduplicator w)"
  by (simp add: seen_ok_def NewEventDeduplicator_def normalizeDedupOptions_def DefaultEventCooldownWindowMs_def)

lemma filtered_separated:
  assumes "list_all time_ok (concat batches)" "sorted (map eTimestampUnixMs (concat batches))"
  shows "sorted_wrt (\<lambda>a b. DedupKey a = DedupKey b \<longrightarrow> normalizeDedupOptions w \<le> eTimestampUnixMs b - eTimestampUnixMs a)
    (run_filter (NewEventDeduplicator w) batches)"
proof -
  have "run_filter (NewEventDeduplicator w) batches = [] @ accepted_of (normalizeDedupOptions w) Map.empty (concat batches)"
    using run_filter_eq [OF seen_ok_new assms(1)] by (simp add: NewEventDeduplicator_def)
  also have "sorted_wrt (\<lambda>a b. DedupKey a = DedupKey b \<longrightarrow> normalizeDedupOptions w \<le> eTimestampUnixMs b - eTimestampUnixMs a) \<dots>"
    using assms(2) by (intro accepted_of_separated) (auto simp: last_with_key_def)
  finally show ?thesis .
qed

text \<open>In any order: an accepted event is not suppressed by the accepted one with its key before it.\<close>

lemma last_with_key_Cons:
  "last_with_key k (e # es) = (case last_with_key k es of None \<Rightarrow> if DedupKey e = k then Some e else None | Some p \<Rightarrow> Some p)"
  by (simp add: last_with_key_def Let_def)

lemma accepted_of_apart:
  "accepted_of w seen es = xs @ b # zs \<Longrightarrow>
     \<not> suppressed w (case last_with_key (DedupKey b) xs of None \<Rightarrow> seen (DedupKey b) | Some p \<Rightarrow> Some p) b"
proof (induction es arbitrary: seen xs)
  case (Cons e es)
  show ?case
  proof (cases "suppressed w (seen (DedupKey e)) e")
    case False
    show ?thesis
    proof (cases xs)
      case Nil
      then show ?thesis using Cons.prems False by (simp add: last_with_key_def)
    next
      case (Cons x xs')
      note xs = this
      then have x: "x = e" "accepted_of w (seen(DedupKey e \<mapsto> e)) es = xs' @ b # zs" using Cons.prems False unfolding xs by auto
      from Cons.IH [OF x(2)] show ?thesis unfolding xs x(1)
        by (cases "last_with_key (DedupKey b) xs'"; cases "DedupKey e = DedupKey b") (simp_all add: last_with_key_Cons)
    qed
  qed (use Cons in simp)
qed simp

lemma last_with_key_middle: "DedupKey a = k \<Longrightarrow> k \<notin> DedupKey ` set ys \<Longrightarrow> last_with_key k (xs @ a # ys) = Some a"
proof (induction xs)
  case Nil
  have "\<forall>y \<in> set ys. DedupKey y \<noteq> k" using Nil.prems(2) by (metis image_eqI)
  then have "last_with_key k ys = None" by (simp add: last_with_key_def filter_empty_conv)
  then show ?case using Nil.prems by (simp add: last_with_key_Cons)
next
  case (Cons x xs)
  then show ?case by (simp add: last_with_key_Cons)
qed

lemma filtered_apart:
  assumes "list_all time_ok (concat batches)" "run_filter (NewEventDeduplicator w) batches = xs @ a # ys @ b # zs"
    "DedupKey a = DedupKey b" "DedupKey b \<notin> DedupKey ` set ys"
  shows "normalizeDedupOptions w \<le> \<bar>eTimestampUnixMs b - eTimestampUnixMs a\<bar>"
proof -
  have "accepted_of (normalizeDedupOptions w) Map.empty (concat batches) = (xs @ a # ys) @ b # zs"
    using run_filter_eq [OF seen_ok_new assms(1)] assms(2) by (simp add: NewEventDeduplicator_def)
  from accepted_of_apart [OF this] show ?thesis
    unfolding last_with_key_middle [OF assms(3,4)] by (simp add: suppressed_def)
qed

text \<open>C13: The cooldown holds over any split of valid events into calls.  In whatever order the events come, two
  accepted events with the same key and none of that key between them differ by at least the window, in
  one direction or the other.  When the events come in the order of their times, any two accepted events
  with the same key are at least the window apart.  (Without that order the second part fails:
  a late event becomes the reference of its key, see \<open>cooldown_gap_out_of_order\<close>.)\<close>

theorem cooldown_separates:
  assumes "list_all time_ok (concat batches)"
  shows "(\<forall>xs a ys b zs. run_filter (NewEventDeduplicator w) batches = xs @ a # ys @ b # zs \<and> DedupKey a = DedupKey b \<and>
      DedupKey b \<notin> DedupKey ` set ys \<longrightarrow> normalizeDedupOptions w \<le> \<bar>eTimestampUnixMs b - eTimestampUnixMs a\<bar>) \<and>
    (sorted (map eTimestampUnixMs (concat batches)) \<longrightarrow>
      sorted_wrt (\<lambda>a b. DedupKey a = DedupKey b \<longrightarrow> normalizeDedupOptions w \<le> eTimestampUnixMs b - eTimestampUnixMs a)
        (run_filter (NewEventDeduplicator w) batches))"
  using filtered_apart [OF assms] filtered_separated [OF assms] by blast

definition demo_event :: "string \<Rightarrow> int \<Rightarrow> EngineerEvent" where
  "demo_event i ts = \<lparr>eEventID = i, eSessionID = ''s'', eVersion = ContractVersionV1, eType = ''off_track_stint'', eSeverity = ''low'',
     eConfidence = Fin (3 / 4), eTimestampUnixMs = ts, eTimeRange = None, eLapNumber = 1, eTrack = None, eLayout = None, eCorner = None,
     eMetrics = [\<lparr>mvName = ''m'', mvValue = Fin 1, mvUnit = [], mvStatus = ''available'', mvReason = [], mvRole = []\<rparr>],
     eSource = \<lparr>esKind = ''deterministic_rule'', esRuleID = ''r'', esRuleVersion = ''v1''\<rparr>\<rparr>"

definition demo_key :: string where "demo_key = DedupKey (demo_event [] 0)"

lemma demo_event_simps [simp]:
  "eTimestampUnixMs (demo_event i ts) = ts" "DedupKey (demo_event i ts) = demo_key"
  by (simp_all add: demo_event_def DedupKey_def demo_key_def)

lemma demo_event_time: "time_ok (demo_event i ts) \<longleftrightarrow> 0 \<le> ts \<and> in64 ts"
  by (simp add: time_ok_def)

theorem cooldown_separates_witness:
  "sorted_wrt (\<lambda>a b. DedupKey a \<noteq> DedupKey b \<or> 30000 \<le> eTimestampUnixMs b - eTimestampUnixMs a)
     (run_filter (NewEventDeduplicator 0) [[demo_event ''a'' 1000, demo_event ''b'' 2000], [demo_event ''c'' 31000]])"
proof -
  have w: "normalizeDedupOptions 0 = 30000" by (simp add: normalizeDedupOptions_def DefaultEventCooldownWindowMs_def)
  have "list_all time_ok (concat [[demo_event ''a'' 1000, demo_event ''b'' 2000], [demo_event ''c'' 31000]])"
    by (simp add: demo_event_time in64_def)
  from conjunct2 [OF cooldown_separates [OF this, of 0]] show ?thesis by (simp only: w imp_conv_disj) simp
qed

text \<open>Only duplicates are suppressed: an event is dropped exactly when an accepted event with the same key, the last
  one, lies within the window of it, before or after.\<close>

theorem suppression_exact:
  assumes "seen_ok d" "time_ok e"
  shows "fst (dedup_Filter d [e]) =
    (if \<exists>p. map_of (edSeen d) (DedupKey e) = Some p \<and> \<bar>eTimestampUnixMs e - eTimestampUnixMs p\<bar> < edCooldownWindowMs d then [] else [e])"
  using decide_suppressed [OF assms] by (simp add: dedup_Filter_def normalize_seen_ok [OF assms(1)] Let_def suppressed_def)

theorem suppression_exact_witness:
  "fst (dedup_Filter (NewEventDeduplicator 0) [demo_event ''a'' 1000]) = [demo_event ''a'' 1000]"
proof -
  have "time_ok (demo_event ''a'' 1000)" by (simp add: demo_event_def time_ok_def in64_def)
  from suppression_exact [OF seen_ok_new this, of 0] show ?thesis by (simp add: NewEventDeduplicator_def)
qed

text \<open>Out of order the cooldown has a gap: a late event outside the window replaces the reference, after which a
  duplicate of the first event one millisecond apart is accepted.\<close>

theorem cooldown_gap_out_of_order:
  "map eTimestampUnixMs (run_filter (NewEventDeduplicator 30000) [[demo_event ''a'' 100000], [demo_event ''b'' 10000], [demo_event ''c'' 100001]])
     = [100000, 10000, 100001]"
proof -
  let ?bs = "[[demo_event ''a'' 100000], [demo_event ''b'' 10000], [demo_event ''c'' 100001]]"
  have w: "edCooldownWindowMs (NewEventDeduplicator 30000) = 30000" "edSeen (NewEventDeduplicator 30000) = []"
    by (simp_all add: NewEventDeduplicator_def normalizeDedupOptions_def)
  have "list_all time_ok (concat ?bs)" by (simp add: demo_event_time in64_def)
  from run_filter_eq [OF seen_ok_new this] show ?thesis by (simp add: w suppressed_def)
qed

end
