(* ===== verification/EventStore.thy ===== *)
theory EventStore
  imports Dedup
begin

text \<open>
  \<^verbatim>\<open>internal/events/store.go\<close>: the in-memory event log.  An event is validated, deduplicated and
  appended; the log keeps the last \<open>limit\<close> accepted events of all sessions together.  Both methods
  hold the store's mutex, so each is one step.
\<close>

section \<open>The store\<close>

definition DefaultStoredEventsLimit :: int where "DefaultStoredEventsLimit = 1000"

datatype event_store_err = StoreCtx ctx_err | StoreEvent ev_err

record EventStore =
  vEvents :: "EngineerEvent list"
  vDeduplicator :: EventDeduplicator
  vLimit :: int

definition NewEventStore :: "int \<Rightarrow> int \<Rightarrow> EventStore" where
  "NewEventStore limit window =
    \<lparr>vEvents = [], vDeduplicator = NewEventDeduplicator window,
     vLimit = (if limit \<le> 0 then DefaultStoredEventsLimit else limit)\<rparr>"

definition event_append :: "EventStore \<Rightarrow> ctx \<Rightarrow> EngineerEvent \<Rightarrow> (event_store_err + EngineerEvent \<times> bool) \<times> EventStore" where
  "event_append s ctx event =
    (case ctx of Some e \<Rightarrow> (Inl (StoreCtx e), s)
     | None \<Rightarrow> (case event_Validate event of Some e \<Rightarrow> (Inl (StoreEvent e), s)
       | None \<Rightarrow>
         let (accepted, decisions, d) = dedup_Filter (vDeduplicator s) [event];
             s = s\<lparr>vDeduplicator := d\<rparr>
         in if length accepted = 0 then (Inr (event, False), s)
            else
              let events = vEvents s @ [event];
                  events = (if int (length events) > vLimit s
                    then drop (nat (int (length events) - vLimit s)) events else events)
              in (Inr (event, True), s\<lparr>vEvents := events\<rparr>)))"

definition query_matches :: "Query \<Rightarrow> EngineerEvent \<Rightarrow> bool" where
  "query_matches q event =
    (if eSessionID event \<noteq> qSessionID q then False
     else if (case qLapNumber q of None \<Rightarrow> False | Some n \<Rightarrow> eLapNumber event \<noteq> n) then False
     else if qCornerID q \<noteq> [] \<and> catalogRefID (eCorner event) \<noteq> qCornerID q then False
     else if qType q \<noteq> [] \<and> eType event \<noteq> qType q then False
     else True)"

definition event_list :: "EventStore \<Rightarrow> ctx \<Rightarrow> Query \<Rightarrow> event_store_err + EngineerEvent list" where
  "event_list s ctx q =
    (case ctx of Some e \<Rightarrow> Inl (StoreCtx e)
     | None \<Rightarrow> (case query_Validate q of Some e \<Rightarrow> Inl (StoreEvent e)
       | None \<Rightarrow> Inr (filter (query_matches q) (vEvents s))))"

section \<open>The contract of an event log\<close>

text \<open>
  The interface \<^verbatim>\<open>Repository\<close> of the package as its clients use it: what is listed is read off
  the log, an accepted event extends the log, a suppressed or rejected one leaves it.
\<close>

locale event_log =
  fixes append :: "'s \<Rightarrow> ctx \<Rightarrow> EngineerEvent \<Rightarrow> (event_store_err + EngineerEvent \<times> bool) \<times> 's"
    and list :: "'s \<Rightarrow> ctx \<Rightarrow> Query \<Rightarrow> event_store_err + EngineerEvent list"
    and log :: "'s \<Rightarrow> EngineerEvent list"
    and bound :: "'s \<Rightarrow> nat"
    and invar :: "'s \<Rightarrow> bool"
  assumes append_invar: "invar s \<Longrightarrow> invar (snd (append s ctx e))"
    and append_bound: "invar s \<Longrightarrow> bound (snd (append s ctx e)) = bound s"
    and append_stored: "invar s \<Longrightarrow> fst (append s ctx e) = Inr (x, True) \<Longrightarrow>
        x = e \<and> event_Validate e = None \<and> log (snd (append s ctx e)) = lastn (bound s) (log s @ [e])"
    and append_not: "invar s \<Longrightarrow> fst (append s ctx e) \<noteq> Inr (e, True) \<Longrightarrow> log (snd (append s ctx e)) = log s"
    and list_log: "query_Validate q = None \<Longrightarrow> list s None q = Inr (filter (query_matches q) (log s))"
begin

fun run :: "'s \<Rightarrow> (ctx \<times> EngineerEvent) list \<Rightarrow> 's" where
  "run s [] = s"
| "run s ((ctx, e) # ops) = run (snd (append s ctx e)) ops"

fun stored :: "'s \<Rightarrow> (ctx \<times> EngineerEvent) list \<Rightarrow> EngineerEvent list" where
  "stored s [] = []"
| "stored s ((ctx, e) # ops) =
    (if fst (append s ctx e) = Inr (e, True) then [e] else []) @ stored (snd (append s ctx e)) ops"

lemma log_run: "invar s \<Longrightarrow> log s = lastn (bound s) old \<Longrightarrow> log (run s ops) = lastn (bound s) (old @ stored s ops)"
proof (induction s ops arbitrary: old rule: run.induct)
  case (2 s ctx e ops)
  let ?s = "snd (append s ctx e)"
  have i: "invar ?s" "bound ?s = bound s" using "2.prems" by (simp_all add: append_invar append_bound)
  show ?case
  proof (cases "fst (append s ctx e) = Inr (e, True)")
    case True
    then have "log ?s = lastn (bound s) (old @ [e])"
      using append_stored "2.prems" by (simp add: lastn_lastn_append)
    then show ?thesis using "2.IH" [of "old @ [e]"] i True by simp
  next
    case False
    then have "log ?s = lastn (bound s) old" using append_not "2.prems" by simp
    then show ?thesis using "2.IH" [of old] i False by simp
  qed
qed simp

lemma stored_valid: "invar s \<Longrightarrow> e \<in> set (stored s ops) \<Longrightarrow> event_Validate e = None"
  by (induction s ops rule: stored.induct) (auto simp: append_invar split: if_splits dest: append_stored)

lemma list_run:
  "invar s \<Longrightarrow> log s = [] \<Longrightarrow> query_Validate q = None \<Longrightarrow>
     list (run s ops) None q = Inr (filter (query_matches q) (lastn (bound s) (stored s ops)))"
  using log_run [of s "[]" ops] by (simp add: list_log)

end

section \<open>The code's store satisfies it\<close>

definition event_store_ok :: "EventStore \<Rightarrow> bool" where
  "event_store_ok s \<longleftrightarrow> 1 \<le> vLimit s"

lemma event_append_simp:
  "event_store_ok s \<Longrightarrow> event_append s ctx e =
    (case ctx of Some x \<Rightarrow> (Inl (StoreCtx x), s)
     | None \<Rightarrow> (case event_Validate e of Some x \<Rightarrow> (Inl (StoreEvent x), s)
       | None \<Rightarrow>
         let r = dedup_Filter (vDeduplicator s) [e]; s = s\<lparr>vDeduplicator := snd (snd r)\<rparr>
         in if fst r = [] then (Inr (e, False), s)
            else (Inr (e, True), s\<lparr>vEvents := lastn (nat (vLimit s)) (vEvents s @ [e])\<rparr>)))"
  using drop_lastn [of "vLimit s" "vEvents s @ [e]"]
  by (auto simp: event_append_def event_store_ok_def Let_def case_prod_beta split: option.splits)

interpretation events: event_log event_append event_list vEvents "\<lambda>s. nat (vLimit s)" event_store_ok
proof unfold_locales
  fix s ctx e x
  assume ok: "event_store_ok s"
  show "event_store_ok (snd (event_append s ctx e))"
    using ok by (simp add: event_append_simp Let_def split: option.splits) (simp add: event_store_ok_def)
  show "nat (vLimit (snd (event_append s ctx e))) = nat (vLimit s)"
    using ok by (simp add: event_append_simp Let_def split: option.splits)
  show "x = e \<and> event_Validate e = None \<and> vEvents (snd (event_append s ctx e)) = lastn (nat (vLimit s)) (vEvents s @ [e])"
    if "fst (event_append s ctx e) = Inr (x, True)"
    using that ok by (simp add: event_append_simp Let_def split: option.splits if_splits)
  show "vEvents (snd (event_append s ctx e)) = vEvents s" if "fst (event_append s ctx e) \<noteq> Inr (e, True)"
    using that ok by (simp add: event_append_simp Let_def split: option.splits if_splits)
qed (simp add: event_list_def)

lemma NewEventStore_ok [simp]: "event_store_ok (NewEventStore limit w)"
  by (simp add: event_store_ok_def NewEventStore_def DefaultStoredEventsLimit_def)

text \<open>The events that reach the deduplicator.\<close>

definition submitted :: "(ctx \<times> EngineerEvent) list \<Rightarrow> EngineerEvent list" where
  "submitted ops = map snd (filter (\<lambda>p. fst p = None \<and> event_Validate (snd p) = None) ops)"

lemma dedup_Filter_single:
  "dedup_Filter d [e] = (a, ds, d') \<Longrightarrow> a = [] \<or> a = [e]"
  by (auto simp: dedup_Filter_def Let_def split: if_splits)

lemma stored_run_filter:
  "event_store_ok s \<Longrightarrow> events.stored s ops = run_filter (vDeduplicator s) (map (\<lambda>e. [e]) (submitted ops))"
proof (induction s ops rule: events.stored.induct)
  case (1 s) then show ?case by (simp add: submitted_def)
next
  case (2 s ctx e ops)
  let ?s = "snd (event_append s ctx e)"
  have ok: "event_store_ok ?s" using "2.prems" by (rule events.append_invar)
  show ?case
  proof (cases "ctx = None \<and> event_Validate e = None")
    case True
    obtain a ds d' where f: "dedup_Filter (vDeduplicator s) [e] = (a, ds, d')" by (metis prod_cases3)
    have d: "vDeduplicator ?s = d'" using True "2.prems" f by (simp add: event_append_simp Let_def)
    have "(if fst (event_append s ctx e) = Inr (e, True) then [e] else []) = a"
      using True "2.prems" f dedup_Filter_single [OF f] by (auto simp: event_append_simp Let_def)
    then show ?thesis using "2.IH" [OF ok] True f d by (simp add: submitted_def)
  next
    case False
    then have "?s = s" "fst (event_append s ctx e) \<noteq> Inr (e, True)"
      using "2.prems" by (auto simp: event_append_simp split: option.splits)
    then show ?thesis using "2.IH" [OF ok] False by (auto simp: submitted_def)
  qed
qed

section \<open>Properties\<close>

text \<open>C14: The event store refines the deduplicated history: after any sequence of appends, failing and cancelled ones
  included, a query lists, in order, the matching events among the last \<open>limit\<close> accepted ones, where the accepted ones are
  what the deduplicator alone keeps of the valid events.\<close>

theorem event_store_refines_log:
  assumes "query_Validate q = None"
  shows "event_list (events.run (NewEventStore limit w) ops) None q =
    Inr (filter (query_matches q) (lastn (nat (if limit \<le> 0 then 1000 else limit))
      (run_filter (NewEventDeduplicator w) (map (\<lambda>e. [e]) (submitted ops)))))"
proof -
  have n: "vEvents (NewEventStore limit w) = []" "vDeduplicator (NewEventStore limit w) = NewEventDeduplicator w"
    "vLimit (NewEventStore limit w) = (if limit \<le> 0 then 1000 else limit)"
    by (simp_all add: NewEventStore_def DefaultStoredEventsLimit_def)
  show ?thesis
    using events.list_run [OF NewEventStore_ok n(1) assms] by (simp add: stored_run_filter n)
qed

definition demo_query :: Query where
  "demo_query = \<lparr>qSessionID = ''s'', qLapNumber = Some 1, qCornerID = [], qType = []\<rparr>"

lemma demo_event_valid: "event_Validate (demo_event i ts) = None \<longleftrightarrow> i \<noteq> [] \<and> 0 < ts"
  by (auto simp: event_Validate_iff demo_event_def ContractVersionV1_def supportedType_def supportedSeverity_def range_invalid_def
      ref_Validate_def metric_Validate_def rawTelemetryMetric_def finite64_def source_Validate_def isNaN_def isInf0_def)

lemma demo_query_matches: "query_matches demo_query (demo_event i ts)"
  by (simp add: query_matches_def demo_query_def demo_event_def)

theorem event_store_refines_log_witness:
  "event_list (events.run (NewEventStore 1 30000)
     [(None, demo_event ''a'' 1000), (None, demo_event ''b'' 2000), (Some Canceled, demo_event ''c'' 90000),
      (None, demo_event [] 95000), (None, demo_event ''d'' 99000)]) None demo_query
   = Inr [demo_event ''d'' 99000]"
proof -
  let ?ops = "[(None, demo_event ''a'' 1000), (None, demo_event ''b'' 2000), (Some Canceled, demo_event ''c'' 90000),
      (None, demo_event [] 95000), (None, demo_event ''d'' 99000)]"
  have q: "query_Validate demo_query = None" by (simp add: query_Validate_def demo_query_def)
  have sub: "submitted ?ops = [demo_event ''a'' 1000, demo_event ''b'' 2000, demo_event ''d'' 99000]"
    by (simp add: submitted_def demo_event_valid)
  have w: "edCooldownWindowMs (NewEventDeduplicator 30000) = 30000" "edSeen (NewEventDeduplicator 30000) = []"
    by (simp_all add: NewEventDeduplicator_def normalizeDedupOptions_def)
  have "list_all time_ok (concat (map (\<lambda>e. [e]) (submitted ?ops)))" by (simp add: sub demo_event_time in64_def)
  from run_filter_eq [OF seen_ok_new this, of 30000]
  have "run_filter (NewEventDeduplicator 30000) (map (\<lambda>e. [e]) (submitted ?ops)) = [demo_event ''a'' 1000, demo_event ''d'' 99000]"
    by (simp add: sub w suppressed_def)
  then show ?thesis
    using event_store_refines_log [OF q, of 1 30000 ?ops] by (simp add: lastn_def demo_query_matches)
qed

text \<open>Nothing invalid and no duplicate is ever listed: of events submitted in order of time, two listed events with
  the same deduplication key are at least the window apart, and every listed event is valid.\<close>

theorem listed_events_separated:
  assumes "query_Validate q = None" "list_all (\<lambda>e. in64 (eTimestampUnixMs e)) (submitted ops)"
    and "sorted (map eTimestampUnixMs (submitted ops))"
  shows "\<exists>es. event_list (events.run (NewEventStore limit w) ops) None q = Inr es \<and>
    sorted_wrt (\<lambda>a b. DedupKey a \<noteq> DedupKey b \<or> normalizeDedupOptions w \<le> eTimestampUnixMs b - eTimestampUnixMs a) es \<and>
    list_all (\<lambda>e. event_Validate e = None) es"
proof -
  let ?log = "run_filter (NewEventDeduplicator w) (map (\<lambda>e. [e]) (submitted ops))"
  let ?es = "filter (query_matches q) (lastn (nat (if limit \<le> 0 then 1000 else limit)) ?log)"
  have c: "concat (map (\<lambda>e. [e]) xs) = xs" for xs :: "EngineerEvent list" by (induction xs) auto
  have "list_all time_ok (submitted ops)"
    using assms(2) by (auto simp: list_all_iff time_ok_def submitted_def event_Validate_iff)
  then have s: "sorted_wrt (\<lambda>a b. DedupKey a = DedupKey b \<longrightarrow> normalizeDedupOptions w \<le> eTimestampUnixMs b - eTimestampUnixMs a) ?log"
    using assms(3) by (intro filtered_separated) (simp_all add: c)
  have "sorted_wrt (\<lambda>a b. DedupKey a \<noteq> DedupKey b \<or> normalizeDedupOptions w \<le> eTimestampUnixMs b - eTimestampUnixMs a) ?es"
    unfolding lastn_def by (intro sorted_wrt_filter sorted_wrt_drop) (use s in \<open>simp only: imp_conv_disj\<close>)
  moreover have "list_all (\<lambda>e. event_Validate e = None) ?es"
  proof -
    have l: "?log = events.stored (NewEventStore limit w) ops"
      by (simp add: stored_run_filter) (simp add: NewEventStore_def)
    have "set ?es \<subseteq> set ?log" using set_lastn [of _ ?log] by auto
    then show ?thesis using events.stored_valid [OF NewEventStore_ok] by (auto simp: list_all_iff l)
  qed
  moreover note events.list_run [OF NewEventStore_ok _ assms(1), of limit w ops]
  ultimately show ?thesis by (auto simp: stored_run_filter) (auto simp: NewEventStore_def DefaultStoredEventsLimit_def)
qed

theorem listed_events_separated_witness:
  "\<exists>es. event_list (events.run (NewEventStore 10 0) [(None, demo_event ''a'' 1000), (None, demo_event ''b'' 2000)]) None demo_query = Inr es \<and>
    sorted_wrt (\<lambda>a b. DedupKey a \<noteq> DedupKey b \<or> normalizeDedupOptions 0 \<le> eTimestampUnixMs b - eTimestampUnixMs a) es \<and>
    list_all (\<lambda>e. event_Validate e = None) es"
  by (rule listed_events_separated)
    (simp_all add: query_Validate_def demo_query_def submitted_def demo_event_valid in64_def)

end
