(* ===== verification/Rules.thy ===== *)
theory Rules
  imports Events Corners
begin

text \<open>
  \<^verbatim>\<open>internal/events/rules.go\<close>: the deterministic rules over one corner analysis, and the parts
  they share with the frame rules (identifiers, time ranges, severities, confidences).
\<close>

section \<open>Identifiers\<close>

text \<open>
  \<^verbatim>\<open>strings.ToLower\<close> as far as \<^verbatim>\<open>sanitizeID\<close> can see it: it lowers ASCII letters, and the only
  other runes with an ASCII lower case are the Kelvin sign (\<^verbatim>\<open>E2 84 AA\<close>) and the capital I with
  dot (\<^verbatim>\<open>C4 B0\<close>).  Every other rune (or invalid byte) stays outside ASCII, and all its bytes
  together become one dash.
\<close>

definition lower_ascii :: "char \<Rightarrow> char" where
  "lower_ascii c = (if CHR ''A'' \<le> c \<and> c \<le> CHR ''Z'' then char_of (of_char c + 32 :: nat) else c)"

fun to_lower :: "string \<Rightarrow> string" where
  "to_lower [] = []"
| "to_lower (c # cs) =
    (if c = byte_char 226 \<and> take 2 cs = [byte_char 132, byte_char 170] then CHR ''k'' # to_lower (drop 2 cs)
     else if c = byte_char 196 \<and> take 1 cs = [byte_char 176] then CHR ''i'' # to_lower (drop 1 cs)
     else lower_ascii c # to_lower cs)"

definition id_char :: "char \<Rightarrow> bool" where
  "id_char c = (CHR ''a'' \<le> c \<and> c \<le> CHR ''z'' \<or> CHR ''0'' \<le> c \<and> c \<le> CHR ''9'' \<or> c = CHR ''_'' \<or> c = CHR ''-'')"

fun id_loop :: "bool \<Rightarrow> string \<Rightarrow> string" where
  "id_loop previousDash [] = []"
| "id_loop previousDash (c # cs) =
    (if id_char c then c # id_loop False cs
     else if \<not> previousDash then CHR ''-'' # id_loop True cs
     else id_loop True cs)"

definition trim_dashes :: "string \<Rightarrow> string" where
  "trim_dashes s = rev (dropWhile (\<lambda>c. c = CHR ''-'') (rev (dropWhile (\<lambda>c. c = CHR ''-'') s)))"

definition sanitizeID :: "string \<Rightarrow> string" where
  "sanitizeID value =
    (let value = trim_space (to_lower value) in
     if value = [] then ''engineer-event'' else trim_dashes (id_loop False value))"

section \<open>Shared parts of the rules\<close>

definition timeRange :: "int \<Rightarrow> int \<Rightarrow> TimeRange option" where
  "timeRange startUnixMs endUnixMs =
    (if startUnixMs \<le> 0 \<or> endUnixMs \<le> 0 \<or> startUnixMs > endUnixMs then None
     else Some \<lparr>tgStartUnixMs = startUnixMs, tgEndUnixMs = endUnixMs\<rparr>)"

definition severityForInt64 :: "int \<Rightarrow> int \<Rightarrow> int \<Rightarrow> string" where
  "severityForInt64 v medium high = (if v \<ge> high then ''high'' else if v \<ge> medium then ''medium'' else ''low'')"

definition severityForFloat64 :: "f64 \<Rightarrow> f64 \<Rightarrow> f64 \<Rightarrow> string" where
  "severityForFloat64 v medium high = (if fle high v then ''high'' else if fle medium v then ''medium'' else ''low'')"

definition confidenceForSeverity :: "string \<Rightarrow> f64" where
  "confidenceForSeverity s = (if s = ''high'' then rnd (9 / 10) else if s = ''medium'' then rnd (82 / 100) else rnd (75 / 100))"

section \<open>Rules over a corner analysis\<close>

record ScalarReference =
  srAvailable :: bool
  srValue :: f64

record ReferenceMetrics =
  rmExitSpeedKph :: ScalarReference

record RuleOptions =
  roLateThrottleDelayLowMs :: int
  roLateThrottleDelayMediumMs :: int
  roLateThrottleDelayHighMs :: int
  roLowExitSpeedDeltaLowKph :: f64
  roLowExitSpeedDeltaMediumKph :: f64
  roLowExitSpeedDeltaHighKph :: f64

record RuleInput =
  riSessionID :: string
  riLapNumber :: int
  riTimestampUnixMs :: int
  riCornerAnalysis :: Analysis
  riReference :: "ReferenceMetrics option"
  riTrack :: "CatalogRef option"
  riLayout :: "CatalogRef option"
  riCorner :: "CatalogRef option"
  riOptions :: RuleOptions

definition DefaultRuleOptions :: RuleOptions where
  "DefaultRuleOptions = \<lparr>roLateThrottleDelayLowMs = 250, roLateThrottleDelayMediumMs = 500, roLateThrottleDelayHighMs = 750,
     roLowExitSpeedDeltaLowKph = Fin 5, roLowExitSpeedDeltaMediumKph = Fin 10, roLowExitSpeedDeltaHighKph = Fin 15\<rparr>"

definition normalizeRuleOptions :: "RuleOptions \<Rightarrow> RuleOptions" where
  "normalizeRuleOptions opts =
    (let ds = DefaultRuleOptions;
         delayLow = (if roLateThrottleDelayLowMs opts \<le> 0 then roLateThrottleDelayLowMs ds else roLateThrottleDelayLowMs opts);
         delayMedium = (if roLateThrottleDelayMediumMs opts \<le> delayLow then roLateThrottleDelayMediumMs ds
           else roLateThrottleDelayMediumMs opts);
         delayHigh = (if roLateThrottleDelayHighMs opts \<le> delayMedium then roLateThrottleDelayHighMs ds
           else roLateThrottleDelayHighMs opts);
         bad = (\<lambda>v bound. fle v bound \<or> isNaN v \<or> isInf0 v);
         speedLow = (if bad (roLowExitSpeedDeltaLowKph opts) (Fin 0) then roLowExitSpeedDeltaLowKph ds
           else roLowExitSpeedDeltaLowKph opts);
         speedMedium = (if bad (roLowExitSpeedDeltaMediumKph opts) speedLow then roLowExitSpeedDeltaMediumKph ds
           else roLowExitSpeedDeltaMediumKph opts);
         speedHigh = (if bad (roLowExitSpeedDeltaHighKph opts) speedMedium then roLowExitSpeedDeltaHighKph ds
           else roLowExitSpeedDeltaHighKph opts)
     in \<lparr>roLateThrottleDelayLowMs = delayLow, roLateThrottleDelayMediumMs = delayMedium, roLateThrottleDelayHighMs = delayHigh,
         roLowExitSpeedDeltaLowKph = speedLow, roLowExitSpeedDeltaMediumKph = speedMedium, roLowExitSpeedDeltaHighKph = speedHigh\<rparr>)"

definition eventID :: "RuleInput \<Rightarrow> string \<Rightarrow> string" where
  "eventID input eventType =
    (let cornerID = (if anCornerID (riCornerAnalysis input) \<noteq> [] then anCornerID (riCornerAnalysis input) else ''unknown-corner'')
     in sanitizeID (riSessionID input @ ''-lap-'' @ itoa (riLapNumber input) @ ''-'' @ cornerID @ ''-'' @ eventType))"

definition baseEvent :: "RuleInput \<Rightarrow> string \<Rightarrow> string \<Rightarrow> string \<Rightarrow> MetricEvidence list \<Rightarrow> TimeRange option \<Rightarrow> EngineerEvent" where
  "baseEvent input eventType severity ruleID metrics eventRange =
    \<lparr>eEventID = eventID input eventType, eSessionID = riSessionID input, eVersion = ContractVersionV1, eType = eventType,
     eSeverity = severity, eConfidence = confidenceForSeverity severity, eTimestampUnixMs = riTimestampUnixMs input,
     eTimeRange = eventRange, eLapNumber = riLapNumber input, eTrack = riTrack input, eLayout = riLayout input,
     eCorner = riCorner input, eMetrics = metrics,
     eSource = \<lparr>esKind = ''deterministic_rule'', esRuleID = ruleID, esRuleVersion = ''v1''\<rparr>\<rparr>"

definition evidence :: "string \<Rightarrow> f64 \<Rightarrow> string \<Rightarrow> string \<Rightarrow> MetricEvidence" where
  "evidence name v unit role =
    \<lparr>mvName = name, mvValue = v, mvUnit = unit, mvStatus = ''available'', mvReason = [], mvRole = role\<rparr>"

definition lateThrottleEvent :: "RuleInput \<Rightarrow> RuleOptions \<Rightarrow> EngineerEvent option" where
  "lateThrottleEvent input options =
    (let metric = anFirstThrottleReapplication (riCornerAnalysis input) in
     if pmStatus metric \<noteq> ''available'' \<or> pmTimeOffsetMs metric < roLateThrottleDelayLowMs options \<or> riTimestampUnixMs input \<le> 0
     then None
     else
       let severity = severityForInt64 (pmTimeOffsetMs metric) (roLateThrottleDelayMediumMs options) (roLateThrottleDelayHighMs options);
           startUnixMs = sub64 (pmTimestampUnixMs metric) (pmTimeOffsetMs metric)
       in Some (baseEvent input ''late_throttle'' severity ''late_throttle.v1''
         [evidence ''firstThrottleReapplicationOffsetMs'' (f_of_int (pmTimeOffsetMs metric)) ''ms'' ''actual'',
          evidence ''lateThrottleDelayThresholdMs'' (f_of_int (roLateThrottleDelayLowMs options)) ''ms'' ''threshold'',
          evidence ''firstThrottleReapplicationDistanceMeters'' (pmDistanceFromStart metric) ''m'' ''actual'']
         (timeRange startUnixMs (pmTimestampUnixMs metric))))"

definition lowExitSpeedEvent :: "RuleInput \<Rightarrow> RuleOptions \<Rightarrow> EngineerEvent option" where
  "lowExitSpeedEvent input options =
    (case riReference input of None \<Rightarrow> None
     | Some r \<Rightarrow>
       if \<not> srAvailable (rmExitSpeedKph r) \<or> \<not> finite64 (srValue (rmExitSpeedKph r)) then None
       else let actual = anExitSpeedKph (riCornerAnalysis input) in
         if smStatus actual \<noteq> ''available'' \<or> \<not> finite64 (smValue actual) \<or> riTimestampUnixMs input \<le> 0 then None
         else let delta = fsub (srValue (rmExitSpeedKph r)) (smValue actual) in
           if flt delta (roLowExitSpeedDeltaLowKph options) then None
           else
             let severity = severityForFloat64 delta (roLowExitSpeedDeltaMediumKph options) (roLowExitSpeedDeltaHighKph options)
             in Some (baseEvent input ''low_exit_speed'' severity ''low_exit_speed.v1''
               [evidence ''exitSpeedKph'' (smValue actual) ''kph'' ''actual'',
                evidence ''referenceExitSpeedKph'' (srValue (rmExitSpeedKph r)) ''kph'' ''reference'',
                evidence ''exitSpeedDeltaKph'' delta ''kph'' ''delta'',
                evidence ''lowExitSpeedDeltaThresholdKph'' (roLowExitSpeedDeltaLowKph options) ''kph'' ''threshold'']
               (timeRange (riTimestampUnixMs input) (riTimestampUnixMs input))))"

fun validate_events :: "EngineerEvent list \<Rightarrow> ev_err option" where
  "validate_events [] = None"
| "validate_events (e # es) = (case event_Validate e of Some x \<Rightarrow> Some x | None \<Rightarrow> validate_events es)"

definition Generate :: "RuleInput \<Rightarrow> ev_err + EngineerEvent list" where
  "Generate input =
    (if anStatus (riCornerAnalysis input) = ''unavailable'' then Inr []
     else
       let options = normalizeRuleOptions (riOptions input);
           events = (case lateThrottleEvent input options of None \<Rightarrow> [] | Some e \<Rightarrow> [e]);
           events = (case lowExitSpeedEvent input options of None \<Rightarrow> events | Some e \<Rightarrow> events @ [e])
       in case validate_events events of Some x \<Rightarrow> Inl x | None \<Rightarrow> Inr events)"

section \<open>Identifiers are canonical\<close>

lemma lower_ascii_id: "id_char c \<Longrightarrow> lower_ascii c = c"
proof -
  have "\<not> CHR ''a'' \<le> CHR ''Z''" "\<not> CHR ''A'' \<le> CHR ''9''" "\<not> CHR ''_'' \<le> CHR ''Z''" "\<not> CHR ''A'' \<le> CHR ''-''"
    by code_simp+
  then show "id_char c \<Longrightarrow> lower_ascii c = c"
    by (auto simp: lower_ascii_def id_char_def dest: order_trans)
qed

lemma to_lower_keeps: "c \<in> set s \<Longrightarrow> id_char c \<Longrightarrow> c \<in> set (to_lower s)"
proof (induction s rule: to_lower.induct)
  case (2 d ds)
  have na: "\<not> id_char (byte_char 226)" "\<not> id_char (byte_char 196)" "\<not> id_char (byte_char 132)" "\<not> id_char (byte_char 170)"
      "\<not> id_char (byte_char 176)"
    by code_simp+
  have low: "lower_ascii c = c" using \<open>id_char c\<close> by (rule lower_ascii_id)
  have tk: "c \<in> set ds \<Longrightarrow> c \<notin> set (take n ds) \<Longrightarrow> c \<in> set (drop n ds)" for n
    by (metis UnE append_take_drop_id set_append)
  have ne: "c \<noteq> byte_char 226" "c \<noteq> byte_char 196" "c \<notin> set [byte_char 132, byte_char 170]" "c \<notin> set [byte_char 176]"
    using na \<open>id_char c\<close> by auto
  consider (kelvin) "d = byte_char 226 \<and> take 2 ds = [byte_char 132, byte_char 170]"
    | (dotted) "\<not> (d = byte_char 226 \<and> take 2 ds = [byte_char 132, byte_char 170])" "d = byte_char 196 \<and> take 1 ds = [byte_char 176]"
    | (ascii) "\<not> (d = byte_char 226 \<and> take 2 ds = [byte_char 132, byte_char 170])" "\<not> (d = byte_char 196 \<and> take 1 ds = [byte_char 176])"
    by blast
  then show ?case
  proof cases
    case kelvin
    then have "c \<in> set (drop 2 ds)" using "2.prems" ne tk [of 2] by (metis set_ConsD)
    then show ?thesis using "2.IH"(1) [OF kelvin _ \<open>id_char c\<close>] kelvin by simp
  next
    case dotted
    then have "c \<in> set (drop 1 ds)" using "2.prems" ne tk [of 1] by (metis set_ConsD)
    then show ?thesis using "2.IH"(2) [OF dotted _ \<open>id_char c\<close>] dotted by (auto split: if_splits)
  next
    case ascii
    then show ?thesis using "2.IH"(3) [OF ascii _ \<open>id_char c\<close>] "2.prems" low by (simp only: to_lower.simps if_False) auto
  qed
qed simp

lemma trim_front_keeps:
  "c \<in> set s \<Longrightarrow> \<forall>p \<in> set ps. c \<notin> set p \<Longrightarrow> c \<in> set (trim_front ps s)"
proof (induction ps s rule: trim_front.induct)
  case (1 ps s)
  show ?case
  proof (cases "strip_any ps s")
    case None with 1 show ?thesis by (subst trim_front.simps) simp
  next
    case (Some t)
    obtain p where p: "p \<in> set ps" "s = p @ t" using strip_any_Some [OF Some] by blast
    with 1 have "c \<in> set t" by auto
    with 1 Some show ?thesis by (subst trim_front.simps) auto
  qed
qed

lemma trim_space_keeps: "c \<in> set s \<Longrightarrow> id_char c \<Longrightarrow> c \<in> set (trim_space s)"
proof -
  assume c: "c \<in> set s" "id_char c"
  have "list_all (\<lambda>p. list_all (\<lambda>d. \<not> id_char d) p) space_encodings" by code_simp
  with c(2) have n: "\<forall>p \<in> set space_encodings. c \<notin> set p" by (auto simp: list_all_iff)
  then have n': "\<forall>p \<in> set (map rev space_encodings). c \<notin> set p" by simp
  have "c \<in> set (rev (trim_front space_encodings s))" using trim_front_keeps [OF c(1) n] by simp
  from trim_front_keeps [OF this n'] show ?thesis by (simp add: trim_space_def)
qed

lemma id_loop_keeps: "c \<in> set s \<Longrightarrow> id_char c \<Longrightarrow> c \<in> set (id_loop b s)"
  by (induction b s rule: id_loop.induct) auto

lemma id_loop_chars: "c \<in> set (id_loop b s) \<Longrightarrow> id_char c"
  by (induction b s rule: id_loop.induct) (auto simp: id_char_def split: if_splits)

lemma set_trim_dashes: "c \<in> set (trim_dashes s) \<Longrightarrow> c \<in> set s"
  by (auto simp: trim_dashes_def dest!: set_dropWhileD)

lemma dropWhile_keeps: "c \<in> set s \<Longrightarrow> \<not> P c \<Longrightarrow> c \<in> set (dropWhile P s)"
  by (induction s) auto

lemma trim_dashes_keeps: "c \<in> set s \<Longrightarrow> c \<noteq> CHR ''-'' \<Longrightarrow> c \<in> set (trim_dashes s)"
  by (simp add: trim_dashes_def dropWhile_keeps)

lemma sanitizeID_not_empty: "c \<in> set s \<Longrightarrow> id_char c \<Longrightarrow> c \<noteq> CHR ''-'' \<Longrightarrow> sanitizeID s \<noteq> []"
proof -
  assume c: "c \<in> set s" "id_char c" "c \<noteq> CHR ''-''"
  then have t: "c \<in> set (trim_space (to_lower s))" by (intro trim_space_keeps to_lower_keeps)
  then have "c \<in> set (trim_dashes (id_loop False (trim_space (to_lower s))))"
    using c by (intro trim_dashes_keeps id_loop_keeps)
  then show ?thesis using t by (auto simp: sanitizeID_def Let_def)
qed

text \<open>On identifier characters the passes change nothing.\<close>

lemma to_lower_id: "list_all id_char s \<Longrightarrow> to_lower s = s"
proof (induction s)
  case (Cons c s)
  have na: "\<not> id_char (byte_char 226)" "\<not> id_char (byte_char 196)" by code_simp+
  have "lower_ascii c = c" using Cons.prems by (simp add: lower_ascii_id)
  then show ?case using Cons na by auto
qed simp

lemma id_loop_id: "list_all id_char s \<Longrightarrow> id_loop b s = s"
  by (induction s arbitrary: b) auto

lemma trim_space_id: "list_all id_char s \<Longrightarrow> trim_space s = s"
proof -
  have t: "trim_front ps s = s" if "list_all id_char s" "list_all (\<lambda>p. p \<noteq> [] \<and> list_all (\<lambda>d. \<not> id_char d) p) ps" for ps s
  proof (cases "strip_any ps s")
    case None then show ?thesis by (subst trim_front.simps) simp
  next
    case (Some t)
    obtain p where "p \<in> set ps" "s = p @ t" using strip_any_Some [OF Some] by blast
    then show ?thesis using that by (cases p) (auto simp: list_all_iff)
  qed
  have "list_all (\<lambda>p. p \<noteq> [] \<and> list_all (\<lambda>d. \<not> id_char d) p) space_encodings" by code_simp
  moreover from this have "list_all (\<lambda>p. p \<noteq> [] \<and> list_all (\<lambda>d. \<not> id_char d) p) (map rev space_encodings)"
    by (simp add: list_all_iff)
  moreover assume "list_all id_char s"
  ultimately show ?thesis using t [of s space_encodings] t [of "rev s" "map rev space_encodings"] by (simp add: trim_space_def)
qed

lemma trim_dashes_ends: "trim_dashes s \<noteq> [] \<Longrightarrow> hd (trim_dashes s) \<noteq> CHR ''-'' \<and> last (trim_dashes s) \<noteq> CHR ''-''"
proof -
  let ?P = "\<lambda>c. c = CHR ''-''"
  let ?t = "dropWhile ?P s"
  assume ne: "trim_dashes s \<noteq> []"
  then have d: "dropWhile ?P (rev ?t) \<noteq> []" by (simp only: trim_dashes_def rev_is_Nil_conv not_False_eq_True)
  then have t: "?t \<noteq> []" by (metis dropWhile.simps(1) rev.simps(1))
  have "?t = trim_dashes s @ rev (takeWhile ?P (rev ?t))"
    unfolding trim_dashes_def by (metis rev_append rev_rev_ident takeWhile_dropWhile_id)
  then have "hd ?t = hd (trim_dashes s)" using ne by (metis hd_append2)
  moreover have "hd ?t \<noteq> CHR ''-''" using hd_dropWhile [OF t] by simp
  moreover have "last (trim_dashes s) \<noteq> CHR ''-''" using hd_dropWhile [OF d] d unfolding trim_dashes_def by (simp only: last_rev) simp
  ultimately show ?thesis by simp
qed

lemma trim_dashes_id: "s \<noteq> [] \<Longrightarrow> hd s \<noteq> CHR ''-'' \<Longrightarrow> last s \<noteq> CHR ''-'' \<Longrightarrow> trim_dashes s = s"
proof -
  assume a: "s \<noteq> []" "hd s \<noteq> CHR ''-''" "last s \<noteq> CHR ''-''"
  have d: "t \<noteq> [] \<Longrightarrow> hd t \<noteq> CHR ''-'' \<Longrightarrow> dropWhile (\<lambda>c. c = CHR ''-'') t = t" for t by (cases t) auto
  show ?thesis unfolding trim_dashes_def using a by (simp add: d hd_rev)
qed

section \<open>Properties\<close>

text \<open>Event identifiers are canonical: they consist of lower-case letters, digits, underscores and dashes, neither
  start nor end with a dash, and sanitising an identifier again changes nothing.\<close>

theorem sanitized_ids_canonical:
  "list_all id_char (sanitizeID v) \<and>
   (sanitizeID v = [] \<or> hd (sanitizeID v) \<noteq> CHR ''-'' \<and> last (sanitizeID v) \<noteq> CHR ''-'' \<and> sanitizeID (sanitizeID v) = sanitizeID v)"
proof -
  have d: "list_all id_char ''engineer-event''" by code_simp
  have c: "list_all id_char (sanitizeID v)"
    using d by (auto simp: sanitizeID_def Let_def list_all_iff dest: set_trim_dashes id_loop_chars)
  have e: "hd (sanitizeID v) \<noteq> CHR ''-'' \<and> last (sanitizeID v) \<noteq> CHR ''-''" if "sanitizeID v \<noteq> []"
    using that by (auto simp: sanitizeID_def Let_def dest: trim_dashes_ends split: if_splits)
  have "sanitizeID (sanitizeID v) = sanitizeID v" if "sanitizeID v \<noteq> []"
    using that e [OF that] c by (subst sanitizeID_def) (simp add: to_lower_id trim_space_id id_loop_id trim_dashes_id)
  with c e show ?thesis by blast
qed

section \<open>Events built by rules are valid\<close>

lemma f_of_int_fin: "in64 n \<Longrightarrow> is_fin (f_of_int n)"
  unfolding f_of_int_def
proof (rule is_fin_rnd_bound)
  assume n: "in64 n"
  then have "\<bar>n\<bar> \<le> 2 ^ 63" by (auto simp: in64_def)
  then have "of_int \<bar>n\<bar> \<le> (of_int (2 ^ 63) :: rat)" by (simp only: of_int_le_iff)
  then show "\<bar>of_int n\<bar> \<le> pow2 63" by (simp add: pow2_powi)
qed (auto intro: rep_pow2)

lemma confidence_ok:
  "is_fin (confidenceForSeverity s) \<and> 0 \<le> fval (confidenceForSeverity s) \<and> fval (confidenceForSeverity s) \<le> 1"
proof -
  have "list_all (\<lambda>q. is_fin (rnd q) \<and> 0 \<le> fval (rnd q) \<and> fval (rnd q) \<le> 1) [9 / 10, 82 / 100, 75 / 100]" by code_simp
  then show ?thesis by (simp add: confidenceForSeverity_def)
qed

lemma timeRange_valid [simp]: "\<not> range_invalid (timeRange a b)" "\<not> range_invalid None"
  by (simp_all add: range_invalid_def timeRange_def)

lemma evidence_valid:
  "name \<noteq> [] \<Longrightarrow> \<not> rawTelemetryMetric name \<Longrightarrow> is_fin v \<Longrightarrow>
     role \<in> set [''actual'', ''reference'', ''delta'', ''threshold''] \<Longrightarrow> metric_Validate (evidence name v unit role) = None"
  by (auto simp: metric_Validate_def evidence_def finite64_def is_fin_iff)

lemma supported_severities [simp]: "supportedSeverity (severityForInt64 v m h)" "supportedSeverity (severityForFloat64 x y z)"
  by (simp_all add: supportedSeverity_def severityForInt64_def severityForFloat64_def)

lemma built_event_valid:
  assumes "eEventID e \<noteq> []" "eSessionID e \<noteq> []" "eVersion e = ContractVersionV1" "supportedType (eType e)"
    and "supportedSeverity (eSeverity e)" "eConfidence e = confidenceForSeverity (eSeverity e)" "0 < eTimestampUnixMs e"
    and "\<not> range_invalid (eTimeRange e)" "0 \<le> eLapNumber e" "ref_Validate (eTrack e) = None"
    and "ref_Validate (eLayout e) = None" "ref_Validate (eCorner e) = None" "eMetrics e \<noteq> []"
    and "list_all (\<lambda>m. metric_Validate m = None) (eMetrics e)"
    and "esKind (eSource e) = ''deterministic_rule''" "esRuleVersion (eSource e) = ''v1''"
  shows "event_Validate e = None"
  using assms confidence_ok [of "eSeverity e"] by (simp add: event_Validate_iff source_Validate_def)

lemma validate_events_iff: "validate_events es = None \<longleftrightarrow> list_all (\<lambda>e. event_Validate e = None) es"
  by (induction es) (auto split: option.splits)

lemma id_chars_kinds: "id_char CHR ''l''" "id_char CHR ''a''"
  by code_simp+

lemma eventID_not_empty: "eventID input t \<noteq> []"
  unfolding eventID_def Let_def by (rule sanitizeID_not_empty [of "CHR ''l''"]) (simp_all add: id_chars_kinds)

section \<open>The rules\<close>

text \<open>An input as the API builds it: identified, with valid references and finite numbers.\<close>

definition rule_input_ok :: "RuleInput \<Rightarrow> bool" where
  "rule_input_ok input \<longleftrightarrow> riSessionID input \<noteq> [] \<and> 0 \<le> riLapNumber input \<and>
     ref_Validate (riTrack input) = None \<and> ref_Validate (riLayout input) = None \<and> ref_Validate (riCorner input) = None \<and>
     in64 (pmTimeOffsetMs (anFirstThrottleReapplication (riCornerAnalysis input))) \<and>
     is_fin (pmDistanceFromStart (anFirstThrottleReapplication (riCornerAnalysis input))) \<and>
     in64 (roLateThrottleDelayLowMs (riOptions input)) \<and>
     (case riReference input of None \<Rightarrow> True
      | Some r \<Rightarrow> is_fin (fsub (srValue (rmExitSpeedKph r)) (smValue (anExitSpeedKph (riCornerAnalysis input)))))"

definition throttle_late :: "RuleInput \<Rightarrow> bool" where
  "throttle_late input \<longleftrightarrow> (let metric = anFirstThrottleReapplication (riCornerAnalysis input) in
     pmStatus metric = ''available'' \<and> 0 < riTimestampUnixMs input \<and>
     (if roLateThrottleDelayLowMs (riOptions input) \<le> 0 then 250 else roLateThrottleDelayLowMs (riOptions input)) \<le> pmTimeOffsetMs metric)"

definition exit_slow :: "RuleInput \<Rightarrow> bool" where
  "exit_slow input \<longleftrightarrow> (\<exists>r. riReference input = Some r \<and> srAvailable (rmExitSpeedKph r) \<and> 0 < riTimestampUnixMs input \<and>
     smStatus (anExitSpeedKph (riCornerAnalysis input)) = ''available'' \<and>
     fle (roLowExitSpeedDeltaLowKph (normalizeRuleOptions (riOptions input)))
       (fsub (srValue (rmExitSpeedKph r)) (smValue (anExitSpeedKph (riCornerAnalysis input)))))"

lemma normalized_low: "roLateThrottleDelayLowMs (normalizeRuleOptions opts) =
    (if roLateThrottleDelayLowMs opts \<le> 0 then 250 else roLateThrottleDelayLowMs opts)"
  by (simp add: normalizeRuleOptions_def Let_def DefaultRuleOptions_def)

lemma normalized_low_speed: "is_fin (roLowExitSpeedDeltaLowKph (normalizeRuleOptions opts))"
  by (simp add: normalizeRuleOptions_def Let_def DefaultRuleOptions_def) (simp add: is_fin_iff)

lemma fsub_finite_args: "is_fin (fsub x y) \<Longrightarrow> is_fin x \<and> is_fin y"
  by (cases x; cases y) (auto simp: fsub_def split: if_splits)

lemma baseEvent_valid:
  assumes "rule_input_ok input" "0 < riTimestampUnixMs input" "supportedType t" "supportedSeverity s"
    and "ms \<noteq> []" "list_all (\<lambda>m. metric_Validate m = None) ms"
  shows "event_Validate (baseEvent input t s rid ms (timeRange a b)) = None"
  by (rule built_event_valid) (use assms in \<open>simp_all add: baseEvent_def rule_input_ok_def eventID_not_empty\<close>)

lemma rule_names:
  "list_all (\<lambda>n. n \<noteq> [] \<and> \<not> rawTelemetryMetric n) [''firstThrottleReapplicationOffsetMs'', ''lateThrottleDelayThresholdMs'',
     ''firstThrottleReapplicationDistanceMeters'', ''exitSpeedKph'', ''referenceExitSpeedKph'', ''exitSpeedDeltaKph'',
     ''lowExitSpeedDeltaThresholdKph'']"
  "supportedType ''late_throttle''" "supportedType ''low_exit_speed''"
  by code_simp+

lemma late_throttle_exact:
  assumes "rule_input_ok input"
  shows "case lateThrottleEvent input (normalizeRuleOptions (riOptions input)) of
      None \<Rightarrow> \<not> throttle_late input
    | Some e \<Rightarrow> throttle_late input \<and> event_Validate e = None \<and> eType e = ''late_throttle'' \<and> eSessionID e = riSessionID input"
proof (cases "throttle_late input")
  case True
  let ?o = "normalizeRuleOptions (riOptions input)" and ?m = "anFirstThrottleReapplication (riCornerAnalysis input)"
  let ?ms = "[evidence ''firstThrottleReapplicationOffsetMs'' (f_of_int (pmTimeOffsetMs ?m)) ''ms'' ''actual'',
          evidence ''lateThrottleDelayThresholdMs'' (f_of_int (roLateThrottleDelayLowMs ?o)) ''ms'' ''threshold'',
          evidence ''firstThrottleReapplicationDistanceMeters'' (pmDistanceFromStart ?m) ''m'' ''actual'']"
  let ?e = "baseEvent input ''late_throttle''
      (severityForInt64 (pmTimeOffsetMs ?m) (roLateThrottleDelayMediumMs ?o) (roLateThrottleDelayHighMs ?o)) ''late_throttle.v1'' ?ms
      (timeRange (sub64 (pmTimestampUnixMs ?m) (pmTimeOffsetMs ?m)) (pmTimestampUnixMs ?m))"
  have l: "lateThrottleEvent input ?o = Some ?e"
    using True by (simp add: lateThrottleEvent_def throttle_late_def Let_def normalized_low)
  have r: "in64 (roLateThrottleDelayLowMs ?o)" using assms by (simp add: normalized_low rule_input_ok_def in64_def)
  have "list_all (\<lambda>m. metric_Validate m = None) ?ms"
    using assms r rule_names(1) by (simp add: evidence_valid f_of_int_fin rule_input_ok_def)
  then have "event_Validate ?e = None"
    using True by (intro baseEvent_valid assms rule_names) (simp_all add: throttle_late_def Let_def)
  with l True show ?thesis by (simp add: baseEvent_def)
next
  case False
  then have "lateThrottleEvent input (normalizeRuleOptions (riOptions input)) = None"
    by (auto simp add: lateThrottleEvent_def throttle_late_def Let_def normalized_low)
  with False show ?thesis by simp
qed

lemma low_exit_speed_exact:
  assumes "rule_input_ok input"
  shows "case lowExitSpeedEvent input (normalizeRuleOptions (riOptions input)) of
      None \<Rightarrow> \<not> exit_slow input
    | Some e \<Rightarrow> exit_slow input \<and> event_Validate e = None \<and> eType e = ''low_exit_speed'' \<and> eSessionID e = riSessionID input"
proof (cases "exit_slow input")
  case True
  let ?o = "normalizeRuleOptions (riOptions input)" and ?x = "anExitSpeedKph (riCornerAnalysis input)"
  obtain r where r: "riReference input = Some r" "srAvailable (rmExitSpeedKph r)" "0 < riTimestampUnixMs input"
      "smStatus ?x = ''available''" "fle (roLowExitSpeedDeltaLowKph ?o) (fsub (srValue (rmExitSpeedKph r)) (smValue ?x))"
    using True unfolding exit_slow_def by blast
  let ?d = "fsub (srValue (rmExitSpeedKph r)) (smValue ?x)"
  let ?ms = "[evidence ''exitSpeedKph'' (smValue ?x) ''kph'' ''actual'',
      evidence ''referenceExitSpeedKph'' (srValue (rmExitSpeedKph r)) ''kph'' ''reference'',
      evidence ''exitSpeedDeltaKph'' ?d ''kph'' ''delta'',
      evidence ''lowExitSpeedDeltaThresholdKph'' (roLowExitSpeedDeltaLowKph ?o) ''kph'' ''threshold'']"
  let ?e = "baseEvent input ''low_exit_speed'' (severityForFloat64 ?d (roLowExitSpeedDeltaMediumKph ?o) (roLowExitSpeedDeltaHighKph ?o))
      ''low_exit_speed.v1'' ?ms (timeRange (riTimestampUnixMs input) (riTimestampUnixMs input))"
  have d: "is_fin ?d" using assms r by (simp add: rule_input_ok_def)
  note f = d fsub_finite_args [OF d] normalized_low_speed
  have "\<not> flt ?d (roLowExitSpeedDeltaLowKph ?o)" using r(5) flt_not_fle by blast
  then have l: "lowExitSpeedEvent input ?o = Some ?e"
    using r f by (simp add: lowExitSpeedEvent_def Let_def finite64_def is_fin_iff)
  have "list_all (\<lambda>m. metric_Validate m = None) ?ms"
    using f rule_names(1) by (simp add: evidence_valid)
  then have "event_Validate ?e = None" using r by (intro baseEvent_valid assms rule_names) simp_all
  with l True show ?thesis by (simp add: baseEvent_def)
next
  case False
  have "lowExitSpeedEvent input (normalizeRuleOptions (riOptions input)) = None"
  proof (rule ccontr)
    assume a: "lowExitSpeedEvent input (normalizeRuleOptions (riOptions input)) \<noteq> None"
    then obtain r where r: "riReference input = Some r" by (auto simp: lowExitSpeedEvent_def split: option.splits)
    have d: "is_fin (fsub (srValue (rmExitSpeedKph r)) (smValue (anExitSpeedKph (riCornerAnalysis input))))"
      using assms r by (simp add: rule_input_ok_def)
    show False using a False r d normalized_low_speed [of "riOptions input"]
      by (simp add: lowExitSpeedEvent_def exit_slow_def Let_def not_less split: if_splits)
  qed
  with False show ?thesis by simp
qed

text \<open>C15: The rule engine is exact: on well-formed input it fails for no analysis, and the events are one late-throttle event
  exactly when the throttle is reapplied too late and one low-exit-speed event exactly when the exit is too slow, all valid
  and of the session.\<close>

theorem rule_events_exact:
  assumes "rule_input_ok input" "anStatus (riCornerAnalysis input) \<noteq> ''unavailable''"
  shows "\<exists>es. Generate input = Inr es \<and>
    map eType es = (if throttle_late input then [''late_throttle''] else []) @ (if exit_slow input then [''low_exit_speed''] else []) \<and>
    list_all (\<lambda>e. event_Validate e = None \<and> eSessionID e = riSessionID input) es"
proof -
  let ?o = "normalizeRuleOptions (riOptions input)"
  let ?es = "(case lateThrottleEvent input ?o of None \<Rightarrow> [] | Some e \<Rightarrow> [e]) @
    (case lowExitSpeedEvent input ?o of None \<Rightarrow> [] | Some e \<Rightarrow> [e])"
  note x = late_throttle_exact [OF assms(1)] low_exit_speed_exact [OF assms(1)]
  have v: "list_all (\<lambda>e. event_Validate e = None \<and> eSessionID e = riSessionID input) ?es"
    using x by (auto split: option.splits)
  have t: "map eType ?es = (if throttle_late input then [''late_throttle''] else []) @ (if exit_slow input then [''low_exit_speed''] else [])"
    using x by (auto split: option.splits)
  have "validate_events ?es = None" using v by (simp add: validate_events_iff list_all_iff)
  then have "Generate input = Inr ?es" using assms(2) by (auto simp: Generate_def Let_def split: option.splits)
  with v t show ?thesis by blast
qed

definition demo_rule_input :: RuleInput where
  "demo_rule_input = \<lparr>riSessionID = ''s'', riLapNumber = 2, riTimestampUnixMs = 5000,
     riCornerAnalysis = \<lparr>anStatus = ''partial'', anReason = [], anCornerID = ''t1'', anCornerName = [], anNumber = 1, anSampleCount = 3,
       anEntrySpeedKph = availableScalar (Fin 180), anMinimumSpeedKph = availableScalar (Fin 80),
       anExitSpeedKph = availableScalar (Fin 100), anMaxBrakePercent = unavailableScalar ''missing_brake_data'',
       anFirstThrottleReapplication = \<lparr>pmStatus = ''available'', pmReason = [], pmDistanceFromStart = Fin 60,
         pmTimestampUnixMs = 4800, pmTimeOffsetMs = 600\<rparr>,
       anExitAccelerationDeltaKph = availableScalar (Fin 20)\<rparr>,
     riReference = Some \<lparr>rmExitSpeedKph = \<lparr>srAvailable = True, srValue = Fin 104\<rparr>\<rparr>, riTrack = None, riLayout = None, riCorner = None,
     riOptions = DefaultRuleOptions\<rparr>"

theorem rule_events_exact_witness:
  "\<exists>es. Generate demo_rule_input = Inr es \<and> map eType es = [''late_throttle''] \<and> list_all (\<lambda>e. event_Validate e = None \<and> eSessionID e = ''s'') es"
proof -
  have d: "fsub (Fin 104) (Fin 100) = Fin 4" by code_simp
  have ok: "rule_input_ok demo_rule_input" "anStatus (riCornerAnalysis demo_rule_input) \<noteq> ''unavailable''"
    by (simp_all add: demo_rule_input_def rule_input_ok_def DefaultRuleOptions_def availableScalar_def d in64_def ref_Validate_def)
  have t: "throttle_late demo_rule_input" "\<not> exit_slow demo_rule_input"
    by (simp_all add: demo_rule_input_def throttle_late_def exit_slow_def DefaultRuleOptions_def availableScalar_def d
        normalizeRuleOptions_def Let_def isNaN_def isInf0_def)
  have s: "riSessionID demo_rule_input = ''s''" by (simp add: demo_rule_input_def)
  from rule_events_exact [OF ok] t s show ?thesis by simp
qed

text \<open>The normalised thresholds need not be ordered: a custom low threshold above the default medium one resets the
  medium threshold below it, so that no event has low severity.\<close>

theorem rule_options_unordered:
  "normalizeRuleOptions (DefaultRuleOptions\<lparr>roLateThrottleDelayLowMs := 600\<rparr>)
     = DefaultRuleOptions\<lparr>roLateThrottleDelayLowMs := 600\<rparr>"
  by (simp add: normalizeRuleOptions_def Let_def DefaultRuleOptions_def isNaN_def isInf0_def)

end
