(* ===== verification/Producer.thy ===== *)
theory Producer
  imports Rules Laps
begin

text \<open>
  \<^verbatim>\<open>internal/events/producer.go\<close>: events derived from the frames of a session, once over a whole
  stream and once for a batch appended to the stored frames.
\<close>

section \<open>Options and events\<close>

record FrameEventOptions =
  foLapRegressionMinDeltaMs :: int
  foLapRegressionDeltaPct :: f64
  foOffTrackMinDurationMs :: int
  foOffTrackLowDurationMs :: int
  foOffTrackMediumDurationMs :: int
  foOffTrackHighDurationMs :: int
  foTrack :: "CatalogRef option"
  foLayout :: "CatalogRef option"

definition DefaultFrameEventOptions :: FrameEventOptions where
  "DefaultFrameEventOptions = \<lparr>foLapRegressionMinDeltaMs = 1500, foLapRegressionDeltaPct = rnd (3 / 100),
     foOffTrackMinDurationMs = 500, foOffTrackLowDurationMs = 500, foOffTrackMediumDurationMs = 1500,
     foOffTrackHighDurationMs = 3000, foTrack = None, foLayout = None\<rparr>"

definition normalizeFrameEventOptions :: "FrameEventOptions \<Rightarrow> FrameEventOptions" where
  "normalizeFrameEventOptions opts =
    (let ds = DefaultFrameEventOptions; pct = foLapRegressionDeltaPct opts;
         minDelta = (if foLapRegressionMinDeltaMs opts \<le> 0 then foLapRegressionMinDeltaMs ds else foLapRegressionMinDeltaMs opts);
         pct = (if fle pct (Fin 0) \<or> isNaN pct \<or> isInf0 pct then foLapRegressionDeltaPct ds else pct);
         minDuration = (if foOffTrackMinDurationMs opts \<le> 0 then foOffTrackMinDurationMs ds else foOffTrackMinDurationMs opts);
         low = (if foOffTrackLowDurationMs opts \<le> 0 then foOffTrackLowDurationMs ds else foOffTrackLowDurationMs opts);
         medium = (if foOffTrackMediumDurationMs opts \<le> low then foOffTrackMediumDurationMs ds else foOffTrackMediumDurationMs opts);
         high = (if foOffTrackHighDurationMs opts \<le> medium then foOffTrackHighDurationMs ds else foOffTrackHighDurationMs opts)
     in opts\<lparr>foLapRegressionMinDeltaMs := minDelta, foLapRegressionDeltaPct := pct, foOffTrackMinDurationMs := minDuration,
         foOffTrackLowDurationMs := low, foOffTrackMediumDurationMs := medium, foOffTrackHighDurationMs := high\<rparr>)"

definition frameEventID :: "string \<Rightarrow> int \<Rightarrow> string \<Rightarrow> TimeRange option \<Rightarrow> string" where
  "frameEventID sessionID lapNumber eventType eventRange =
    (case eventRange of
       Some r \<Rightarrow> sanitizeID (sessionID @ ''-lap-'' @ itoa lapNumber @ ''-'' @ eventType @ ''-'' @ itoa (tgStartUnixMs r)
           @ ''-'' @ itoa (tgEndUnixMs r))
     | None \<Rightarrow> sanitizeID (sessionID @ ''-lap-'' @ itoa lapNumber @ ''-'' @ eventType))"

definition frameRuleEventID :: "string \<Rightarrow> int \<Rightarrow> string \<Rightarrow> string \<Rightarrow> string" where
  "frameRuleEventID sessionID lapNumber eventType ruleID =
    sanitizeID (sessionID @ ''-lap-'' @ itoa lapNumber @ ''-'' @ eventType @ ''-'' @ ruleID)"

definition baseFrameEvent :: "string \<Rightarrow> int \<Rightarrow> int \<Rightarrow> string \<Rightarrow> string \<Rightarrow> string \<Rightarrow> MetricEvidence list \<Rightarrow>
    TimeRange option \<Rightarrow> CatalogRef option \<Rightarrow> CatalogRef option \<Rightarrow> EngineerEvent" where
  "baseFrameEvent sessionID lapNumber timestampUnixMs eventType severity ruleID metrics eventRange track layout =
    \<lparr>eEventID = frameEventID sessionID lapNumber eventType eventRange, eSessionID = sessionID, eVersion = ContractVersionV1,
     eType = eventType, eSeverity = severity, eConfidence = confidenceForSeverity severity, eTimestampUnixMs = timestampUnixMs,
     eTimeRange = eventRange, eLapNumber = lapNumber, eTrack = track, eLayout = layout, eCorner = None, eMetrics = metrics,
     eSource = \<lparr>esKind = ''deterministic_rule'', esRuleID = ruleID, esRuleVersion = ''v1''\<rparr>\<rparr>"

definition basePreviousLapRegressionEvent :: "string \<Rightarrow> int \<Rightarrow> int \<Rightarrow> string \<Rightarrow> MetricEvidence list \<Rightarrow>
    CatalogRef option \<Rightarrow> CatalogRef option \<Rightarrow> EngineerEvent" where
  "basePreviousLapRegressionEvent sessionID lapNumber timestampUnixMs severity metrics track layout =
    (baseFrameEvent sessionID lapNumber timestampUnixMs ''lap_time_regression'' severity ''lap_time_regression.previous_lap.v1''
       metrics None track layout)
      \<lparr>eEventID := frameRuleEventID sessionID lapNumber ''lap_time_regression'' ''lap_time_regression.previous_lap.v1''\<rparr>"

section \<open>Lap time regressions\<close>

definition regression_threshold :: "int \<Rightarrow> f64 \<Rightarrow> int \<Rightarrow> int" where
  "regression_threshold minDelta pct reference =
    (let ratioThreshold = f_to_int64 (fceil (fmul (f_of_int reference) pct))
     in if ratioThreshold > minDelta then ratioThreshold else minDelta)"

fun regression_loop :: "string \<Rightarrow> FrameEventOptions \<Rightarrow> int set \<Rightarrow> Frame list \<Rightarrow> EngineerEvent list" where
  "regression_loop sessionID options seen [] = []"
| "regression_loop sessionID options seen (frame # frames) =
    (case (fLastLapMs frame, fBestLapMs frame) of
       (Some lastLap, Some best) \<Rightarrow>
         if fLapNumber frame \<le> 0 \<or> lastLap \<le> 0 \<or> best \<le> 0 then regression_loop sessionID options seen frames
         else let completedLapNumber = sub64 (fLapNumber frame) 1 in
           if completedLapNumber < 0 then regression_loop sessionID options seen frames
           else if completedLapNumber \<in> seen then regression_loop sessionID options seen frames
           else
             let threshold = regression_threshold (foLapRegressionMinDeltaMs options) (foLapRegressionDeltaPct options) best;
                 delta = sub64 lastLap best
             in if delta < threshold then regression_loop sessionID options seen frames
                else baseFrameEvent sessionID completedLapNumber (fTimestampUnixMs frame) ''lap_time_regression''
                    (severityForInt64 delta (mul64 threshold 2) (mul64 threshold 3)) ''lap_time_regression.v1''
                    [evidence ''lastLapMs'' (f_of_int lastLap) ''ms'' ''actual'',
                     evidence ''bestLapMs'' (f_of_int best) ''ms'' ''reference'',
                     evidence ''lapRegressionDeltaMs'' (f_of_int delta) ''ms'' ''delta'',
                     evidence ''lapRegressionThresholdMs'' (f_of_int threshold) ''ms'' ''threshold'']
                    (timeRange (fTimestampUnixMs frame) (fTimestampUnixMs frame)) (foTrack options) (foLayout options)
                  # regression_loop sessionID options (insert completedLapNumber seen) frames
     | _ \<Rightarrow> regression_loop sessionID options seen frames)"

definition lapTimeRegressionEvents :: "string \<Rightarrow> Frame list \<Rightarrow> FrameEventOptions \<Rightarrow> EngineerEvent list" where
  "lapTimeRegressionEvents sessionID frames options = regression_loop sessionID options {} frames"

record lapCompletion =
  lcLapNumber :: int
  lcCompletedLapMs :: int
  lcTimestampUnixMs :: int

definition completedLaps :: "Frame list \<Rightarrow> lapCompletion list" where
  "completedLaps frames =
    map (\<lambda>lap. \<lparr>lcLapNumber = lLapNumber lap, lcCompletedLapMs = lLapTimeMs lap, lcTimestampUnixMs = lCompletedAtUnixMs lap\<rparr>)
      (ExtractCompleted ''events'' frames)"

fun pace_loop :: "string \<Rightarrow> (int \<rightharpoonup> lapCompletion) \<Rightarrow> CatalogRef option \<Rightarrow> CatalogRef option \<Rightarrow> lapCompletion list \<Rightarrow>
    EngineerEvent list" where
  "pace_loop sessionID completionByLap track layout [] = []"
| "pace_loop sessionID completionByLap track layout (c # cs) =
    (case completionByLap (sub64 (lcLapNumber c) 1) of
       None \<Rightarrow> pace_loop sessionID completionByLap track layout cs
     | Some previous \<Rightarrow>
       if lcCompletedLapMs previous \<le> 0 then pace_loop sessionID completionByLap track layout cs
       else
         let threshold = regression_threshold 1500 (rnd (3 / 100)) (lcCompletedLapMs previous);
             delta = sub64 (lcCompletedLapMs c) (lcCompletedLapMs previous)
         in if delta < threshold then pace_loop sessionID completionByLap track layout cs
            else basePreviousLapRegressionEvent sessionID (lcLapNumber c) (lcTimestampUnixMs c)
                (severityForInt64 delta (mul64 threshold 2) (mul64 threshold 3))
                [evidence ''completedLapMs'' (f_of_int (lcCompletedLapMs c)) ''ms'' ''actual'',
                 evidence ''previousCompletedLapMs'' (f_of_int (lcCompletedLapMs previous)) ''ms'' ''reference'',
                 evidence ''lapPaceDropDeltaMs'' (f_of_int delta) ''ms'' ''delta'',
                 evidence ''lapPaceDropThresholdMs'' (f_of_int threshold) ''ms'' ''threshold''] track layout
              # pace_loop sessionID completionByLap track layout cs)"

definition previousLapRegressionEvents :: "string \<Rightarrow> Frame list \<Rightarrow> Frame list \<Rightarrow> CatalogRef option \<Rightarrow> CatalogRef option \<Rightarrow>
    EngineerEvent list" where
  "previousLapRegressionEvents sessionID accumulatedFrames appendedFrames track layout =
    (let appendedCompletions = completedLaps appendedFrames in
     if length appendedCompletions = 0 then []
     else
       let completionByLap = foldl (\<lambda>m c. m(lcLapNumber c \<mapsto> c)) Map.empty (completedLaps accumulatedFrames)
       in pace_loop sessionID completionByLap track layout appendedCompletions)"

section \<open>Off-track stints\<close>

text \<open>The streak variables of the code: \<open>None\<close> while inactive, else start, end and count.\<close>

definition emit_stint :: "string \<Rightarrow> FrameEventOptions \<Rightarrow> (Frame \<times> Frame \<times> int) option \<Rightarrow> EngineerEvent list" where
  "emit_stint sessionID options streak =
    (case streak of None \<Rightarrow> []
     | Some (streakStart, streakEnd, streakCount) \<Rightarrow>
       let durationMs = sub64 (fTimestampUnixMs streakEnd) (fTimestampUnixMs streakStart) in
       if durationMs < foOffTrackMinDurationMs options then []
       else
         let severity = severityForInt64 durationMs (foOffTrackMediumDurationMs options) (foOffTrackHighDurationMs options);
             lapNumber = (if fLapNumber streakStart < 0 then 0 else fLapNumber streakStart)
         in [baseFrameEvent sessionID lapNumber (fTimestampUnixMs streakEnd) ''off_track_stint'' severity ''off_track_stint.v1''
              [evidence ''offTrackDurationMs'' (f_of_int durationMs) ''ms'' ''actual'',
               evidence ''offTrackFrameCount'' (f_of_int streakCount) ''frames'' ''actual'',
               evidence ''offTrackThresholdMs'' (f_of_int (foOffTrackMinDurationMs options)) ''ms'' ''threshold'']
              (timeRange (fTimestampUnixMs streakStart) (fTimestampUnixMs streakEnd)) (foTrack options) (foLayout options)])"

fun stint_loop :: "string \<Rightarrow> FrameEventOptions \<Rightarrow> (Frame \<times> Frame \<times> int) option \<Rightarrow> Frame list \<Rightarrow> EngineerEvent list" where
  "stint_loop sessionID options streak [] = emit_stint sessionID options streak"
| "stint_loop sessionID options streak (frame # frames) =
    (if \<not> fIsOnTrack frame
     then (case streak of None \<Rightarrow> stint_loop sessionID options (Some (frame, frame, 1)) frames
           | Some (streakStart, streakEnd, streakCount) \<Rightarrow>
               stint_loop sessionID options (Some (streakStart, frame, streakCount + 1)) frames)
     else emit_stint sessionID options streak @ stint_loop sessionID options None frames)"

definition offTrackStintEvents :: "string \<Rightarrow> Frame list \<Rightarrow> FrameEventOptions \<Rightarrow> EngineerEvent list" where
  "offTrackStintEvents sessionID frames options = stint_loop sessionID options None frames"

definition appendOffTrackTail :: "Frame list \<Rightarrow> Frame list \<Rightarrow> Frame list" where
  "appendOffTrackTail accumulated appended =
    (let offTail = (\<lambda>prefix. rev (take 1 (rev prefix) @ takeWhile (\<lambda>f. \<not> fIsOnTrack f) (drop 1 (rev prefix)))) in
     if length accumulated = 0 then appended
     else if fIsOnTrack (last accumulated) then appended
     else (case appended of
         [] \<Rightarrow> offTail accumulated @ appended
       | first # _ \<Rightarrow>
         let earlier = dropWhile (\<lambda>f. \<not> fTimestampUnixMs f < fTimestampUnixMs first) (rev accumulated);
             stop = (if earlier = [] then length accumulated else length earlier)
         in if stop = 0 then appended
            else let prefix = take stop accumulated in
              if fIsOnTrack (last prefix) then appended else offTail prefix @ appended))"

section \<open>Generation\<close>

definition GenerateFrameEventsWithOptions :: "string \<Rightarrow> Frame list \<Rightarrow> FrameEventOptions \<Rightarrow> ev_err + EngineerEvent list" where
  "GenerateFrameEventsWithOptions sessionID frames options =
    (if sessionID = [] then Inl EvMissingSessionID
     else
       let options = normalizeFrameEventOptions options;
           events = lapTimeRegressionEvents sessionID frames options @ offTrackStintEvents sessionID frames options
       in case validate_events events of Some e \<Rightarrow> Inl e | None \<Rightarrow> Inr events)"

definition GenerateFrameEvents :: "string \<Rightarrow> Frame list \<Rightarrow> ev_err + EngineerEvent list" where
  "GenerateFrameEvents sessionID frames = GenerateFrameEventsWithOptions sessionID frames DefaultFrameEventOptions"

definition GenerateFrameEventsForAppendWithRefs :: "string \<Rightarrow> Frame list \<Rightarrow> Frame list \<Rightarrow> CatalogRef option \<Rightarrow> CatalogRef option \<Rightarrow>
    ev_err + EngineerEvent list" where
  "GenerateFrameEventsForAppendWithRefs sessionID accumulatedFrames appendedFrames track layout =
    (if sessionID = [] then Inl EvMissingSessionID
     else
       let options = DefaultFrameEventOptions\<lparr>foTrack := track, foLayout := layout\<rparr>;
           events = lapTimeRegressionEvents sessionID appendedFrames options;
           events = events @ previousLapRegressionEvents sessionID accumulatedFrames appendedFrames track layout;
           events = events @ offTrackStintEvents sessionID (appendOffTrackTail accumulatedFrames appendedFrames) options
       in case validate_events events of Some e \<Rightarrow> Inl e | None \<Rightarrow> Inr events)"

definition GenerateFrameEventsForAppend :: "string \<Rightarrow> Frame list \<Rightarrow> Frame list \<Rightarrow> ev_err + EngineerEvent list" where
  "GenerateFrameEventsForAppend sessionID accumulatedFrames appendedFrames =
    GenerateFrameEventsForAppendWithRefs sessionID accumulatedFrames appendedFrames None None"

section \<open>Every event is valid\<close>

lemma frameEventID_not_empty: "frameEventID sid n t r \<noteq> []"
  unfolding frameEventID_def
  by (cases r) (simp_all, rule sanitizeID_not_empty [of "CHR ''l''"], simp_all add: id_chars_kinds,
      rule sanitizeID_not_empty [of "CHR ''l''"], simp_all add: id_chars_kinds)

lemma frameRuleEventID_not_empty: "frameRuleEventID sid n t r \<noteq> []"
  unfolding frameRuleEventID_def by (rule sanitizeID_not_empty [of "CHR ''l''"]) (simp_all add: id_chars_kinds)

text \<open>What the session passes to the builders.\<close>

definition refs_ok :: "string \<Rightarrow> CatalogRef option \<Rightarrow> CatalogRef option \<Rightarrow> bool" where
  "refs_ok sid track layout \<longleftrightarrow> sid \<noteq> [] \<and> ref_Validate track = None \<and> ref_Validate layout = None"

abbreviation event_of :: "string \<Rightarrow> EngineerEvent \<Rightarrow> bool" where
  "event_of sid e \<equiv> event_Validate e = None \<and> eSessionID e = sid"

lemma baseFrameEvent_valid:
  assumes "refs_ok sid track layout" "0 \<le> n" "0 < ts" "supportedType t" "supportedSeverity s" "\<not> range_invalid r"
    and "ms \<noteq> []" "list_all (\<lambda>m. metric_Validate m = None) ms"
  shows "event_of sid (baseFrameEvent sid n ts t s rid ms r track layout)"
    and "event_of sid (basePreviousLapRegressionEvent sid n ts s ms track layout)"
proof -
  have t: "supportedType ''lap_time_regression''" by code_simp
  have n: "ref_Validate None = None" by (simp add: ref_Validate_def)
  have "event_Validate (baseFrameEvent sid n ts t s rid ms r track layout) = None"
    by (rule built_event_valid) (use assms n in \<open>simp_all add: baseFrameEvent_def refs_ok_def frameEventID_not_empty\<close>)
  moreover have "event_Validate (basePreviousLapRegressionEvent sid n ts s ms track layout) = None"
    by (rule built_event_valid)
      (use assms n t in \<open>simp_all add: basePreviousLapRegressionEvent_def baseFrameEvent_def refs_ok_def frameRuleEventID_not_empty\<close>)
  ultimately show "event_of sid (baseFrameEvent sid n ts t s rid ms r track layout)"
      "event_of sid (basePreviousLapRegressionEvent sid n ts s ms track layout)"
    by (simp_all add: baseFrameEvent_def basePreviousLapRegressionEvent_def)
qed

lemma frame_names:
  "list_all (\<lambda>n. n \<noteq> [] \<and> \<not> rawTelemetryMetric n) [''lastLapMs'', ''bestLapMs'', ''lapRegressionDeltaMs'', ''lapRegressionThresholdMs'',
     ''completedLapMs'', ''previousCompletedLapMs'', ''lapPaceDropDeltaMs'', ''lapPaceDropThresholdMs'', ''offTrackDurationMs'',
     ''offTrackFrameCount'', ''offTrackThresholdMs'']"
  "supportedType ''lap_time_regression''" "supportedType ''off_track_stint''"
  by code_simp+

lemma f_to_int64_in64: "in64 (f_to_int64 x)"
  by (simp add: f_to_int64_def Let_def in64_def)

lemma regression_threshold_in64: "in64 m \<Longrightarrow> in64 (regression_threshold m pct r)"
  by (simp add: regression_threshold_def Let_def f_to_int64_in64)

lemma sub64_in64 [simp]: "in64 (sub64 a b)"
  by (simp add: sub64_def)

definition options_ok :: "FrameEventOptions \<Rightarrow> bool" where
  "options_ok opts \<longleftrightarrow> in64 (foLapRegressionMinDeltaMs opts) \<and> in64 (foOffTrackMinDurationMs opts)"

lemma four_metrics_valid:
  assumes "in64 a" "in64 b" "in64 c" "in64 d"
  shows "list_all (\<lambda>m. metric_Validate m = None)
     [evidence ''lastLapMs'' (f_of_int a) ''ms'' ''actual'', evidence ''bestLapMs'' (f_of_int b) ''ms'' ''reference'',
      evidence ''lapRegressionDeltaMs'' (f_of_int c) ''ms'' ''delta'', evidence ''lapRegressionThresholdMs'' (f_of_int d) ''ms'' ''threshold'']"
   and "list_all (\<lambda>m. metric_Validate m = None)
     [evidence ''completedLapMs'' (f_of_int a) ''ms'' ''actual'', evidence ''previousCompletedLapMs'' (f_of_int b) ''ms'' ''reference'',
      evidence ''lapPaceDropDeltaMs'' (f_of_int c) ''ms'' ''delta'', evidence ''lapPaceDropThresholdMs'' (f_of_int d) ''ms'' ''threshold'']"
  using frame_names(1) assms by (simp_all add: evidence_valid f_of_int_fin)

lemma regression_loop_valid:
  assumes "refs_ok sid (foTrack opts) (foLayout opts)" "options_ok opts"
  shows "list_all frame_valid fs \<Longrightarrow> list_all frame_in64 fs \<Longrightarrow> list_all (event_of sid) (regression_loop sid opts seen fs)"
proof (induction fs arbitrary: seen)
  case (Cons f fs)
  show ?case
  proof (cases "fLastLapMs f"; cases "fBestLapMs f")
    fix l b assume lb: "fLastLapMs f = Some l" "fBestLapMs f = Some b"
    then have i: "in64 l" "in64 b" "in64 (fLapNumber f)" "0 < fTimestampUnixMs f"
      using Cons.prems by (auto simp: frame_in64_def frame_valid_def)
    have th: "in64 (regression_threshold (foLapRegressionMinDeltaMs opts) (foLapRegressionDeltaPct opts) b)"
      using assms(2) by (simp add: options_ok_def regression_threshold_in64)
    let ?n = "sub64 (fLapNumber f) 1"
    have ev: "event_of sid (baseFrameEvent sid ?n (fTimestampUnixMs f) ''lap_time_regression'' (severityForInt64 x y z) rid
        [evidence ''lastLapMs'' (f_of_int l) ''ms'' ''actual'', evidence ''bestLapMs'' (f_of_int b) ''ms'' ''reference'',
         evidence ''lapRegressionDeltaMs'' (f_of_int (sub64 l b)) ''ms'' ''delta'',
         evidence ''lapRegressionThresholdMs'' (f_of_int (regression_threshold (foLapRegressionMinDeltaMs opts) (foLapRegressionDeltaPct opts) b))
           ''ms'' ''threshold''] (timeRange (fTimestampUnixMs f) (fTimestampUnixMs f)) (foTrack opts) (foLayout opts))"
      if "0 \<le> ?n" for x y z rid
      using that i frame_names th by (intro baseFrameEvent_valid assms four_metrics_valid) simp_all
    show ?thesis using Cons.IH Cons.prems ev lb by (simp add: Let_def)
  qed (use Cons in simp_all)
qed simp

lemma emit_stint_valid:
  assumes "refs_ok sid (foTrack opts) (foLayout opts)" "options_ok opts"
    and "case streak of None \<Rightarrow> True | Some (a, b, c) \<Rightarrow> 0 < fTimestampUnixMs b \<and> in64 c"
  shows "list_all (event_of sid) (emit_stint sid opts streak)"
proof (cases streak)
  case None then show ?thesis by (simp add: emit_stint_def)
next
  case (Some t)
  obtain a b c where t: "t = (a, b, c)" by (cases t)
  have m: "list_all (\<lambda>m. metric_Validate m = None)
      [evidence ''offTrackDurationMs'' (f_of_int (sub64 (fTimestampUnixMs b) (fTimestampUnixMs a))) ''ms'' ''actual'',
       evidence ''offTrackFrameCount'' (f_of_int c) ''frames'' ''actual'',
       evidence ''offTrackThresholdMs'' (f_of_int (foOffTrackMinDurationMs opts)) ''ms'' ''threshold'']"
    using frame_names(1) assms(2,3) Some t by (simp add: evidence_valid f_of_int_fin options_ok_def)
  have "event_of sid (baseFrameEvent sid (if fLapNumber a < 0 then 0 else fLapNumber a) (fTimestampUnixMs b) ''off_track_stint''
      (severityForInt64 x y z) rid
      [evidence ''offTrackDurationMs'' (f_of_int (sub64 (fTimestampUnixMs b) (fTimestampUnixMs a))) ''ms'' ''actual'',
       evidence ''offTrackFrameCount'' (f_of_int c) ''frames'' ''actual'',
       evidence ''offTrackThresholdMs'' (f_of_int (foOffTrackMinDurationMs opts)) ''ms'' ''threshold'']
      (timeRange (fTimestampUnixMs a) (fTimestampUnixMs b)) (foTrack opts) (foLayout opts))" for x y z rid
    using m frame_names assms(3) Some t by (intro baseFrameEvent_valid assms(1)) simp_all
  then show ?thesis by (simp add: emit_stint_def Some t Let_def)
qed

section \<open>Stints are the maximal off-track runs\<close>

abbreviation off_track :: "Frame \<Rightarrow> bool" where "off_track f \<equiv> \<not> fIsOnTrack f"

function off_runs :: "Frame list \<Rightarrow> Frame list list" where
  "off_runs [] = []"
| "off_runs (f # fs) =
    (if fIsOnTrack f then off_runs fs else (f # takeWhile off_track fs) # off_runs (dropWhile off_track fs))"
  by pat_completeness auto
termination by (relation "measure length") (auto simp: le_imp_less_Suc length_dropWhile_le)

definition run_streak :: "Frame list \<Rightarrow> (Frame \<times> Frame \<times> int) option" where
  "run_streak r = Some (hd r, last r, int (length r))"

lemma stint_loop_run:
  "stint_loop sid opts (Some (a, b, c)) fs =
    emit_stint sid opts (Some (a, last (b # takeWhile off_track fs), c + int (length (takeWhile off_track fs)))) @
    stint_loop sid opts None (dropWhile off_track fs)"
  by (induction fs arbitrary: b c) (auto simp: emit_stint_def [of _ _ None] add.assoc)

lemma stint_loop_eq: "stint_loop sid opts None fs = concat (map (\<lambda>r. emit_stint sid opts (run_streak r)) (off_runs fs))"
proof (induction fs rule: off_runs.induct)
  case (2 f fs)
  then show ?case
    by (cases "fIsOnTrack f") (simp_all add: emit_stint_def [of _ _ None] stint_loop_run run_streak_def)
qed (simp add: emit_stint_def)

lemma off_runs_set: "r \<in> set (off_runs fs) \<Longrightarrow> r \<noteq> [] \<and> set r \<subseteq> set fs \<and> length r \<le> length fs"
proof (induction fs rule: off_runs.induct)
  case (2 f fs)
  have "set (dropWhile off_track fs) \<subseteq> set fs" "length (dropWhile off_track fs) \<le> length fs"
    "set (takeWhile off_track fs) \<subseteq> set fs" "length (takeWhile off_track fs) \<le> length fs"
    using set_dropWhileD set_takeWhileD by (force simp: length_dropWhile_le length_takeWhile_le)+
  then show ?case using 2 by (cases "fIsOnTrack f") fastforce+
qed simp

lemma last_off_runs:
  "fs \<noteq> [] \<Longrightarrow> off_track (last fs) \<Longrightarrow> off_runs fs \<noteq> [] \<and> last (off_runs fs) = rev (takeWhile off_track (rev fs))"
proof (induction fs rule: off_runs.induct)
  case (2 f fs)
  show ?case
  proof (cases "fs = []")
    case True then show ?thesis using "2.prems" by simp
  next
    case ne: False
    then have lf: "last (f # fs) = last fs" by simp
    show ?thesis
    proof (cases "fIsOnTrack f")
      case True
      then have "takeWhile off_track (rev fs @ [f]) = takeWhile off_track (rev fs)" by (simp add: takeWhile_tail)
      with 2 True ne lf show ?thesis by simp
    next
      case off: False
      let ?d = "dropWhile off_track fs"
      show ?thesis
      proof (cases "?d = []")
        case True
        then have "\<forall>x \<in> set fs. off_track x" by (simp add: dropWhile_eq_Nil_conv)
        then have t: "takeWhile off_track (rev fs @ [f]) = rev fs @ [f]" "takeWhile off_track fs = fs" using off by simp_all
        show ?thesis using off by (simp only: off_runs.simps if_False True rev.simps t last_ConsL) simp
      next
        case False
        have split: "fs = takeWhile off_track fs @ ?d" by simp
        have l: "last ?d = last fs" using False split by (metis last_appendR)
        have on: "fIsOnTrack (hd ?d)" using hd_dropWhile [OF False] by simp
        have "\<exists>x \<in> set (rev ?d). \<not> off_track x" using on False by (metis hd_in_set set_rev)
        then have t: "takeWhile off_track (rev ?d @ rev (takeWhile off_track fs) @ [f]) = takeWhile off_track (rev ?d)"
          by (metis takeWhile_append1)
        have "rev (f # fs) = rev ?d @ rev (takeWhile off_track fs) @ [f]"
          using split by (metis append.assoc rev.simps(2) rev_append)
        then show ?thesis using "2.IH"(2) [OF off False] "2.prems" lf l off t by simp
      qed
    qed
  qed
qed simp

section \<open>Properties\<close>

lemma stints_runs_simp:
  "offTrackStintEvents sid frames opts =
     concat (map (\<lambda>r. emit_stint sid opts (Some (hd r, last r, int (length r)))) (off_runs frames))"
  by (simp add: offTrackStintEvents_def stint_loop_eq run_streak_def)

text \<open>C16: Off-track stints are the maximal off-track runs of the frames: one event per run that lasts at least the
  minimum duration, with the first and last frame and the number of frames of the run, in order.\<close>

theorem stints_are_maximal_runs:
  "offTrackStintEvents sid frames opts =
     concat (map (\<lambda>r. emit_stint sid opts (Some (hd r, last r, int (length r)))) (off_runs frames))"
  by (rule stints_runs_simp)

lemma offTrackStintEvents_valid:
  assumes "refs_ok sid (foTrack opts) (foLayout opts)" "options_ok opts" "list_all frame_valid fs" "int (length fs) < 2 ^ 62"
  shows "list_all (event_of sid) (offTrackStintEvents sid fs opts)"
proof -
  have "list_all (event_of sid) (emit_stint sid opts (run_streak r))" if r: "r \<in> set (off_runs fs)" for r
  proof (rule emit_stint_valid [OF assms(1,2)])
    have "last r \<in> set fs" using off_runs_set [OF r] by auto
    then show "case run_streak r of None \<Rightarrow> True | Some (a, b, c) \<Rightarrow> 0 < fTimestampUnixMs b \<and> in64 c"
      using off_runs_set [OF r] assms(3,4) by (auto simp: run_streak_def list_all_iff frame_valid_def in64_def)
  qed
  then show ?thesis by (auto simp: offTrackStintEvents_def stint_loop_eq list_all_iff)
qed

lemma completedLaps_ok:
  assumes "list_all frame_valid fs" "list_all frame_in64 fs" "c \<in> set (completedLaps fs)"
  shows "0 \<le> lcLapNumber c \<and> in64 (lcLapNumber c) \<and> in64 (lcCompletedLapMs c) \<and> 0 < lcTimestampUnixMs c"
proof -
  have "\<forall>f \<in> set fs. frame_in64 f" using assms(2) by (simp add: list_all_iff)
  from extract_completed_spec [OF this, of "''events''"] obtain n f where
    f: "first_completing fs n = Some f" "c = \<lparr>lcLapNumber = lLapNumber (lap_of ''events'' f),
        lcCompletedLapMs = lLapTimeMs (lap_of ''events'' f), lcTimestampUnixMs = lCompletedAtUnixMs (lap_of ''events'' f)\<rparr>"
    using assms(3) by (auto simp: completedLaps_def)
  from first_completing_Some [OF f(1)] assms(2) show ?thesis
    by (auto simp: f(2) lap_of_def completes_def list_all_iff frame_in64_def in64_def)
qed

lemma pace_loop_valid:
  assumes "refs_ok sid track layout" "\<forall>k p. m k = Some p \<longrightarrow> in64 (lcCompletedLapMs p)"
  shows "list_all (\<lambda>c. 0 \<le> lcLapNumber c \<and> in64 (lcCompletedLapMs c) \<and> 0 < lcTimestampUnixMs c) cs \<Longrightarrow>
    list_all (event_of sid) (pace_loop sid m track layout cs)"
proof (induction cs)
  case (Cons c cs)
  show ?case
  proof (cases "m (sub64 (lcLapNumber c) 1)")
    case (Some p)
    then have p: "in64 (lcCompletedLapMs p)" using assms(2) by blast
    have th: "in64 (regression_threshold 1500 (rnd (3 / 100)) (lcCompletedLapMs p))"
      by (rule regression_threshold_in64) (simp add: in64_def)
    have "event_of sid (basePreviousLapRegressionEvent sid (lcLapNumber c) (lcTimestampUnixMs c) (severityForInt64 x y z)
        [evidence ''completedLapMs'' (f_of_int (lcCompletedLapMs c)) ''ms'' ''actual'',
         evidence ''previousCompletedLapMs'' (f_of_int (lcCompletedLapMs p)) ''ms'' ''reference'',
         evidence ''lapPaceDropDeltaMs'' (f_of_int (sub64 (lcCompletedLapMs c) (lcCompletedLapMs p))) ''ms'' ''delta'',
         evidence ''lapPaceDropThresholdMs'' (f_of_int (regression_threshold 1500 (rnd (3 / 100)) (lcCompletedLapMs p))) ''ms'' ''threshold'']
        track layout)" for x y z
      using Cons.prems p th frame_names(2)
      by (intro baseFrameEvent_valid(2) [where t = "''lap_time_regression''" and r = None] assms(1) four_metrics_valid) simp_all
    then show ?thesis using Cons Some by (simp add: Let_def)
  qed (use Cons in simp)
qed simp

lemma foldl_map_values: "foldl (\<lambda>m c. m(k c \<mapsto> c)) m cs j = Some p \<Longrightarrow> p \<in> set cs \<or> m j = Some p"
proof (induction cs arbitrary: m)
  case (Cons c cs)
  from Cons.IH [of "m(k c \<mapsto> c)"] Cons.prems show ?case by (auto split: if_splits)
qed simp

lemma offTail_set: "set (rev (take 1 (rev p) @ takeWhile P (drop 1 (rev p)))) \<subseteq> set p"
    "length (rev (take 1 (rev p) @ takeWhile P (drop 1 (rev p)))) \<le> length p"
proof -
  have "set (take 1 (rev p)) \<subseteq> set p" "set (takeWhile P (drop 1 (rev p))) \<subseteq> set p"
    using set_take_subset [of 1 "rev p"] set_drop_subset [of 1 "rev p"] by (auto dest: set_takeWhileD)
  then show "set (rev (take 1 (rev p) @ takeWhile P (drop 1 (rev p)))) \<subseteq> set p" by simp
  have "length (takeWhile P (drop 1 (rev p))) \<le> length p - 1" using length_takeWhile_le [of P "drop 1 (rev p)"] by simp
  then show "length (rev (take 1 (rev p) @ takeWhile P (drop 1 (rev p)))) \<le> length p" by (cases "length p") auto
qed

lemma appendOffTrackTail_bounds:
  "set (appendOffTrackTail acc app) \<subseteq> set acc \<union> set app \<and> length (appendOffTrackTail acc app) \<le> length acc + length app"
proof -
  have t: "set (rev (take 1 (rev (take n acc)) @ takeWhile off_track (drop 1 (rev (take n acc))))) \<subseteq> set acc"
    "length (rev (take 1 (rev (take n acc)) @ takeWhile off_track (drop 1 (rev (take n acc))))) \<le> length acc" for n
    using offTail_set [of "take n acc" off_track] set_take_subset [of n acc] by (blast, simp)
  have t': "set (rev (take 1 (rev acc) @ takeWhile off_track (drop 1 (rev acc)))) \<subseteq> set acc"
    "length (rev (take 1 (rev acc) @ takeWhile off_track (drop 1 (rev acc)))) \<le> length acc"
    using offTail_set [of acc off_track] by simp_all
  show ?thesis
    unfolding appendOffTrackTail_def Let_def using t t'
    by (cases app) (simp_all only: if_split set_append length_append list.case, auto)
qed

lemma frame_events_valid:
  assumes "refs_ok sid track layout" "list_all frame_valid (acc @ app)" "list_all frame_in64 (acc @ app)"
    and "int (length (acc @ app)) < 2 ^ 62"
  shows "\<exists>es. GenerateFrameEventsForAppendWithRefs sid acc app track layout = Inr es \<and>
    list_all (\<lambda>e. event_Validate e = None \<and> eSessionID e = sid) es"
proof -
  let ?o = "DefaultFrameEventOptions\<lparr>foTrack := track, foLayout := layout\<rparr>"
  let ?off = "appendOffTrackTail acc app"
  have o: "refs_ok sid (foTrack ?o) (foLayout ?o)" "options_ok ?o"
    using assms(1) by (simp_all add: options_ok_def DefaultFrameEventOptions_def in64_def)
  have v: "list_all frame_valid app" "list_all frame_in64 app" "list_all frame_valid acc" "list_all frame_in64 acc"
    using assms(2,3) by simp_all
  have "list_all frame_valid ?off" "int (length ?off) < 2 ^ 62"
    using appendOffTrackTail_bounds [of acc app] v(1,3) assms(4) by (auto simp: list_all_iff)
  then have a: "list_all (event_of sid) (offTrackStintEvents sid ?off ?o)" by (intro offTrackStintEvents_valid o)
  have b: "list_all (event_of sid) (lapTimeRegressionEvents sid app ?o)"
    unfolding lapTimeRegressionEvents_def by (intro regression_loop_valid o v)
  let ?m = "foldl (\<lambda>m c. m(lcLapNumber c \<mapsto> c)) Map.empty (completedLaps acc)"
  have "\<forall>k p. ?m k = Some p \<longrightarrow> in64 (lcCompletedLapMs p)"
    using foldl_map_values [of lcLapNumber Map.empty "completedLaps acc"] completedLaps_ok [OF v(3,4)] by fastforce
  then have c: "list_all (event_of sid) (previousLapRegressionEvents sid acc app track layout)"
    unfolding previousLapRegressionEvents_def Let_def
    using completedLaps_ok [OF v(1,2)] pace_loop_valid [OF assms(1), of ?m "completedLaps app"] by (simp add: list_all_iff)
  let ?es = "lapTimeRegressionEvents sid app ?o @ previousLapRegressionEvents sid acc app track layout @ offTrackStintEvents sid ?off ?o"
  have l: "list_all (event_of sid) ?es" using a b c by simp
  then have "validate_events ?es = None" by (simp add: validate_events_iff list_all_iff)
  moreover have "sid \<noteq> []" using assms(1) by (simp add: refs_ok_def)
  ultimately have "GenerateFrameEventsForAppendWithRefs sid acc app track layout = Inr ?es"
    by (simp add: GenerateFrameEventsForAppendWithRefs_def Let_def)
  with l show ?thesis by blast
qed

text \<open>Ingest never fails on event generation: for a batch of valid frames of a session, whatever is stored, the
  generation returns events, and each is a valid event of the session.\<close>

theorem frame_events_never_fail:
  assumes "refs_ok sid track layout" "list_all frame_valid (acc @ app)" "list_all frame_in64 (acc @ app)"
    and "int (length (acc @ app)) < 2 ^ 62"
  shows "\<exists>es. GenerateFrameEventsForAppendWithRefs sid acc app track layout = Inr es \<and>
    list_all (\<lambda>e. event_Validate e = None \<and> eSessionID e = sid) es"
  using assms by (rule frame_events_valid)

lemma takeWhile_append_takeWhile: "takeWhile P (xs @ takeWhile P ys) = takeWhile P (xs @ ys)"
  by (induction xs) auto

text \<open>An open stint is measured from its true start: when a batch ends off track and every stored earlier frame is
  earlier, the frames given to the stint rule end in exactly the maximal off-track run at the end of the whole session.\<close>

theorem open_stint_from_true_start:
  assumes "app \<noteq> []" "off_track (last app)" "prior \<noteq> []"
    and "list_all (\<lambda>f. fTimestampUnixMs f < fTimestampUnixMs (hd app)) prior"
    and "list_all (\<lambda>f. fTimestampUnixMs (hd app) \<le> fTimestampUnixMs f) app"
  shows "off_runs (appendOffTrackTail (prior @ app) app) \<noteq> [] \<and>
    last (off_runs (appendOffTrackTail (prior @ app) app)) = last (off_runs (prior @ app))"
proof -
  obtain f fs where app: "app = f # fs" using assms(1) by (cases app) auto
  let ?late = "\<lambda>x. \<not> fTimestampUnixMs x < fTimestampUnixMs f"
  have "dropWhile ?late (rev app @ rev prior) = dropWhile ?late (rev prior)"
    using assms(5) by (intro dropWhile_append2) (auto simp: list_all_iff app)
  also have "dropWhile ?late (rev prior) = rev prior"
    using assms(3,4) by (cases prior rule: rev_cases) (simp_all add: app)
  finally have e: "dropWhile ?late (rev (prior @ app)) = rev prior" by simp
  let ?tail = "rev (take 1 (rev prior) @ takeWhile off_track (drop 1 (rev prior)))"
  have r: "appendOffTrackTail (prior @ app) app = (if fIsOnTrack (last prior) then app else ?tail @ app)"
    unfolding appendOffTrackTail_def Let_def using assms(2,3) e by (simp add: app)
  have t: "takeWhile off_track (rev prior) = take 1 (rev prior) @ takeWhile off_track (drop 1 (rev prior))"
    if "\<not> fIsOnTrack (last prior)" using that assms(3) by (cases prior rule: rev_cases) simp_all
  have w: "takeWhile off_track (rev (appendOffTrackTail (prior @ app) app)) = takeWhile off_track (rev (prior @ app))"
  proof (cases "fIsOnTrack (last prior)")
    case True
    then have "takeWhile off_track (rev prior) = []" using assms(3) by (cases prior rule: rev_cases) simp_all
    then have "takeWhile off_track (rev app @ rev prior) = takeWhile off_track (rev app @ [])"
      by (simp only: takeWhile_append) simp
    with True r show ?thesis by simp
  next
    case False
    have "rev ?tail = takeWhile off_track (rev prior)" by (simp only: rev_rev_ident t [OF False])
    then have "takeWhile off_track (rev app @ rev ?tail) = takeWhile off_track (rev app @ rev prior)"
      by (simp only: takeWhile_append_takeWhile)
    with False r show ?thesis by (simp only: if_False rev_append)
  qed
  have l: "off_track (last (appendOffTrackTail (prior @ app) app))" "appendOffTrackTail (prior @ app) app \<noteq> []"
    using r assms(1,2) by simp_all
  have l': "off_track (last (prior @ app))" "prior @ app \<noteq> []" using assms(1,2) by simp_all
  show ?thesis using last_off_runs [OF l(2,1)] last_off_runs [OF l'(2,1)] w by simp
qed

definition demo_off :: "int \<Rightarrow> Frame" where
  "demo_off ts = (sample_frame ts 1 0)\<lparr>fIsOnTrack := False\<rparr>"

lemma demo_off_simps [simp]:
  "fIsOnTrack (demo_off ts) = False" "fTimestampUnixMs (demo_off ts) = ts" "fLapNumber (demo_off ts) = 1"
  "fIsOnTrack (sample_frame ts n c)" "fTimestampUnixMs (sample_frame ts n c) = ts"
  by (simp_all add: demo_off_def sample_frame_def)

theorem frame_events_never_fail_witness:
  "\<exists>es. GenerateFrameEventsForAppendWithRefs ''s'' [demo_off 1000] [demo_off 1600] None None = Inr es \<and>
    list_all (\<lambda>e. event_Validate e = None \<and> eSessionID e = ''s'') es"
proof (rule frame_events_never_fail)
  have "frame_valid (demo_off 1000)" "frame_valid (demo_off 1600)"
    using sample_frame_valid [of 1000 1 0] sample_frame_valid [of 1600 1 0] by (simp_all add: demo_off_def frame_valid_def)
  then show "list_all frame_valid ([demo_off 1000] @ [demo_off 1600])" by simp
qed (simp_all add: refs_ok_def ref_Validate_def demo_off_def sample_frame_def frame_in64_def in64_def)

theorem open_stint_from_true_start_witness:
  "last (off_runs (appendOffTrackTail ([sample_frame 500 1 0, demo_off 1000] @ [demo_off 1600]) [demo_off 1600])) = [demo_off 1000, demo_off 1600]"
  using open_stint_from_true_start [of "[demo_off 1600]" "[sample_frame 500 1 0, demo_off 1000]"]
  by simp

text \<open>A stint that crosses a batch boundary and ends inside the batch is missed: seven tenths of a second off track,
  longer than the minimum, yield an event when they arrive at once and none when they arrive in two batches.\<close>

theorem split_stint_missed:
  "length (offTrackStintEvents ''s'' ([demo_off 1000, demo_off 1300] @ [demo_off 1400, demo_off 1700, sample_frame 1800 1 0])
      DefaultFrameEventOptions) = 1 \<and>
   offTrackStintEvents ''s'' (appendOffTrackTail [demo_off 1000, demo_off 1300] [demo_off 1000, demo_off 1300]) DefaultFrameEventOptions = [] \<and>
   offTrackStintEvents ''s'' (appendOffTrackTail ([demo_off 1000, demo_off 1300] @ [demo_off 1400, demo_off 1700, sample_frame 1800 1 0])
     [demo_off 1400, demo_off 1700, sample_frame 1800 1 0]) DefaultFrameEventOptions = []"
  by (simp add: stints_runs_simp appendOffTrackTail_def Let_def emit_stint_def DefaultFrameEventOptions_def sub64_id in64_def)

text \<open>The first batch is counted twice: with no earlier frame stored, the search for the start of the batch fails and the
  stored copy of the batch is taken for its prefix.\<close>

theorem first_batch_counted_twice:
  "appendOffTrackTail [demo_off 1000, demo_off 1600] [demo_off 1000, demo_off 1600] =
     [demo_off 1000, demo_off 1600, demo_off 1000, demo_off 1600]"
  by (simp add: appendOffTrackTail_def Let_def)

end
