(* ===== verification/SessionIds.thy ===== *)
theory SessionIds
  imports Prelude "HOL-Library.Word"
begin

unbundle bit_operations_syntax

text \<open>
  \<^verbatim>\<open>internal/sessions/id.go\<close>: session identifiers are ULIDs.  The clock (the Unix time in
  milliseconds) and the ten random bytes, or the failure of the random source, are arguments.
\<close>

section \<open>Encoding\<close>

definition crockfordBase32 :: string where "crockfordBase32 = ''0123456789ABCDEFGHJKMNPQRSTVWXYZ''"

definition alphabet :: "64 word \<Rightarrow> char" where
  "alphabet w = crockfordBase32 ! unat w"

text \<open>\<^verbatim>\<open>binary.BigEndian.Uint64\<close>\<close>

definition big_endian64 :: "8 word list \<Rightarrow> 64 word" where
  "big_endian64 bs = foldl (\<lambda>a b. push_bit 8 a OR ucast b) 0 bs"

definition encodeULID :: "8 word list \<Rightarrow> string" where
  "encodeULID v =
    (let hi = big_endian64 (take 8 v); lo = big_endian64 (take 8 (drop 8 v)) in
     [alphabet (drop_bit 61 hi AND 0x1f), alphabet (drop_bit 56 hi AND 0x1f), alphabet (drop_bit 51 hi AND 0x1f),
      alphabet (drop_bit 46 hi AND 0x1f), alphabet (drop_bit 41 hi AND 0x1f), alphabet (drop_bit 36 hi AND 0x1f),
      alphabet (drop_bit 31 hi AND 0x1f), alphabet (drop_bit 26 hi AND 0x1f), alphabet (drop_bit 21 hi AND 0x1f),
      alphabet (drop_bit 16 hi AND 0x1f), alphabet (drop_bit 11 hi AND 0x1f), alphabet (drop_bit 6 hi AND 0x1f),
      alphabet (drop_bit 1 hi AND 0x1f),
      alphabet (push_bit 4 (hi AND 0x1) OR (drop_bit 60 lo AND 0x0f)),
      alphabet (drop_bit 55 lo AND 0x1f), alphabet (drop_bit 50 lo AND 0x1f), alphabet (drop_bit 45 lo AND 0x1f),
      alphabet (drop_bit 40 lo AND 0x1f), alphabet (drop_bit 35 lo AND 0x1f), alphabet (drop_bit 30 lo AND 0x1f),
      alphabet (drop_bit 25 lo AND 0x1f), alphabet (drop_bit 20 lo AND 0x1f), alphabet (drop_bit 15 lo AND 0x1f),
      alphabet (drop_bit 10 lo AND 0x1f), alphabet (drop_bit 5 lo AND 0x1f), alphabet (lo AND 0x1f)])"

definition newULID :: "int \<Rightarrow> 8 word list option \<Rightarrow> string option" where
  "newULID unixMilli entropy =
    (case entropy of None \<Rightarrow> None
     | Some e \<Rightarrow>
       let millis = word_of_int unixMilli :: 64 word;
           stamp = [ucast (drop_bit 40 millis), ucast (drop_bit 32 millis), ucast (drop_bit 24 millis),
             ucast (drop_bit 16 millis), ucast (drop_bit 8 millis), ucast millis]
       in Some (encodeULID (stamp @ e)))"

definition NewID :: "int \<Rightarrow> 8 word list option \<Rightarrow> string option" where
  "NewID unixMilli entropy = (case newULID unixMilli entropy of None \<Rightarrow> None | Some u \<Rightarrow> Some (''session_'' @ u))"

section \<open>The encoding is base 32\<close>

fun digits32 :: "nat \<Rightarrow> int \<Rightarrow> string" where
  "digits32 0 n = []"
| "digits32 (Suc k) n = crockfordBase32 ! nat (n div 32 ^ k mod 32) # digits32 k n"

text \<open>The number that a list of bytes stands for.\<close>

definition number :: "8 word list \<Rightarrow> int" where
  "number bs = foldl (\<lambda>a b. 256 * a + uint b) 0 bs"

lemma number_snoc: "number (bs @ [b]) = 256 * number bs + uint b"
  by (simp add: number_def)

lemma number_bounds: "0 \<le> number bs \<and> number bs < 256 ^ length bs"
proof (induction bs rule: rev_induct)
  case (snoc b bs)
  have "0 \<le> uint b" "uint b < 256" using uint_lt2p [of b] by simp_all
  with snoc show ?case by (simp add: number_snoc)
qed (simp add: number_def)

lemma number_append: "number (as @ bs) = number as * 256 ^ length bs + number bs"
proof (induction bs rule: rev_induct)
  case (snoc b bs)
  then show ?case by (simp add: number_snoc algebra_simps flip: append_assoc)
qed (simp add: number_def)

lemma digit_split:
  fixes x y a b :: int
  shows "256 * x + a = 256 * y + b \<Longrightarrow> 0 \<le> a \<Longrightarrow> a < 256 \<Longrightarrow> 0 \<le> b \<Longrightarrow> b < 256 \<Longrightarrow> x = y \<and> a = b"
proof -
  have d: "(256 * z + c) div 256 = z" "(256 * z + c) mod 256 = c" if "0 \<le> c" "c < 256" for z c :: int
    using that by simp_all
  assume "256 * x + a = 256 * y + b" "0 \<le> a" "a < 256" "0 \<le> b" "b < 256"
  then show ?thesis using d [of a x] d [of b y] by simp
qed

lemma number_inj: "length as = length bs \<Longrightarrow> number as = number bs \<Longrightarrow> as = bs"
proof (induction as arbitrary: bs rule: rev_induct)
  case (snoc a as)
  then obtain b bs' where bs: "bs = bs' @ [b]" by (cases bs rule: rev_cases) auto
  have u: "0 \<le> uint a" "uint a < 256" "0 \<le> uint b" "uint b < 256" using uint_lt2p [of a] uint_lt2p [of b] by simp_all
  have e: "256 * number as + uint a = 256 * number bs' + uint b" using snoc.prems(2) by (simp add: number_snoc bs)
  have "number as = number bs'" "uint a = uint b" using digit_split [OF e u] by simp_all
  then have "as = bs'" "a = b" using snoc.IH [of bs'] snoc.prems(1) bs by (simp_all add: word_uint_eqI)
  then show ?case by (simp add: bs)
qed simp

lemma push_or_eq: "push_bit 8 (x :: 64 word) OR ucast (b :: 8 word) = 256 * x + ucast b"
proof -
  have "push_bit 8 x AND ucast b = 0"
    by (rule bit_word_eqI) (auto simp: bit_simps dest: bit_imp_le_length)
  then have "push_bit 8 x + ucast b = push_bit 8 x OR ucast b" by (rule disjunctive_add_eq_or)
  then show ?thesis by (simp add: push_bit_eq_mult mult.commute)
qed

lemma big_endian64_number: "big_endian64 bs = word_of_int (number bs)"
proof (induction bs rule: rev_induct)
  case Nil then show ?case by (simp add: big_endian64_def number_def)
next
  case (snoc b bs)
  have "big_endian64 (bs @ [b]) = 256 * big_endian64 bs + ucast b"
    by (simp add: big_endian64_def push_or_eq)
  also have "\<dots> = word_of_int (number (bs @ [b]))"
    by (simp add: snoc number_snoc)
  finally show ?case .
qed

lemma uint_big_endian64: "length bs = 8 \<Longrightarrow> uint (big_endian64 bs) = number bs"
  using number_bounds [of bs] by (simp add: big_endian64_number uint_word_of_int)

lemma and_31: "(w :: 64 word) AND 0x1f = take_bit 5 w"
  by (simp add: take_bit_eq_mask mask_eq_exp_minus_1)

lemma uint_take_drop: "uint (take_bit m (drop_bit k (w :: 64 word))) = uint w div 2 ^ k mod 2 ^ m"
proof -
  have "take_bit LENGTH(64) (uint w) = uint w"
    by (rule take_bit_int_eq_self) (use uint_lt2p [of w] in simp_all)
  then have "uint (take_bit m (drop_bit k w)) = take_bit m (drop_bit k (uint w))"
    by (simp only: unsigned_take_bit_eq unsigned_drop_bit_eq)
  then show ?thesis by (simp only: take_bit_eq_mod drop_bit_eq_div)
qed

text \<open>The digits of a number in base 32, counted from the right.\<close>

definition digit_at :: "int \<Rightarrow> nat \<Rightarrow> char" where
  "digit_at n j = crockfordBase32 ! nat (n div 2 ^ (5 * j) mod 32)"

lemma alphabet_digit: "alphabet (drop_bit k w AND 0x1f) = crockfordBase32 ! nat (uint w div 2 ^ k mod 32)"
  using uint_take_drop [of 5 k w] by (simp only: alphabet_def and_31 unat_eq_nat_uint) simp

lemma digit_hi:
  assumes "5 * j = 64 + k"
  shows "alphabet (drop_bit k h AND 0x1f) = digit_at (uint h * 2 ^ 64 + uint (l :: 64 word)) j"
proof -
  have "(uint h * 2 ^ 64 + uint l) div 2 ^ 64 = uint h" using uint_lt2p [of l] by simp
  then have "(uint h * 2 ^ 64 + uint l) div 2 ^ (64 + k) = uint h div 2 ^ k"
    by (simp only: power_add) (simp add: zdiv_zmult2_eq)
  then show ?thesis by (simp only: alphabet_digit digit_at_def assms)
qed

lemma digit_lo:
  assumes "5 * j = k" "k + 5 \<le> 64"
  shows "alphabet (drop_bit k l AND 0x1f) = digit_at (uint (h :: 64 word) * 2 ^ 64 + uint l) j"
proof -
  obtain m where m: "64 = k + (5 + m)" using assms(2) by (metis add.assoc le_Suc_ex)
  have "(2 :: int) ^ 64 = 2 ^ (k + (5 + m))" by (simp only: m [symmetric])
  also have "\<dots> = 2 ^ k * (32 * 2 ^ m)" by (simp only: power_add) simp
  finally have "uint h * 2 ^ 64 + uint l = uint l + 2 ^ k * (32 * (2 ^ m * uint h))" by simp
  then have "(uint h * 2 ^ 64 + uint l) div 2 ^ k = uint l div 2 ^ k + 32 * (2 ^ m * uint h)"
    by (simp only: div_mult_self2 [OF power_not_zero [OF zero_neq_numeral [symmetric]]])
  then have "(uint h * 2 ^ 64 + uint l) div 2 ^ k mod 32 = uint l div 2 ^ k mod 32" by (simp add: mod_add_eq)
  then show ?thesis by (simp only: alphabet_digit digit_at_def assms(1))
qed

lemma uint_push_add:
  fixes a b :: "64 word"
  assumes "uint a < 2" "uint b < 16"
  shows "uint (push_bit 4 a + b) = 16 * uint a + uint b"
proof -
  have "push_bit 4 a + b = word_of_int (16 * uint a + uint b)" by (simp add: push_bit_eq_mult mult.commute)
  then have "uint (push_bit 4 a + b) = (16 * uint a + uint b) mod 2 ^ 64" by (simp only: uint_word_of_int) simp
  also have "\<dots> = 16 * uint a + uint b" using assms by (intro mod_pos_pos_trivial) simp_all
  finally show ?thesis .
qed

lemma nibble_mod:
  fixes a b :: int
  assumes "0 \<le> b" "b < 16"
  shows "(b + 16 * a) mod 32 = 16 * (a mod 2) + b"
proof -
  have "a = 2 * (a div 2) + a mod 2" by simp
  then have "b + 16 * a = (16 * (a mod 2) + b) + 32 * (a div 2)" by linarith
  then have "(b + 16 * a) mod 32 = (16 * (a mod 2) + b) mod 32" by (simp only: mod_mult_self2)
  also have "\<dots> = 16 * (a mod 2) + b"
  proof (rule mod_pos_pos_trivial)
    have "0 \<le> a mod 2" "a mod 2 < 2" by simp_all
    then show "0 \<le> 16 * (a mod 2) + b" "16 * (a mod 2) + b < 32" using assms by linarith+
  qed
  finally show ?thesis .
qed

lemma digit_middle:
  "alphabet (push_bit 4 (h AND 0x1) OR (drop_bit 60 l AND 0x0f)) = digit_at (uint h * 2 ^ 64 + uint l) 12"
proof -
  let ?a = "take_bit 1 h" and ?b = "take_bit 4 (drop_bit 60 l)"
  have m: "h AND 0x1 = ?a" "drop_bit 60 l AND 0x0f = ?b" by (simp_all add: take_bit_eq_mask mask_eq_exp_minus_1)
  have a: "push_bit 4 ?a AND ?b = 0"
    by (rule bit_word_eqI) (auto simp: bit_simps)
  have ua: "uint ?a = uint h mod 2" using uint_take_drop [of 1 0 h] by simp
  have ub: "uint ?b = uint l div 2 ^ 60 mod 2 ^ 4" by (rule uint_take_drop)
  have bounds: "0 \<le> uint ?a" "uint ?a < 2" "0 \<le> uint ?b" "uint ?b < 16" unfolding ua ub by simp_all
  have "uint (push_bit 4 ?a OR ?b) = 16 * uint ?a + uint ?b"
    unfolding disjunctive_add_eq_or [OF a, symmetric] by (rule uint_push_add [OF bounds(2,4)])
  moreover have q: "0 \<le> uint l div 2 ^ 60" "uint l div 2 ^ 60 < 16"
    using uint_lt2p [of l] by (simp_all add: pos_imp_zdiv_nonneg_iff)
  moreover have "uint l div 2 ^ 60 mod 2 ^ 4 = uint l div 2 ^ 60" using q by (intro mod_pos_pos_trivial) simp_all
  moreover have "(uint h * 2 ^ 64 + uint l) div 2 ^ 60 = uint l div 2 ^ 60 + 16 * uint h"
  proof -
    have "uint h * 2 ^ 64 + uint l = uint l + 2 ^ 60 * (16 * uint h)" by simp
    then show ?thesis by (simp only: div_mult_self2 [OF power_not_zero [OF zero_neq_numeral [symmetric]]])
  qed
  ultimately have "uint (push_bit 4 ?a OR ?b) = (uint h * 2 ^ 64 + uint l) div 2 ^ 60 mod 32"
    unfolding ua ub using nibble_mod [OF q] by (simp only:)
  then show ?thesis by (simp only: m alphabet_def unat_eq_nat_uint digit_at_def) simp
qed

lemma digits32_map: "digits32 k n = map (digit_at n) (rev [0..<k])"
  by (induction k) (simp_all add: digit_at_def power_mult)

lemma encodeULID_digits:
  assumes "length v = 16"
  shows "encodeULID v = digits32 26 (number v)"
proof -
  let ?hi = "big_endian64 (take 8 v)" and ?lo = "big_endian64 (take 8 (drop 8 v))"
  let ?n = "uint ?hi * 2 ^ 64 + uint ?lo"
  have t: "take 8 (drop 8 v) = drop 8 v" using assms by simp
  have "number v = number (take 8 v) * 256 ^ 8 + number (drop 8 v)"
    using number_append [of "take 8 v" "drop 8 v"] assms by simp
  then have n: "number v = ?n" using assms t by (simp add: uint_big_endian64)
  have l: "rev [0..<26] = [25, 24, 23, 22, 21, 20, 19, 18, 17, 16, 15, 14, 13, 12, 11, 10, 9, 8, 7, 6, 5, 4, 3, 2, 1, 0]"
    by code_simp
  note hi = digit_hi [where h = ?hi and l = ?lo] and lo = digit_lo [where h = ?hi and l = ?lo]
  have z: "alphabet (?lo AND 0x1f) = digit_at ?n 0" using lo [of 0 0] by simp
  show ?thesis
    unfolding encodeULID_def Let_def n digits32_map l list.map
    by (simp only: digit_middle z hi [of 25 61] hi [of 24 56] hi [of 23 51] hi [of 22 46] hi [of 21 41] hi [of 20 36] hi [of 19 31]
        hi [of 18 26] hi [of 17 21] hi [of 16 16] hi [of 15 11] hi [of 14 6] hi [of 13 1]
        lo [of 11 55] lo [of 10 50] lo [of 9 45] lo [of 8 40] lo [of 7 35] lo [of 6 30] lo [of 5 25] lo [of 4 20] lo [of 3 15]
        lo [of 2 10] lo [of 1 5])
qed

section \<open>Order\<close>

lemma alphabet_sorted: "i < j \<Longrightarrow> j < 32 \<Longrightarrow> crockfordBase32 ! i < crockfordBase32 ! j"
proof -
  have "sorted_wrt (<) crockfordBase32" "length crockfordBase32 = 32" by code_simp+
  then show "i < j \<Longrightarrow> j < 32 \<Longrightarrow> crockfordBase32 ! i < crockfordBase32 ! j" by (simp add: sorted_wrt_nth_less)
qed

lemma digits32_mod: "digits32 k (n mod 32 ^ k) = digits32 k n"
proof -
  have "digits32 j (n mod 32 ^ k) = digits32 j n" if "j \<le> k" for j
    using that
  proof (induction j)
    case (Suc j)
    then obtain m where k: "k = j + Suc m" by (metis add.commute add_Suc_right less_eq_Suc_le less_imp_Suc_add)
    have "n mod 32 ^ k div 32 ^ j mod 32 = n div 32 ^ j mod 32"
    proof -
      have "n mod (32 ^ j * (32 * 32 ^ m)) = 32 ^ j * (n div 32 ^ j mod (32 * 32 ^ m)) + n mod 32 ^ j"
        by (rule zmod_zmult2_eq) simp
      moreover have "32 ^ k = (32 ^ j * (32 * 32 ^ m) :: int)" by (simp add: k power_add)
      ultimately have "n mod 32 ^ k div 32 ^ j = (32 ^ j * (n div 32 ^ j mod (32 * 32 ^ m)) + n mod 32 ^ j) div 32 ^ j"
        by (simp only:)
      also have "\<dots> = n div 32 ^ j mod (32 * 32 ^ m)" by (simp add: div_plus_div_distrib_dvd_left)
      finally have "n mod 32 ^ k div 32 ^ j = n div 32 ^ j mod (32 * 32 ^ m)" .
      then show ?thesis by (simp add: mod_mod_cancel)
    qed
    with Suc show ?case by simp
  qed simp
  then show ?thesis by simp
qed

text \<open>Base 32 with the ordered alphabet preserves the order of the numbers.\<close>

lemma digits32_less: "0 \<le> m \<Longrightarrow> m < n \<Longrightarrow> n < 32 ^ k \<Longrightarrow> digits32 k m < digits32 k n"
proof (induction k arbitrary: m n)
  case (Suc k)
  let ?p = "32 ^ k :: int"
  let ?a = "m div ?p" and ?b = "n div ?p"
  have "?b * ?p \<le> n" using Suc.prems by (metis add.commute le_add_same_cancel1 mult_div_mod_eq mult.commute pos_mod_sign zero_less_numeral zero_less_power)
  then have "?b * ?p < 32 * ?p" using Suc.prems(3) unfolding power_Suc by (rule le_less_trans)
  then have "?b < 32" by (rule mult_right_less_imp_less) simp
  then have ab: "0 \<le> ?a" "?a \<le> ?b" "?b < 32" using Suc.prems by (simp_all add: zdiv_mono1 pos_imp_zdiv_nonneg_iff)
  show ?case
  proof (cases "?a = ?b")
    case True
    have "m mod ?p < n mod ?p" using Suc.prems(2) True
      by (metis add_less_cancel_left mult_div_mod_eq)
    then have "digits32 k (m mod ?p) < digits32 k (n mod ?p)" by (intro Suc.IH) simp_all
    then show ?thesis using True by (simp add: digits32_mod)
  next
    case False
    then have "nat ?a < nat ?b" "nat ?b < 32" using ab by simp_all
    from alphabet_sorted [OF this] show ?thesis using ab False by simp
  qed
qed simp

section \<open>Properties\<close>

text \<open>The 48 bits of the clock that enter an identifier.\<close>

definition stamp :: "int \<Rightarrow> 8 word list" where
  "stamp t = (let millis = word_of_int t :: 64 word in
    [ucast (drop_bit 40 millis), ucast (drop_bit 32 millis), ucast (drop_bit 24 millis),
     ucast (drop_bit 16 millis), ucast (drop_bit 8 millis), ucast millis])"

lemma uint_ucast8: "uint (ucast (drop_bit k (w :: 64 word)) :: 8 word) = uint w div 2 ^ k mod 256"
  using uint_take_drop [of 8 k w] by (simp add: unsigned_ucast_eq unsigned_take_bit_eq)

lemma number_stamp: "0 \<le> t \<Longrightarrow> t < 2 ^ 48 \<Longrightarrow> number (stamp t) = t"
proof -
  assume t: "0 \<le> t" "t < 2 ^ 48"
  let ?w = "word_of_int t :: 64 word"
  have w: "uint ?w = t" using t by (simp add: uint_word_of_int)
  have u0: "uint (ucast ?w :: 8 word) = t mod 256" using uint_ucast8 [of 0 ?w] w by simp
  have d: "number (stamp t) = ((((t div 2 ^ 40 mod 256 * 256 + t div 2 ^ 32 mod 256) * 256 + t div 2 ^ 24 mod 256) * 256
      + t div 2 ^ 16 mod 256) * 256 + t div 2 ^ 8 mod 256) * 256 + t mod 256"
    unfolding stamp_def Let_def number_def by (simp add: uint_ucast8 w u0 mult.commute)
  have step: "t div 2 ^ (n + 8) * 256 + t div 2 ^ n mod 256 = t div 2 ^ n" for n
    using div_mult_mod_eq [of "t div 2 ^ n" 256] by (simp add: power_add zdiv_zmult2_eq)
  have top: "t div 2 ^ 40 mod 256 = t div 2 ^ 40"
    using t by (intro mod_pos_pos_trivial) (simp_all add: pos_imp_zdiv_nonneg_iff)
  show ?thesis
    using step [of 32] step [of 24] step [of 16] step [of 8] step [of 0] by (simp only: d top) simp
qed

lemma newULID_digits:
  assumes "0 \<le> t" "t < 2 ^ 48" "length e = 10"
  shows "newULID t (Some e) = Some (digits32 26 (t * 256 ^ 10 + number e))"
proof -
  have "newULID t (Some e) = Some (encodeULID (stamp t @ e))" by (simp add: newULID_def stamp_def Let_def)
  moreover have "length (stamp t @ e) = 16" using assms(3) by (simp add: stamp_def Let_def)
  ultimately show ?thesis using assms by (simp only: encodeULID_digits) (simp add: number_append number_stamp)
qed

text \<open>C17: Identifiers sort by creation time: of two identifiers created in different milliseconds, the earlier one is
  smaller as a string, whatever the random parts.\<close>

theorem ids_sort_by_time:
  assumes "0 \<le> t" "t < u" "u < 2 ^ 48" "length e = 10" "length f = 10"
  shows "\<exists>a b. NewID t (Some e) = Some a \<and> NewID u (Some f) = Some b \<and> a < b"
proof -
  have e: "0 \<le> number e" "number e < 256 ^ 10" "0 \<le> number f" "number f < 256 ^ 10"
    using number_bounds [of e] number_bounds [of f] assms(4,5) by simp_all
  have "t * 256 ^ 10 + number e < (t + 1) * 256 ^ 10" using e by (simp add: algebra_simps)
  also have "\<dots> \<le> u * 256 ^ 10 + number f" using assms(2) e by simp
  finally have "digits32 26 (t * 256 ^ 10 + number e) < digits32 26 (u * 256 ^ 10 + number f)"
    using assms e by (intro digits32_less) simp_all
  then show ?thesis using assms by (simp add: NewID_def newULID_digits)
qed

text \<open>Identifiers lose no information: two identifiers are equal only if they come from the same millisecond and the
  same ten random bytes.\<close>

theorem ids_collide_only_by_chance:
  assumes "0 \<le> t" "t < 2 ^ 48" "0 \<le> u" "u < 2 ^ 48" "length e = 10" "length f = 10"
  shows "NewID t (Some e) = NewID u (Some f) \<longleftrightarrow> t = u \<and> e = f"
proof
  assume eq: "NewID t (Some e) = NewID u (Some f)"
  let ?m = "t * 256 ^ 10 + number e" and ?n = "u * 256 ^ 10 + number f"
  have e: "0 \<le> number e" "number e < 256 ^ 10" "0 \<le> number f" "number f < 256 ^ 10"
    using number_bounds [of e] number_bounds [of f] assms(5,6) by simp_all
  have "t * 256 ^ 10 \<le> (2 ^ 48 - 1) * 256 ^ 10" "u * 256 ^ 10 \<le> (2 ^ 48 - 1) * 256 ^ 10" using assms by simp_all
  then have b: "0 \<le> ?m" "0 \<le> ?n" "?m < 32 ^ 26" "?n < 32 ^ 26" using assms e by simp_all
  have "digits32 26 ?m = digits32 26 ?n" using eq assms by (simp add: NewID_def newULID_digits)
  then have mn: "?m = ?n" using digits32_less [of ?m ?n 26] digits32_less [of ?n ?m 26] b by (metis linorder_less_linear order_less_irrefl)
  have "t = ?m div 256 ^ 10" "u = ?n div 256 ^ 10" using e by simp_all
  then have tu: "t = u" using mn by (simp only:)
  then have "number e = number f" using mn by simp
  with tu show "t = u \<and> e = f" using number_inj assms(5,6) by simp
qed simp

theorem ids_sort_by_time_witness:
  "\<exists>a b. NewID 1700000000000 (Some (replicate 10 255)) = Some a \<and> NewID 1700000000001 (Some (replicate 10 0)) = Some b \<and> a < b"
  by (rule ids_sort_by_time) simp_all

theorem ids_collide_only_by_chance_witness:
  "NewID 1700000000000 (Some (replicate 10 255)) \<noteq> NewID 1700000000001 (Some (replicate 10 255))"
  using ids_collide_only_by_chance [of 1700000000000 1700000000001 "replicate 10 255" "replicate 10 255"] by simp

end
