(* ===== verification/Clock.thy ===== *)
theory Clock
  imports Prelude
begin

text \<open>
  What the program uses of the package \<^verbatim>\<open>time\<close>: an instant is the number of nanoseconds since the
  epoch, and its UTC calendar date and the formats \<^verbatim>\<open>2006-01-02\<close> and RFC 3339 are computed in the
  proleptic Gregorian calendar.
\<close>

definition unix_milli :: "int \<Rightarrow> int" where "unix_milli ms = ms * 1000000"

definition seconds_of :: "int \<Rightarrow> int" where "seconds_of t = t div 1000000000"

text \<open>Days since the epoch to year, month and day, in eras of 400 years that start on 1 March.\<close>

definition civil :: "int \<Rightarrow> int \<times> int \<times> int" where
  "civil days =
    (let z = days + 719468;
         era = z div 146097;
         doe = z mod 146097;
         yoe = (doe - doe div 1460 + doe div 36524 - doe div 146096) div 365;
         doy = doe - (365 * yoe + yoe div 4 - yoe div 100);
         mp = (5 * doy + 2) div 153;
         d = doy - (153 * mp + 2) div 5 + 1;
         m = (if mp < 10 then mp + 3 else mp - 9);
         y = yoe + era * 400 + (if m \<le> 2 then 1 else 0)
     in (y, m, d))"

definition pad2 :: "int \<Rightarrow> string" where
  "pad2 n = (if n < 10 then CHR ''0'' # dec n else dec n)"

definition pad4 :: "int \<Rightarrow> string" where
  "pad4 n = (let a = \<bar>n\<bar>; zeros = (if a < 10 then ''000'' else if a < 100 then ''00'' else if a < 1000 then ''0'' else [])
     in (if n < 0 then ''-'' else []) @ zeros @ dec a)"

definition format_date :: "int \<Rightarrow> string" where
  "format_date t =
    (let (y, m, d) = civil (seconds_of t div 86400) in pad4 y @ ''-'' @ pad2 m @ ''-'' @ pad2 d)"

definition rfc3339 :: "int \<Rightarrow> string" where
  "rfc3339 t =
    (let s = seconds_of t mod 86400
     in format_date t @ ''T'' @ pad2 (s div 3600) @ '':'' @ pad2 (s div 60 mod 60) @ '':'' @ pad2 (s mod 60) @ ''Z'')"

text \<open>\<^verbatim>\<open>Time.Sub\<close> saturates at the range of a \<^verbatim>\<open>Duration\<close>.\<close>

definition time_sub :: "int \<Rightarrow> int \<Rightarrow> int" where
  "time_sub a b = (if a - b < - (2 ^ 63) then - (2 ^ 63) else if a - b \<ge> 2 ^ 63 then 2 ^ 63 - 1 else a - b)"

text \<open>\<^verbatim>\<open>AddDate(0, 0, n)\<close> on a UTC time moves by whole days.\<close>

definition add_days :: "int \<Rightarrow> int \<Rightarrow> int" where
  "add_days t n = t + n * 86400000000000"

lemma rfc3339_examples:
  "rfc3339 0 = ''1970-01-01T00:00:00Z''" "rfc3339 (unix_milli 951827696789) = ''2000-02-29T12:34:56Z''"
  "rfc3339 (- 62135596800000000000) = ''0001-01-01T00:00:00Z''"
  by code_simp+

end
