(* ===== verification/Sessions.thy ===== *)
theory Sessions
  imports Clock
begin

text \<open>
  \<^verbatim>\<open>internal/sessions/session.go\<close>, \<^verbatim>\<open>errors.go\<close> and \<^verbatim>\<open>memory_repository.go\<close>: the session
  record, its derived values, and the in-memory repository.  A \<^verbatim>\<open>time.Time\<close> is the instant in
  nanoseconds since the epoch (its location only affects printing, and the code prints in UTC).
  Every repository method holds the lock for its whole body and ignores the context, so each is
  one step.
\<close>

section \<open>Sessions\<close>

datatype session_err = SesMissingSource | SesMissingGame | SesMissingPlatform | SesInvalidStartedAt | SesNotFound
  | SesAlreadyExists | SesAlreadyFinished | SesInvalidEndedAt | SesMissingID

record Session =
  sID :: string
  sSource :: string
  sGame :: string
  sPlatform :: string
  sDriverAlias :: string
  sStartedAt :: int
  sEndedAt :: "int option"
  sTrackID :: string
  sLayoutID :: string
  sDetectedTrackID :: string
  sDetectedLayoutID :: string

definition EffectiveLayoutID :: "Session \<Rightarrow> string" where
  "EffectiveLayoutID s = (if sLayoutID s \<noteq> [] then sLayoutID s else sDetectedLayoutID s)"

definition session_Status :: "Session \<Rightarrow> string" where
  "session_Status s = (if sEndedAt s \<noteq> None then ''finished'' else ''active'')"

text \<open>\<^verbatim>\<open>Milliseconds\<close> truncates.\<close>

definition DurationMs :: "Session \<Rightarrow> int option" where
  "DurationMs s = (case sEndedAt s of None \<Rightarrow> None | Some e \<Rightarrow> Some (div64 (time_sub e (sStartedAt s)) 1000000))"

record CreateRequest =
  cqSource :: string
  cqGame :: string
  cqPlatform :: string
  cqDriverAlias :: string
  cqTrackID :: string
  cqStartedUnixMs :: int

definition create_Validate :: "CreateRequest \<Rightarrow> session_err option" where
  "create_Validate r =
    (if cqSource r = [] then Some SesMissingSource
     else if cqGame r = [] then Some SesMissingGame
     else if cqPlatform r = [] then Some SesMissingPlatform
     else if cqStartedUnixMs r \<le> 0 then Some SesInvalidStartedAt
     else None)"

record FinishRequest =
  fqEndedUnixMs :: "int option"

definition finish_EndedAt :: "FinishRequest \<Rightarrow> int \<Rightarrow> int" where
  "finish_EndedAt r now = (case fqEndedUnixMs r of None \<Rightarrow> now | Some ms \<Rightarrow> unix_milli ms)"

record session_dto =
  dtID :: string
  dtSource :: string
  dtGame :: string
  dtPlatform :: string
  dtDriverAlias :: string
  dtStartedAt :: int
  dtEndedAt :: "int option"
  dtTrackID :: string
  dtLayoutID :: string
  dtStatus :: string
  dtDurationMs :: "int option"
  dtFrameCount :: int
  dtEventCount :: int
  dtDetectedTrackID :: "string option"
  dtDetectedLayoutID :: "string option"

definition NewDTO :: "Session \<Rightarrow> int \<Rightarrow> int \<Rightarrow> session_dto" where
  "NewDTO s frameCount eventCount =
    \<lparr>dtID = sID s, dtSource = sSource s, dtGame = sGame s, dtPlatform = sPlatform s, dtDriverAlias = sDriverAlias s,
     dtStartedAt = sStartedAt s, dtEndedAt = sEndedAt s, dtTrackID = sTrackID s, dtLayoutID = EffectiveLayoutID s,
     dtStatus = session_Status s, dtDurationMs = DurationMs s, dtFrameCount = frameCount, dtEventCount = eventCount,
     dtDetectedTrackID = (if sDetectedTrackID s \<noteq> [] then Some (sDetectedTrackID s) else None),
     dtDetectedLayoutID = (if sDetectedLayoutID s \<noteq> [] then Some (sDetectedLayoutID s) else None)\<rparr>"

section \<open>The in-memory repository\<close>

text \<open>A Go map of sessions: an association list with distinct keys; the order in which \<^verbatim>\<open>List\<close>
  ranges over it is not fixed by the language, and its clients sort.\<close>

type_synonym session_repo = "(string \<times> Session) list"

definition NewSessionRepository :: session_repo where "NewSessionRepository = []"

definition cloneSession :: "Session \<Rightarrow> Session" where
  "cloneSession s = (case sEndedAt s of None \<Rightarrow> s | Some e \<Rightarrow> s\<lparr>sEndedAt := Some e\<rparr>)"

definition session_Create :: "session_repo \<Rightarrow> Session \<Rightarrow> (session_err + Session) \<times> session_repo" where
  "session_Create r s =
    (if sID s = [] then (Inl SesMissingID, r)
     else case map_of r (sID s) of
       Some _ \<Rightarrow> (Inl SesAlreadyExists, r)
     | None \<Rightarrow> (Inr (cloneSession s), AList.update (sID s) (cloneSession s) r))"

definition session_FindByID :: "session_repo \<Rightarrow> string \<Rightarrow> session_err + Session" where
  "session_FindByID r i = (case map_of r i of None \<Rightarrow> Inl SesNotFound | Some s \<Rightarrow> Inr (cloneSession s))"

definition session_End :: "session_repo \<Rightarrow> string \<Rightarrow> int \<Rightarrow> (session_err + Session) \<times> session_repo" where
  "session_End r i endedAt =
    (case map_of r i of None \<Rightarrow> (Inl SesNotFound, r)
     | Some s \<Rightarrow>
       if sEndedAt s \<noteq> None then (Inl SesAlreadyFinished, r)
       else if endedAt < sStartedAt s then (Inl SesInvalidEndedAt, r)
       else let s = s\<lparr>sEndedAt := Some endedAt\<rparr> in (Inr (cloneSession s), AList.update i (cloneSession s) r))"

definition session_Update :: "session_repo \<Rightarrow> Session \<Rightarrow> (session_err + Session) \<times> session_repo" where
  "session_Update r s =
    (if sID s = [] then (Inl SesMissingID, r)
     else case map_of r (sID s) of None \<Rightarrow> (Inl SesNotFound, r)
     | Some _ \<Rightarrow> (Inr (cloneSession s), AList.update (sID s) (cloneSession s) r))"

definition SetDetectedTrackLayout :: "session_repo \<Rightarrow> string \<Rightarrow> string \<Rightarrow> string \<Rightarrow> (session_err + Session) \<times> session_repo" where
  "SetDetectedTrackLayout r i trackID layoutID =
    (case map_of r i of None \<Rightarrow> (Inl SesNotFound, r)
     | Some s \<Rightarrow>
       if sDetectedTrackID s = [] \<and> sDetectedLayoutID s = []
       then let s = s\<lparr>sDetectedTrackID := trackID, sDetectedLayoutID := layoutID\<rparr>
         in (Inr (cloneSession s), AList.update i (cloneSession s) r)
       else (Inr (cloneSession s), r))"

definition SetTrackLayout :: "session_repo \<Rightarrow> string \<Rightarrow> string \<Rightarrow> string \<Rightarrow> (session_err + Session) \<times> session_repo" where
  "SetTrackLayout r i trackID layoutID =
    (case map_of r i of None \<Rightarrow> (Inl SesNotFound, r)
     | Some s \<Rightarrow>
       let s = s\<lparr>sTrackID := trackID, sLayoutID := layoutID\<rparr>
       in (Inr (cloneSession s), AList.update i (cloneSession s) r))"

definition session_List :: "session_repo \<Rightarrow> Session list" where
  "session_List r = map (\<lambda>p. cloneSession (snd p)) r"

lemma cloneSession_id [simp]: "cloneSession s = s"
  by (simp add: cloneSession_def split: option.splits)

section \<open>The life of a session\<close>

text \<open>The operations as one type, to state what any sequence of them preserves.\<close>

datatype session_op =
    OpCreate Session
  | OpEnd string int
  | OpUpdate Session
  | OpDetect string string string
  | OpSelect string string string

fun session_step :: "session_repo \<Rightarrow> session_op \<Rightarrow> (session_err + Session) \<times> session_repo" where
  "session_step r (OpCreate s) = session_Create r s"
| "session_step r (OpEnd i t) = session_End r i t"
| "session_step r (OpUpdate s) = session_Update r s"
| "session_step r (OpDetect i t l) = SetDetectedTrackLayout r i t l"
| "session_step r (OpSelect i t l) = SetTrackLayout r i t l"

fun session_run :: "session_repo \<Rightarrow> session_op list \<Rightarrow> session_repo" where
  "session_run r [] = r"
| "session_run r (p # ps) = session_run (snd (session_step r p)) ps"

fun is_update :: "session_op \<Rightarrow> bool" where
  "is_update (OpUpdate s) = True"
| "is_update p = False"

text \<open>The transitions of one session.\<close>

inductive progress :: "Session \<Rightarrow> Session \<Rightarrow> bool" where
  same: "progress s s"
| finish: "sEndedAt s = None \<Longrightarrow> sStartedAt s \<le> t \<Longrightarrow> progress s (s\<lparr>sEndedAt := Some t\<rparr>)"
| detect: "sDetectedTrackID s = [] \<Longrightarrow> sDetectedLayoutID s = [] \<Longrightarrow>
    progress s (s\<lparr>sDetectedTrackID := t, sDetectedLayoutID := l\<rparr>)"
| select: "progress s (s\<lparr>sTrackID := t, sLayoutID := l\<rparr>)"

inductive_cases progress_cases: "progress s t"

lemma session_step_progress:
  assumes "\<not> is_update p" "map_of r i = Some s"
  shows "\<exists>t. map_of (snd (session_step r p)) i = Some t \<and> progress s t"
proof (cases p)
  case (OpCreate x)
  then show ?thesis using assms(2)
    by (auto simp: session_Create_def update_conv intro: progress.same split: option.splits)
next
  case (OpEnd j t)
  then show ?thesis using assms(2)
    by (cases "j = i") (auto simp: session_End_def update_conv Let_def intro: progress.intros split: option.splits)
next
  case (OpDetect j t l)
  then show ?thesis using assms(2)
    by (cases "j = i") (auto simp: SetDetectedTrackLayout_def update_conv Let_def intro: progress.intros split: option.splits)
next
  case (OpSelect j t l)
  then show ?thesis using assms(2)
    by (cases "j = i") (auto simp: SetTrackLayout_def update_conv Let_def intro: progress.intros split: option.splits)
qed (use assms in simp)

text \<open>What no transition of a session changes.\<close>

definition continues :: "Session \<Rightarrow> Session \<Rightarrow> bool" where
  "continues s t \<longleftrightarrow> sID t = sID s \<and> sSource t = sSource s \<and> sGame t = sGame s \<and> sPlatform t = sPlatform s \<and>
     sDriverAlias t = sDriverAlias s \<and> sStartedAt t = sStartedAt s \<and>
     (sEndedAt s = None \<or> sEndedAt t = sEndedAt s) \<and>
     (sDetectedTrackID s = [] \<and> sDetectedLayoutID s = [] \<or>
        sDetectedTrackID t = sDetectedTrackID s \<and> sDetectedLayoutID t = sDetectedLayoutID s)"

lemma progress_continues: "progress s t \<Longrightarrow> continues s t"
  by (erule progress_cases) (auto simp: continues_def)

lemma continues_trans: "continues s t \<Longrightarrow> continues t u \<Longrightarrow> continues s u"
  unfolding continues_def by fastforce

lemma continues_refl [simp]: "continues s s"
  by (simp add: continues_def)

lemma session_run_continues:
  "list_all (\<lambda>p. \<not> is_update p) ps \<Longrightarrow> map_of r i = Some s \<Longrightarrow> \<exists>t. map_of (session_run r ps) i = Some t \<and> continues s t"
proof (induction ps arbitrary: r s)
  case (Cons p ps)
  from session_step_progress [of p r i s] Cons.prems obtain t where
    t: "map_of (snd (session_step r p)) i = Some t" "progress s t" by auto
  from Cons.IH [OF _ t(1)] Cons.prems obtain u where "map_of (session_run r (p # ps)) i = Some u" "continues t u" by auto
  with t(2) continues_trans progress_continues show ?case by blast
qed simp

text \<open>The successful finishes of a session in a run.\<close>

fun finishes :: "session_repo \<Rightarrow> string \<Rightarrow> session_op list \<Rightarrow> nat" where
  "finishes r i [] = 0"
| "finishes r i (p # ps) =
    (case p of OpEnd j t \<Rightarrow> if j = i \<and> (case fst (session_End r j t) of Inl _ \<Rightarrow> False | Inr _ \<Rightarrow> True) then 1 else 0 | _ \<Rightarrow> 0)
    + finishes (snd (session_step r p)) i ps"

lemma finished_not_again:
  "list_all (\<lambda>p. \<not> is_update p) ps \<Longrightarrow> map_of r i = Some s \<Longrightarrow> sEndedAt s \<noteq> None \<Longrightarrow> finishes r i ps = 0"
proof (induction ps arbitrary: r s)
  case (Cons p ps)
  from session_step_progress [of p r i s] Cons.prems obtain t where
    t: "map_of (snd (session_step r p)) i = Some t" "progress s t" by auto
  then have "sEndedAt t \<noteq> None" using Cons.prems(3) progress_continues by (fastforce simp: continues_def)
  with Cons t(1) show ?case by (cases p) (auto simp: session_End_def split: if_splits)
qed simp

lemma finishes_bound: "list_all (\<lambda>p. \<not> is_update p) ps \<Longrightarrow> finishes r i ps \<le> 1"
proof (induction ps arbitrary: r)
  case (Cons p ps)
  show ?case
  proof (cases "\<exists>t. p = OpEnd i t \<and> (\<exists>x. fst (session_End r i t) = Inr x)")
    case True
    then obtain t x where p: "p = OpEnd i t" "fst (session_End r i t) = Inr x" by blast
    then have "\<exists>s. map_of (snd (session_step r p)) i = Some s \<and> sEndedAt s \<noteq> None"
      by (auto simp: session_End_def update_conv Let_def split: option.splits if_splits)
    then have "finishes (snd (session_step r p)) i ps = 0" using finished_not_again Cons.prems by auto
    with p show ?thesis by simp
  next
    case False
    then have z: "(case p of OpEnd j t \<Rightarrow> if j = i \<and> (case fst (session_End r j t) of Inl _ \<Rightarrow> False | Inr _ \<Rightarrow> True) then 1 else 0 | _ \<Rightarrow> 0) = (0 :: nat)"
      by (auto split: session_op.splits sum.splits)
    show ?thesis using Cons.IH [of "snd (session_step r p)"] Cons.prems by (simp only: finishes.simps z) simp
  qed
qed simp

text \<open>Well-formed repositories: unique keys, the key of a session is its non-empty identifier, and no session ends before
  it starts (of those created active).\<close>

definition repo_wf :: "session_repo \<Rightarrow> bool" where
  "repo_wf r \<longleftrightarrow> distinct (map fst r) \<and>
     (\<forall>i s. map_of r i = Some s \<longrightarrow> sID s = i \<and> i \<noteq> [] \<and> (case sEndedAt s of None \<Rightarrow> True | Some e \<Rightarrow> sStartedAt s \<le> e))"

fun starts_active :: "session_op \<Rightarrow> bool" where
  "starts_active (OpCreate s) = (sEndedAt s = None)"
| "starts_active (OpUpdate s) = False"
| "starts_active p = True"

lemma repo_wf_update:
  "repo_wf r \<Longrightarrow> sID s = i \<Longrightarrow> i \<noteq> [] \<Longrightarrow> (case sEndedAt s of None \<Rightarrow> True | Some e \<Rightarrow> sStartedAt s \<le> e) \<Longrightarrow>
     repo_wf (AList.update i s r)"
  by (auto simp: repo_wf_def update_conv distinct_update split: if_splits)

lemma repo_wfD:
  assumes "repo_wf r" "map_of r i = Some s"
  shows "sID s = i" "i \<noteq> []" "sEndedAt s = Some e \<Longrightarrow> sStartedAt s \<le> e"
  using assms unfolding repo_wf_def by (blast, blast, fastforce)

lemma repo_wf_put:
  assumes "repo_wf r" "map_of r i = Some s" "sID s' = sID s"
    and "sEndedAt s' = sEndedAt s \<and> sStartedAt s' = sStartedAt s \<or> (\<exists>e. sEndedAt s' = Some e \<and> sStartedAt s' \<le> e)"
  shows "repo_wf (AList.update i s' r)"
  using assms(3,4) repo_wfD [OF assms(1,2)] by (intro repo_wf_update [OF assms(1)]) (auto split: option.splits)

lemma repo_wf_step: "repo_wf r \<Longrightarrow> starts_active p \<Longrightarrow> repo_wf (snd (session_step r p))"
proof (cases p)
  case (OpCreate s)
  assume "repo_wf r" "starts_active p"
  then show ?thesis using OpCreate by (auto simp: session_Create_def split: option.splits intro: repo_wf_update)
next
  case (OpEnd i t)
  assume wf: "repo_wf r"
  show ?thesis
    using wf repo_wf_put [OF wf, of i _ "_\<lparr>sEndedAt := Some t\<rparr>"] OpEnd
    by (cases "map_of r i") (simp_all add: session_End_def Let_def not_less)
next
  case (OpDetect i t l)
  assume wf: "repo_wf r"
  show ?thesis
    using wf repo_wf_put [OF wf, of i _ "_\<lparr>sDetectedTrackID := t, sDetectedLayoutID := l\<rparr>"] OpDetect
    by (cases "map_of r i") (simp_all add: SetDetectedTrackLayout_def Let_def)
next
  case (OpSelect i t l)
  assume wf: "repo_wf r"
  show ?thesis
    using wf repo_wf_put [OF wf, of i _ "_\<lparr>sTrackID := t, sLayoutID := l\<rparr>"] OpSelect
    by (cases "map_of r i") (simp_all add: SetTrackLayout_def Let_def)
qed simp

lemma repo_wf_run: "repo_wf r \<Longrightarrow> list_all starts_active ps \<Longrightarrow> repo_wf (session_run r ps)"
  by (induction ps arbitrary: r) (auto simp: repo_wf_step)

section \<open>Properties\<close>

text \<open>Sessions only progress: under any sequence of operations that does not overwrite sessions, a stored session is
  never lost, its identity and start never change, its end is set at most once and its detected layout is never
  replaced.\<close>

theorem sessions_only_progress:
  assumes "list_all (\<lambda>p. \<not> is_update p) ps" "map_of r i = Some s"
  shows "\<exists>t. session_FindByID (session_run r ps) i = Inr t \<and> continues s t"
  using session_run_continues [OF assms] by (auto simp: session_FindByID_def)

text \<open>A session is finished at most once, whatever the order and interleaving of the operations.\<close>

theorem finished_at_most_once:
  assumes "list_all (\<lambda>p. \<not> is_update p) ps"
  shows "finishes NewSessionRepository i ps \<le> 1"
  using assms by (rule finishes_bound)

text \<open>The repository stays well formed: identifiers are unique and non-empty, sessions are stored under their own
  identifier, and no session ends before it starts, so that durations are never negative.\<close>

theorem sessions_well_formed:
  assumes "list_all starts_active ps"
  shows "distinct (map sID (session_List (session_run NewSessionRepository ps))) \<and>
    list_all (\<lambda>s. sID s \<noteq> [] \<and> session_FindByID (session_run NewSessionRepository ps) (sID s) = Inr s \<and>
        (DurationMs s = None \<or> 0 \<le> the (DurationMs s))) (session_List (session_run NewSessionRepository ps))"
proof -
  let ?r = "session_run NewSessionRepository ps"
  have "repo_wf NewSessionRepository" by (simp add: repo_wf_def NewSessionRepository_def)
  then have wf: "repo_wf ?r" using assms by (rule repo_wf_run)
  then have d: "distinct (map fst ?r)" by (simp add: repo_wf_def)
  have m: "map_of ?r (fst p) = Some (snd p)" if "p \<in> set ?r" for p
    using d that by (cases p) simp
  have k: "sID (snd p) = fst p" "fst p \<noteq> []" if "p \<in> set ?r" for p
    using wf m [OF that] unfolding repo_wf_def by blast+
  have e: "map sID (session_List ?r) = map fst ?r" using k(1) by (simp add: session_List_def)
  have a: "sID (snd p) \<noteq> [] \<and> session_FindByID ?r (sID (snd p)) = Inr (snd p) \<and>
      (DurationMs (snd p) = None \<or> 0 \<le> the (DurationMs (snd p)))" if p: "p \<in> set ?r" for p
  proof (intro conjI)
    show "sID (snd p) \<noteq> []" using k [OF p] by simp
    show "session_FindByID ?r (sID (snd p)) = Inr (snd p)" using m [OF p] k [OF p] by (simp add: session_FindByID_def)
    have "case sEndedAt (snd p) of None \<Rightarrow> True | Some e \<Rightarrow> sStartedAt (snd p) \<le> e"
      using wf m [OF p] unfolding repo_wf_def by blast
    then show "DurationMs (snd p) = None \<or> 0 \<le> the (DurationMs (snd p))"
      by (auto simp: DurationMs_def time_sub_def div64_def split: option.splits)
  qed
  have "list_all (\<lambda>s. sID s \<noteq> [] \<and> session_FindByID ?r (sID s) = Inr s \<and>
      (DurationMs s = None \<or> 0 \<le> the (DurationMs s))) (session_List ?r)"
    using a by (simp add: session_List_def list_all_iff)
  with d show ?thesis by (simp only: e)
qed

definition demo_session :: Session where
  "demo_session = \<lparr>sID = ''a'', sSource = ''gt7'', sGame = ''gt7'', sPlatform = ''ps5'', sDriverAlias = [], sStartedAt = 1000,
     sEndedAt = None, sTrackID = [], sLayoutID = [], sDetectedTrackID = [], sDetectedLayoutID = []\<rparr>"

theorem sessions_only_progress_witness:
  "\<exists>t. session_FindByID (session_run [(''a'', demo_session)] [OpEnd ''a'' 5000, OpEnd ''a'' 9000]) ''a'' = Inr t \<and> continues demo_session t"
  by (rule sessions_only_progress) simp_all

theorem finished_at_most_once_witness:
  "finishes NewSessionRepository ''a'' [OpCreate demo_session, OpEnd ''a'' 500, OpEnd ''a'' 5000, OpEnd ''a'' 9000] \<le> 1"
  by (rule finished_at_most_once) simp

theorem sessions_well_formed_witness:
  "distinct (map sID (session_List (session_run NewSessionRepository [OpCreate demo_session, OpCreate demo_session, OpEnd ''a'' 5000])))"
  using sessions_well_formed [of "[OpCreate demo_session, OpCreate demo_session, OpEnd ''a'' 5000]"] by (simp add: demo_session_def)

end
