(* ===== verification/SessionSummary.thy ===== *)
theory SessionSummary
  imports Sessions FrameStore RejectionStore EventStore
begin

text \<open>
  \<^verbatim>\<open>internal/sessions/memory_summary_repository.go\<close> and \<^verbatim>\<open>summary_repository.go\<close>: the session list
  and the summary of a session, read from the session repository, the frame store and, when they
  are configured, the event and rejection stores.
\<close>

section \<open>Data\<close>

record SessionSummaryItem =
  siID :: string
  siSource :: string
  siGame :: string
  siPlatform :: string
  siDriverAlias :: string
  siTrackID :: string
  siLayoutID :: string
  siStatus :: string
  siStartedAt :: string
  siEndedAt :: "string option"
  siDurationMs :: "int option"
  siFrameBatches :: int
  siPersistedFrames :: int
  siRejectedFrames :: int
  siEventCount :: int
  siDetectedTrackID :: "string option"
  siDetectedLayoutID :: "string option"

record SessionDetailSummary =
  sdSession :: SessionSummaryItem
  sdFrameBatches :: int
  sdPersistedFrames :: int
  sdTimeRangeMs :: "(int \<times> int) option"
  sdLapsDetected :: int
  sdEngineerEventCount :: int
  sdAIAuditLogCount :: int
  sdRejectionSummary :: "RejectionReasonCount list option"

record summary_repo =
  sySessions :: session_repo
  syFrames :: FrameStore
  syEvents :: "EventStore option"
  syRejections :: "rejection_store option"

datatype summary_err = SumSession session_err | SumFrames ctx_err | SumEvents event_store_err | SumRejections ctx_err

section \<open>Operations\<close>

definition session_query :: "string \<Rightarrow> Query" where
  "session_query i = \<lparr>qSessionID = i, qLapNumber = None, qCornerID = [], qType = []\<rparr>"

definition item_of :: "Session \<Rightarrow> SessionSummaryItem" where
  "item_of s = \<lparr>siID = sID s, siSource = sSource s, siGame = sGame s, siPlatform = sPlatform s, siDriverAlias = sDriverAlias s,
     siTrackID = sTrackID s, siLayoutID = EffectiveLayoutID s, siStatus = session_Status s, siStartedAt = rfc3339 (sStartedAt s),
     siEndedAt = (case sEndedAt s of None \<Rightarrow> None | Some e \<Rightarrow> Some (rfc3339 e)),
     siDurationMs = (if sEndedAt s \<noteq> None then DurationMs s else None), siFrameBatches = 0, siPersistedFrames = 0,
     siRejectedFrames = 0, siEventCount = 0,
     siDetectedTrackID = (if sDetectedTrackID s \<noteq> [] then Some (sDetectedTrackID s) else None),
     siDetectedLayoutID = (if sDetectedLayoutID s \<noteq> [] then Some (sDetectedLayoutID s) else None)\<rparr>"

definition buildItem :: "summary_repo \<Rightarrow> ctx \<Rightarrow> Session \<Rightarrow> Frame list option \<Rightarrow> int option \<Rightarrow> summary_err + SessionSummaryItem" where
  "buildItem r ctx s frames eventCount =
    (case (case frames of Some fs \<Rightarrow> Inr fs | None \<Rightarrow> store_frames (syFrames r) ctx (sID s)) of
       Inl e \<Rightarrow> Inl (SumFrames e)
     | Inr fs \<Rightarrow>
       let item = (item_of s)\<lparr>siPersistedFrames := int (length fs)\<rparr> in
       case eventCount of Some n \<Rightarrow> Inr (item\<lparr>siEventCount := n\<rparr>)
       | None \<Rightarrow> (case syEvents r of None \<Rightarrow> Inr item
         | Some store \<Rightarrow> (case event_list store ctx (session_query (sID s)) of
             Inl e \<Rightarrow> Inl (SumEvents e)
           | Inr es \<Rightarrow> Inr (item\<lparr>siEventCount := int (length es)\<rparr>))))"

definition session_less :: "Session \<Rightarrow> Session \<Rightarrow> bool" where
  "session_less a b = (if sStartedAt a \<noteq> sStartedAt b then sStartedAt b < sStartedAt a else sID b < sID a)"

fun build_items :: "summary_repo \<Rightarrow> ctx \<Rightarrow> (string \<rightharpoonup> RejectedSummaryAggregate) \<Rightarrow> Session list \<Rightarrow>
    summary_err + SessionSummaryItem list" where
  "build_items r ctx rejected [] = Inr []"
| "build_items r ctx rejected (s # ss) =
    (case buildItem r ctx s None None of Inl e \<Rightarrow> Inl e
     | Inr item \<Rightarrow>
       let item = item\<lparr>siRejectedFrames := (case rejected (sID s) of None \<Rightarrow> 0 | Some g \<Rightarrow> agRejectedFrames g)\<rparr> in
       (case build_items r ctx rejected ss of Inl e \<Rightarrow> Inl e | Inr items \<Rightarrow> Inr (item # items)))"

definition summary_List :: "summary_repo \<Rightarrow> ctx \<Rightarrow> int \<Rightarrow> summary_err + SessionSummaryItem list" where
  "summary_List r ctx limit =
    (let all = sort_slice session_less (session_List (sySessions r));
         limit = (if limit \<le> 0 \<or> limit > int (length all) then int (length all) else limit);
         page = take (nat limit) all
     in case (case syRejections r of None \<Rightarrow> Inr Map.empty
              | Some store \<Rightarrow> rejections_summaries store ctx (map sID page)) of
          Inl e \<Rightarrow> Inl (SumRejections e)
        | Inr rejected \<Rightarrow> build_items r ctx rejected page)"

fun time_range_loop :: "int \<Rightarrow> int \<Rightarrow> Frame list \<Rightarrow> int \<times> int" where
  "time_range_loop from_ms to_ms [] = (from_ms, to_ms)"
| "time_range_loop from_ms to_ms (f # fs) =
    time_range_loop (if fTimestampUnixMs f < from_ms then fTimestampUnixMs f else from_ms)
      (if fTimestampUnixMs f > to_ms then fTimestampUnixMs f else to_ms) fs"

definition summary_Summary :: "summary_repo \<Rightarrow> ctx \<Rightarrow> string \<Rightarrow> summary_err + SessionDetailSummary" where
  "summary_Summary r ctx sessionID =
    (case session_FindByID (sySessions r) sessionID of Inl e \<Rightarrow> Inl (SumSession e)
     | Inr session \<Rightarrow>
     (case store_frames (syFrames r) ctx sessionID of Inl e \<Rightarrow> Inl (SumFrames e)
      | Inr frames \<Rightarrow>
      (case (case syEvents r of None \<Rightarrow> Inr 0
             | Some store \<Rightarrow> (case event_list store ctx (session_query (sID session)) of
                 Inl e \<Rightarrow> Inl (SumEvents e) | Inr es \<Rightarrow> Inr (int (length es)))) of
         Inl e \<Rightarrow> Inl e
       | Inr eventCount \<Rightarrow>
       (case buildItem r ctx session (Some frames) (Some eventCount) of Inl e \<Rightarrow> Inl e
        | Inr item \<Rightarrow>
        (case (case syRejections r of None \<Rightarrow> Inr (item, None)
               | Some store \<Rightarrow> (case rejections_summary store ctx sessionID of
                   Inl e \<Rightarrow> Inl (SumRejections e)
                 | Inr g \<Rightarrow> Inr (item\<lparr>siRejectedFrames := agRejectedFrames g\<rparr>,
                     if length (agSummary g) > 0 then Some (agSummary g) else None))) of
           Inl e \<Rightarrow> Inl e
         | Inr (item, rejectionSummary) \<Rightarrow>
           Inr \<lparr>sdSession = item, sdFrameBatches = 0, sdPersistedFrames = int (length frames),
             sdTimeRangeMs = (case frames of [] \<Rightarrow> None
               | f # _ \<Rightarrow> Some (time_range_loop (fTimestampUnixMs f) (fTimestampUnixMs f) frames)),
             sdLapsDetected = int (card (set (map fLapNumber frames))),
             sdEngineerEventCount = siEventCount item, sdAIAuditLogCount = 0, sdRejectionSummary = rejectionSummary\<rparr>)))))"

interpretation session_order: slice_less session_less UNIV
  by unfold_locales (auto simp: session_less_def split: if_splits)

section \<open>Lemmas\<close>

lemma session_query_valid: "i \<noteq> [] \<Longrightarrow> query_Validate (session_query i) = None"
  by (simp add: query_Validate_def session_query_def)

text \<open>What the list and the summary show of a session.\<close>

definition events_of :: "summary_repo \<Rightarrow> string \<Rightarrow> EngineerEvent list" where
  "events_of r i = (case syEvents r of None \<Rightarrow> [] | Some store \<Rightarrow> filter (query_matches (session_query i)) (vEvents store))"

definition rejected_of :: "summary_repo \<Rightarrow> string \<Rightarrow> int" where
  "rejected_of r i = (case syRejections r of None \<Rightarrow> 0 | Some store \<Rightarrow> agRejectedFrames (aggregateRejectionSummaries (map_list store i)))"

definition shown :: "summary_repo \<Rightarrow> Session \<Rightarrow> SessionSummaryItem" where
  "shown r s = (item_of s)\<lparr>siPersistedFrames := int (length (map_list (sFrames (syFrames r)) (sID s))),
     siEventCount := int (length (events_of r (sID s))), siRejectedFrames := rejected_of r (sID s)\<rparr>"

lemma buildItem_simp:
  assumes "sID s \<noteq> []"
  shows "buildItem r None s None None = Inr ((shown r s)\<lparr>siRejectedFrames := 0\<rparr>)"
    and "buildItem r None s (Some (map_list (sFrames (syFrames r)) (sID s))) (Some (int (length (events_of r (sID s))))) =
      Inr ((shown r s)\<lparr>siRejectedFrames := 0\<rparr>)"
  using session_query_valid [OF assms]
  by (auto simp: buildItem_def shown_def events_of_def item_of_def event_list_def Let_def split: option.splits)

lemma rejections_lookup:
  assumes "i \<noteq> []"
  shows "rejections_summary store None i = Inr (aggregateRejectionSummaries (map_list store i))"
    and "\<exists>m. rejections_summaries store None is = Inr m \<and>
      (i \<in> set is \<longrightarrow> m i = Some (aggregateRejectionSummaries (map_list store i)))"
  using assms by (auto simp: rejections_summary_def rejections_summaries_def summaries_loop_lookup)

lemma build_items_simp:
  assumes "list_all (\<lambda>s. sID s \<noteq> []) ss"
    and "\<And>s. s \<in> set ss \<Longrightarrow> (case m (sID s) of None \<Rightarrow> 0 | Some g \<Rightarrow> agRejectedFrames g) = rejected_of r (sID s)"
  shows "build_items r None m ss = Inr (map (shown r) ss)"
  using assms by (induction ss) (simp_all add: buildItem_simp Let_def shown_def)

lemma summary_List_simp:
  assumes "list_all (\<lambda>s. sID s \<noteq> []) (session_List (sySessions r))"
  shows "summary_List r None limit = Inr (map (shown r)
    (let all = sort_slice session_less (session_List (sySessions r)) in
     take (if limit \<le> 0 \<or> limit > int (length all) then length all else nat limit) all))"
proof -
  let ?all = "sort_slice session_less (session_List (sySessions r))"
  let ?n = "if limit \<le> 0 \<or> limit > int (length ?all) then int (length ?all) else limit"
  let ?page = "take (nat ?n) ?all"
  have ids: "list_all (\<lambda>s. sID s \<noteq> []) ?page"
    using assms set_take_subset [of "nat ?n" ?all] by (auto simp: list_all_iff)
  have n: "nat ?n = (if limit \<le> 0 \<or> limit > int (length ?all) then length ?all else nat limit)" by simp
  show ?thesis
  proof (cases "syRejections r")
    case None
    then have "build_items r None Map.empty ?page = Inr (map (shown r) ?page)"
      by (intro build_items_simp ids) (simp add: rejected_of_def)
    with None show ?thesis by (simp only: summary_List_def Let_def n option.case sum.case)
  next
    case (Some store)
    have "\<exists>m. rejections_summaries store None (map sID ?page) = Inr m"
      by (simp add: rejections_summaries_def)
    then obtain m where m: "rejections_summaries store None (map sID ?page) = Inr m" by blast
    have "m (sID s) = Some (aggregateRejectionSummaries (map_list store (sID s)))" if "s \<in> set ?page" for s
      using rejections_lookup(2) [of "sID s" store "map sID ?page"] that ids m by (auto simp: list_all_iff)
    then have "build_items r None m ?page = Inr (map (shown r) ?page)"
      by (intro build_items_simp ids) (simp add: rejected_of_def Some)
    with Some m show ?thesis by (simp only: summary_List_def Let_def n option.case sum.case)
  qed
qed

lemma summary_Summary_simp:
  assumes "map_of (sySessions r) i = Some s" "sID s = i" "i \<noteq> []"
  shows "\<exists>d. summary_Summary r None i = Inr d \<and> sdSession d = shown r s"
  using assms session_query_valid [OF assms(3)] rejections_lookup(1) [OF assms(3)] buildItem_simp(2) [of s r]
  by (auto simp: summary_Summary_def session_FindByID_def event_list_def events_of_def shown_def rejected_of_def split: option.splits)

lemma session_List_wf:
  assumes "repo_wf r"
  shows "list_all (\<lambda>s. sID s \<noteq> [] \<and> map_of r (sID s) = Some s) (session_List r)" "distinct (map sID (session_List r))"
proof -
  have d: "distinct (map fst r)" using assms by (simp add: repo_wf_def)
  have m: "map_of r (fst p) = Some (snd p)" if "p \<in> set r" for p using d that by (cases p) simp
  have k: "sID (snd p) = fst p \<and> fst p \<noteq> []" if "p \<in> set r" for p using repo_wfD [OF assms m [OF that]] by simp
  show "list_all (\<lambda>s. sID s \<noteq> [] \<and> map_of r (sID s) = Some s) (session_List r)"
    using m k by (auto simp: session_List_def list_all_iff)
  have "map sID (session_List r) = map fst r" using k by (simp add: session_List_def)
  then show "distinct (map sID (session_List r))" using d by simp
qed

lemma session_less_total: "sID a \<noteq> sID b \<Longrightarrow> \<not> session_less b a \<Longrightarrow> session_less a b"
  by (auto simp: session_less_def split: if_splits)

lemma strictly_ordered:
  "distinct (map sID xs) \<Longrightarrow> sorted_wrt (\<lambda>x y. \<not> session_less y x) xs \<Longrightarrow> sorted_wrt session_less xs"
proof (induction xs)
  case (Cons x xs)
  then have "session_less x y" if "y \<in> set xs" for y using that by (intro session_less_total) auto
  with Cons show ?case by simp
qed simp

section \<open>Properties\<close>

text \<open>The session list and the session summary agree: every row of the list equals the row that the summary of that
  session shows, counts of frames, events and rejected frames included, and listing a well-formed repository never
  fails.\<close>

theorem list_agrees_with_summary:
  assumes "repo_wf (sySessions r)"
  shows "\<exists>items. summary_List r None limit = Inr items \<and>
    list_all (\<lambda>x. \<exists>d. summary_Summary r None (siID x) = Inr d \<and> sdSession d = x) items"
proof -
  let ?all = "sort_slice session_less (session_List (sySessions r))"
  let ?page = "take (if limit \<le> 0 \<or> limit > int (length ?all) then length ?all else nat limit) ?all"
  note w = session_List_wf [OF assms]
  have "list_all (\<lambda>s. sID s \<noteq> []) (session_List (sySessions r))" using w(1) by (simp add: list_all_iff)
  note l = summary_List_simp [OF this, of limit, unfolded Let_def]
  have "\<exists>d. summary_Summary r None (siID (shown r s)) = Inr d \<and> sdSession d = shown r s" if s: "s \<in> set ?page" for s
  proof -
    have i: "siID (shown r s) = sID s" by (simp add: shown_def item_of_def)
    have "s \<in> set (session_List (sySessions r))" using s in_set_takeD by fastforce
    then have "map_of (sySessions r) (sID s) = Some s" "sID s \<noteq> []" using w(1) by (auto simp: list_all_iff)
    from summary_Summary_simp [OF this(1) refl this(2)] show ?thesis by (simp only: i)
  qed
  then have "list_all (\<lambda>x. \<exists>d. summary_Summary r None (siID x) = Inr d \<and> sdSession d = x) (map (shown r) ?page)"
    by (simp add: list_all_iff)
  with l show ?thesis by blast
qed

text \<open>The session list shows the newest sessions first: the rows are a prefix, of the requested length, of all sessions
  ordered strictly by start and identifier, whatever the order in which the map of sessions is ranged over.\<close>

theorem newest_sessions_listed:
  assumes "repo_wf (sySessions r)"
  shows "\<exists>page rest items. summary_List r None limit = Inr items \<and> map siID items = map sID page \<and>
    mset (page @ rest) = mset (session_List (sySessions r)) \<and> sorted_wrt session_less (page @ rest) \<and>
    length page = (if limit \<le> 0 then length (sySessions r) else min (nat limit) (length (sySessions r)))"
proof -
  let ?all = "sort_slice session_less (session_List (sySessions r))"
  let ?n = "if limit \<le> 0 \<or> limit > int (length ?all) then length ?all else nat limit"
  note w = session_List_wf [OF assms]
  have "list_all (\<lambda>s. sID s \<noteq> []) (session_List (sySessions r))" using w(1) by (simp add: list_all_iff)
  note l = summary_List_simp [OF this, of limit, unfolded Let_def]
  have "mset (map sID ?all) = mset (map sID (session_List (sySessions r)))" by simp
  then have d: "distinct (map sID ?all)" using w(2) mset_eq_imp_distinct_iff by blast
  have "sorted_wrt (\<lambda>x y. \<not> session_less y x) ?all"
    using session_order.ordered_sort_slice [of "session_List (sySessions r)"] by (simp add: session_order.ordered_def)
  then have s: "sorted_wrt session_less ?all"
    using d by (intro strictly_ordered)
  have len: "length ?all = length (sySessions r)" by (simp add: session_List_def)
  show ?thesis
  proof (intro exI conjI)
    show "summary_List r None limit = Inr (map (shown r) (take ?n ?all))" by (rule l)
    show "map siID (map (shown r) (take ?n ?all)) = map sID (take ?n ?all)" by (simp add: shown_def item_of_def)
    show "mset (take ?n ?all @ drop ?n ?all) = mset (session_List (sySessions r))" by (simp only: append_take_drop_id mset_sort_slice)
    show "sorted_wrt session_less (take ?n ?all @ drop ?n ?all)" using s by (simp only: append_take_drop_id)
    show "length (take ?n ?all) = (if limit \<le> 0 then length (sySessions r) else min (nat limit) (length (sySessions r)))"
      using len by auto
  qed
qed

definition demo_summaries :: summary_repo where
  "demo_summaries = \<lparr>sySessions = [(''a'', demo_session), (''b'', demo_session\<lparr>sID := ''b'', sStartedAt := 2000, sEndedAt := Some 5000000\<rparr>)],
     syFrames = NewFrameStore 10, syEvents = Some (NewEventStore 10 0), syRejections = Some Map.empty\<rparr>"

lemma demo_summaries_wf: "repo_wf (sySessions demo_summaries)"
  by (simp add: repo_wf_def demo_summaries_def demo_session_def)

theorem list_agrees_with_summary_witness:
  "\<exists>items. summary_List demo_summaries None 1 = Inr items \<and>
    list_all (\<lambda>x. \<exists>d. summary_Summary demo_summaries None (siID x) = Inr d \<and> sdSession d = x) items"
  by (rule list_agrees_with_summary [OF demo_summaries_wf])

theorem newest_sessions_listed_witness:
  "\<exists>page rest items. summary_List demo_summaries None 1 = Inr items \<and> map siID items = map sID page \<and> length page = 1 \<and>
    sorted_wrt session_less (page @ rest)"
proof -
  have "length (sySessions demo_summaries) = 2" by (simp add: demo_summaries_def)
  with newest_sessions_listed [OF demo_summaries_wf, of 1] show ?thesis by auto
qed

end
