(* ===== verification/AdminStats.thy ===== *)
theory AdminStats
  imports Sessions FrameStore
begin

text \<open>
  \<^verbatim>\<open>internal/admin/stats.go\<close>: ingest statistics over the sessions and the stored frames.  The clock
  is an argument.  Sessions that start at the same instant keep the order of the repository's list
  (the code sorts them with an unstable sort over a random map order, so any order of them can occur).
\<close>

section \<open>Data\<close>

record Totals =
  ttSessions :: int
  ttActiveSessions :: int
  ttFinishedSessions :: int
  ttFrameBatches :: "int option"
  ttPersistedFrames :: "int option"
  ttEngineerEvents :: "int option"
  ttAIAuditLogs :: "int option"

record RecentSession =
  reID :: string
  reStartedAt :: string
  reEndedAt :: "string option"
  reDurationMs :: "int option"
  reFrameBatches :: int
  rePersistedFrames :: int
  reState :: string

record DailyStats =
  dyDate :: string
  dySessions :: int
  dyFrameBatches :: int
  dyPersistedFrames :: int

record IngestStatsResponse =
  irMode :: string
  irTotals :: Totals
  irRecentSessions :: "RecentSession list"
  irDaily :: "DailyStats list"

section \<open>Operations\<close>

definition start_less :: "Session \<Rightarrow> Session \<Rightarrow> bool" where
  "start_less a b = (sStartedAt b < sStartedAt a)"

text \<open>The cached reader of frames: the state is the cache.\<close>

definition loadFrames :: "FrameStore \<Rightarrow> ctx \<Rightarrow> (string \<rightharpoonup> Frame list) \<Rightarrow> string \<Rightarrow>
    (ctx_err + Frame list) \<times> (string \<rightharpoonup> Frame list)" where
  "loadFrames store ctx cache i =
    (case cache i of Some fs \<Rightarrow> (Inr fs, cache)
     | None \<Rightarrow> (case store_frames store ctx i of Inl e \<Rightarrow> (Inl e, cache) | Inr fs \<Rightarrow> (Inr fs, cache(i \<mapsto> fs))))"

fun persisted_loop :: "FrameStore \<Rightarrow> ctx \<Rightarrow> (string \<rightharpoonup> Frame list) \<Rightarrow> int \<Rightarrow> Session list \<Rightarrow>
    (ctx_err + int) \<times> (string \<rightharpoonup> Frame list)" where
  "persisted_loop store ctx cache n [] = (Inr n, cache)"
| "persisted_loop store ctx cache n (s # ss) =
    (case loadFrames store ctx cache (sID s) of (Inl e, cache) \<Rightarrow> (Inl e, cache)
     | (Inr fs, cache) \<Rightarrow> persisted_loop store ctx cache (n + int (length fs)) ss)"

definition recent_of :: "Session \<Rightarrow> Frame list \<Rightarrow> RecentSession" where
  "recent_of s fs = \<lparr>reID = sID s, reStartedAt = rfc3339 (sStartedAt s),
     reEndedAt = (case sEndedAt s of None \<Rightarrow> None | Some e \<Rightarrow> Some (rfc3339 e)),
     reDurationMs = (case sEndedAt s of None \<Rightarrow> None | Some e \<Rightarrow> Some (div64 (time_sub e (sStartedAt s)) 1000000)),
     reFrameBatches = 0, rePersistedFrames = int (length fs), reState = session_Status s\<rparr>"

fun recent_loop :: "FrameStore \<Rightarrow> ctx \<Rightarrow> (string \<rightharpoonup> Frame list) \<Rightarrow> Session list \<Rightarrow>
    (ctx_err + RecentSession list) \<times> (string \<rightharpoonup> Frame list)" where
  "recent_loop store ctx cache [] = (Inr [], cache)"
| "recent_loop store ctx cache (s # ss) =
    (case loadFrames store ctx cache (sID s) of (Inl e, cache) \<Rightarrow> (Inl e, cache)
     | (Inr fs, cache) \<Rightarrow> (case recent_loop store ctx cache ss of (Inl e, cache) \<Rightarrow> (Inl e, cache)
       | (Inr rs, cache) \<Rightarrow> (Inr (recent_of s fs # rs), cache)))"

text \<open>The map of days: distinct dates, in the order of their first session.\<close>

definition bump_day :: "string \<Rightarrow> int \<Rightarrow> (string \<times> DailyStats) list \<Rightarrow> (string \<times> DailyStats) list" where
  "bump_day date n m =
    (let d = (case map_of m date of Some d \<Rightarrow> d
        | None \<Rightarrow> \<lparr>dyDate = date, dySessions = 0, dyFrameBatches = 0, dyPersistedFrames = 0\<rparr>)
     in AList.update date (d\<lparr>dySessions := dySessions d + 1, dyPersistedFrames := dyPersistedFrames d + n\<rparr>) m)"

fun daily_loop :: "FrameStore \<Rightarrow> ctx \<Rightarrow> int \<Rightarrow> (string \<rightharpoonup> Frame list) \<Rightarrow> (string \<times> DailyStats) list \<Rightarrow> Session list \<Rightarrow>
    ctx_err + (string \<times> DailyStats) list" where
  "daily_loop store ctx cutoff cache m [] = Inr m"
| "daily_loop store ctx cutoff cache m (s # ss) =
    (if sStartedAt s < cutoff then daily_loop store ctx cutoff cache m ss
     else (case loadFrames store ctx cache (sID s) of (Inl e, _) \<Rightarrow> Inl e
       | (Inr fs, cache) \<Rightarrow>
         daily_loop store ctx cutoff cache (bump_day (format_date (sStartedAt s)) (int (length fs)) m) ss))"

definition day_less :: "DailyStats \<Rightarrow> DailyStats \<Rightarrow> bool" where
  "day_less a b = (dyDate a < dyDate b)"

definition admin_Stats :: "session_repo \<Rightarrow> FrameStore \<Rightarrow> ctx \<Rightarrow> int \<Rightarrow> int \<Rightarrow> int \<Rightarrow> ctx_err + IngestStatsResponse" where
  "admin_Stats sessions store ctx now limit days =
    (let all = sort_slice start_less (session_List sessions);
         totalActive = int (length (filter (\<lambda>s. session_Status s = ''active'') all));
         totalFinished = int (length (filter (\<lambda>s. session_Status s \<noteq> ''active'') all));
         totalSessions = int (length all)
     in case persisted_loop store ctx Map.empty 0 all of (Inl e, _) \<Rightarrow> Inl e
     | (Inr persisted, cache) \<Rightarrow>
       let totals = \<lparr>ttSessions = totalSessions, ttActiveSessions = totalActive, ttFinishedSessions = totalFinished,
             ttFrameBatches = None, ttPersistedFrames = Some persisted, ttEngineerEvents = None, ttAIAuditLogs = None\<rparr>;
           recentLimit = (if limit > int (length all) then int (length all) else limit)
       in case recent_loop store ctx cache (take (nat recentLimit) all) of (Inl e, _) \<Rightarrow> Inl e
       | (Inr recentSessions, cache) \<Rightarrow>
         (case daily_loop store ctx (add_days now (- days)) cache [] all of Inl e \<Rightarrow> Inl e
          | Inr m \<Rightarrow> Inr \<lparr>irMode = ''memory'', irTotals = totals, irRecentSessions = recentSessions,
              irDaily = sort_slice day_less (map snd m)\<rparr>))"

interpretation start_order: slice_less start_less UNIV
  by unfold_locales (auto simp: start_less_def)

interpretation day_order: slice_less day_less UNIV
  by unfold_locales (auto simp: day_less_def)

section \<open>Lemmas\<close>

abbreviation frame_count :: "FrameStore \<Rightarrow> string \<Rightarrow> int" where
  "frame_count store i \<equiv> int (length (map_list (sFrames store) i))"

text \<open>The cache never changes what is read.\<close>

definition coherent :: "FrameStore \<Rightarrow> (string \<rightharpoonup> Frame list) \<Rightarrow> bool" where
  "coherent store cache \<longleftrightarrow> (\<forall>i fs. cache i = Some fs \<longrightarrow> fs = map_list (sFrames store) i)"

lemma loadFrames_simp:
  "coherent store cache \<Longrightarrow> \<exists>cache'. loadFrames store None cache i = (Inr (map_list (sFrames store) i), cache') \<and> coherent store cache'"
  by (auto simp: loadFrames_def coherent_def split: option.splits)

lemma persisted_loop_simp:
  "coherent store cache \<Longrightarrow> \<exists>cache'. persisted_loop store None cache n ss =
     (Inr (n + sum_list (map (\<lambda>s. frame_count store (sID s)) ss)), cache') \<and> coherent store cache'"
proof (induction ss arbitrary: cache n)
  case (Cons s ss)
  obtain c where c: "loadFrames store None cache (sID s) = (Inr (map_list (sFrames store) (sID s)), c)" "coherent store c"
    using loadFrames_simp [OF Cons.prems] by blast
  from Cons.IH [OF c(2), of "n + frame_count store (sID s)"] show ?case by (simp add: c(1) add.assoc)
qed simp

lemma recent_loop_simp:
  "coherent store cache \<Longrightarrow> \<exists>cache'. recent_loop store None cache ss =
     (Inr (map (\<lambda>s. recent_of s (map_list (sFrames store) (sID s))) ss), cache') \<and> coherent store cache'"
proof (induction ss arbitrary: cache)
  case (Cons s ss)
  obtain c where c: "loadFrames store None cache (sID s) = (Inr (map_list (sFrames store) (sID s)), c)" "coherent store c"
    using loadFrames_simp [OF Cons.prems] by blast
  from Cons.IH [OF c(2)] show ?case by (auto simp: c(1))
qed simp

definition day_sessions :: "int \<Rightarrow> string \<Rightarrow> Session list \<Rightarrow> Session list" where
  "day_sessions cutoff date ss = filter (\<lambda>s. \<not> sStartedAt s < cutoff \<and> format_date (sStartedAt s) = date) ss"

text \<open>The map after some sessions: one entry per date, with the number of its sessions and frames.\<close>

definition days_ok :: "FrameStore \<Rightarrow> int \<Rightarrow> Session list \<Rightarrow> (string \<times> DailyStats) list \<Rightarrow> bool" where
  "days_ok store cutoff ss m \<longleftrightarrow> distinct (map fst m) \<and>
     (\<forall>date. map_of m date = (if day_sessions cutoff date ss = [] then None
        else Some \<lparr>dyDate = date, dySessions = int (length (day_sessions cutoff date ss)), dyFrameBatches = 0,
          dyPersistedFrames = sum_list (map (\<lambda>s. frame_count store (sID s)) (day_sessions cutoff date ss))\<rparr>))"

lemma days_ok_bump:
  assumes "days_ok store cutoff seen m" "\<not> sStartedAt s < cutoff"
  shows "days_ok store cutoff (seen @ [s]) (bump_day (format_date (sStartedAt s)) (frame_count store (sID s)) m)"
  unfolding days_ok_def
proof (intro conjI allI)
  show "distinct (map fst (bump_day (format_date (sStartedAt s)) (frame_count store (sID s)) m))"
    using assms(1) by (simp add: days_ok_def bump_day_def Let_def distinct_update)
  fix date
  show "map_of (bump_day (format_date (sStartedAt s)) (frame_count store (sID s)) m) date =
     (if day_sessions cutoff date (seen @ [s]) = [] then None
      else Some \<lparr>dyDate = date, dySessions = int (length (day_sessions cutoff date (seen @ [s]))), dyFrameBatches = 0,
        dyPersistedFrames = sum_list (map (\<lambda>s. frame_count store (sID s)) (day_sessions cutoff date (seen @ [s])))\<rparr>)"
    using assms by (cases "format_date (sStartedAt s) = date")
      (auto simp: days_ok_def bump_day_def Let_def update_conv day_sessions_def)
qed

lemma daily_loop_simp:
  "coherent store cache \<Longrightarrow> days_ok store cutoff seen m \<Longrightarrow>
     \<exists>m'. daily_loop store None cutoff cache m ss = Inr m' \<and> days_ok store cutoff (seen @ ss) m'"
proof (induction ss arbitrary: cache m seen)
  case (Cons s ss)
  show ?case
  proof (cases "sStartedAt s < cutoff")
    case True
    then have "days_ok store cutoff (seen @ [s]) m" using Cons.prems(2) by (simp add: days_ok_def day_sessions_def)
    from Cons.IH [OF Cons.prems(1) this] True show ?thesis by simp
  next
    case False
    obtain c where c: "loadFrames store None cache (sID s) = (Inr (map_list (sFrames store) (sID s)), c)" "coherent store c"
      using loadFrames_simp [OF Cons.prems(1)] by blast
    from Cons.IH [OF c(2) days_ok_bump [OF Cons.prems(2) False]] False c(1) show ?thesis by simp
  qed
qed simp

lemma sum_map_perm: "mset xs = mset ys \<Longrightarrow> sum_list (map f xs) = (sum_list (map f ys) :: int)"
  by (metis mset_map sum_mset_sum_list)

lemma day_sessions_perm:
  assumes "mset xs = mset ys"
  shows "length (day_sessions c d xs) = length (day_sessions c d ys)"
    and "sum_list (map f (day_sessions c d xs)) = (sum_list (map f (day_sessions c d ys)) :: int)"
    and "day_sessions c d xs = [] \<longleftrightarrow> day_sessions c d ys = []"
proof -
  have m: "mset (day_sessions c d xs) = mset (day_sessions c d ys)" using assms by (simp add: day_sessions_def)
  show l: "length (day_sessions c d xs) = length (day_sessions c d ys)" using m by (metis size_mset)
  show "sum_list (map f (day_sessions c d xs)) = sum_list (map f (day_sessions c d ys))"
    using m by (rule sum_map_perm)
  show "day_sessions c d xs = [] \<longleftrightarrow> day_sessions c d ys = []" using l by (metis length_0_conv)
qed

section \<open>Properties\<close>

text \<open>The statistics add up: every session is counted once as active or finished, the persisted frames are those of all
  sessions, the recent list has the requested length, and the daily rows are, in strict order of date, one for each day on
  which a session of the period started, with the number of its sessions and of their frames.\<close>

theorem stats_add_up:
  assumes "0 \<le> limit"
  shows "\<exists>resp. admin_Stats sessions store None now limit days = Inr resp \<and>
    ttActiveSessions (irTotals resp) + ttFinishedSessions (irTotals resp) = int (length sessions) \<and>
    ttSessions (irTotals resp) = int (length sessions) \<and>
    ttPersistedFrames (irTotals resp) = Some (sum_list (map (\<lambda>s. frame_count store (sID s)) (session_List sessions))) \<and>
    length (irRecentSessions resp) = min (nat limit) (length sessions) \<and>
    sorted_wrt (<) (map dyDate (irDaily resp)) \<and>
    set (irDaily resp) = {\<lparr>dyDate = d, dySessions = int (length ss), dyFrameBatches = 0,
        dyPersistedFrames = sum_list (map (\<lambda>s. frame_count store (sID s)) ss)\<rparr>
      |d ss. ss = day_sessions (add_days now (- days)) d (session_List sessions) \<and> ss \<noteq> []}"
proof -
  let ?all = "sort_slice start_less (session_List sessions)" and ?cut = "add_days now (- days)"
  let ?n = "if limit > int (length ?all) then int (length ?all) else limit"
  have "coherent store Map.empty" by (simp add: coherent_def)
  from persisted_loop_simp [OF this, of 0 ?all] obtain c where
    c: "persisted_loop store None Map.empty 0 ?all = (Inr (sum_list (map (\<lambda>s. frame_count store (sID s)) ?all)), c)" "coherent store c"
    by auto
  from recent_loop_simp [OF c(2), of "take (nat ?n) ?all"] obtain c' where
    c': "recent_loop store None c (take (nat ?n) ?all) =
      (Inr (map (\<lambda>s. recent_of s (map_list (sFrames store) (sID s))) (take (nat ?n) ?all)), c')" "coherent store c'" by blast
  have "days_ok store ?cut [] []" by (simp add: days_ok_def day_sessions_def)
  from daily_loop_simp [OF c'(2) this, of ?all] obtain m where
    m: "daily_loop store None ?cut c' [] ?all = Inr m" "days_ok store ?cut ?all m" by auto
  let ?resp = "\<lparr>irMode = ''memory'', irTotals = \<lparr>ttSessions = int (length ?all),
      ttActiveSessions = int (length (filter (\<lambda>s. session_Status s = ''active'') ?all)),
      ttFinishedSessions = int (length (filter (\<lambda>s. session_Status s \<noteq> ''active'') ?all)), ttFrameBatches = None,
      ttPersistedFrames = Some (sum_list (map (\<lambda>s. frame_count store (sID s)) ?all)), ttEngineerEvents = None, ttAIAuditLogs = None\<rparr>,
      irRecentSessions = map (\<lambda>s. recent_of s (map_list (sFrames store) (sID s))) (take (nat ?n) ?all),
      irDaily = sort_slice day_less (map snd m)\<rparr>"
  have r: "admin_Stats sessions store None now limit days = Inr ?resp"
    by (simp only: admin_Stats_def Let_def c(1) c'(1) m(1) prod.case sum.case)
  have perm: "mset ?all = mset (session_List sessions)" by simp
  have len: "length ?all = length sessions" by (simp add: session_List_def)
  have af: "length (filter (\<lambda>s. session_Status s = ''active'') ?all) + length (filter (\<lambda>s. session_Status s \<noteq> ''active'') ?all) = length ?all"
    by (rule sum_length_filter_compl)
  have sums: "sum_list (map (\<lambda>s. frame_count store (sID s)) ?all) = sum_list (map (\<lambda>s. frame_count store (sID s)) (session_List sessions))"
    by (rule sum_map_perm [OF perm])
  have key: "dyDate d = k" if "(k, d) \<in> set m" for k d
  proof -
    have "map_of m k = Some d" using that m(2) unfolding days_ok_def by (intro map_of_is_SomeI) blast+
    then show ?thesis using m(2) by (auto simp: days_ok_def split: if_splits)
  qed
  then have kd: "map dyDate (map snd m) = map fst m" by auto
  have "mset (map dyDate (sort_slice day_less (map snd m))) = mset (map fst m)"
    unfolding kd [symmetric] by (simp only: mset_map mset_sort_slice)
  then have dd: "distinct (map dyDate (sort_slice day_less (map snd m)))"
    using m(2) mset_eq_imp_distinct_iff unfolding days_ok_def by blast
  have "sorted (map dyDate (sort_slice day_less (map snd m)))"
    using day_order.ordered_sort_slice [of "map snd m"]
    by (simp add: day_order.ordered_def day_less_def sorted_wrt_map not_less)
  then have sorted: "sorted_wrt (<) (map dyDate (sort_slice day_less (map snd m)))"
    using dd by (simp only: strict_sorted_iff)
  have "distinct (map fst m)" using m(2) by (simp only: days_ok_def)
  then have "set (map snd m) = {d. \<exists>k. map_of m k = Some d}" by force
  also have "\<dots> = {\<lparr>dyDate = d, dySessions = int (length ss), dyFrameBatches = 0,
        dyPersistedFrames = sum_list (map (\<lambda>s. frame_count store (sID s)) ss)\<rparr>
      |d ss. ss = day_sessions ?cut d (session_List sessions) \<and> ss \<noteq> []}"
    using m(2) day_sessions_perm [OF perm] unfolding days_ok_def by auto
  finally have "set (irDaily ?resp) = {\<lparr>dyDate = d, dySessions = int (length ss), dyFrameBatches = 0,
        dyPersistedFrames = sum_list (map (\<lambda>s. frame_count store (sID s)) ss)\<rparr>
      |d ss. ss = day_sessions ?cut d (session_List sessions) \<and> ss \<noteq> []}" by simp
  then show ?thesis using r af sums sorted len assms
    by (intro exI [of _ ?resp] conjI) (simp_all add: min_def of_nat_add [symmetric])
qed

theorem stats_add_up_witness:
  "\<exists>resp. admin_Stats [(''a'', demo_session)] (NewFrameStore 5) None 90000000000000 10 1 = Inr resp \<and> ttSessions (irTotals resp) = 1"
  using stats_add_up [of 10 "[(''a'', demo_session)]" "NewFrameStore 5" 90000000000000 1] by auto

end
