(* ===== verification/SessionExport.thy ===== *)
theory SessionExport
  imports Sessions FrameStore
begin

text \<open>
  \<^verbatim>\<open>internal/sessionexport/exporter.go\<close>, and the parts of \<^verbatim>\<open>internal/api/session_export.go\<close> that
  are not glue: a finished session is exported as an ingest request.  The two readers are the
  session repository and the frame store; a nil reader is \<open>None\<close>.
\<close>

section \<open>Export\<close>

datatype export_err =
    ExpMissingDependency
  | ExpInvalidLapNumber
  | ExpMissingSession string
  | ExpLoadSession string session_err
  | ExpActiveSessionBlocked
  | ExpLoadFrames string ctx_err
  | ExpEmptyFrames string "int option"
  | ExpNonMonotonic int int int

record Exporter =
  xpSessionReader :: "session_repo option"
  xpFrameReader :: "FrameStore option"
  xpAllowActiveSession :: bool

record ExportResult =
  xrRequest :: IngestBatchRequest
  xrSession :: Session

definition filterFrames :: "Frame list \<Rightarrow> int option \<Rightarrow> Frame list" where
  "filterFrames frames lapNumber =
    (case lapNumber of None \<Rightarrow> frames | Some n \<Rightarrow> filter (\<lambda>f. fLapNumber f = n) frames)"

fun timestamps_loop :: "int \<Rightarrow> Frame \<Rightarrow> Frame list \<Rightarrow> export_err option" where
  "timestamps_loop i previous [] = None"
| "timestamps_loop i previous (f # fs) =
    (if fTimestampUnixMs f \<le> fTimestampUnixMs previous
     then Some (ExpNonMonotonic i (fTimestampUnixMs f) (fTimestampUnixMs previous))
     else timestamps_loop (i + 1) f fs)"

definition validateTimestamps :: "Frame list \<Rightarrow> export_err option" where
  "validateTimestamps frames = (case frames of [] \<Rightarrow> None | f # fs \<Rightarrow> timestamps_loop 1 f fs)"

definition Export :: "Exporter \<Rightarrow> ctx \<Rightarrow> string \<Rightarrow> int option \<Rightarrow> export_err + ExportResult" where
  "Export e ctx sessionID lapNumber =
    (case (xpSessionReader e, xpFrameReader e) of
       (Some sessions, Some store) \<Rightarrow>
         if (case lapNumber of None \<Rightarrow> False | Some n \<Rightarrow> n < 0) then Inl ExpInvalidLapNumber
         else (case session_FindByID sessions sessionID of
             Inl SesNotFound \<Rightarrow> Inl (ExpMissingSession sessionID)
           | Inl err \<Rightarrow> Inl (ExpLoadSession sessionID err)
           | Inr session \<Rightarrow>
             if session_Status session = ''active'' \<and> \<not> xpAllowActiveSession e then Inl ExpActiveSessionBlocked
             else (case store_frames store ctx (sID session) of
                 Inl err \<Rightarrow> Inl (ExpLoadFrames (sID session) err)
               | Inr frames \<Rightarrow>
                 let filteredFrames = filterFrames frames lapNumber in
                 if length filteredFrames = 0 then Inl (ExpEmptyFrames (sID session) lapNumber)
                 else (case validateTimestamps filteredFrames of
                     Some err \<Rightarrow> Inl err
                   | None \<Rightarrow> Inr \<lparr>xrRequest = \<lparr>bSessionID = sID session, bFrames = filteredFrames\<rparr>, xrSession = session\<rparr>)))
     | _ \<Rightarrow> Inl ExpMissingDependency)"

section \<open>The export request\<close>

definition sessionExportLapNumber :: "string \<Rightarrow> (string + int option)" where
  "sessionExportLapNumber raw =
    (let raw = trim_space raw in
     if raw = [] then Inr None
     else (case atoi raw of None \<Rightarrow> Inl ''lapNumber must be a non-negative integer'' | Some n \<Rightarrow> Inr (Some n)))"

definition exportAttachmentFilename :: "string \<Rightarrow> string" where
  "exportAttachmentFilename sessionID =
    (let cleaned = map (\<lambda>c. if c \<in> set [CHR ''/'', CHR 0x5C, CHR 0x22, CHR '' ''] then CHR ''_'' else c) (trim_space sessionID);
         cleaned = (if cleaned = [] then ''session'' else cleaned)
     in ''session-'' @ cleaned @ ''-trackbuilder.json'')"

section \<open>Lemmas\<close>

lemma timestamps_loop_iff:
  "timestamps_loop i p fs = None \<longleftrightarrow> sorted_wrt (\<lambda>a b. fTimestampUnixMs a < fTimestampUnixMs b) (p # fs)"
proof (induction fs arbitrary: i p)
  case (Cons f fs)
  show ?case
  proof (cases "fTimestampUnixMs f \<le> fTimestampUnixMs p")
    case True then show ?thesis by auto
  next
    case False
    then have "timestamps_loop i p (f # fs) = None \<longleftrightarrow> sorted_wrt (\<lambda>a b. fTimestampUnixMs a < fTimestampUnixMs b) (f # fs)"
      by (simp only: timestamps_loop.simps if_False Cons.IH)
    with False show ?thesis by fastforce
  qed
qed simp

lemma validateTimestamps_iff:
  "validateTimestamps fs = None \<longleftrightarrow> sorted_wrt (\<lambda>a b. fTimestampUnixMs a < fTimestampUnixMs b) fs"
proof (cases fs)
  case (Cons f rest)
  show ?thesis unfolding Cons validateTimestamps_def list.case(2) by (rule timestamps_loop_iff)
qed (simp add: validateTimestamps_def)

section \<open>Properties\<close>

text \<open>C18: Exactly the finished, well-ordered sessions are exported: an export succeeds if and only if the session exists and
  is finished (or active ones are allowed), the lap is not negative, and the frames of that lap (all of them without a lap)
  are not empty and strictly ordered in time; the request then holds exactly these frames.\<close>

theorem export_exact:
  "Export \<lparr>xpSessionReader = Some repo, xpFrameReader = Some store, xpAllowActiveSession = allow\<rparr> None i lap = Inr res \<longleftrightarrow>
    (\<exists>s. map_of repo i = Some s \<and> (allow \<or> session_Status s = ''finished'') \<and> (lap = None \<or> 0 \<le> the lap) \<and>
       bFrames (xrRequest res) = filter (\<lambda>f. lap = None \<or> fLapNumber f = the lap) (map_list (sFrames store) (sID s)) \<and>
       bFrames (xrRequest res) \<noteq> [] \<and>
       sorted_wrt (\<lambda>a b. fTimestampUnixMs a < fTimestampUnixMs b) (bFrames (xrRequest res)) \<and>
       bSessionID (xrRequest res) = sID s \<and> xrSession res = s)"
proof -
  let ?fs = "\<lambda>s. filterFrames (map_list (sFrames store) (sID s)) lap"
  have f: "?fs s = filter (\<lambda>f. lap = None \<or> fLapNumber f = the lap) (map_list (sFrames store) (sID s))" for s
    by (cases lap) (simp_all add: filterFrames_def)
  have l: "\<not> (case lap of None \<Rightarrow> False | Some n \<Rightarrow> n < 0) \<longleftrightarrow> lap = None \<or> 0 \<le> the lap" by (cases lap) auto
  have a: "session_Status s = ''active'' \<longleftrightarrow> sEndedAt s = None" for s by (simp add: session_Status_def)
  have v: "(case validateTimestamps (?fs s) of Some err \<Rightarrow> Inl err
      | None \<Rightarrow> Inr \<lparr>xrRequest = \<lparr>bSessionID = sID s, bFrames = ?fs s\<rparr>, xrSession = s\<rparr>) = Inr res \<longleftrightarrow>
      sorted_wrt (\<lambda>a b. fTimestampUnixMs a < fTimestampUnixMs b) (?fs s) \<and>
      res = \<lparr>xrRequest = \<lparr>bSessionID = sID s, bFrames = ?fs s\<rparr>, xrSession = s\<rparr>" for s
    by (cases "validateTimestamps (?fs s)") (auto simp: validateTimestamps_iff [symmetric])
  have e: "res = \<lparr>xrRequest = \<lparr>bSessionID = sID s, bFrames = ?fs s\<rparr>, xrSession = s\<rparr> \<longleftrightarrow>
      bFrames (xrRequest res) = ?fs s \<and> bSessionID (xrRequest res) = sID s \<and> xrSession res = s" for s
    by (cases res; cases "xrRequest res") auto
  show ?thesis
  proof (cases "map_of repo i")
    case None then show ?thesis by (simp add: Export_def session_FindByID_def)
  next
    case (Some s)
    have "Export \<lparr>xpSessionReader = Some repo, xpFrameReader = Some store, xpAllowActiveSession = allow\<rparr> None i lap = Inr res \<longleftrightarrow>
      (lap = None \<or> 0 \<le> the lap) \<and> (sEndedAt s \<noteq> None \<or> allow) \<and> ?fs s \<noteq> [] \<and>
      sorted_wrt (\<lambda>a b. fTimestampUnixMs a < fTimestampUnixMs b) (?fs s) \<and>
      res = \<lparr>xrRequest = \<lparr>bSessionID = sID s, bFrames = ?fs s\<rparr>, xrSession = s\<rparr>"
    proof (cases "lap = None \<or> 0 \<le> the lap")
      case True
      then have "\<not> (case lap of None \<Rightarrow> False | Some n \<Rightarrow> n < 0)" using l by simp
      then show ?thesis using True by (simp add: Export_def session_FindByID_def Some a v Let_def store_frames_def del: not_None_eq)
    next
      case False
      then have "(case lap of None \<Rightarrow> False | Some n \<Rightarrow> n < 0)" using l by blast
      then show ?thesis using False by (simp add: Export_def)
    qed
    also have "\<dots> \<longleftrightarrow> (lap = None \<or> 0 \<le> the lap) \<and> (sEndedAt s \<noteq> None \<or> allow) \<and> bFrames (xrRequest res) \<noteq> [] \<and>
      sorted_wrt (\<lambda>a b. fTimestampUnixMs a < fTimestampUnixMs b) (bFrames (xrRequest res)) \<and>
      bFrames (xrRequest res) = ?fs s \<and> bSessionID (xrRequest res) = sID s \<and> xrSession res = s"
      unfolding e by auto
    finally show ?thesis unfolding f by (auto simp: Some session_Status_def split: if_splits)
  qed
qed

end
