(* ===== verification/Api.thy ===== *)
theory Api
  imports SessionIds SessionSummary SessionExport AdminStats Detection LapRepo
begin

text \<open>
  \<^verbatim>\<open>internal/api/routes.go\<close>, \<^verbatim>\<open>session_track_layout.go\<close>, \<^verbatim>\<open>session_export.go\<close>,
  \<^verbatim>\<open>catalog_track_layouts.go\<close>, \<^verbatim>\<open>settings_bootstrap.go\<close> and \<^verbatim>\<open>platform/httperror/error.go\<close>:
  the handlers that read or change sessions.  A handler is a function of the decoded request and
  of the stores, and returns the reply with the new stores.  What \<^verbatim>\<open>net/http\<close> and
  \<^verbatim>\<open>encoding/json\<close> do is data: a body is absent, ends early, is malformed or is a value; a
  response is its status, its payload and the version member.  \<open>cx k\<close> is the state of the request
  context when the handler makes its \<open>k\<close>-th call to a store.  The stores are those that
  \<^verbatim>\<open>runtimeHandler\<close> wires without a database, none of them nil.
\<close>

section \<open>Responses\<close>

record http_error =
  heCode :: string
  heMessage :: string
  heDetails :: "RejectionDetails option"

definition BadRequest :: "string \<Rightarrow> http_error" where
  "BadRequest message = \<lparr>heCode = ''bad_request'', heMessage = message, heDetails = None\<rparr>"

definition BadRequestWithDetails :: "string \<Rightarrow> RejectionDetails \<Rightarrow> http_error" where
  "BadRequestWithDetails message details = \<lparr>heCode = ''bad_request'', heMessage = message, heDetails = Some details\<rparr>"

definition Conflict :: "string \<Rightarrow> http_error" where
  "Conflict message = \<lparr>heCode = ''conflict'', heMessage = message, heDetails = None\<rparr>"

definition Internal :: "string \<Rightarrow> http_error" where
  "Internal message = \<lparr>heCode = ''internal_error'', heMessage = message, heDetails = None\<rparr>"

record IngestBatchResponse =
  ibSessionID :: string
  ibReceivedFrames :: int
  ibAcceptedFrames :: int
  ibRejectedFrames :: int
  ibAcceptedFromUnixMs :: int
  ibAcceptedToUnixMs :: int
  ibStatus :: string
  ibRejectionSummary :: "RejectionReasonCount list option"

record settingsBootstrap =
  bsAlias :: string
  bsUnits :: string
  bsMaxBatchFrames :: int
  bsRetainedFramesPerSession :: int
  bsReadOnly :: bool
  bsAcceptsPartialIngest :: bool
  bsWriteAPI :: bool

datatype payload =
    Envelope http_error
  | SessionBody session_dto "LayoutCapabilities option"
  | IngestBody IngestBatchResponse
  | TrackBody DetectionResult
  | EventsBody string "EngineerEvent list"
  | StatsBody IngestStatsResponse
  | ListBody "SessionSummaryItem list"
  | SummaryBody SessionDetailSummary
  | CatalogBody CatalogTrackLayoutSummary
  | BootstrapBody settingsBootstrap
  | ExportBody string IngestBatchRequest

definition responseAPIVersion :: string where "responseAPIVersion = ''telemetry-one.api.v2''"

text \<open>A panic in a handler ends its connection without a reply; \<open>Stuck\<close> is a handler that does not return.\<close>

datatype reply = Reply (rpStatus: int) (rpPayload: payload) (rpVersion: "string option") | Panicked | Stuck

definition writeJSON :: "int \<Rightarrow> payload \<Rightarrow> reply" where
  "writeJSON status p = Reply status p None"

definition writeVersionedJSON :: "int \<Rightarrow> payload \<Rightarrow> reply" where
  "writeVersionedJSON status p =
    (if status < 200 \<or> status \<ge> 300 then writeJSON status p else Reply status p (Some responseAPIVersion))"

section \<open>Requests\<close>

datatype 'a body = BodyAbsent | BodyEnds | BodyMalformed | BodyJSON 'a

definition decodeJSON :: "'a body \<Rightarrow> 'a option" where
  "decodeJSON b = (case b of BodyJSON x \<Rightarrow> Some x | _ \<Rightarrow> None)"

type_synonym url_values = "string \<Rightarrow> string list"

definition url_get :: "url_values \<Rightarrow> string \<Rightarrow> string" where
  "url_get values name = (case values name of [] \<Rightarrow> [] | v # _ \<Rightarrow> v)"

definition validatedQueryParam :: "url_values \<Rightarrow> string \<Rightarrow> int \<Rightarrow> int \<Rightarrow> int \<Rightarrow> string + int" where
  "validatedQueryParam values name defaultVal mn mx =
    (case values name of [] \<Rightarrow> Inr defaultVal
     | raw # _ \<Rightarrow>
       if raw = [] then Inl (name @ '' must be an integer'')
       else (case atoi raw of None \<Rightarrow> Inl (name @ '' must be an integer'')
         | Some val \<Rightarrow>
           if val < mn then Inl (name @ '' must be between '' @ itoa mn @ '' and '' @ itoa mx)
           else if val > mx then Inl (name @ '' must be between '' @ itoa mn @ '' and '' @ itoa mx)
           else Inr val))"

fun session_err_text :: "session_err \<Rightarrow> string" where
  "session_err_text SesMissingSource = ''source is required''"
| "session_err_text SesMissingGame = ''game is required''"
| "session_err_text SesMissingPlatform = ''platform is required''"
| "session_err_text SesInvalidStartedAt = ''startedUnixMs must be greater than zero''"
| "session_err_text SesNotFound = ''session not found''"
| "session_err_text SesAlreadyExists = ''session already exists''"
| "session_err_text SesAlreadyFinished = ''session is already finished''"
| "session_err_text SesInvalidEndedAt = ''endedAt must be greater than or equal to startedAt''"
| "session_err_text SesMissingID = ''session id is required''"

fun writeSessionError :: "session_err \<Rightarrow> reply" where
  "writeSessionError SesNotFound =
    writeJSON 404 (Envelope \<lparr>heCode = ''session_not_found'', heMessage = session_err_text SesNotFound, heDetails = None\<rparr>)"
| "writeSessionError SesAlreadyFinished =
    writeJSON 409 (Envelope \<lparr>heCode = ''session_finished'', heMessage = session_err_text SesAlreadyFinished, heDetails = None\<rparr>)"
| "writeSessionError SesAlreadyExists = writeJSON 409 (Envelope (Conflict (session_err_text SesAlreadyExists)))"
| "writeSessionError SesInvalidEndedAt =
    writeJSON 400 (Envelope \<lparr>heCode = ''invalid_session_id'', heMessage = session_err_text SesInvalidEndedAt, heDetails = None\<rparr>)"
| "writeSessionError SesMissingID =
    writeJSON 400 (Envelope \<lparr>heCode = ''invalid_session_id'', heMessage = session_err_text SesMissingID, heDetails = None\<rparr>)"
| "writeSessionError _ = writeJSON 500 (Envelope (Internal ''session repository error''))"

definition validateSession :: "session_repo \<Rightarrow> string \<Rightarrow> bool \<Rightarrow> session_err + Session" where
  "validateSession repo sessionID requireActive =
    (if sessionID = [] then Inl SesMissingID
     else (case session_FindByID repo sessionID of Inl e \<Rightarrow> Inl e
       | Inr s \<Rightarrow> if requireActive \<and> session_Status s = ''finished'' then Inl SesAlreadyFinished else Inr s))"

section \<open>The stores\<close>

record server =
  svFrames :: FrameStore
  svEvents :: EventStore
  svLaps :: lap_repo
  svSessions :: session_repo
  svRejections :: rejection_store

definition summary_of :: "server \<Rightarrow> summary_repo" where
  "summary_of s = \<lparr>sySessions = svSessions s, syFrames = svFrames s, syEvents = Some (svEvents s), syRejections = Some (svRejections s)\<rparr>"

record Config =
  cfRetainedFramesPerSession :: int
  cfAdminToken :: string
  cfSkipInvalidApprovedGeometry :: bool
  cfEnableSessionExport :: bool

definition prepareRuntimeCatalog :: "Config \<Rightarrow> Catalog \<Rightarrow> cat_error + Catalog" where
  "prepareRuntimeCatalog cfg c = PrepareApprovedGeometry c (cfSkipInvalidApprovedGeometry cfg)"

definition runtimeHandler :: "Config \<Rightarrow> Catalog \<Rightarrow> cat_error + Catalog \<times> server" where
  "runtimeHandler cfg seed =
    (case prepareRuntimeCatalog cfg seed of Inl e \<Rightarrow> Inl e
     | Inr c \<Rightarrow> Inr (c, \<lparr>svFrames = NewFrameStore (cfRetainedFramesPerSession cfg), svEvents = NewEventStore DefaultStoredEventsLimit 0,
         svLaps = NewMemoryRepository, svSessions = NewSessionRepository, svRejections = Map.empty\<rparr>))"

section \<open>Session handlers\<close>

definition catalogHasTrack :: "Catalog \<Rightarrow> string \<Rightarrow> bool" where
  "catalogHasTrack c trackID = list_ex (\<lambda>t. trID t = trackID) (caTracks c)"

definition sessionTrackCapabilities :: "Session \<Rightarrow> Catalog \<Rightarrow> LayoutCapabilities option" where
  "sessionTrackCapabilities s c =
    (let trackID = (if sTrackID s = [] then sDetectedTrackID s else sTrackID s);
         layoutID = EffectiveLayoutID s
     in if trackID = [] \<or> layoutID = [] then None else Some (catalog_LayoutCapabilities c trackID layoutID))"

definition enrichSessionDTO :: "session_dto \<Rightarrow> Session \<Rightarrow> Catalog \<Rightarrow> payload" where
  "enrichSessionDTO dto s c = SessionBody dto (sessionTrackCapabilities s c)"

datatype dto_err = FrameRepositoryError | EventRepositoryError

definition sessionDTO :: "(nat \<Rightarrow> ctx) \<Rightarrow> Session \<Rightarrow> server \<Rightarrow> Catalog \<Rightarrow> dto_err + payload" where
  "sessionDTO cx s sv c =
    (case store_frames (svFrames sv) (cx 0) (sID s) of Inl _ \<Rightarrow> Inl FrameRepositoryError
     | Inr frames \<Rightarrow>
       (case event_list (svEvents sv) (cx 1) (session_query (sID s)) of Inl _ \<Rightarrow> Inl EventRepositoryError
        | Inr storedEvents \<Rightarrow>
          Inr (enrichSessionDTO (NewDTO s (int (length frames)) (int (length storedEvents))) s c)))"

fun writeSessionDTOError :: "dto_err \<Rightarrow> reply" where
  "writeSessionDTOError FrameRepositoryError = writeJSON 500 (Envelope (Internal ''frame repository error''))"
| "writeSessionDTOError EventRepositoryError = writeJSON 500 (Envelope (Internal ''event repository error''))"

definition createSessionHandler :: "Catalog \<Rightarrow> int \<Rightarrow> 8 word list option \<Rightarrow> CreateRequest body \<Rightarrow> server \<Rightarrow> reply \<times> server" where
  "createSessionHandler c unixMs entropy b sv =
    (case decodeJSON b of None \<Rightarrow> (writeJSON 400 (Envelope (BadRequest ''invalid JSON body'')), sv)
     | Some request \<Rightarrow>
       (case create_Validate request of Some e \<Rightarrow> (writeJSON 400 (Envelope (BadRequest (session_err_text e))), sv)
        | None \<Rightarrow>
          if cqTrackID request \<noteq> [] \<and> \<not> catalogHasTrack c (cqTrackID request)
          then (writeJSON 400 (Envelope (BadRequest ''trackId must exist in catalog'')), sv)
          else (case NewID unixMs entropy of
              None \<Rightarrow> (writeJSON 500 (Envelope (Internal ''failed to generate session id'')), sv)
            | Some newID \<Rightarrow>
              (case session_Create (svSessions sv) \<lparr>sID = newID, sSource = cqSource request, sGame = cqGame request,
                  sPlatform = cqPlatform request, sDriverAlias = cqDriverAlias request,
                  sStartedAt = unix_milli (cqStartedUnixMs request), sEndedAt = None, sTrackID = cqTrackID request,
                  sLayoutID = [], sDetectedTrackID = [], sDetectedLayoutID = []\<rparr> of
                 (Inl e, repo) \<Rightarrow> (writeSessionError e, sv\<lparr>svSessions := repo\<rparr>)
               | (Inr s, repo) \<Rightarrow>
                 (writeVersionedJSON 201 (enrichSessionDTO (NewDTO s 0 0) s c), sv\<lparr>svSessions := repo\<rparr>)))))"

definition getSessionHandler :: "Catalog \<Rightarrow> (nat \<Rightarrow> ctx) \<Rightarrow> string \<Rightarrow> server \<Rightarrow> reply" where
  "getSessionHandler c cx sessionID sv =
    (case session_FindByID (svSessions sv) sessionID of Inl e \<Rightarrow> writeSessionError e
     | Inr s \<Rightarrow> (case sessionDTO cx s sv c of Inl e \<Rightarrow> writeSessionDTOError e | Inr dto \<Rightarrow> writeVersionedJSON 200 dto))"

text \<open>\<open>now\<close> is the clock, read when the request names no time.\<close>

definition finishSessionHandler :: "Catalog \<Rightarrow> (nat \<Rightarrow> ctx) \<Rightarrow> int \<Rightarrow> string \<Rightarrow> FinishRequest body \<Rightarrow> server \<Rightarrow> reply \<times> server" where
  "finishSessionHandler c cx now sessionID b sv =
    (case (case b of BodyJSON r \<Rightarrow> Some r | BodyMalformed \<Rightarrow> None | _ \<Rightarrow> Some \<lparr>fqEndedUnixMs = None\<rparr>) of
       None \<Rightarrow> (writeJSON 400 (Envelope (BadRequest ''invalid JSON body'')), sv)
     | Some request \<Rightarrow>
       (case session_End (svSessions sv) sessionID (finish_EndedAt request now) of
          (Inl e, repo) \<Rightarrow> (writeSessionError e, sv\<lparr>svSessions := repo\<rparr>)
        | (Inr s, repo) \<Rightarrow>
          (let sv = sv\<lparr>svSessions := repo\<rparr>
           in (case sessionDTO cx s sv c of Inl e \<Rightarrow> (writeSessionDTOError e, sv)
               | Inr dto \<Rightarrow> (writeVersionedJSON 200 dto, sv)))))"

record sessionTrackLayoutRequest =
  tqTrackID :: string
  tqLayoutID :: string

definition track_layout_Validate :: "sessionTrackLayoutRequest \<Rightarrow> string option" where
  "track_layout_Validate r =
    (if tqTrackID r = [] then Some ''trackId is required'' else if tqLayoutID r = [] then Some ''layoutId is required'' else None)"

definition sessionTrackLayoutHandler ::
  "Catalog \<Rightarrow> (nat \<Rightarrow> ctx) \<Rightarrow> string \<Rightarrow> sessionTrackLayoutRequest body \<Rightarrow> server \<Rightarrow> reply \<times> server" where
  "sessionTrackLayoutHandler c cx sessionID b sv =
    (case decodeJSON b of None \<Rightarrow> (writeJSON 400 (Envelope (BadRequest ''invalid JSON body'')), sv)
     | Some request \<Rightarrow>
       (case track_layout_Validate request of Some e \<Rightarrow> (writeJSON 400 (Envelope (BadRequest e)), sv)
        | None \<Rightarrow>
          if FindSelectableTrackLayout c (tqTrackID request) (tqLayoutID request) = None
          then (writeJSON 400 (Envelope (BadRequest ''trackId and layoutId must match a sourced catalog layout'')), sv)
          else (case validateSession (svSessions sv) sessionID False of Inl e \<Rightarrow> (writeSessionError e, sv)
            | Inr _ \<Rightarrow>
              (case SetTrackLayout (svSessions sv) sessionID (tqTrackID request) (tqLayoutID request) of
                 (Inl e, repo) \<Rightarrow> (writeSessionError e, sv\<lparr>svSessions := repo\<rparr>)
               | (Inr updated, repo) \<Rightarrow>
                 (let sv = sv\<lparr>svSessions := repo\<rparr>
                  in (case sessionDTO cx updated sv c of Inl e \<Rightarrow> (writeSessionDTOError e, sv)
                      | Inr dto \<Rightarrow> (writeVersionedJSON 200 dto, sv)))))))"

section \<open>Query handlers\<close>

definition zero_options :: DetectionOptions where
  "zero_options = \<lparr>doMinCompletedLapFrames = 0, doLengthToleranceRatio = Fin 0, doAmbiguousScoreMargin = Fin 0,
     doMinDetectedConfidence = Fin 0\<rparr>"

definition detectTrackHandler :: "Catalog \<Rightarrow> (nat \<Rightarrow> ctx) \<Rightarrow> string \<Rightarrow> server \<Rightarrow> reply" where
  "detectTrackHandler c cx sessionID sv =
    (case validateSession (svSessions sv) sessionID False of Inl e \<Rightarrow> writeSessionError e
     | Inr _ \<Rightarrow>
       (case store_frames (svFrames sv) (cx 0) sessionID of
          Inl _ \<Rightarrow> writeJSON 500 (Envelope (Internal ''frame persistence error''))
        | Inr frames \<Rightarrow>
          let result = DetectTrack frames c zero_options;
              result = (case (dsTrackID result, dsLayoutID result) of
                  (Some t, Some l) \<Rightarrow> if dsStatus result = ''detected''
                    then result\<lparr>dsCapabilities := Some (catalog_LayoutCapabilities c t l)\<rparr> else result
                | _ \<Rightarrow> result)
          in writeVersionedJSON 200 (TrackBody result)))"

fun ctx_err_text :: "ctx_err \<Rightarrow> string" where
  "ctx_err_text Canceled = ''context canceled''"
| "ctx_err_text DeadlineExceeded = ''context deadline exceeded''"

fun query_err_text :: "ev_err \<Rightarrow> string" where
  "query_err_text EvMissingSessionID = ''sessionId is required''"
| "query_err_text EvUnsupportedType = ''type is not supported''"
| "query_err_text EvInvalidLapNumber = ''lapNumber must be zero or greater''"
| "query_err_text _ = []"

definition eventQuery :: "string \<Rightarrow> url_values \<Rightarrow> ev_err + Query" where
  "eventQuery sessionID values =
    (let lapNumber = url_get values ''lapNumber'' in
     case (if lapNumber = [] then Inr None
           else case atoi lapNumber of None \<Rightarrow> Inl EvInvalidLapNumber | Some n \<Rightarrow> Inr (Some n)) of
       Inl e \<Rightarrow> Inl e
     | Inr lap \<Rightarrow>
       let query = \<lparr>qSessionID = sessionID, qLapNumber = lap, qCornerID = url_get values ''cornerId'', qType = url_get values ''type''\<rparr>
       in (case query_Validate query of Some e \<Rightarrow> Inl e | None \<Rightarrow> Inr query))"

definition listEventsHandler :: "(nat \<Rightarrow> ctx) \<Rightarrow> string \<Rightarrow> url_values \<Rightarrow> server \<Rightarrow> reply" where
  "listEventsHandler cx sessionID values sv =
    (case validateSession (svSessions sv) sessionID False of Inl e \<Rightarrow> writeSessionError e
     | Inr _ \<Rightarrow>
       (case eventQuery sessionID values of Inl e \<Rightarrow> writeJSON 400 (Envelope (BadRequest (query_err_text e)))
        | Inr query \<Rightarrow>
          (case event_list (svEvents sv) (cx 0) query of
             Inl (StoreCtx e) \<Rightarrow> writeJSON 400 (Envelope (BadRequest (ctx_err_text e)))
           | Inl (StoreEvent e) \<Rightarrow> writeJSON 400 (Envelope (BadRequest (query_err_text e)))
           | Inr es \<Rightarrow> writeVersionedJSON 200 (EventsBody (qSessionID query) es))))"

definition adminAuthMiddleware :: "Config \<Rightarrow> string \<Rightarrow> reply \<Rightarrow> reply" where
  "adminAuthMiddleware cfg auth next_reply =
    (if cfAdminToken cfg = [] then next_reply
     else if \<not> has_prefix auth ''Bearer ''
     then writeJSON 401 (Envelope \<lparr>heCode = ''unauthorized'', heMessage = ''missing or malformed authorization header'', heDetails = None\<rparr>)
     else if trim_prefix auth ''Bearer '' \<noteq> cfAdminToken cfg
     then writeJSON 401 (Envelope \<lparr>heCode = ''unauthorized'', heMessage = ''invalid token'', heDetails = None\<rparr>)
     else next_reply)"

definition ingestStatsHandler :: "(nat \<Rightarrow> ctx) \<Rightarrow> int \<Rightarrow> url_values \<Rightarrow> server \<Rightarrow> reply" where
  "ingestStatsHandler cx now values sv =
    (case validatedQueryParam values ''limit'' 10 1 100 of Inl m \<Rightarrow> writeJSON 400 (Envelope (BadRequest m))
     | Inr limit \<Rightarrow>
       (case validatedQueryParam values ''days'' 7 1 90 of Inl m \<Rightarrow> writeJSON 400 (Envelope (BadRequest m))
        | Inr days \<Rightarrow>
          (case admin_Stats (svSessions sv) (svFrames sv) (cx 0) now limit days of
             Inl _ \<Rightarrow> writeJSON 500 (Envelope (Internal ''failed to load ingest stats''))
           | Inr resp \<Rightarrow> writeVersionedJSON 200 (StatsBody resp))))"

definition listSessionsHandler :: "(nat \<Rightarrow> ctx) \<Rightarrow> url_values \<Rightarrow> server \<Rightarrow> reply" where
  "listSessionsHandler cx values sv =
    (case validatedQueryParam values ''limit'' 20 1 100 of Inl m \<Rightarrow> writeJSON 400 (Envelope (BadRequest m))
     | Inr limit \<Rightarrow>
       (case summary_List (summary_of sv) (cx 0) limit of
          Inl _ \<Rightarrow> writeJSON 500 (Envelope (Internal ''failed to list sessions''))
        | Inr items \<Rightarrow> writeVersionedJSON 200 (ListBody items)))"

definition sessionSummaryHandler :: "(nat \<Rightarrow> ctx) \<Rightarrow> string \<Rightarrow> server \<Rightarrow> reply" where
  "sessionSummaryHandler cx sessionID sv =
    (case summary_Summary (summary_of sv) (cx 0) sessionID of
       Inl (SumSession e) \<Rightarrow> writeSessionError e
     | Inl _ \<Rightarrow> writeJSON 500 (Envelope (Internal ''session repository error''))
     | Inr resp \<Rightarrow> writeVersionedJSON 200 (SummaryBody resp))"

definition catalogTrackLayoutsHandler :: "Catalog \<Rightarrow> reply" where
  "catalogTrackLayoutsHandler c = writeVersionedJSON 200 (CatalogBody (BuildCatalogTrackLayoutSummary c))"

definition buildSettingsBootstrap :: "Config \<Rightarrow> settingsBootstrap" where
  "buildSettingsBootstrap cfg =
    \<lparr>bsAlias = [], bsUnits = ''metric'', bsMaxBatchFrames = MaxBatchFrames,
     bsRetainedFramesPerSession = (if cfRetainedFramesPerSession cfg \<le> 0 then 12000 else cfRetainedFramesPerSession cfg),
     bsReadOnly = True, bsAcceptsPartialIngest = True, bsWriteAPI = False\<rparr>"

definition settingsBootstrapHandler :: "Config \<Rightarrow> reply" where
  "settingsBootstrapHandler cfg = writeVersionedJSON 200 (BootstrapBody (buildSettingsBootstrap cfg))"

fun writeSessionExportError :: "export_err \<Rightarrow> reply" where
  "writeSessionExportError (ExpMissingSession i) =
    writeJSON 404 (Envelope \<lparr>heCode = ''session_not_found'', heMessage = ''session not found: '' @ i, heDetails = None\<rparr>)"
| "writeSessionExportError ExpActiveSessionBlocked =
    writeJSON 409 (Envelope \<lparr>heCode = ''session_export_blocked'', heMessage = ''session is still active'', heDetails = None\<rparr>)"
| "writeSessionExportError ExpInvalidLapNumber = writeJSON 400 (Envelope (BadRequest (tel_err_text ErrInvalidLapNumber)))"
| "writeSessionExportError (ExpEmptyFrames i lap) =
    writeJSON 400 (Envelope (BadRequest (''no persisted frames found: '' @ i @
      (case lap of None \<Rightarrow> [] | Some n \<Rightarrow> '' lap '' @ itoa n))))"
| "writeSessionExportError (ExpNonMonotonic i a b) =
    writeJSON 400 (Envelope (BadRequest (''exported timestamps must strictly increase at frame '' @ itoa i @ '': '' @ itoa a @ '' <= '' @ itoa b)))"
| "writeSessionExportError _ = writeJSON 500 (Envelope (Internal ''session export failed''))"

definition sessionExportHandler :: "Config \<Rightarrow> (nat \<Rightarrow> ctx) \<Rightarrow> string \<Rightarrow> url_values \<Rightarrow> server \<Rightarrow> reply" where
  "sessionExportHandler cfg cx sessionID values sv =
    (if \<not> cfEnableSessionExport cfg
     then writeJSON 403 (Envelope \<lparr>heCode = ''forbidden'', heMessage = ''session export is disabled'', heDetails = None\<rparr>)
     else (case sessionExportLapNumber (url_get values ''lapNumber'') of Inl m \<Rightarrow> writeJSON 400 (Envelope (BadRequest m))
       | Inr lapNumber \<Rightarrow>
         (case Export \<lparr>xpSessionReader = Some (svSessions sv), xpFrameReader = Some (svFrames sv), xpAllowActiveSession = False\<rparr>
              (cx 0) sessionID lapNumber of
            Inl e \<Rightarrow> writeSessionExportError e
          | Inr result \<Rightarrow> writeJSON 200 (ExportBody (exportAttachmentFilename (sID (xrSession result))) (xrRequest result)))))"

section \<open>Properties\<close>

lemma has_prefix_append: "has_prefix (p @ t) p"
  using strip_prefix_append [of p "p @ t" t] by (simp add: has_prefix_def)

lemma trim_prefix_eq:
  assumes "has_prefix a p" shows "trim_prefix a p = t \<longleftrightarrow> a = p @ t"
proof -
  obtain u where u: "strip_prefix p a = Some u" using assms by (auto simp: has_prefix_def)
  then have "a = p @ u" by (simp only: strip_prefix_append)
  with u show ?thesis by (simp add: trim_prefix_def)
qed

lemma bearer_token:
  fixes p :: string
  shows "(if \<not> has_prefix a p then x else if trim_prefix a p \<noteq> t then y else z) =
    (if a = p @ t then z else if has_prefix a p then y else x)"
  using has_prefix_append [of p t] trim_prefix_eq [of a p t] by (cases "has_prefix a p") auto

text \<open>The admin routes are open exactly to the holder of the token: the protected handler answers if and only if no
  token is configured or the authorization header is the bearer scheme with exactly the configured token; every other
  request is refused as unauthorized.\<close>

theorem admin_access_exact:
  "adminAuthMiddleware cfg auth protected_reply =
    (if cfAdminToken cfg = [] \<or> auth = ''Bearer '' @ cfAdminToken cfg then protected_reply
     else writeJSON 401 (Envelope \<lparr>heCode = ''unauthorized'',
       heMessage = (if has_prefix auth ''Bearer '' then ''invalid token'' else ''missing or malformed authorization header''),
       heDetails = None\<rparr>))"
  unfolding adminAuthMiddleware_def bearer_token
  by (cases "cfAdminToken cfg = []"; cases "has_prefix auth ''Bearer ''"; cases "auth = ''Bearer '' @ cfAdminToken cfg")
    (simp_all only: if_True if_False simp_thms)

text \<open>A numeric query parameter is either absent, and then the default, or it is a decimal integer within its bounds;
  everything else is refused.  So page sizes and day counts are always within the configured limits.\<close>

theorem query_param_exact:
  "validatedQueryParam values name d mn mx = Inr n \<longleftrightarrow>
    values name = [] \<and> n = d \<or>
    (\<exists>raw rest. values name = raw # rest \<and> atoi raw = Some n \<and> mn \<le> n \<and> n \<le> mx)"
proof -
  have "atoi [] = None" by (simp add: atoi_def)
  then show ?thesis by (auto simp: validatedQueryParam_def split: list.splits option.splits)
qed

end
