(* ===== verification/Ingest.thy ===== *)
theory Ingest
  imports Api Gaps Producer
begin

text \<open>
  The ingest handler of \<^verbatim>\<open>internal/api/routes.go\<close>: validation, the frame store, completed laps, gap
  counts and samples, track detection, events, the rejection log and the response.  Each part takes
  the stores it changes; a part that ends the request returns its reply.  The record \<open>ingest_env\<close>
  holds what the handler reads from outside: the request context at each store call (one per
  iteration in the loops), the identifier the rejection log draws, and the clock.
\<close>

section \<open>The handler\<close>

record ingest_env =
  ieAppend :: ctx
  ieLaps :: ctx
  ieGapFrames :: ctx
  ieGaps :: "nat \<Rightarrow> ctx"
  ieSampleFrames :: ctx
  ieSamples :: "nat \<Rightarrow> ctx"
  ieFrames :: ctx
  ieEvents :: "nat \<Rightarrow> ctx"
  ieReject :: ctx
  ieNewID :: string
  ieNow :: int

datatype persist = PersistOk | PersistErr | PersistPanic | PersistStuck

fun gap_counts_loop :: "(nat \<Rightarrow> ctx) \<Rightarrow> nat \<Rightarrow> string \<Rightarrow> Frame list \<Rightarrow> CompletedLap list \<Rightarrow> lap_repo \<Rightarrow> persist \<times> lap_repo" where
  "gap_counts_loop cx k sid frames [] r = (PersistOk, r)"
| "gap_counts_loop cx k sid frames (lap # laps) r =
    (case UpdateTelemetryGapCount r (cx k) sid (lLapNumber lap) (CountTelemetryGaps lap frames) of
       (Some e, r) \<Rightarrow> (PersistErr, r)
     | (None, r) \<Rightarrow> gap_counts_loop cx (k + 1) sid frames laps r)"

definition persistTelemetryGapCounts :: "ingest_env \<Rightarrow> FrameStore \<Rightarrow> lap_repo \<Rightarrow> string \<Rightarrow> CompletedLap list \<Rightarrow> persist \<times> lap_repo" where
  "persistTelemetryGapCounts env store r sid completed =
    (if length completed = 0 then (PersistOk, r)
     else (case store_frames store (ieGapFrames env) sid of Inl _ \<Rightarrow> (PersistErr, r)
       | Inr accumulated \<Rightarrow> gap_counts_loop (ieGaps env) 0 sid accumulated completed r))"

fun samples_loop :: "(nat \<Rightarrow> ctx) \<Rightarrow> nat \<Rightarrow> Frame list \<Rightarrow> CompletedLap list \<Rightarrow> lap_repo \<Rightarrow> persist \<times> lap_repo" where
  "samples_loop cx k frames [] r = (PersistOk, r)"
| "samples_loop cx k frames (lap # laps) r =
    (case BuildLapSamples lap frames DefaultSampleStepMeters of
       SamplesPanic \<Rightarrow> (PersistPanic, r)
     | SamplesDiverge \<Rightarrow> (PersistStuck, r)
     | SamplesNone \<Rightarrow> samples_loop cx k frames laps r
     | Samples samples \<Rightarrow>
       (case UpsertSamples r (cx k) samples of
          (Some e, r) \<Rightarrow> (PersistErr, r)
        | (None, r) \<Rightarrow> samples_loop cx (k + 1) frames laps r))"

definition persistLapSamples :: "ingest_env \<Rightarrow> FrameStore \<Rightarrow> lap_repo \<Rightarrow> string \<Rightarrow> CompletedLap list \<Rightarrow> persist \<times> lap_repo" where
  "persistLapSamples env store r sid completed =
    (if length completed = 0 then (PersistOk, r)
     else (case store_frames store (ieSampleFrames env) sid of Inl _ \<Rightarrow> (PersistErr, r)
       | Inr accumulated \<Rightarrow> samples_loop (ieSamples env) 0 accumulated completed r))"

fun persist_reply :: "string \<Rightarrow> persist \<Rightarrow> reply option" where
  "persist_reply message PersistOk = None"
| "persist_reply message PersistErr = Some (writeJSON 500 (Envelope (Internal message)))"
| "persist_reply message PersistPanic = Some Panicked"
| "persist_reply message PersistStuck = Some Stuck"

text \<open>The laps of the batch, their gap counts and their samples.\<close>

definition ingest_laps :: "ingest_env \<Rightarrow> FrameStore \<Rightarrow> string \<Rightarrow> Frame list \<Rightarrow> lap_repo \<Rightarrow> reply option \<times> lap_repo" where
  "ingest_laps env store sid accepted r =
    (let completed = ExtractCompleted sid accepted in
     if length completed > 0 then
       (case UpsertCompleted r (ieLaps env) completed of
          (Some e, r) \<Rightarrow> (Some (writeJSON 500 (Envelope (Internal ''lap persistence error''))), r)
        | (None, r) \<Rightarrow>
          (case persistTelemetryGapCounts env store r sid completed of
             (p, r) \<Rightarrow>
               (case persist_reply ''lap persistence error'' p of Some reply \<Rightarrow> (Some reply, r)
                | None \<Rightarrow>
                  (case persistLapSamples env store r sid completed of
                     (p, r) \<Rightarrow> (persist_reply ''lap sample persistence error'' p, r)))))
     else (None, r))"

definition hasLapOneBegan :: "Frame list \<Rightarrow> bool" where
  "hasLapOneBegan frames = list_ex (\<lambda>f. fLapNumber f \<ge> 1) frames"

definition catalog_name_ref :: "string \<Rightarrow> string \<Rightarrow> CatalogRef" where
  "catalog_name_ref i n = \<lparr>crID = Some i, crName = Some n, crDisplayStrategy = ''catalog_name''\<rparr>"

text \<open>A failure to store the detected layout is only logged.\<close>

definition ingest_detect :: "Catalog \<Rightarrow> Session \<Rightarrow> string \<Rightarrow> Frame list \<Rightarrow> session_repo \<Rightarrow>
    (CatalogRef option \<times> CatalogRef option) \<times> session_repo" where
  "ingest_detect c session sid accumulated repo =
    (if hasLapOneBegan accumulated then
       let d = DetectTrack accumulated c zero_options in
       if dsStatus d = ''detected'' then
         (case (dsTrackID d, dsTrackName d, dsLayoutID d, dsLayoutName d) of
            (Some t, Some tn, Some l, Some lname) \<Rightarrow>
              ((Some (catalog_name_ref t tn), Some (catalog_name_ref l lname)),
               if sTrackID session = [] \<and> sDetectedTrackID session = [] then snd (SetDetectedTrackLayout repo sid t l) else repo)
          | _ \<Rightarrow> ((None, None), repo))
       else ((None, None), repo)
     else ((None, None), repo))"

fun append_events_loop :: "(nat \<Rightarrow> ctx) \<Rightarrow> nat \<Rightarrow> EngineerEvent list \<Rightarrow> EventStore \<Rightarrow> bool \<times> EventStore" where
  "append_events_loop cx k [] store = (True, store)"
| "append_events_loop cx k (e # es) store =
    (case event_append store (cx k) e of
       (Inl err, store) \<Rightarrow> (False, store)
     | (Inr _, store) \<Rightarrow> append_events_loop cx (k + 1) es store)"

definition ingest_events :: "Catalog \<Rightarrow> ingest_env \<Rightarrow> Session \<Rightarrow> string \<Rightarrow> Frame list \<Rightarrow> server \<Rightarrow> reply option \<times> server" where
  "ingest_events c env session sid accepted sv =
    (case store_frames (svFrames sv) (ieFrames env) sid of
       Inl _ \<Rightarrow> (Some (writeJSON 500 (Envelope (Internal ''frame persistence error''))), sv)
     | Inr accumulated \<Rightarrow>
       (case ingest_detect c session sid accumulated (svSessions sv) of
          ((trackRef, layoutRef), repo) \<Rightarrow>
            (let sv = sv\<lparr>svSessions := repo\<rparr> in
             (case GenerateFrameEventsForAppendWithRefs sid accumulated accepted trackRef layoutRef of
                Inl _ \<Rightarrow> (Some (writeJSON 500 (Envelope (Internal ''event generation error''))), sv)
              | Inr generated \<Rightarrow>
                (case append_events_loop (ieEvents env) 0 generated (svEvents sv) of
                   (ok, store) \<Rightarrow>
                     (if ok then None else Some (writeJSON 500 (Envelope (Internal ''event persistence error''))),
                      sv\<lparr>svEvents := store\<rparr>))))))"

text \<open>The two cases of \<^verbatim>\<open>Append\<close> that the handler answers with 404 and 409 are errors of the Postgres store
  only: the in-memory store, the one composed here, fails with the error of the context alone.\<close>

definition ingest_accepted :: "Catalog \<Rightarrow> ingest_env \<Rightarrow> Session \<Rightarrow> string \<Rightarrow> Frame list \<Rightarrow> server \<Rightarrow> reply option \<times> server" where
  "ingest_accepted c env session sid accepted sv =
    (case store_append (svFrames sv) (ieAppend env) sid accepted of
       (Some e, store) \<Rightarrow> (Some (writeJSON 500 (Envelope (Internal ''frame persistence error''))), sv\<lparr>svFrames := store\<rparr>)
     | (None, store) \<Rightarrow>
       (case ingest_laps env store sid accepted (svLaps sv) of
          (Some reply, r) \<Rightarrow> (Some reply, sv\<lparr>svFrames := store, svLaps := r\<rparr>)
        | (None, r) \<Rightarrow> ingest_events c env session sid accepted (sv\<lparr>svFrames := store, svLaps := r\<rparr>)))"

fun accepted_range_loop :: "int \<Rightarrow> int \<Rightarrow> Frame list \<Rightarrow> int \<times> int" where
  "accepted_range_loop a b [] = (a, b)"
| "accepted_range_loop a b (f # fs) =
    accepted_range_loop (if fTimestampUnixMs f < a then fTimestampUnixMs f else a)
      (if fTimestampUnixMs f > b then fTimestampUnixMs f else b) fs"

definition acceptedTimeRange :: "Frame list \<Rightarrow> int \<times> int" where
  "acceptedTimeRange frames =
    (case frames of [] \<Rightarrow> (0, 0) | f # fs \<Rightarrow> accepted_range_loop (fTimestampUnixMs f) (fTimestampUnixMs f) fs)"

definition formatTopReasons :: "RejectionReasonCount list option \<Rightarrow> string list" where
  "formatTopReasons summary =
    (case summary of None \<Rightarrow> []
     | Some reasons \<Rightarrow> map reCode (if length reasons > 3 then take 3 reasons else reasons))"

definition writeTelemetryRejection :: "RejectionError \<Rightarrow> reply" where
  "writeTelemetryRejection e = writeJSON 400 (Envelope (BadRequestWithDetails (rejection_Error e) (rejection_Details e)))"

definition ingest_status :: "NormalizeResult \<Rightarrow> string" where
  "ingest_status result =
    (if length (nFrames result) = 0 then ''rejected'' else if length (nRejections result) > 0 then ''partial'' else ''accepted'')"

text \<open>The response, and the record the rejection log gets when frames were rejected.\<close>

definition ingest_response :: "string \<Rightarrow> Frame list \<Rightarrow> NormalizeResult \<Rightarrow> IngestBatchResponse" where
  "ingest_response sid received result =
    \<lparr>ibSessionID = sid, ibReceivedFrames = int (length received), ibAcceptedFrames = int (length (nFrames result)),
     ibRejectedFrames = int (length (nRejections result)),
     ibAcceptedFromUnixMs = fst (acceptedTimeRange (nFrames result)), ibAcceptedToUnixMs = snd (acceptedTimeRange (nFrames result)),
     ibStatus = ingest_status result,
     ibRejectionSummary = (if length (nRejections result) > 0 then Some (BuildRejectionSummary (nRejections result)) else None)\<rparr>"

definition ingest_rejections :: "ingest_env \<Rightarrow> IngestBatchResponse \<Rightarrow> rejection_store \<Rightarrow> rejection_store" where
  "ingest_rejections env resp store =
    (case ibRejectionSummary resp of None \<Rightarrow> store
     | Some summary \<Rightarrow>
       snd (rejections_append store (ieReject env) (ieNewID env) (ieNow env)
         \<lparr>rsID = [], rsSessionID = ibSessionID resp, rsStatus = ibStatus resp, rsReceivedFrames = ibReceivedFrames resp,
          rsAcceptedFrames = ibAcceptedFrames resp, rsRejectedFrames = ibRejectedFrames resp,
          rsAcceptedFromUnixMs = ibAcceptedFromUnixMs resp, rsAcceptedToUnixMs = ibAcceptedToUnixMs resp,
          rsSummary = summary, rsIngestedAt = ieNow env\<rparr>))"

text \<open>The handler after the session was read and found active: \<open>session\<close> is the copy it holds.\<close>

definition ingest_validated ::
  "Catalog \<Rightarrow> ingest_env \<Rightarrow> string \<Rightarrow> Session \<Rightarrow> IngestBatchRequest body \<Rightarrow> server \<Rightarrow> reply \<times> server" where
  "ingest_validated c env sessionID session b sv =
    (case decodeJSON b of None \<Rightarrow> (writeJSON 400 (Envelope (BadRequest ''invalid JSON body'')), sv)
     | Some request \<Rightarrow>
       (let request = (if bSessionID request = [] then request\<lparr>bSessionID := sessionID\<rparr> else request) in
        if bSessionID request \<noteq> sessionID then (writeTelemetryRejection SessionIDMismatchError, sv)
        else (case batch_normalize request of Inl e \<Rightarrow> (writeTelemetryRejection e, sv)
          | Inr result \<Rightarrow>
            (case (if length (nFrames result) > 0
                   then ingest_accepted c env session (bSessionID request) (nFrames result) sv else (None, sv)) of
               (Some reply, sv) \<Rightarrow> (reply, sv)
             | (None, sv) \<Rightarrow>
               (let resp = ingest_response (bSessionID request) (bFrames request) result
                in (writeVersionedJSON 202 (IngestBody resp),
                    sv\<lparr>svRejections := ingest_rejections env resp (svRejections sv)\<rparr>))))))"

definition ingestFramesHandler ::
  "Catalog \<Rightarrow> ingest_env \<Rightarrow> string \<Rightarrow> IngestBatchRequest body \<Rightarrow> server \<Rightarrow> reply \<times> server" where
  "ingestFramesHandler c env sessionID b sv =
    (case validateSession (svSessions sv) sessionID True of Inl e \<Rightarrow> (writeSessionError e, sv)
     | Inr session \<Rightarrow> ingest_validated c env sessionID session b sv)"

section \<open>Lemmas\<close>

text \<open>The replies a part of the handler can end the request with.\<close>

definition failure :: "reply \<Rightarrow> bool" where
  "failure r \<longleftrightarrow> r = Panicked \<or> (\<exists>m. r = writeJSON 500 (Envelope (Internal m)))"

lemma failure_simps [simp]:
  "failure Panicked" "failure (writeJSON 500 (Envelope (Internal m)))" "\<not> failure Stuck"
  "failure (Reply st p v) \<Longrightarrow> st = 500"
  by (auto simp: failure_def writeJSON_def)

lemma samples_loop_not_stuck: "fst (samples_loop cx k fs laps r) \<noteq> PersistStuck"
  by (induction cx k fs laps r rule: samples_loop.induct)
    (use BuildLapSamples_cases(1) [of DefaultSampleStepMeters] in \<open>auto simp: DefaultSampleStepMeters_def split: sample_outcome.splits prod.splits option.splits\<close>)

lemma persist_reply_failure: "p \<noteq> PersistStuck \<Longrightarrow> persist_reply m p = Some r \<Longrightarrow> failure r"
  by (cases p) auto

lemma gap_counts_loop_not_stuck: "fst (gap_counts_loop cx k sid fs laps r) \<noteq> PersistStuck"
  by (induction cx k sid fs laps r rule: gap_counts_loop.induct) (auto split: prod.splits option.splits)

lemma persist_not_stuck:
  "fst (persistTelemetryGapCounts env store r sid laps) \<noteq> PersistStuck" "fst (persistLapSamples env store r sid laps) \<noteq> PersistStuck"
  by (simp_all add: persistTelemetryGapCounts_def persistLapSamples_def gap_counts_loop_not_stuck samples_loop_not_stuck split: sum.split)

lemma ingest_laps_failure:
  assumes "fst (ingest_laps env store sid acc r) = Some reply" shows "failure reply"
proof -
  let ?laps = "ExtractCompleted sid acc"
  have ne: "?laps \<noteq> []" using assms by (auto simp: ingest_laps_def)
  obtain e r1 where 1: "UpsertCompleted r (ieLaps env) ?laps = (e, r1)" by fastforce
  obtain p r2 where 2: "persistTelemetryGapCounts env store r1 sid ?laps = (p, r2)" by fastforce
  obtain q r3 where 3: "persistLapSamples env store r2 sid ?laps = (q, r3)" by fastforce
  note stuck = persist_not_stuck(1) [of env store r1 sid ?laps] persist_not_stuck(2) [of env store r2 sid ?laps]
  show ?thesis
    using assms ne stuck by (auto simp: ingest_laps_def Let_def 1 2 3 intro: persist_reply_failure split: option.splits)
qed

lemma ingest_events_failure: "fst (ingest_events c env session sid acc sv) = Some reply \<Longrightarrow> failure reply"
  unfolding ingest_events_def Let_def by (auto split: sum.splits prod.splits if_splits)

lemma ingest_accepted_failure:
  assumes "fst (ingest_accepted c env session sid acc sv) = Some reply" shows "failure reply"
proof -
  obtain e store where 1: "store_append (svFrames sv) (ieAppend env) sid acc = (e, store)" by fastforce
  obtain q r where 2: "ingest_laps env store sid acc (svLaps sv) = (q, r)" by fastforce
  show ?thesis
    using assms ingest_laps_failure [of env store sid acc "svLaps sv"]
      ingest_events_failure [of c env session sid acc "sv\<lparr>svFrames := store, svLaps := r\<rparr>"]
    by (auto simp: ingest_accepted_def 1 2 split: option.splits)
qed

text \<open>What the handler does to each store.\<close>

lemma ingest_events_stores [simp]:
  "svFrames (snd (ingest_events c env session sid acc sv)) = svFrames sv"
  "svLaps (snd (ingest_events c env session sid acc sv)) = svLaps sv"
  "svRejections (snd (ingest_events c env session sid acc sv)) = svRejections sv"
  unfolding ingest_events_def Let_def by (auto split: sum.splits prod.splits)

lemma ingest_accepted_stores [simp]:
  "svFrames (snd (ingest_accepted c env session sid acc sv)) = snd (store_append (svFrames sv) (ieAppend env) sid acc)"
  "svRejections (snd (ingest_accepted c env session sid acc sv)) = svRejections sv"
  unfolding ingest_accepted_def by (auto split: prod.splits option.splits)

text \<open>The sessions change at most by the detected layout of the session.\<close>

definition detects :: "Catalog \<Rightarrow> Frame list \<Rightarrow> string \<Rightarrow> string \<Rightarrow> bool" where
  "detects c frames t l \<longleftrightarrow> dsStatus (DetectTrack frames c zero_options) = ''detected'' \<and>
     dsTrackID (DetectTrack frames c zero_options) = Some t \<and> dsLayoutID (DetectTrack frames c zero_options) = Some l"

lemma ingest_detect_sessions:
  "snd (ingest_detect c session sid frames repo) = repo \<or>
   (\<exists>t l. detects c frames t l \<and> sTrackID session = [] \<and> snd (ingest_detect c session sid frames repo) = snd (SetDetectedTrackLayout repo sid t l))"
  unfolding ingest_detect_def Let_def detects_def by (auto split: option.splits)

lemma ingest_events_sessions:
  "svSessions (snd (ingest_events c env session sid acc sv)) = svSessions sv \<or>
   (\<exists>fs t l. detects c fs t l \<and> sTrackID session = [] \<and>
      svSessions (snd (ingest_events c env session sid acc sv)) = snd (SetDetectedTrackLayout (svSessions sv) sid t l))"
proof (cases "store_frames (svFrames sv) (ieFrames env) sid")
  case (Inr fs)
  have "svSessions (snd (ingest_events c env session sid acc sv)) = snd (ingest_detect c session sid fs (svSessions sv))"
    unfolding ingest_events_def Let_def by (auto simp: Inr split: sum.splits prod.splits)
  then show ?thesis using ingest_detect_sessions [of c session sid fs "svSessions sv"] by auto
qed (simp add: ingest_events_def)

lemma ingest_accepted_sessions:
  "svSessions (snd (ingest_accepted c env session sid acc sv)) = svSessions sv \<or>
   (\<exists>fs t l. detects c fs t l \<and> sTrackID session = [] \<and>
      svSessions (snd (ingest_accepted c env session sid acc sv)) = snd (SetDetectedTrackLayout (svSessions sv) sid t l))"
proof -
  obtain e store where 1: "store_append (svFrames sv) (ieAppend env) sid acc = (e, store)" by fastforce
  obtain q r where 2: "ingest_laps env store sid acc (svLaps sv) = (q, r)" by fastforce
  show ?thesis
    using ingest_events_sessions [of c env session sid acc "sv\<lparr>svFrames := store, svLaps := r\<rparr>"]
    by (simp add: ingest_accepted_def 1 2 split: option.split)
qed

lemma ingest_validated_eq:
  assumes "decodeJSON b = Some request" "bSessionID request = [] \<or> bSessionID request = sid"
    and "batch_normalize (request\<lparr>bSessionID := sid\<rparr>) = Inr result"
    and "(if nFrames result \<noteq> [] then ingest_accepted c env session sid (nFrames result) sv else (None, sv)) = (a, sv1)"
  shows "ingest_validated c env sid session b sv = (case a of Some reply \<Rightarrow> (reply, sv1)
    | None \<Rightarrow> (writeVersionedJSON 202 (IngestBody (ingest_response sid (bFrames request) result)),
        sv1\<lparr>svRejections := ingest_rejections env (ingest_response sid (bFrames request) result) (svRejections sv1)\<rparr>))"
proof -
  have "(if bSessionID request = [] then request\<lparr>bSessionID := sid\<rparr> else request) = request\<lparr>bSessionID := sid\<rparr>" using assms(2) by auto
  then show ?thesis unfolding ingest_validated_def using assms(1,3,4) by (simp add: Let_def cong: if_cong split: option.split)
qed

text \<open>The outcomes of a validated request.\<close>

lemma ingest_validated_cases [consumes 1]:
  assumes "ingest_validated c env sid session b sv = (r, sv')"
  obtains (refused) p where "r = writeJSON 400 p" "sv' = sv"
  | (failed) request result where "decodeJSON b = Some request" "bSessionID request = [] \<or> bSessionID request = sid"
      "batch_normalize (request\<lparr>bSessionID := sid\<rparr>) = Inr result" "nFrames result \<noteq> []"
      "(Some r, sv') = ingest_accepted c env session sid (nFrames result) sv" "failure r"
  | (stored) request result sv1 where "decodeJSON b = Some request" "bSessionID request = [] \<or> bSessionID request = sid"
      "batch_normalize (request\<lparr>bSessionID := sid\<rparr>) = Inr result"
      "(if nFrames result \<noteq> [] then ingest_accepted c env session sid (nFrames result) sv else (None, sv)) = (None, sv1)"
      "r = writeVersionedJSON 202 (IngestBody (ingest_response sid (bFrames request) result))"
      "sv' = sv1\<lparr>svRejections := ingest_rejections env (ingest_response sid (bFrames request) result) (svRejections sv1)\<rparr>"
proof (cases "decodeJSON b")
  case None
  then show ?thesis using assms by (intro refused) (auto simp: ingest_validated_def)
next
  case (Some request)
  show ?thesis
  proof (cases "bSessionID request = [] \<or> bSessionID request = sid")
    case False
    then show ?thesis using assms Some by (intro refused) (auto simp: ingest_validated_def writeTelemetryRejection_def)
  next
    case True
    then have req: "(if bSessionID request = [] then request\<lparr>bSessionID := sid\<rparr> else request) = request\<lparr>bSessionID := sid\<rparr>" by auto
    show ?thesis
    proof (cases "batch_normalize (request\<lparr>bSessionID := sid\<rparr>)")
      case (Inl e)
      then show ?thesis using assms Some req by (intro refused) (auto simp: ingest_validated_def writeTelemetryRejection_def)
    next
      case (Inr result)
      obtain a sv1 where a: "(if nFrames result \<noteq> [] then ingest_accepted c env session sid (nFrames result) sv else (None, sv)) = (a, sv1)"
        by (cases "if nFrames result \<noteq> [] then ingest_accepted c env session sid (nFrames result) sv else (None, sv)") blast
      note e = ingest_validated_eq [OF Some True Inr a]
      show ?thesis
      proof (cases a)
        case None
        then show ?thesis using stored [OF Some True Inr] a e assms by simp
      next
        case (Some reply)
        then have "nFrames result \<noteq> []" "(Some reply, sv1) = ingest_accepted c env session sid (nFrames result) sv"
          using a by (auto split: if_splits)
        moreover from this have "failure reply" using ingest_accepted_failure [of c env session sid "nFrames result" sv reply] by (metis fst_conv)
        moreover have "r = reply" "sv' = sv1" using e assms Some by simp_all
        ultimately show ?thesis using failed [OF \<open>decodeJSON b = Some request\<close> True Inr] by metis
      qed
    qed
  qed
qed

section \<open>The accepted range\<close>

lemma accepted_range_loop_Min:
  "accepted_range_loop a b fs = (Min (insert a (fTimestampUnixMs ` set fs)), Max (insert b (fTimestampUnixMs ` set fs)))"
proof (induction fs arbitrary: a b)
  case (Cons f fs)
  have "Min (insert a (insert x A)) = Min (insert (if x < a then x else a) A)"
    "Max (insert b (insert x A)) = Max (insert (if x > b then x else b) A)" if "finite A" for x A
    using that by (cases "A = {}"; auto simp: min_def max_def)+
  with Cons show ?case by simp
qed simp

lemma acceptedTimeRange_Min:
  "fs \<noteq> [] \<Longrightarrow> acceptedTimeRange fs = (Min (fTimestampUnixMs ` set fs), Max (fTimestampUnixMs ` set fs))"
  by (cases fs) (simp_all add: acceptedTimeRange_def accepted_range_loop_Min)

lemma normalize_loop_count:
  "length (nFrames (normalize_loop i acc rej fs)) + length (nRejections (normalize_loop i acc rej fs)) = length acc + length rej + length fs"
proof (induction fs arbitrary: i acc rej)
  case (Cons f fs)
  show ?case by (cases rule: normalize_step [of f acc i rej fs]) (simp_all add: Cons.IH)
qed simp

lemma sum_BuildRejectionSummary: "sum_list (map reCount (BuildRejectionSummary rs)) = int (length rs)"
  by (simp add: BuildRejectionSummary_def sum_sorted_reasons count_codes_add_counts sum_add_counts comp_def sum_list_triv)

lemma ingest_202:
  assumes "ingestFramesHandler c env sid b sv = (Reply 202 (IngestBody resp) v, sv')"
  shows "\<exists>request accepted rejections. b = BodyJSON request \<and>
    batch_normalize (request\<lparr>bSessionID := sid\<rparr>) = Inr \<lparr>nFrames = accepted, nRejections = rejections\<rparr> \<and>
    ibSessionID resp = sid \<and> ibReceivedFrames resp = int (length (bFrames request)) \<and>
    ibAcceptedFrames resp = int (length accepted) \<and> ibRejectedFrames resp = int (length rejections) \<and>
    ibReceivedFrames resp = ibAcceptedFrames resp + ibRejectedFrames resp \<and>
    ibStatus resp = (if accepted = [] then ''rejected'' else if rejections = [] then ''accepted'' else ''partial'') \<and>
    (case ibRejectionSummary resp of None \<Rightarrow> rejections = []
     | Some reasons \<Rightarrow> sum_list (map reCount reasons) = ibRejectedFrames resp) \<and>
    (accepted = [] \<or> ibAcceptedFromUnixMs resp = Min (fTimestampUnixMs ` set accepted) \<and>
       ibAcceptedToUnixMs resp = Max (fTimestampUnixMs ` set accepted)) \<and>
    svFrames sv' = (if accepted = [] then svFrames sv else snd (store_append (svFrames sv) (ieAppend env) sid accepted))"
proof (cases "validateSession (svSessions sv) sid True")
  case (Inl e)
  then show ?thesis using assms by (cases e) (simp_all add: ingestFramesHandler_def writeJSON_def)
next
  case (Inr s)
  then have "ingest_validated c env sid s b sv = (Reply 202 (IngestBody resp) v, sv')" using assms by (simp add: ingestFramesHandler_def)
  then show ?thesis
  proof (cases rule: ingest_validated_cases)
    case (stored request result sv1)
    obtain accepted rejections where result: "result = \<lparr>nFrames = accepted, nRejections = rejections\<rparr>" by (cases result) auto
    have resp: "resp = ingest_response sid (bFrames request) result"
      using stored(5) by (simp add: writeVersionedJSON_def)
    have b: "b = BodyJSON request" using stored(1) by (auto simp: decodeJSON_def split: body.splits)
    have n: "length (bFrames request) = length accepted + length rejections"
      using stored(3) normalize_loop_count [of 0 "[]" "[]" "bFrames request"]
      by (simp add: batch_normalize_Inr result eq_commute [of _ "normalize_loop _ _ _ _"])
    have f: "svFrames sv' = (if accepted = [] then svFrames sv else snd (store_append (svFrames sv) (ieAppend env) sid accepted))"
    proof (cases "accepted = []")
      case False
      then have "sv1 = snd (ingest_accepted c env s sid accepted sv)" using stored(4) by (simp add: result)
      then show ?thesis using False stored(6) by simp
    qed (use stored in \<open>simp add: result\<close>)
    show ?thesis
      using stored(3) b f n
      by (auto simp: resp ingest_response_def result ingest_status_def acceptedTimeRange_Min sum_BuildRejectionSummary)
  qed (auto simp: writeJSON_def failure_def)
qed

section \<open>Properties\<close>

text \<open>C22: A request the client got wrong changes nothing: an answer between 400 and 499 leaves every store as it was.\<close>

theorem client_errors_change_nothing:
  assumes "ingestFramesHandler c env sid b sv = (Reply st p v, sv')" "400 \<le> st" "st < 500"
  shows "sv' = sv"
proof (cases "validateSession (svSessions sv) sid True")
  case (Inr s)
  then have "ingest_validated c env sid s b sv = (Reply st p v, sv')" using assms(1) by (simp add: ingestFramesHandler_def)
  then show ?thesis
    using assms(2,3) by (cases rule: ingest_validated_cases) (auto simp: writeVersionedJSON_def failure_def writeJSON_def)
qed (use assms(1) in \<open>simp add: ingestFramesHandler_def\<close>)

text \<open>C21: The answer to an accepted ingest adds up: it counts every received frame as accepted or rejected, its status
  and its summary say so, its range is that of the accepted frames, and exactly the accepted frames of the normalised
  batch were appended to the frame store of the session.\<close>

theorem ingest_response_exact:
  assumes "ingestFramesHandler c env sid b sv = (Reply 202 (IngestBody resp) v, sv')"
  shows "\<exists>request accepted rejections. b = BodyJSON request \<and>
    batch_normalize (request\<lparr>bSessionID := sid\<rparr>) = Inr \<lparr>nFrames = accepted, nRejections = rejections\<rparr> \<and>
    ibSessionID resp = sid \<and> ibReceivedFrames resp = int (length (bFrames request)) \<and>
    ibAcceptedFrames resp = int (length accepted) \<and> ibRejectedFrames resp = int (length rejections) \<and>
    ibReceivedFrames resp = ibAcceptedFrames resp + ibRejectedFrames resp \<and>
    ibStatus resp = (if accepted = [] then ''rejected'' else if rejections = [] then ''accepted'' else ''partial'') \<and>
    (case ibRejectionSummary resp of None \<Rightarrow> rejections = []
     | Some reasons \<Rightarrow> sum_list (map reCount reasons) = ibRejectedFrames resp) \<and>
    (accepted = [] \<or> ibAcceptedFromUnixMs resp = Min (fTimestampUnixMs ` set accepted) \<and>
       ibAcceptedToUnixMs resp = Max (fTimestampUnixMs ` set accepted)) \<and>
    svFrames sv' = (if accepted = [] then svFrames sv else snd (store_append (svFrames sv) (ieAppend env) sid accepted))"
  by (rule ingest_202 [OF assms])

definition demo_env :: ingest_env where
  "demo_env = \<lparr>ieAppend = None, ieLaps = None, ieGapFrames = None, ieGaps = (\<lambda>k. None), ieSampleFrames = None,
     ieSamples = (\<lambda>k. None), ieFrames = None, ieEvents = (\<lambda>k. None), ieReject = None, ieNewID = ''r1'', ieNow = 7\<rparr>"

definition demo_server :: server where
  "demo_server = \<lparr>svFrames = NewFrameStore 100, svEvents = NewEventStore DefaultStoredEventsLimit 0, svLaps = NewMemoryRepository,
     svSessions = [(''a'', demo_session)], svRejections = Map.empty\<rparr>"

definition demo_request :: IngestBatchRequest where
  "demo_request = \<lparr>bSessionID = [], bFrames = [sample_frame 5 0 0, sample_frame 4 0 0, sample_frame 6 0 10]\<rparr>"

lemma demo_ingest:
  "rpStatus (fst (ingestFramesHandler demo_catalog demo_env ''a'' (BodyJSON demo_request) demo_server)) = 202"
  "(case fst (ingestFramesHandler demo_catalog demo_env ''a'' (BodyJSON demo_request) demo_server) of
      Reply st (IngestBody resp) v \<Rightarrow> (ibAcceptedFrames resp, ibRejectedFrames resp, ibStatus resp) = (2, 1, ''partial'') | _ \<Rightarrow> False)"
  by code_simp+

theorem client_errors_change_nothing_witness:
  "snd (ingestFramesHandler demo_catalog demo_env ''b'' (BodyJSON demo_request) demo_server) = demo_server"
proof -
  have "ingestFramesHandler demo_catalog demo_env ''b'' (BodyJSON demo_request) demo_server =
      (writeSessionError SesNotFound, snd (ingestFramesHandler demo_catalog demo_env ''b'' (BodyJSON demo_request) demo_server))"
    by (simp add: ingestFramesHandler_def validateSession_def session_FindByID_def demo_server_def)
  from client_errors_change_nothing [OF this [unfolded writeSessionError.simps writeJSON_def]] show ?thesis by simp
qed

theorem ingest_response_exact_witness:
  "\<exists>resp v sv'. ingestFramesHandler demo_catalog demo_env ''a'' (BodyJSON demo_request) demo_server = (Reply 202 (IngestBody resp) v, sv') \<and>
     ibReceivedFrames resp = ibAcceptedFrames resp + ibRejectedFrames resp \<and> ibReceivedFrames resp = 3"
proof -
  obtain resp v sv' where r: "ingestFramesHandler demo_catalog demo_env ''a'' (BodyJSON demo_request) demo_server = (Reply 202 (IngestBody resp) v, sv')"
    using demo_ingest by (cases "ingestFramesHandler demo_catalog demo_env ''a'' (BodyJSON demo_request) demo_server")
      (auto split: reply.splits payload.splits)
  from ingest_response_exact [OF r] have "ibReceivedFrames resp = ibAcceptedFrames resp + ibRejectedFrames resp"
    "ibReceivedFrames resp = int (length (bFrames demo_request))" by auto
  with r show ?thesis by (auto simp: demo_request_def)
qed

end
