(* ===== verification/Service.thy ===== *)
theory Service
  imports Ingest
begin

text \<open>
  The routes of \<^verbatim>\<open>internal/api/routes.go\<close> as one transition system: a request is served by its
  handler as a whole, and the reachable stores are those that some sequence of requests leaves.
  \<open>Acceptance\<close> leaves this assumption: there a request is served between the steps of another.
\<close>

section \<open>Routes\<close>

datatype api_request =
    CreateSession int "8 word list option" "CreateRequest body"
  | GetSession string
  | PutTrackLayout string "sessionTrackLayoutRequest body"
  | FinishSession int string "FinishRequest body"
  | GetTrack string
  | GetEvents string url_values
  | ExportSession string url_values
  | PostFrames ingest_env string "IngestBatchRequest body"
  | ListSessions url_values
  | GetSummary string
  | IngestStats int string url_values
  | GetCatalog
  | GetBootstrap

fun routes :: "Config \<Rightarrow> Catalog \<Rightarrow> (nat \<Rightarrow> ctx) \<Rightarrow> api_request \<Rightarrow> server \<Rightarrow> reply \<times> server" where
  "routes cfg c cx (CreateSession unixMs entropy b) sv = createSessionHandler c unixMs entropy b sv"
| "routes cfg c cx (GetSession i) sv = (getSessionHandler c cx i sv, sv)"
| "routes cfg c cx (PutTrackLayout i b) sv = sessionTrackLayoutHandler c cx i b sv"
| "routes cfg c cx (FinishSession now i b) sv = finishSessionHandler c cx now i b sv"
| "routes cfg c cx (GetTrack i) sv = (detectTrackHandler c cx i sv, sv)"
| "routes cfg c cx (GetEvents i values) sv = (listEventsHandler cx i values sv, sv)"
| "routes cfg c cx (ExportSession i values) sv = (sessionExportHandler cfg cx i values sv, sv)"
| "routes cfg c cx (PostFrames env i b) sv = ingestFramesHandler c env i b sv"
| "routes cfg c cx (ListSessions values) sv = (listSessionsHandler cx values sv, sv)"
| "routes cfg c cx (GetSummary i) sv = (sessionSummaryHandler cx i sv, sv)"
| "routes cfg c cx (IngestStats now auth values) sv = (adminAuthMiddleware cfg auth (ingestStatsHandler cx now values sv), sv)"
| "routes cfg c cx GetCatalog sv = (catalogTrackLayoutsHandler c, sv)"
| "routes cfg c cx GetBootstrap sv = (settingsBootstrapHandler cfg, sv)"

inductive serves :: "Config \<Rightarrow> Catalog \<Rightarrow> server \<Rightarrow> server \<Rightarrow> bool" for cfg c where
  start: "serves cfg c sv sv"
| serve: "serves cfg c sv sv1 \<Longrightarrow> serves cfg c sv (snd (routes cfg c cx req sv1))"

fun serve_all :: "Config \<Rightarrow> Catalog \<Rightarrow> api_request list \<Rightarrow> server \<Rightarrow> server" where
  "serve_all cfg c [] sv = sv"
| "serve_all cfg c (req # reqs) sv = serve_all cfg c reqs (snd (routes cfg c (\<lambda>k. None) req sv))"

lemma serves_trans: "serves cfg c sv sv1 \<Longrightarrow> serves cfg c sv2 sv \<Longrightarrow> serves cfg c sv2 sv1"
  by (induction rule: serves.induct) (auto intro: serves.serve)

lemma serves_all: "serves cfg c sv (serve_all cfg c reqs sv)"
proof (induction reqs arbitrary: sv)
  case (Cons req reqs)
  have "serves cfg c sv (snd (routes cfg c (\<lambda>k. None) req sv))" by (rule serves.serve [OF serves.start])
  from serves_trans [OF Cons.IH this] show ?case by simp
qed (simp add: serves.start)

section \<open>What a request does to the sessions\<close>

definition in_catalog :: "Catalog \<Rightarrow> string \<Rightarrow> string \<Rightarrow> bool" where
  "in_catalog c t l \<longleftrightarrow> layoutByID c t l \<noteq> None"

lemma in_catalogI: "t \<in> set (caTracks c) \<Longrightarrow> l \<in> set (trLayouts t) \<Longrightarrow> in_catalog c (trID t) (loID l)"
proof -
  assume "t \<in> set (caTracks c)" "l \<in> set (trLayouts t)"
  then have "layout_by_id_loop (trID t) (loID l) (caTracks c) \<noteq> None"
  proof (induction "caTracks c" arbitrary: c)
    case (Cons x xs)
    have "find (\<lambda>y. loID y = loID l) (trLayouts t) \<noteq> None" using Cons.prems(2) by (auto simp: find_None_iff)
    moreover have "layout_by_id_loop (trID t) (loID l) xs \<noteq> None" if "t \<in> set xs"
      using Cons.hyps(1) [of "c\<lparr>caTracks := xs\<rparr>"] that Cons.prems(2) by simp
    ultimately show ?case using Cons.prems(1) unfolding Cons.hyps(2) [symmetric] by (auto split: option.splits)
  qed simp
  then show ?thesis by (simp add: in_catalog_def layoutByID_def)
qed

lemma selectable_in_catalog:
  assumes "FindSelectableTrackLayout c t l \<noteq> None"
  shows "in_catalog c t l" "catalogHasTrack c t"
proof -
  from assms obtain tr lo where f: "find (\<lambda>x. trID x = t) (caTracks c) = Some tr" "find (\<lambda>x. loID x = l) (trLayouts tr) = Some lo"
    by (auto simp: FindSelectableTrackLayout_def split: option.splits if_splits)
  then have "tr \<in> set (caTracks c)" "trID tr = t" "lo \<in> set (trLayouts tr)" "loID lo = l"
    by (auto simp: find_Some_iff)
  then show "in_catalog c t l" "catalogHasTrack c t" using in_catalogI [of tr c lo]
    by (auto simp: catalogHasTrack_def list_ex_iff)
qed

lemma detected_from_catalog:
  assumes "dsStatus (DetectTrack fs c zero_options) = ''detected''" "dsTrackID (DetectTrack fs c zero_options) = Some t"
    "dsTrackName (DetectTrack fs c zero_options) = Some tn" "dsLayoutID (DetectTrack fs c zero_options) = Some l"
    "dsLayoutName (DetectTrack fs c zero_options) = Some lname"
  shows "\<exists>x \<in> set (caTracks c). \<exists>y \<in> set (trLayouts x). t = trID x \<and> tn = trName x \<and> l = loID y \<and> lname = loName y"
proof -
  let ?o = "normalizeDetectionOptions zero_options"
  obtain observed where o: "observedCompletedLapLength fs (doMinCompletedLapFrames ?o) = Some observed"
    using assms by (cases "observedCompletedLapLength fs (doMinCompletedLapFrames ?o)")
      (auto simp: DetectTrack_def fallbackResult_def Let_def split: if_splits)
  let ?cs = "matchingCandidates c observed (doLengthToleranceRatio ?o)"
  have "?cs \<noteq> [] \<and> t = cdTrackID (hd ?cs) \<and> tn = cdTrackName (hd ?cs) \<and> l = cdLayoutID (hd ?cs) \<and> lname = cdLayoutName (hd ?cs)"
    using assms by (auto simp: DetectTrack_def fallbackResult_def Let_def o split: if_splits)
  moreover from this obtain x y where "x \<in> set (caTracks c)" "y \<in> set (trLayouts x)"
      "candidate_of observed (doLengthToleranceRatio ?o) x y (hd ?cs)"
    using hd_in_set [of ?cs] unfolding matchingCandidates_set by blast
  ultimately show ?thesis by (intro bexI [of _ x] bexI [of _ y]) (auto simp: candidate_of_def)
qed

lemma detected_names: "dsStatus (DetectTrack fs c opts) = ''detected'' \<Longrightarrow>
    dsTrackName (DetectTrack fs c opts) \<noteq> None \<and> dsLayoutName (DetectTrack fs c opts) \<noteq> None"
  by (auto simp: DetectTrack_def fallbackResult_def Let_def split: option.splits if_splits)

lemma detects_in_catalog:
  assumes "detects c fs t l" shows "in_catalog c t l"
proof -
  obtain tn lname where n: "dsTrackName (DetectTrack fs c zero_options) = Some tn" "dsLayoutName (DetectTrack fs c zero_options) = Some lname"
    using assms detected_names [of fs c zero_options] by (auto simp: detects_def)
  have d: "dsStatus (DetectTrack fs c zero_options) = ''detected''" "dsTrackID (DetectTrack fs c zero_options) = Some t"
    "dsLayoutID (DetectTrack fs c zero_options) = Some l" using assms by (simp_all add: detects_def)
  from detected_from_catalog [OF d(1,2) n(1) d(3) n(2)] show ?thesis by (auto intro: in_catalogI)
qed

text \<open>The selection of a session: a selected layout belongs to its selected track, a session with a selected track and no
  selected layout has no detected one, and a detected layout is in the catalogue.\<close>

definition selection_ok :: "Catalog \<Rightarrow> Session \<Rightarrow> bool" where
  "selection_ok c s \<longleftrightarrow> (sTrackID s = [] \<or> catalogHasTrack c (sTrackID s)) \<and>
     (sLayoutID s = [] \<or> sTrackID s \<noteq> [] \<and> in_catalog c (sTrackID s) (sLayoutID s)) \<and>
     (sTrackID s = [] \<or> sLayoutID s \<noteq> [] \<or> sDetectedLayoutID s = []) \<and>
     (sDetectedLayoutID s = [] \<or> in_catalog c (sDetectedTrackID s) (sDetectedLayoutID s))"

definition sessions_ok :: "(Session \<Rightarrow> bool) \<Rightarrow> session_repo \<Rightarrow> bool" where
  "sessions_ok P repo \<longleftrightarrow> (\<forall>i s. map_of repo i = Some s \<longrightarrow> P s)"

text \<open>The change of the sessions by one request, as one of the operations of the repository.\<close>

inductive session_change :: "Catalog \<Rightarrow> session_repo \<Rightarrow> session_op \<Rightarrow> bool" for c repo where
  create: "sEndedAt s = None \<Longrightarrow> sLayoutID s = [] \<Longrightarrow> sDetectedTrackID s = [] \<Longrightarrow> sDetectedLayoutID s = [] \<Longrightarrow>
    sTrackID s = [] \<or> catalogHasTrack c (sTrackID s) \<Longrightarrow> session_change c repo (OpCreate s)"
| finish: "session_change c repo (OpEnd i t)"
| select: "t \<noteq> [] \<Longrightarrow> l \<noteq> [] \<Longrightarrow> in_catalog c t l \<Longrightarrow> catalogHasTrack c t \<Longrightarrow> session_change c repo (OpSelect i t l)"
| detect: "in_catalog c t l \<Longrightarrow> map_of repo i = Some s \<Longrightarrow> sEndedAt s = None \<Longrightarrow> sTrackID s = [] \<Longrightarrow> session_change c repo (OpDetect i t l)"

inductive_cases session_change_cases: "session_change c repo p"

lemma create_sessions:
  "svSessions (snd (createSessionHandler c unixMs entropy b sv)) = svSessions sv \<or>
   (\<exists>p. session_change c (svSessions sv) p \<and> svSessions (snd (createSessionHandler c unixMs entropy b sv)) = snd (session_step (svSessions sv) p))"
proof (cases "\<exists>request newID. b = BodyJSON request \<and> create_Validate request = None \<and>
    (cqTrackID request = [] \<or> catalogHasTrack c (cqTrackID request)) \<and> NewID unixMs entropy = Some newID")
  case True
  then obtain request newID where r: "b = BodyJSON request" "create_Validate request = None"
    "cqTrackID request = [] \<or> catalogHasTrack c (cqTrackID request)" "NewID unixMs entropy = Some newID" by blast
  let ?s = "\<lparr>sID = newID, sSource = cqSource request, sGame = cqGame request, sPlatform = cqPlatform request,
    sDriverAlias = cqDriverAlias request, sStartedAt = unix_milli (cqStartedUnixMs request), sEndedAt = None,
    sTrackID = cqTrackID request, sLayoutID = [], sDetectedTrackID = [], sDetectedLayoutID = []\<rparr>"
  have "svSessions (snd (createSessionHandler c unixMs entropy b sv)) = snd (session_step (svSessions sv) (OpCreate ?s))"
    using r by (auto simp: createSessionHandler_def decodeJSON_def split: prod.splits sum.splits)
  moreover have "session_change c (svSessions sv) (OpCreate ?s)" using r(3) by (intro session_change.create) auto
  ultimately show ?thesis by blast
next
  case False
  then show ?thesis
    by (auto simp: createSessionHandler_def decodeJSON_def split: body.splits option.splits)
qed

lemma finish_sessions:
  "svSessions (snd (finishSessionHandler c cx now i b sv)) = svSessions sv \<or>
   (\<exists>p. session_change c (svSessions sv) p \<and> svSessions (snd (finishSessionHandler c cx now i b sv)) = snd (session_step (svSessions sv) p))"
proof -
  have "svSessions (snd (finishSessionHandler c cx now i b sv)) = svSessions sv \<or>
    (\<exists>t. svSessions (snd (finishSessionHandler c cx now i b sv)) = snd (session_step (svSessions sv) (OpEnd i t)))"
    unfolding finishSessionHandler_def Let_def
    by (auto split: option.splits prod.splits sum.splits) (metis snd_conv)+
  then show ?thesis using session_change.finish by blast
qed

lemma layout_sessions:
  "svSessions (snd (sessionTrackLayoutHandler c cx i b sv)) = svSessions sv \<or>
   (\<exists>p. session_change c (svSessions sv) p \<and> svSessions (snd (sessionTrackLayoutHandler c cx i b sv)) = snd (session_step (svSessions sv) p))"
proof (cases "\<exists>request. b = BodyJSON request \<and> track_layout_Validate request = None \<and>
    FindSelectableTrackLayout c (tqTrackID request) (tqLayoutID request) \<noteq> None \<and> (\<exists>s. validateSession (svSessions sv) i False = Inr s)")
  case True
  then obtain request s where r: "b = BodyJSON request" "track_layout_Validate request = None"
    "FindSelectableTrackLayout c (tqTrackID request) (tqLayoutID request) \<noteq> None" "validateSession (svSessions sv) i False = Inr s" by blast
  have "svSessions (snd (sessionTrackLayoutHandler c cx i b sv)) =
      snd (session_step (svSessions sv) (OpSelect i (tqTrackID request) (tqLayoutID request)))"
    using r by (auto simp: sessionTrackLayoutHandler_def decodeJSON_def Let_def split: prod.splits sum.splits)
  moreover have "session_change c (svSessions sv) (OpSelect i (tqTrackID request) (tqLayoutID request))"
    using r(2) selectable_in_catalog [OF r(3)] by (intro session_change.select) (auto simp: track_layout_Validate_def split: if_splits)
  ultimately show ?thesis by blast
next
  case False
  then show ?thesis
    by (auto simp: sessionTrackLayoutHandler_def decodeJSON_def split: body.splits option.splits sum.splits)
qed

lemma ingest_sessions:
  "svSessions (snd (ingestFramesHandler c env i b sv)) = svSessions sv \<or>
   (\<exists>p. session_change c (svSessions sv) p \<and> svSessions (snd (ingestFramesHandler c env i b sv)) = snd (session_step (svSessions sv) p))"
proof (cases "validateSession (svSessions sv) i True")
  case (Inr s)
  then have s: "map_of (svSessions sv) i = Some s" "sEndedAt s = None"
    by (auto simp: validateSession_def session_FindByID_def session_Status_def split: if_splits sum.splits option.splits)
  obtain r sv' where r: "ingest_validated c env i s b sv = (r, sv')" by fastforce
  have h: "ingestFramesHandler c env i b sv = (r, sv')" by (simp add: ingestFramesHandler_def Inr r)
  have d: "svSessions (snd (ingest_accepted c env s i fs sv)) = svSessions sv \<or>
    (\<exists>p. session_change c (svSessions sv) p \<and> svSessions (snd (ingest_accepted c env s i fs sv)) = snd (session_step (svSessions sv) p))" for fs
    using ingest_accepted_sessions [of c env s i fs sv] session_change.detect [OF detects_in_catalog s] by force
  from r show ?thesis
  proof (cases rule: ingest_validated_cases)
    case (failed request result)
    then have "sv' = snd (ingest_accepted c env s i (nFrames result) sv)" by (metis snd_conv)
    then show ?thesis using d by (simp add: h)
  next
    case (stored request result sv1)
    show ?thesis
    proof (cases "nFrames result = []")
      case False
      then have "sv1 = snd (ingest_accepted c env s i (nFrames result) sv)" using stored(4) by simp
      then show ?thesis using d stored(6) by (simp add: h)
    next
      case True
      then show ?thesis unfolding h using stored(4,6) by simp
    qed
  qed (simp add: h)
qed (simp add: ingestFramesHandler_def)

lemma routes_sessions:
  "svSessions (snd (routes cfg c cx req sv)) = svSessions sv \<or>
   (\<exists>p. session_change c (svSessions sv) p \<and> svSessions (snd (routes cfg c cx req sv)) = snd (session_step (svSessions sv) p))"
  using create_sessions finish_sessions layout_sessions ingest_sessions by (cases req) simp_all

section \<open>Invariants of the reachable stores\<close>

lemma session_change_not_update: "session_change c repo p \<Longrightarrow> \<not> is_update p \<and> starts_active p"
  by (erule session_change_cases) auto

lemma sessions_ok_change:
  assumes "sessions_ok (selection_ok c) repo" "session_change c repo p"
  shows "sessions_ok (selection_ok c) (snd (session_step repo p))"
  using assms(2)
proof cases
  case (create s)
  then have "selection_ok c s" by (auto simp: selection_ok_def)
  then show ?thesis using assms(1) create
    by (auto simp: sessions_ok_def session_Create_def update_conv split: option.splits if_splits)
next
  case (finish i t)
  then show ?thesis using assms(1)
    by (auto simp: sessions_ok_def session_End_def update_conv Let_def selection_ok_def split: option.splits if_splits)
next
  case (select t l i)
  then show ?thesis using assms(1)
    by (auto simp: sessions_ok_def SetTrackLayout_def update_conv Let_def selection_ok_def split: option.splits if_splits)
next
  case (detect t l i s)
  then show ?thesis using assms(1)
    by (auto simp: sessions_ok_def SetDetectedTrackLayout_def update_conv Let_def selection_ok_def split: option.splits if_splits)
qed

lemma serves_selection_ok: "serves cfg c sv sv' \<Longrightarrow> sessions_ok (selection_ok c) (svSessions sv) \<Longrightarrow> sessions_ok (selection_ok c) (svSessions sv')"
proof (induction rule: serves.induct)
  case (serve sv sv1 cx req)
  then show ?case using routes_sessions [of cfg c cx req sv1] sessions_ok_change by metis
qed

lemma serves_repo_wf: "serves cfg c sv sv' \<Longrightarrow> repo_wf (svSessions sv) \<Longrightarrow> repo_wf (svSessions sv')"
proof (induction rule: serves.induct)
  case (serve sv sv1 cx req)
  then show ?case using routes_sessions [of cfg c cx req sv1] repo_wf_step session_change_not_update by metis
qed

text \<open>Only an ingest of an active session changes the frames or the rejections stored for it.\<close>

lemma create_stores [simp]: "svFrames (snd (createSessionHandler c unixMs entropy b sv)) = svFrames sv"
  "svRejections (snd (createSessionHandler c unixMs entropy b sv)) = svRejections sv"
  by (auto simp: createSessionHandler_def split: option.split prod.split sum.split)

lemma finish_stores [simp]: "svFrames (snd (finishSessionHandler c cx now i b sv)) = svFrames sv"
  "svRejections (snd (finishSessionHandler c cx now i b sv)) = svRejections sv"
  by (auto simp: finishSessionHandler_def Let_def split: option.split prod.split sum.split)

lemma layout_stores [simp]: "svFrames (snd (sessionTrackLayoutHandler c cx i b sv)) = svFrames sv"
  "svRejections (snd (sessionTrackLayoutHandler c cx i b sv)) = svRejections sv"
  by (auto simp: sessionTrackLayoutHandler_def Let_def split: option.split prod.split sum.split)

lemma store_append_other: "i \<noteq> sid \<Longrightarrow> map_list (sFrames (snd (store_append s ctx sid fs))) i = map_list (sFrames s) i"
  by (auto simp: store_append_def Let_def map_list_def split: option.splits)

lemma ingest_rejections_other:
  "i \<noteq> ibSessionID resp \<Longrightarrow> ingest_rejections env resp store i = store i"
  by (auto simp: ingest_rejections_def rejections_append_def cloneRejectionSummaryRecord_def Let_def split: option.splits)

lemma ingest_validated_other:
  assumes "i \<noteq> sid"
  shows "map_list (sFrames (svFrames (snd (ingest_validated c env sid session b sv)))) i = map_list (sFrames (svFrames sv)) i"
    and "svRejections (snd (ingest_validated c env sid session b sv)) i = svRejections sv i"
proof -
  obtain r sv' where r: "ingest_validated c env sid session b sv = (r, sv')" by fastforce
  then have "map_list (sFrames (svFrames sv')) i = map_list (sFrames (svFrames sv)) i \<and> svRejections sv' i = svRejections sv i"
  proof (cases rule: ingest_validated_cases)
    case (failed request result)
    then have "sv' = snd (ingest_accepted c env session sid (nFrames result) sv)" by (metis snd_conv)
    then show ?thesis by (simp add: store_append_other [OF assms])
  next
    case (stored request result sv1)
    have "ibSessionID (ingest_response sid (bFrames request) result) = sid" by (simp add: ingest_response_def)
    moreover have "sv1 = (if nFrames result \<noteq> [] then snd (ingest_accepted c env session sid (nFrames result) sv) else sv)"
      using stored(4) by (auto split: if_splits)
    ultimately show ?thesis using stored(6) assms by (simp add: store_append_other ingest_rejections_other)
  qed simp
  with r show "map_list (sFrames (svFrames (snd (ingest_validated c env sid session b sv)))) i = map_list (sFrames (svFrames sv)) i"
    "svRejections (snd (ingest_validated c env sid session b sv)) i = svRejections sv i" by simp_all
qed

lemma ingest_finished:
  assumes "map_of (svSessions sv) i = Some s" "sEndedAt s \<noteq> None"
  shows "map_list (sFrames (svFrames (snd (ingestFramesHandler c env sid b sv)))) i = map_list (sFrames (svFrames sv)) i"
    and "svRejections (snd (ingestFramesHandler c env sid b sv)) i = svRejections sv i"
proof -
  have "i = sid \<Longrightarrow> \<exists>e. validateSession (svSessions sv) sid True = Inl e"
    using assms by (auto simp: validateSession_def session_FindByID_def session_Status_def)
  then have "i \<noteq> sid \<or> (\<exists>e. validateSession (svSessions sv) sid True = Inl e)" by blast
  then show "map_list (sFrames (svFrames (snd (ingestFramesHandler c env sid b sv)))) i = map_list (sFrames (svFrames sv)) i"
    "svRejections (snd (ingestFramesHandler c env sid b sv)) i = svRejections sv i"
    by (auto simp: ingestFramesHandler_def ingest_validated_other split: sum.split)
qed

lemma routes_finished:
  assumes "map_of (svSessions sv) i = Some s" "sEndedAt s \<noteq> None"
  shows "map_list (sFrames (svFrames (snd (routes cfg c cx req sv)))) i = map_list (sFrames (svFrames sv)) i"
    and "svRejections (snd (routes cfg c cx req sv)) i = svRejections sv i"
  by (cases req; simp add: ingest_finished [OF assms])+

text \<open>A request on a finished session can at most select a layout of the catalogue for it.\<close>

definition selected_only :: "Catalog \<Rightarrow> Session \<Rightarrow> Session \<Rightarrow> bool" where
  "selected_only c s t \<longleftrightarrow> t = s\<lparr>sTrackID := sTrackID t, sLayoutID := sLayoutID t\<rparr> \<and>
    (sTrackID t = sTrackID s \<and> sLayoutID t = sLayoutID s \<or> in_catalog c (sTrackID t) (sLayoutID t))"

lemma selected_only_refl [simp]: "selected_only c s s"
  by (simp add: selected_only_def)

lemma selected_only_ended: "selected_only c s t \<Longrightarrow> sEndedAt t = sEndedAt s"
  unfolding selected_only_def by (metis Session.select_convs(7) Session.surjective Session.update_convs(8,9))

lemma selected_only_trans: "selected_only c s t \<Longrightarrow> selected_only c t u \<Longrightarrow> selected_only c s u"
  by (cases s; cases t; cases u) (auto simp: selected_only_def)

lemma finished_change:
  assumes "session_change c repo p" "map_of repo i = Some s" "sEndedAt s \<noteq> None"
  shows "\<exists>t. map_of (snd (session_step repo p)) i = Some t \<and> selected_only c s t"
  using assms(1)
proof cases
  case (create x)
  then show ?thesis using assms(2) by (auto simp: session_Create_def update_conv split: option.splits)
next
  case (finish j t)
  then show ?thesis using assms(2,3) by (auto simp: session_End_def update_conv Let_def split: option.splits)
next
  case (select t l j)
  then show ?thesis using assms(2)
    by (cases "j = i") (auto simp: SetTrackLayout_def update_conv Let_def selected_only_def split: option.splits)
next
  case (detect t l j x)
  then show ?thesis using assms(2,3)
    by (cases "j = i") (auto simp: SetDetectedTrackLayout_def update_conv Let_def split: option.splits)
qed

lemma routes_finished_session:
  assumes "map_of (svSessions sv) i = Some s" "sEndedAt s \<noteq> None"
  shows "\<exists>t. map_of (svSessions (snd (routes cfg c cx req sv))) i = Some t \<and> selected_only c s t"
  using routes_sessions [of cfg c cx req sv] finished_change [OF _ assms] assms(1) selected_only_refl by metis

section \<open>Properties\<close>

text \<open>C19: The layout the service shows for a session exists: in every store a sequence of requests leaves, a selected track
  is in the catalogue, and whenever capabilities are shown for a session, they are those of a catalogue layout of its own
  track, whether selected or detected.\<close>

theorem shown_layouts_in_catalog:
  assumes "runtimeHandler cfg seed = Inr (c, sv0)" "serves cfg c sv0 sv"
  shows "list_all (\<lambda>s. (sTrackID s = [] \<or> catalogHasTrack c (sTrackID s)) \<and>
      (sessionTrackCapabilities s c = None \<or> (\<exists>t l caps. in_catalog c t l \<and> l = EffectiveLayoutID s \<and> t \<in> {sTrackID s, sDetectedTrackID s} \<and>
         sessionTrackCapabilities s c = Some caps \<and> caps = catalog_LayoutCapabilities c t l)))
    (session_List (svSessions sv))"
proof -
  have "svSessions sv0 = []"
    using assms(1) by (auto simp: runtimeHandler_def NewSessionRepository_def split: sum.splits)
  then have i: "sessions_ok (selection_ok c) (svSessions sv)" "repo_wf (svSessions sv)"
    using serves_selection_ok [OF assms(2)] serves_repo_wf [OF assms(2)] by (simp_all add: sessions_ok_def repo_wf_def)
  have "selection_ok c s" if "s \<in> set (session_List (svSessions sv))" for s
    using that i by (auto simp: session_List_def sessions_ok_def repo_wf_def)
  then show ?thesis
    unfolding list_all_iff
    by (auto simp: selection_ok_def sessionTrackCapabilities_def EffectiveLayoutID_def Let_def)
qed

text \<open>C20: What further requests can do to a finished session: nothing but select another track and layout, which then
  is one of the catalogue.  Everything else of the session stays, its end and its detected layout
  included, and so do its stored frames and its rejection log.\<close>

theorem finished_sessions_frozen:
  assumes "serves cfg c sv sv'" "map_of (svSessions sv) i = Some s" "sEndedAt s \<noteq> None"
  shows "\<exists>t. map_of (svSessions sv') i = Some t \<and> t = s\<lparr>sTrackID := sTrackID t, sLayoutID := sLayoutID t\<rparr> \<and>
    (sTrackID t = sTrackID s \<and> sLayoutID t = sLayoutID s \<or> in_catalog c (sTrackID t) (sLayoutID t)) \<and>
    map_list (sFrames (svFrames sv')) i = map_list (sFrames (svFrames sv)) i \<and> svRejections sv' i = svRejections sv i"
  using assms
proof (induction rule: serves.induct)
  case (serve sv sv1 cx req)
  then obtain t where t: "map_of (svSessions sv1) i = Some t" "selected_only c s t"
    "map_list (sFrames (svFrames sv1)) i = map_list (sFrames (svFrames sv)) i" "svRejections sv1 i = svRejections sv i"
    by (auto simp: selected_only_def)
  have f: "sEndedAt t \<noteq> None" using selected_only_ended [OF t(2)] serve.prems(2) by simp
  obtain u where "map_of (svSessions (snd (routes cfg c cx req sv1))) i = Some u" "selected_only c t u"
    using routes_finished_session [OF t(1) f] by blast
  then show ?case using routes_finished [OF t(1) f, of cfg c cx req] t(3,4) selected_only_trans [OF t(2)]
    by (auto simp: selected_only_def)
qed simp

text \<open>The export reads what the ingests stored.\<close>

lemma Export_unsorted:
  assumes "map_of repo i = Some s" "sID s = i"
    "\<not> sorted_wrt (\<lambda>a b. fTimestampUnixMs a < fTimestampUnixMs b) (map_list (sFrames store) i)"
  shows "\<exists>err. Export \<lparr>xpSessionReader = Some repo, xpFrameReader = Some store, xpAllowActiveSession = allow\<rparr> None i None = Inl err"
proof -
  have "validateTimestamps (map_list (sFrames store) i) \<noteq> None"
    using assms(3) validateTimestamps_iff [of "map_list (sFrames store) i"] by blast
  then obtain e where "validateTimestamps (map_list (sFrames store) i) = Some e" by blast
  then show ?thesis by (simp add: Export_def session_FindByID_def assms(1,2) filterFrames_def Let_def)
qed

lemma ingest_202_append_ctx:
  assumes "ingestFramesHandler c env i b sv = (Reply 202 (IngestBody resp) v, sv')" "0 < ibAcceptedFrames resp"
  shows "ieAppend env = None"
proof (cases "validateSession (svSessions sv) i True")
  case (Inl e)
  then show ?thesis using assms(1) by (cases e) (simp_all add: ingestFramesHandler_def writeJSON_def)
next
  case (Inr s)
  then have "ingest_validated c env i s b sv = (Reply 202 (IngestBody resp) v, sv')" using assms(1) by (simp add: ingestFramesHandler_def)
  then show ?thesis
  proof (cases rule: ingest_validated_cases)
    case (stored request result sv1)
    then have "nFrames result \<noteq> []" using assms(2) by (auto simp: writeVersionedJSON_def ingest_response_def)
    then show ?thesis using stored(4)
      by (cases "ieAppend env") (auto simp: ingest_accepted_def store_append_def)
  qed (auto simp: writeJSON_def failure_def)
qed

lemma ingest_202_frames:
  assumes "ingestFramesHandler c env i (BodyJSON request) sv = (Reply 202 (IngestBody resp) v, sv')" "store_bounded (svFrames sv)" "i \<noteq> []"
  shows "\<exists>rejections fs. batch_normalize (request\<lparr>bSessionID := i\<rparr>) = Inr \<lparr>nFrames = fs, nRejections = rejections\<rparr> \<and>
    ibAcceptedFrames resp = int (length fs) \<and> store_bounded (svFrames sv') \<and> sCapacity (svFrames sv') = sCapacity (svFrames sv) \<and>
    map_list (sFrames (svFrames sv')) i = lastn (nat (sCapacity (svFrames sv))) (map_list (sFrames (svFrames sv)) i @ fs)"
proof -
  from ingest_202 [OF assms(1)] obtain fs rejections where
    n: "batch_normalize (request\<lparr>bSessionID := i\<rparr>) = Inr \<lparr>nFrames = fs, nRejections = rejections\<rparr>" "ibAcceptedFrames resp = int (length fs)"
    and f: "svFrames sv' = (if fs = [] then svFrames sv else snd (store_append (svFrames sv) (ieAppend env) i fs))" by auto
  have ok: "store_ok (svFrames sv)" using assms(2) by (rule store_bounded_ok)
  show ?thesis
  proof (cases "fs = []")
    case True
    then show ?thesis using n f assms(2) store_bounded_lastn [OF assms(2), of i] by simp
  next
    case False
    then have "ieAppend env = None" using ingest_202_append_ctx [OF assms(1)] n(2) by simp
    then show ?thesis using n f False assms(2,3) by (auto simp: store_append_simp [OF ok] store_bounded_def store_ok_def)
  qed
qed

lemma repeated_not_sorted: "fs \<noteq> [] \<Longrightarrow> irreflp R \<Longrightarrow> transp R \<Longrightarrow> \<not> sorted_wrt R (xs @ fs @ fs @ ys)"
proof
  assume "fs \<noteq> []" "irreflp R" "transp R" and s: "sorted_wrt R (xs @ fs @ fs @ ys)"
  then obtain f where "f \<in> set fs" by (cases fs) auto
  moreover from this s have "R f f" by (auto simp: sorted_wrt_append)
  ultimately show False using \<open>irreflp R\<close> by (simp add: irreflp_def)
qed

text \<open>A retried batch makes the export fail: when a client sends the same batch twice, both are accepted, and as long
  as the store still holds both copies (here: it has room for them) no export of the whole session succeeds.\<close>

theorem retried_batch_blocks_export:
  assumes "ingestFramesHandler c env i (BodyJSON request) sv = (Reply 202 (IngestBody resp) v, sv1)"
    and "ingestFramesHandler c env' i (BodyJSON request) sv1 = (Reply 202 (IngestBody resp') v', sv2)"
    and "0 < ibAcceptedFrames resp" "store_bounded (svFrames sv)" "i \<noteq> []"
    and "int (length (map_list (sFrames (svFrames sv)) i)) + 2 * ibAcceptedFrames resp \<le> sCapacity (svFrames sv)"
    and "map_of repo i = Some s" "sID s = i"
  shows "\<exists>err. Export \<lparr>xpSessionReader = Some repo, xpFrameReader = Some (svFrames sv2), xpAllowActiveSession = allow\<rparr> None i None = Inl err"
proof -
  let ?old = "map_list (sFrames (svFrames sv)) i"
  from ingest_202_frames [OF assms(1,4,5)] obtain fs rs where
    n: "batch_normalize (request\<lparr>bSessionID := i\<rparr>) = Inr \<lparr>nFrames = fs, nRejections = rs\<rparr>" "ibAcceptedFrames resp = int (length fs)"
    and 1: "store_bounded (svFrames sv1)" "sCapacity (svFrames sv1) = sCapacity (svFrames sv)"
      "map_list (sFrames (svFrames sv1)) i = lastn (nat (sCapacity (svFrames sv))) (?old @ fs)" by auto
  have "map_list (sFrames (svFrames sv1)) i = ?old @ fs"
    unfolding 1(3) using assms(6) n(2) by (intro lastn_all) (simp add: le_nat_iff)
  moreover from ingest_202_frames [OF assms(2) 1(1) assms(5)] n(1) have
    "map_list (sFrames (svFrames sv2)) i = lastn (nat (sCapacity (svFrames sv))) (map_list (sFrames (svFrames sv1)) i @ fs)"
    by (auto simp: 1(2))
  ultimately have "map_list (sFrames (svFrames sv2)) i = lastn (nat (sCapacity (svFrames sv))) (?old @ fs @ fs)" by simp
  also have "\<dots> = ?old @ fs @ fs" using assms(6) n(2) by (intro lastn_all) (simp add: le_nat_iff)
  finally have "map_list (sFrames (svFrames sv2)) i = ?old @ fs @ fs @ []" by simp
  moreover have "fs \<noteq> []" using assms(3) n(2) by auto
  ultimately have "\<not> sorted_wrt (\<lambda>a b. fTimestampUnixMs a < fTimestampUnixMs b) (map_list (sFrames (svFrames sv2)) i)"
    by (simp only:) (rule repeated_not_sorted; auto simp: irreflp_def transp_def)
  from Export_unsorted [OF assms(7,8) this] show ?thesis .
qed

section \<open>Witnesses\<close>

definition demo_config :: Config where
  "demo_config = \<lparr>cfRetainedFramesPerSession = 100, cfAdminToken = [], cfSkipInvalidApprovedGeometry = False, cfEnableSessionExport = True\<rparr>"

definition demo_requests :: "api_request list" where
  "demo_requests = [CreateSession 1000 (Some (replicate 10 7)) (BodyJSON \<lparr>cqSource = ''gt7'', cqGame = ''gt7'', cqPlatform = ''ps5'',
     cqDriverAlias = [], cqTrackID = ''t'', cqStartedUnixMs = 900\<rparr>), GetCatalog]"

theorem shown_layouts_in_catalog_witness:
  "list_all (\<lambda>s. sTrackID s = [] \<or> catalogHasTrack demo_catalog (sTrackID s))
    (session_List (svSessions (serve_all demo_config demo_catalog demo_requests (snd (projr (runtimeHandler demo_config demo_catalog))))))"
proof -
  have "runtimeHandler demo_config demo_catalog = Inr (demo_catalog, snd (projr (runtimeHandler demo_config demo_catalog)))"
    by (simp add: runtimeHandler_def prepareRuntimeCatalog_def PrepareApprovedGeometry_def sanitized_def demo_catalog_def)
  from shown_layouts_in_catalog [OF this serves_all] show ?thesis by (simp add: list_all_iff)
qed

definition demo_finished :: server where
  "demo_finished = demo_server\<lparr>svSessions := [(''a'', demo_session\<lparr>sEndedAt := Some 5000\<rparr>)]\<rparr>"

theorem finished_sessions_frozen_witness:
  "let sv = serve_all demo_config demo_catalog [PutTrackLayout ''a'' (BodyJSON \<lparr>tqTrackID = ''t'', tqLayoutID = ''l''\<rparr>),
      PostFrames demo_env ''a'' (BodyJSON demo_request)] demo_finished
   in map_option sEndedAt (map_of (svSessions sv) ''a'') = Some (Some 5000) \<and> map_list (sFrames (svFrames sv)) ''a'' = []"
proof -
  let ?reqs = "[PutTrackLayout ''a'' (BodyJSON \<lparr>tqTrackID = ''t'', tqLayoutID = ''l''\<rparr>), PostFrames demo_env ''a'' (BodyJSON demo_request)]"
  let ?s = "demo_session\<lparr>sEndedAt := Some 5000\<rparr>" and ?sv = "serve_all demo_config demo_catalog ?reqs demo_finished"
  have s: "map_of (svSessions demo_finished) ''a'' = Some ?s" "sEndedAt ?s \<noteq> None" "map_list (sFrames (svFrames demo_finished)) ''a'' = []"
    by (simp_all add: demo_finished_def demo_server_def NewFrameStore_def map_list_def)
  from finished_sessions_frozen [OF serves_all s(1,2), of demo_config demo_catalog ?reqs] obtain t where
    t: "map_of (svSessions ?sv) ''a'' = Some t" "t = ?s\<lparr>sTrackID := sTrackID t, sLayoutID := sLayoutID t\<rparr>"
      "map_list (sFrames (svFrames ?sv)) ''a'' = []" unfolding s(3) by blast
  have "sEndedAt t = Some 5000" by (subst t(2)) simp
  then show ?thesis using t(1,3) by (simp add: Let_def del: serve_all.simps)
qed

definition demo_post :: "server \<Rightarrow> reply \<times> server" where
  "demo_post sv = ingestFramesHandler demo_catalog demo_env ''a'' (BodyJSON demo_request) sv"

definition two_accepted :: "reply \<Rightarrow> bool" where
  "two_accepted r = (case r of Reply st (IngestBody resp) v \<Rightarrow> st = 202 \<and> ibAcceptedFrames resp = 2 | _ \<Rightarrow> False)"

lemma demo_posts: "two_accepted (fst (demo_post demo_server))" "two_accepted (fst (demo_post (snd (demo_post demo_server))))"
  by code_simp+

theorem retried_batch_blocks_export_witness:
  "\<exists>err. Export \<lparr>xpSessionReader = Some (svSessions demo_server), xpFrameReader = Some (svFrames (snd (demo_post (snd (demo_post demo_server))))),
     xpAllowActiveSession = True\<rparr> None ''a'' None = Inl err"
proof -
  have split: "\<exists>resp v. demo_post sv = (Reply 202 (IngestBody resp) v, snd (demo_post sv)) \<and> ibAcceptedFrames resp = 2"
    if "two_accepted (fst (demo_post sv))" for sv
    using that by (cases "demo_post sv") (auto simp: two_accepted_def split: reply.splits payload.splits)
  from split [OF demo_posts(1)] obtain resp v where 1: "demo_post demo_server = (Reply 202 (IngestBody resp) v, snd (demo_post demo_server))"
    "ibAcceptedFrames resp = 2" by blast
  from split [OF demo_posts(2)] obtain resp' v' where 2: "demo_post (snd (demo_post demo_server)) =
    (Reply 202 (IngestBody resp') v', snd (demo_post (snd (demo_post demo_server))))" by blast
  have "store_bounded (svFrames demo_server)" "map_list (sFrames (svFrames demo_server)) ''a'' = []" "sCapacity (svFrames demo_server) = 100"
    by (simp_all add: demo_server_def) (simp_all add: NewFrameStore_def map_list_def)
  then show ?thesis
    using retried_batch_blocks_export [OF 1(1) [unfolded demo_post_def [of demo_server]]
        2 [unfolded demo_post_def [of "snd (demo_post demo_server)"], unfolded demo_post_def [of demo_server]], of _ demo_session]
      1(2) by (simp add: demo_post_def demo_server_def demo_session_def)
qed

end
