(* ===== verification/Acceptance.thy ===== *)
theory Acceptance
  imports Service
begin

text \<open>
  What an ingest needs to be accepted: every part of the handler is shown to succeed on frames whose
  numbers are in range, so that the composition of all components answers a good request with 202 and
  stores its frames.  The last section interleaves an ingest with the finish of its session.
\<close>

section \<open>Frames in range\<close>

text \<open>Numbers as a decoder yields them (64-bit integers, binary64 floats) with timestamps up to \<open>2 ^ 53\<close> and lap distances up
  to a billion kilometres: beyond them the sampler rounds timestamps and overflows.\<close>

definition in_range :: "Frame \<Rightarrow> bool" where
  "in_range f \<longleftrightarrow> frame_in64 f \<and> f64_ok (lap_distance f) \<and> fTimestampUnixMs f \<le> 2 ^ 53 \<and> fval (lap_distance f) \<le> 10 ^ 12"

definition calm :: "ingest_env \<Rightarrow> bool" where
  "calm env \<longleftrightarrow> ieAppend env = None \<and> ieLaps env = None \<and> ieGapFrames env = None \<and> ieGaps env = (\<lambda>k. None) \<and>
     ieSampleFrames env = None \<and> ieSamples env = (\<lambda>k. None) \<and> ieFrames env = None \<and> ieEvents env = (\<lambda>k. None)"

definition named :: "Catalog \<Rightarrow> bool" where
  "named c \<longleftrightarrow> list_all (\<lambda>t. trID t \<noteq> [] \<and> trName t \<noteq> [] \<and> list_all (\<lambda>l. loID l \<noteq> [] \<and> loName l \<noteq> []) (trLayouts t)) (caTracks c)"

section \<open>The parts succeed\<close>

lemma div_le_dividend_int: "0 \<le> a \<Longrightarrow> a \<le> m \<Longrightarrow> a div 5 \<le> (m :: int)"
  by linarith

lemma gap_counts_loop_ok:
  "list_all (\<lambda>l. 0 \<le> lLapNumber l) laps \<Longrightarrow> fst (gap_counts_loop (\<lambda>k. None) k sid fs laps r) = PersistOk"
proof (induction laps arbitrary: k r)
  case (Cons lap laps)
  have "0 \<le> CountTelemetryGaps lap fs" by (simp add: CountTelemetryGaps_def Let_def)
  then have "fst (UpdateTelemetryGapCount r None sid (lLapNumber lap) (CountTelemetryGaps lap fs)) = None"
    using Cons.prems by (simp add: UpdateTelemetryGapCount_def split: option.split)
  then show ?case using Cons by (auto split: prod.splits option.splits)
qed simp

lemma sampler_no_panic:
  assumes "list_all in_range fs" shows "BuildLapSamples lap fs 5 \<noteq> SamplesPanic"
proof -
  let ?d = "lap_distance (last (lap_curve lap fs))"
  let ?sorted = "sort_slice (\<lambda>a b. fTimestampUnixMs a < fTimestampUnixMs b) (filter (\<lambda>f. fLapNumber f = lLapNumber lap) fs)"
  have "\<not> make_panics (add64 (div64 (f_to_int64 ?d) 5) 1)" if "distances_ok None ?sorted" "2 \<le> length (lap_curve lap fs)"
  proof -
    note c = collapse_spec [OF that(1), folded lap_curve_def [of lap fs]]
    have m: "last (lap_curve lap fs) \<in> set (lap_curve lap fs)" using that(2) by (intro last_in_set) auto
    then have "last (lap_curve lap fs) \<in> set fs" using c(2) by auto
    then have "fval ?d \<le> 10 ^ 12" using assms by (auto simp: list_all_iff in_range_def)
    moreover have p: "is_fin ?d" "0 \<le> fval ?d" using c(3) m by (auto simp: list_all_iff placed_def)
    ultimately have t: "0 \<le> \<lfloor>fval ?d\<rfloor>" "\<lfloor>fval ?d\<rfloor> \<le> 10 ^ 12" by (simp_all add: floor_le_iff)
    then have f: "f_to_int64 ?d = \<lfloor>fval ?d\<rfloor>" using p by (simp add: f_to_int64_def rat_trunc_def)
    have "0 \<le> \<lfloor>fval ?d\<rfloor> div 5" "\<lfloor>fval ?d\<rfloor> div 5 \<le> 10 ^ 12" using t by (simp_all add: pos_imp_zdiv_nonneg_iff div_le_dividend_int)
    then show ?thesis unfolding f using t by (simp add: div64_def add64_id in64_def make_panics_def)
  qed
  then show ?thesis
    by (auto simp: BuildLapSamples_def Let_def lap_curve_def simp del: bucket_loop.simps split: option.splits)
qed

lemma sampler_valid:
  assumes "list_all in_range fs" "list_all frame_valid fs" "BuildLapSamples lap fs 5 = Samples ss" "s \<in> set ss"
  shows "sample_Validate (sample_withDefaults s) = None"
proof -
  have r: "\<forall>f \<in> set fs. f64_ok (lap_distance f)" "\<forall>f \<in> set fs. 0 \<le> fTimestampUnixMs f \<and> fTimestampUnixMs f \<le> 2 ^ 53"
    using assms(1,2) by (auto simp: list_all_iff in_range_def frame_valid_def)
  obtain l r t where i: "l \<in> set fs" "s = interpolateSample (lID lap) (saDistanceMeters s) l r"
      "saTimestampUnixMs s = Some t" "fTimestampUnixMs l \<le> t" "saID s = NewLapSampleID (lID lap) (saDistanceMeters s)"
    using sample_interpolates [OF _ _ assms(3,4) r] by force
  have "0 < t" using i(1,4) assms(2) by (force simp: list_all_iff frame_valid_def)
  moreover have "lID lap \<noteq> []" using assms(3) by (auto simp: BuildLapSamples_def split: if_splits)
  moreover have "0 \<le> saDistanceMeters s" "saDistanceMeters s mod 5 = 0"
    using sample_distances_ok [OF _ _ assms(3,4)] by auto
  moreover have "saSource s = ''explicit_lap_distance''" "saLapID s = lID lap" using i(2) interpolateSample_sel by metis+
  moreover have "sample_withDefaults s = s" using i(5) by (simp add: sample_withDefaults_def NewLapSampleID_def)
  ultimately show ?thesis using i(3) by (simp add: sample_Validate_def DefaultSampleStepMeters_def)
qed

lemma samples_loop_ok:
  assumes "list_all in_range fs" "list_all frame_valid fs"
  shows "fst (samples_loop (\<lambda>k. None) k fs laps r) = PersistOk"
proof (induction laps arbitrary: k r)
  case (Cons lap laps)
  show ?case
  proof (cases "BuildLapSamples lap fs DefaultSampleStepMeters")
    case (Samples ss)
    then have "list_all (\<lambda>s. sample_Validate (sample_withDefaults s) = None) ss"
      using sampler_valid [OF assms] by (auto simp: list_all_iff DefaultSampleStepMeters_def)
    then have "fst (UpsertSamples r None ss) = None" by (simp add: UpsertSamples_def upsert_samples_loop_ok)
    then show ?thesis using Cons Samples by (auto split: prod.splits option.splits)
  next
    case SamplesPanic
    then show ?thesis using sampler_no_panic [OF assms(1)] by (simp add: DefaultSampleStepMeters_def)
  next
    case SamplesDiverge
    then show ?thesis using BuildLapSamples_cases(1) [of 5 lap fs] by (simp add: DefaultSampleStepMeters_def)
  qed (simp add: Cons)
qed simp

lemma ingest_laps_ok:
  assumes "calm env" "list_all in_range acc" "list_all frame_valid acc"
    and "list_all in_range (map_list (sFrames store) sid)" "list_all frame_valid (map_list (sFrames store) sid)"
  shows "fst (ingest_laps env store sid acc r) = None"
proof -
  let ?laps = "ExtractCompleted sid acc"
  have a: "\<forall>f \<in> set acc. frame_in64 f" "\<forall>f \<in> set acc. frame_valid f" using assms(2,3) by (auto simp: list_all_iff in_range_def)
  have v: "list_all (\<lambda>lap. lap_Validate lap = None \<and> lID lap \<noteq> []) ?laps"
    using extract_completed_valid [OF a] by (auto simp: list_all_iff NewCompletedLapID_def)
  then have "list_all (\<lambda>lap. lap_Validate (lap_withDefaults lap) = None) ?laps" "list_all (\<lambda>l. 0 \<le> lLapNumber l) ?laps"
    using lap_Validate_fields by (auto simp: list_all_iff)
  then have 12: "fst (UpsertCompleted r None ?laps) = None" "fst (persistTelemetryGapCounts env store r sid ?laps) = PersistOk" for r
    using assms(1) by (simp_all add: UpsertCompleted_def upsert_laps_loop_ok persistTelemetryGapCounts_def calm_def gap_counts_loop_ok)
  have 3: "fst (persistLapSamples env store r sid ?laps) = PersistOk" for r
    using assms(1) samples_loop_ok [OF assms(4,5)] by (simp add: persistLapSamples_def calm_def)
  obtain r1 where r1: "UpsertCompleted r None ?laps = (None, r1)" using 12(1) [of r] by (metis prod.collapse)
  obtain r2 where r2: "persistTelemetryGapCounts env store r1 sid ?laps = (PersistOk, r2)" using 12(2) [of r1] by (metis prod.collapse)
  obtain r3 where r3: "persistLapSamples env store r2 sid ?laps = (PersistOk, r3)" using 3 [of r2] by (metis prod.collapse)
  show ?thesis using assms(1) by (simp add: ingest_laps_def Let_def calm_def r1 r2 r3)
qed

lemma append_events_loop_ok:
  "list_all (\<lambda>e. event_Validate e = None) es \<Longrightarrow> fst (append_events_loop (\<lambda>k. None) k es store)"
proof (induction es arbitrary: k store)
  case (Cons e es)
  have "\<exists>x. fst (event_append store None e) = Inr x"
    using Cons.prems by (cases "fst (dedup_Filter (vDeduplicator store) [e]) = []") (auto simp: event_append_def Let_def split_beta)
  then show ?case using Cons by (auto split: prod.splits sum.splits)
qed simp

lemma catalog_name_ref_ok: "i \<noteq> [] \<Longrightarrow> n \<noteq> [] \<Longrightarrow> ref_Validate (Some (catalog_name_ref i n)) = None"
  by (simp add: ref_Validate_def catalog_name_ref_def)

lemma detected_refs_ok:
  assumes "named c" "sid \<noteq> []" "ingest_detect c session sid fs repo = ((track, layout), repo')"
  shows "refs_ok sid track layout"
proof (cases "track = None \<and> layout = None")
  case False
  let ?d = "DetectTrack fs c zero_options"
  obtain t tn l lname where d: "dsStatus ?d = ''detected''" "dsTrackID ?d = Some t" "dsTrackName ?d = Some tn"
    "dsLayoutID ?d = Some l" "dsLayoutName ?d = Some lname" "track = Some (catalog_name_ref t tn)" "layout = Some (catalog_name_ref l lname)"
    using assms(3) False unfolding ingest_detect_def Let_def by (force split: if_splits option.splits)
  from detected_from_catalog [OF d(1-5)] assms(1) have "t \<noteq> []" "tn \<noteq> []" "l \<noteq> []" "lname \<noteq> []"
    by (auto simp: named_def list_all_iff)
  then show ?thesis using assms(2) by (simp add: refs_ok_def d(6,7) catalog_name_ref_ok)
qed (use assms(2) in \<open>simp add: refs_ok_def ref_Validate_def\<close>)

lemma ingest_events_ok:
  assumes "calm env" "named c" "sid \<noteq> []"
    and "list_all frame_valid (map_list (sFrames (svFrames sv)) sid @ acc)" "list_all frame_in64 (map_list (sFrames (svFrames sv)) sid @ acc)"
    and "int (length (map_list (sFrames (svFrames sv)) sid @ acc)) < 2 ^ 62"
  shows "fst (ingest_events c env session sid acc sv) = None"
proof -
  let ?fs = "map_list (sFrames (svFrames sv)) sid"
  obtain t l repo where d: "ingest_detect c session sid ?fs (svSessions sv) = ((t, l), repo)" by (metis prod.collapse)
  have "refs_ok sid t l" by (rule detected_refs_ok [OF assms(2,3) d])
  from frame_events_valid [OF this assms(4-6)] obtain es where
    g: "GenerateFrameEventsForAppendWithRefs sid ?fs acc t l = Inr es" "list_all (\<lambda>e. event_Validate e = None) es"
    by (auto simp: list_all_iff)
  obtain store where "append_events_loop (\<lambda>k. None) 0 es (svEvents sv) = (True, store)"
    using append_events_loop_ok [OF g(2), of 0 "svEvents sv"] by (cases "append_events_loop (\<lambda>k. None) 0 es (svEvents sv)") auto
  then show ?thesis using assms(1) by (simp add: ingest_events_def calm_def d g(1) Let_def)
qed

lemma accepted_part_succeeds:
  assumes "calm env" "named c" "sid \<noteq> []" "list_all frame_valid acc" "list_all in_range acc" "acc \<noteq> []"
    and "store_bounded (svFrames sv)" "sCapacity (svFrames sv) < 2 ^ 61" "length acc \<le> 600"
    and "list_all in_range (map_list (sFrames (svFrames sv)) sid)" "list_all frame_valid (map_list (sFrames (svFrames sv)) sid)"
  shows "fst (ingest_accepted c env session sid acc sv) = None"
proof -
  let ?store = "(svFrames sv)\<lparr>sFrames := (sFrames (svFrames sv))(sid \<mapsto> lastn (nat (sCapacity (svFrames sv))) (map_list (sFrames (svFrames sv)) sid @ acc))\<rparr>"
  have a: "store_append (svFrames sv) (ieAppend env) sid acc = (None, ?store)"
    using assms(1,3,6,7) by (simp add: calm_def store_append_simp store_bounded_ok)
  let ?fs = "map_list (sFrames ?store) sid"
  have sub: "set ?fs \<subseteq> set (map_list (sFrames (svFrames sv)) sid) \<union> set acc"
    using set_lastn [of "nat (sCapacity (svFrames sv))" "map_list (sFrames (svFrames sv)) sid @ acc"] by (auto simp: map_list_def)
  then have fs: "list_all in_range ?fs" "list_all frame_valid ?fs" using assms(4,5,10,11) by (auto simp: list_all_iff)
  have len: "int (length ?fs) < 2 ^ 61" using assms(8) by (simp add: map_list_def)
  obtain r where "ingest_laps env ?store sid acc (svLaps sv) = (None, r)"
    using ingest_laps_ok [OF assms(1,5,4) fs, of "svLaps sv"] by (metis prod.collapse)
  moreover have "fst (ingest_events c env session sid acc (sv\<lparr>svFrames := ?store, svLaps := r\<rparr>)) = None" for r
    using fs assms(4,5,9) len by (intro ingest_events_ok assms(1-3)) (auto simp: list_all_iff in_range_def)
  ultimately show ?thesis by (simp add: ingest_accepted_def a)
qed

text \<open>What the normalisation keeps of a batch.\<close>

lemma normalized_batch:
  assumes "normalize_loop 0 [] [] frames = \<lparr>nFrames = accepted, nRejections = rejections\<rparr>"
  shows "list_all frame_valid accepted" "set accepted \<subseteq> set frames" "length accepted \<le> length frames" "rejections = [] \<Longrightarrow> accepted = frames"
proof -
  show "list_all frame_valid accepted" using normalize_loop_ok [of "[]" 0 "[]" frames] assms by (simp add: batch_ok_def list_all_iff)
  show "length accepted \<le> length frames" using normalize_loop_length [of 0 "[]" "[]" frames] assms by simp
  obtain js rs where p: "normalize_loop 0 [] [] frames = \<lparr>nFrames = nths frames (- set js), nRejections = rs\<rparr>"
    "map rFrameIndex rs = map (\<lambda>j. Some (int j)) js" using normalize_loop_partition [of 0 "[]" "[]" frames] by auto
  then show "set accepted \<subseteq> set frames" using assms set_nths_subset by fastforce
  show "accepted = frames" if "rejections = []" using p assms that by (simp add: nths_all)
qed

text \<open>A batch of a session that was found active, whatever has happened to the session since.\<close>

lemma good_batch_stored:
  assumes "calm env" "named c" "sid \<noteq> []"
    and "bSessionID request = [] \<or> bSessionID request = sid" "bFrames request \<noteq> []" "length (bFrames request) \<le> 600"
    and "list_all in_range (bFrames request)" "store_bounded (svFrames sv)" "sCapacity (svFrames sv) < 2 ^ 61"
    and "list_all in_range (map_list (sFrames (svFrames sv)) sid)" "list_all frame_valid (map_list (sFrames (svFrames sv)) sid)"
  shows "\<exists>resp accepted rejections sv'. ingest_validated c env sid session (BodyJSON request) sv = (Reply 202 (IngestBody resp) (Some responseAPIVersion), sv') \<and>
    batch_normalize (request\<lparr>bSessionID := sid\<rparr>) = Inr \<lparr>nFrames = accepted, nRejections = rejections\<rparr> \<and>
    ibAcceptedFrames resp = int (length accepted) \<and> ibRejectedFrames resp = int (length rejections) \<and>
    map_list (sFrames (svFrames sv')) sid = lastn (nat (sCapacity (svFrames sv))) (map_list (sFrames (svFrames sv)) sid @ accepted) \<and>
    (batch_validate (request\<lparr>bSessionID := sid\<rparr>) = None \<longrightarrow> accepted = bFrames request \<and> ibStatus resp = ''accepted'')"
proof -
  obtain accepted rejections where l: "normalize_loop 0 [] [] (bFrames request) = \<lparr>nFrames = accepted, nRejections = rejections\<rparr>"
    by (metis NormalizeResult.cases)
  note b = normalized_batch [OF l]
  let ?result = "\<lparr>nFrames = accepted, nRejections = rejections\<rparr>" and ?old = "map_list (sFrames (svFrames sv)) sid"
  have n: "batch_normalize (request\<lparr>bSessionID := sid\<rparr>) = Inr ?result" using assms(3,5,6) l by (simp add: batch_normalize_Inr)
  have acc: "list_all in_range accepted" "length accepted \<le> 600" using b(2,3) assms(6,7) by (auto simp: list_all_iff)
  have "fst (ingest_accepted c env session sid accepted sv) = None" if "accepted \<noteq> []"
    using accepted_part_succeeds [OF assms(1-3) b(1) acc(1) that assms(8,9) acc(2) assms(10,11)] .
  then obtain sv1 where s: "(if nFrames ?result \<noteq> [] then ingest_accepted c env session sid (nFrames ?result) sv else (None, sv)) = (None, sv1)"
    by (cases "accepted = []"; cases "ingest_accepted c env session sid accepted sv") auto
  let ?resp = "ingest_response sid (bFrames request) ?result"
  let ?sv' = "sv1\<lparr>svRejections := ingest_rejections env ?resp (svRejections sv1)\<rparr>"
  have h: "ingest_validated c env sid session (BodyJSON request) sv = (Reply 202 (IngestBody ?resp) (Some responseAPIVersion), ?sv')"
    using ingest_validated_eq [OF _ assms(4) n s, of "BodyJSON request"] by (simp add: writeVersionedJSON_def decodeJSON_def)
  have "map_list (sFrames (svFrames sv1)) sid = lastn (nat (sCapacity (svFrames sv))) (?old @ accepted)"
  proof (cases "accepted = []")
    case True
    then show ?thesis using s store_bounded_lastn [OF assms(8), of sid] by simp
  next
    case False
    then have "sv1 = snd (ingest_accepted c env session sid accepted sv)" using s by simp
    then show ?thesis using assms(1,3,8) False by (simp add: calm_def store_append_simp store_bounded_ok map_list_def)
  qed
  moreover have "rejections = []" if "batch_validate (request\<lparr>bSessionID := sid\<rparr>) = None"
    using that n by (simp add: batch_validate_def split: list.splits)
  ultimately show ?thesis using h n b(4) assms(5) by (auto simp: ingest_response_def ingest_status_def)
qed

section \<open>Only the sampler panics\<close>

lemma samples_loop_panic:
  "fst (samples_loop cx k fs laps r) = PersistPanic \<Longrightarrow> \<exists>lap \<in> set laps. BuildLapSamples lap fs DefaultSampleStepMeters = SamplesPanic"
  by (induction cx k fs laps r rule: samples_loop.induct) (auto split: sample_outcome.splits prod.splits option.splits)

lemma gap_counts_loop_no_panic: "fst (gap_counts_loop cx k sid fs laps r) \<noteq> PersistPanic"
  by (induction cx k sid fs laps r rule: gap_counts_loop.induct) (auto split: prod.splits option.splits)

lemma persist_reply_panic: "persist_reply m p = Some Panicked \<longleftrightarrow> p = PersistPanic"
  by (cases p) (simp_all add: writeJSON_def)

lemma ingest_laps_panic:
  assumes "fst (ingest_laps env store sid acc r) = Some Panicked"
  shows "\<exists>lap \<in> set (ExtractCompleted sid acc). BuildLapSamples lap (map_list (sFrames store) sid) DefaultSampleStepMeters = SamplesPanic"
proof -
  let ?laps = "ExtractCompleted sid acc"
  have ne: "?laps \<noteq> []" using assms by (auto simp: ingest_laps_def)
  obtain e r1 where 1: "UpsertCompleted r (ieLaps env) ?laps = (e, r1)" by fastforce
  obtain p r2 where 2: "persistTelemetryGapCounts env store r1 sid ?laps = (p, r2)" by fastforce
  obtain q r3 where 3: "persistLapSamples env store r2 sid ?laps = (q, r3)" by fastforce
  have "p \<noteq> PersistPanic" using 2 gap_counts_loop_no_panic by (auto simp: persistTelemetryGapCounts_def split: if_splits sum.splits) (metis fst_conv)
  then have "q = PersistPanic" using assms ne
    by (auto simp: ingest_laps_def Let_def 1 2 3 persist_reply_panic writeJSON_def split: option.splits)
  then show ?thesis using 3 ne samples_loop_panic [of "ieSamples env" 0 "map_list (sFrames store) sid" ?laps r2]
    by (cases "ieSampleFrames env") (auto simp: persistLapSamples_def store_frames_def)
qed

lemma ingest_events_no_panic: "fst (ingest_events c env session sid acc sv) \<noteq> Some Panicked"
  unfolding ingest_events_def Let_def by (auto simp: writeJSON_def split: sum.splits prod.splits)

lemma ingest_accepted_panic:
  assumes "fst (ingest_accepted c env session sid acc sv) = Some Panicked"
  shows "ieAppend env = None \<and> (\<exists>lap \<in> set (ExtractCompleted sid acc).
    BuildLapSamples lap (map_list (sFrames (snd (store_append (svFrames sv) None sid acc))) sid) DefaultSampleStepMeters = SamplesPanic)"
proof -
  obtain e store where 1: "store_append (svFrames sv) (ieAppend env) sid acc = (e, store)" by fastforce
  obtain q r where 2: "ingest_laps env store sid acc (svLaps sv) = (q, r)" by fastforce
  have e: "e = None" using assms by (cases e) (simp_all add: ingest_accepted_def 1 writeJSON_def)
  then have a: "ieAppend env = None" using 1 by (cases "ieAppend env") (simp_all add: store_append_def)
  have "q = Some Panicked" using assms ingest_events_no_panic [of c env session sid acc]
    by (auto simp: ingest_accepted_def 1 e 2 split: option.splits)
  then show ?thesis using ingest_laps_panic [of env store sid acc "svLaps sv"] 1 2 a by simp
qed

section \<open>Properties\<close>

text \<open>C23: How every request to ingest is answered, with a catalogue without empty names and a bounded frame store that
  holds valid frames of the session.
  The handler never runs on.  It panics only where the sampler does, on a completed lap of the accepted
  frames.  Otherwise it replies: a session that is missing or finished with its error, a body that is no
  batch of one to six hundred frames of the session with 400, and any other request with 202, unless a
  store call is cancelled or a number of the new or stored frames is out of range: only then is 500
  possible.\<close>

theorem ingest_always_returns:
  assumes "named c" "store_bounded (svFrames sv)" "sCapacity (svFrames sv) < 2 ^ 61" "list_all frame_valid (map_list (sFrames (svFrames sv)) sid)"
  shows "case fst (ingestFramesHandler c env sid b sv) of
      Stuck \<Rightarrow> False
    | Panicked \<Rightarrow> \<exists>request accepted rejections. b = BodyJSON request \<and>
        batch_normalize (request\<lparr>bSessionID := sid\<rparr>) = Inr \<lparr>nFrames = accepted, nRejections = rejections\<rparr> \<and>
        (\<exists>lap \<in> set (ExtractCompleted sid accepted).
          BuildLapSamples lap (map_list (sFrames (snd (store_append (svFrames sv) None sid accepted))) sid) DefaultSampleStepMeters = SamplesPanic)
    | Reply st p v \<Rightarrow>
        (case validateSession (svSessions sv) sid True of
           Inl e \<Rightarrow> Reply st p v = writeSessionError e
         | Inr session \<Rightarrow>
           (case b of
              BodyJSON request \<Rightarrow>
                if (bSessionID request = [] \<or> bSessionID request = sid) \<and> bFrames request \<noteq> [] \<and> length (bFrames request) \<le> 600
                then st = 202 \<or> st = 500 \<and> \<not> (calm env \<and> list_all in_range (bFrames request @ map_list (sFrames (svFrames sv)) sid))
                else st = 400
            | _ \<Rightarrow> st = 400))"
proof (cases "validateSession (svSessions sv) sid True")
  case (Inl e)
  then show ?thesis by (cases e) (simp_all add: ingestFramesHandler_def writeJSON_def)
next
  case (Inr session)
  then have sid: "sid \<noteq> []" by (auto simp: validateSession_def split: if_splits)
  obtain r sv' where r: "ingest_validated c env sid session b sv = (r, sv')" by fastforce
  have h: "fst (ingestFramesHandler c env sid b sv) = r" by (simp add: ingestFramesHandler_def Inr r)
  show ?thesis
  proof (cases "\<exists>request. b = BodyJSON request \<and> (bSessionID request = [] \<or> bSessionID request = sid) \<and>
      bFrames request \<noteq> [] \<and> length (bFrames request) \<le> 600")
    case False
    from r have "\<exists>p. r = Reply 400 p None"
      by (cases rule: ingest_validated_cases) (use False sid in \<open>auto simp: batch_normalize_Inr decodeJSON_def writeJSON_def split: body.splits\<close>)
    then obtain p where "r = Reply 400 p None" by blast
    then show ?thesis using False Inr by (auto simp: h split: body.splits)
  next
    case True
    then obtain request where b: "b = BodyJSON request" "bSessionID request = [] \<or> bSessionID request = sid"
      "bFrames request \<noteq> []" "length (bFrames request) \<le> 600" by blast
    have good: "\<exists>resp. r = Reply 202 (IngestBody resp) (Some responseAPIVersion)"
      if "calm env" "list_all in_range (bFrames request @ map_list (sFrames (svFrames sv)) sid)"
      using good_batch_stored [OF that(1) assms(1) sid b(2-4) _ assms(2,3) _ assms(4), of session] that(2) r by (auto simp: b(1))
    obtain result where n: "batch_normalize (request\<lparr>bSessionID := sid\<rparr>) = Inr result" using sid b(3,4) by (auto simp: batch_normalize_Inr)
    obtain a sv1 where a: "(if nFrames result \<noteq> [] then ingest_accepted c env session sid (nFrames result) sv else (None, sv)) = (a, sv1)"
      by (cases "if nFrames result \<noteq> [] then ingest_accepted c env session sid (nFrames result) sv else (None, sv)") blast
    note e = ingest_validated_eq [OF _ b(2) n a, of b, unfolded r b(1) decodeJSON_def]
    show ?thesis
    proof (cases a)
      case None
      then have "fst (r, sv') = writeVersionedJSON 202 (IngestBody (ingest_response sid (bFrames request) result))" using r e by (simp add: b(1))
      then show ?thesis unfolding h Inr using b by (simp add: writeVersionedJSON_def)
    next
      case (Some reply)
      then have reply: "r = reply" using r e by (simp add: b(1))
      have f: "fst (ingest_accepted c env session sid (nFrames result) sv) = Some r" using a Some reply by (auto split: if_splits)
      show ?thesis
      proof (cases "r = Panicked")
        case True
        then show ?thesis unfolding h using ingest_accepted_panic f b(1) n by (cases result) fastforce
      next
        case False
        then obtain m where "r = Reply 500 m None" using ingest_accepted_failure [OF f] by (auto simp: failure_def writeJSON_def)
        then show ?thesis unfolding h Inr using good b by auto
      qed
    qed
  qed
qed

text \<open>C25: A good batch is accepted and its frames are stored.  For an active session, on a bounded store of valid frames
  in range, a batch of one to six hundred frames in range is answered with 202 as long as the request is
  not cancelled: no combination of laps, gaps, samples, detection and events makes the ingest fail.
  Exactly the frames the normalisation accepts are then appended to those of the session, of which the
  store keeps the last of its capacity; of a batch that passes strict validation, these are all frames.\<close>

theorem good_batches_accepted:
  assumes "calm env" "named c" "validateSession (svSessions sv) sid True = Inr session"
    and "bSessionID request = [] \<or> bSessionID request = sid" "bFrames request \<noteq> []" "length (bFrames request) \<le> 600"
    and "list_all in_range (bFrames request)" "store_bounded (svFrames sv)" "sCapacity (svFrames sv) < 2 ^ 61"
    and "list_all in_range (map_list (sFrames (svFrames sv)) sid)" "list_all frame_valid (map_list (sFrames (svFrames sv)) sid)"
  shows "\<exists>resp accepted rejections sv'. ingestFramesHandler c env sid (BodyJSON request) sv = (Reply 202 (IngestBody resp) (Some responseAPIVersion), sv') \<and>
    batch_normalize (request\<lparr>bSessionID := sid\<rparr>) = Inr \<lparr>nFrames = accepted, nRejections = rejections\<rparr> \<and>
    ibAcceptedFrames resp = int (length accepted) \<and> ibRejectedFrames resp = int (length rejections) \<and>
    map_list (sFrames (svFrames sv')) sid = lastn (nat (sCapacity (svFrames sv))) (map_list (sFrames (svFrames sv)) sid @ accepted) \<and>
    (batch_validate (request\<lparr>bSessionID := sid\<rparr>) = None \<longrightarrow> accepted = bFrames request \<and> ibStatus resp = ''accepted'')"
proof -
  have "sid \<noteq> []" using assms(3) by (auto simp: validateSession_def split: if_splits)
  from good_batch_stored [OF assms(1,2) this assms(4-11), of session] show ?thesis
    by (simp add: ingestFramesHandler_def assms(3))
qed

section \<open>Interleaving\<close>

lemma ingest_validated_ended:
  assumes "map_of (svSessions sv) i = Some s"
  shows "\<exists>t. map_of (svSessions (snd (ingest_validated c env i session b sv))) i = Some t \<and> sEndedAt t = sEndedAt s"
proof -
  have d: "\<exists>t. map_of (svSessions (snd (ingest_accepted c env session i fs sv))) i = Some t \<and> sEndedAt t = sEndedAt s" for fs
    using ingest_accepted_sessions [of c env session i fs sv] assms
    by (auto simp: SetDetectedTrackLayout_def update_conv Let_def split: if_splits)
  obtain r sv' where r: "ingest_validated c env i session b sv = (r, sv')" by fastforce
  then show ?thesis
  proof (cases rule: ingest_validated_cases)
    case (failed request result)
    then have "sv' = snd (ingest_accepted c env session i (nFrames result) sv)" by (metis snd_conv)
    then show ?thesis using d by (simp add: r)
  next
    case (stored request result sv1)
    then have "sv1 = (if nFrames result = [] then sv else snd (ingest_accepted c env session i (nFrames result) sv))" by (auto split: if_splits)
    then show ?thesis using d assms stored(6) by (simp add: r)
  qed (use assms r in simp)
qed

lemma finish_200:
  assumes "finishSessionHandler c cx now i b sv = (Reply 200 dto v, sv')"
  shows "\<exists>t. map_of (svSessions sv') i = Some t \<and> sEndedAt t \<noteq> None"
  using assms unfolding finishSessionHandler_def Let_def
  by (auto simp: session_End_def update_conv writeJSON_def writeVersionedJSON_def Let_def
    split: option.splits prod.splits sum.splits if_splits elim!: writeSessionError.elims writeSessionDTOError.elims)

text \<open>C24: The check that a session is active is not atomic with the writes.  Whenever an ingest has passed the check
  and another request finishes the session before the frames are written, a valid batch is still answered
  with 202 and all its frames are appended to those of the session (of which the store keeps the last of
  its capacity), which by then is finished and stays so; served as a whole after the finish, the same
  request is refused as a conflict and changes nothing.  The other hypotheses are those of a good batch.\<close>

theorem late_ingest_extends_finished_session:
  assumes "validateSession (svSessions sv) sid True = Inr session" "finishSessionHandler c cx now sid fb sv = (Reply 200 dto v, sv1)"
    and "bSessionID request = [] \<or> bSessionID request = sid" "batch_validate (request\<lparr>bSessionID := sid\<rparr>) = None"
    and "calm env" "named c" "list_all in_range (bFrames request)" "store_bounded (svFrames sv)" "sCapacity (svFrames sv) < 2 ^ 61"
    and "list_all in_range (map_list (sFrames (svFrames sv)) sid)" "list_all frame_valid (map_list (sFrames (svFrames sv)) sid)"
  shows "\<exists>resp sv2 t. map_of (svSessions sv1) sid = Some t \<and> sEndedAt t \<noteq> None \<and>
    ingest_validated c env sid session (BodyJSON request) sv1 = (Reply 202 (IngestBody resp) (Some responseAPIVersion), sv2) \<and>
    ibAcceptedFrames resp = int (length (bFrames request)) \<and> bFrames request \<noteq> [] \<and>
    map_option sEndedAt (map_of (svSessions sv2) sid) = Some (sEndedAt t) \<and>
    map_list (sFrames (svFrames sv1)) sid = map_list (sFrames (svFrames sv)) sid \<and>
    map_list (sFrames (svFrames sv2)) sid = lastn (nat (sCapacity (svFrames sv))) (map_list (sFrames (svFrames sv)) sid @ bFrames request) \<and>
    ingestFramesHandler c env sid (BodyJSON request) sv1 = (writeSessionError SesAlreadyFinished, sv1)"
proof -
  have sid: "sid \<noteq> []" using assms(1) by (auto simp: validateSession_def split: if_splits)
  have n: "bFrames request \<noteq> []" "length (bFrames request) \<le> 600" using assms(4) unfolding batch_validate_iff by auto
  have f: "svFrames sv1 = svFrames sv" using finish_stores(1) [of c cx now sid fb sv] unfolding assms(2) by simp
  obtain t where t: "map_of (svSessions sv1) sid = Some t" "sEndedAt t \<noteq> None" using finish_200 [OF assms(2)] by blast
  have "ingestFramesHandler c env sid (BodyJSON request) sv1 = (writeSessionError SesAlreadyFinished, sv1)"
    using t sid by (auto simp: ingestFramesHandler_def validateSession_def session_FindByID_def session_Status_def split: option.splits)
  moreover from good_batch_stored [OF assms(5,6) sid assms(3) n assms(7), of sv1 session, unfolded f, OF assms(8-11)] obtain resp sv2 where
    "ingest_validated c env sid session (BodyJSON request) sv1 = (Reply 202 (IngestBody resp) (Some responseAPIVersion), sv2)"
    "ibAcceptedFrames resp = int (length (bFrames request))"
    "map_list (sFrames (svFrames sv2)) sid = lastn (nat (sCapacity (svFrames sv))) (map_list (sFrames (svFrames sv)) sid @ bFrames request)"
    using assms(4) by blast
  moreover from this obtain t' where "map_of (svSessions sv2) sid = Some t'" "sEndedAt t' = sEndedAt t"
    using ingest_validated_ended [OF t(1), of c env session "BodyJSON request"] by auto
  ultimately show ?thesis using t n(1) f by auto
qed

section \<open>Witnesses\<close>

text \<open>The hypotheses hold for the first batch of a new session.\<close>

lemma demo_frames_in_range: "list_all in_range (bFrames demo_request)"
  by (simp add: demo_request_def in_range_def frame_in64_def sample_frame_def lap_distance_def f64_ok_def in64_def)

lemma demo_store_facts: "store_bounded (svFrames demo_server)" "sCapacity (svFrames demo_server) = 100"
  "map_list (sFrames (svFrames demo_server)) ''a'' = []"
  by (simp_all add: demo_server_def) (simp_all add: NewFrameStore_def map_list_def)

lemma demo_env_facts: "calm demo_env" "named demo_catalog" "validateSession (svSessions demo_server) ''a'' True = Inr demo_session"
proof -
  show "calm demo_env" by (simp add: calm_def demo_env_def)
  show "named demo_catalog" by code_simp
  show "validateSession (svSessions demo_server) ''a'' True = Inr demo_session"
    by (simp add: validateSession_def demo_server_def session_FindByID_def session_Status_def demo_session_def)
qed

lemma demo_request_shape: "bSessionID demo_request = []" "bFrames demo_request \<noteq> []" "length (bFrames demo_request) \<le> 600"
  by (simp_all add: demo_request_def)

theorem ingest_always_returns_witness:
  "case fst (ingestFramesHandler demo_catalog demo_env ''a'' (BodyJSON demo_request) demo_server) of
     Reply st p v \<Rightarrow> st = 202 | Panicked \<Rightarrow> True | Stuck \<Rightarrow> False"
  using ingest_always_returns [OF demo_env_facts(2) demo_store_facts(1), of "''a''" demo_env "BodyJSON demo_request"]
  by (simp add: demo_store_facts demo_env_facts demo_frames_in_range demo_request_shape split: reply.splits)

theorem good_batches_accepted_witness:
  "\<exists>resp sv'. ingestFramesHandler demo_catalog demo_env ''a'' (BodyJSON demo_request) demo_server = (Reply 202 (IngestBody resp) (Some responseAPIVersion), sv') \<and>
    ibAcceptedFrames resp = int (length (map_list (sFrames (svFrames sv')) ''a''))"
proof -
  have r: "bSessionID demo_request = [] \<or> bSessionID demo_request = ''a''" "bFrames demo_request \<noteq> []" "length (bFrames demo_request) \<le> 600"
    by (simp_all add: demo_request_shape)
  from good_batches_accepted [OF demo_env_facts r demo_frames_in_range demo_store_facts(1)] obtain resp accepted rejections sv' where
    h: "ingestFramesHandler demo_catalog demo_env ''a'' (BodyJSON demo_request) demo_server = (Reply 202 (IngestBody resp) (Some responseAPIVersion), sv')"
      "batch_normalize (demo_request\<lparr>bSessionID := ''a''\<rparr>) = Inr \<lparr>nFrames = accepted, nRejections = rejections\<rparr>"
      "ibAcceptedFrames resp = int (length accepted)" "map_list (sFrames (svFrames sv')) ''a'' = lastn 100 accepted"
    unfolding demo_store_facts by auto
  have "length accepted \<le> length (bFrames demo_request)" using h(2) by (intro normalized_batch(3) [of _ accepted rejections]) (simp add: batch_normalize_Inr)
  then have "lastn 100 accepted = accepted" by (intro lastn_all) (simp add: demo_request_def)
  then show ?thesis using h by auto
qed

definition demo_valid_request :: IngestBatchRequest where
  "demo_valid_request = \<lparr>bSessionID = [], bFrames = [sample_frame 5 0 0, sample_frame 6 0 10]\<rparr>"

lemma demo_valid: "batch_validate (demo_valid_request\<lparr>bSessionID := ''a''\<rparr>) = None" "list_all in_range (bFrames demo_valid_request)"
proof -
  show "batch_validate (demo_valid_request\<lparr>bSessionID := ''a''\<rparr>) = None" by code_simp
  show "list_all in_range (bFrames demo_valid_request)"
    by (simp add: demo_valid_request_def in_range_def frame_in64_def sample_frame_def lap_distance_def f64_ok_def in64_def)
qed

lemma demo_finish: "rpStatus (fst (finishSessionHandler demo_catalog (\<lambda>k. None) 5000 ''a'' BodyAbsent demo_server)) = 200 \<and>
    fst (finishSessionHandler demo_catalog (\<lambda>k. None) 5000 ''a'' BodyAbsent demo_server) \<notin> {Panicked, Stuck}"
  by code_simp

theorem late_ingest_extends_finished_session_witness:
  "let (finished, sv1) = finishSessionHandler demo_catalog (\<lambda>k. None) 5000 ''a'' BodyAbsent demo_server;
       (late, sv2) = ingest_validated demo_catalog demo_env ''a'' demo_session (BodyJSON demo_valid_request) sv1
   in rpStatus finished = 200 \<and> rpStatus late = 202 \<and> map_list (sFrames (svFrames sv2)) ''a'' = bFrames demo_valid_request"
proof -
  obtain dto v sv1 where f: "finishSessionHandler demo_catalog (\<lambda>k. None) 5000 ''a'' BodyAbsent demo_server = (Reply 200 dto v, sv1)"
    using demo_finish by (cases "finishSessionHandler demo_catalog (\<lambda>k. None) 5000 ''a'' BodyAbsent demo_server"; cases "fst (finishSessionHandler demo_catalog (\<lambda>k. None) 5000 ''a'' BodyAbsent demo_server)") auto
  have r: "bSessionID demo_valid_request = [] \<or> bSessionID demo_valid_request = ''a''" by (simp add: demo_valid_request_def)
  have "lastn 100 (bFrames demo_valid_request) = bFrames demo_valid_request" by (intro lastn_all) (simp add: demo_valid_request_def)
  then show ?thesis
    using late_ingest_extends_finished_session [OF demo_env_facts(3) f r demo_valid(1) demo_env_facts(1,2) demo_valid(2) demo_store_facts(1)]
    unfolding demo_store_facts f by auto
qed

end
