(* ===== verification/AiInput.thy ===== *)
theory AiInput
  imports Events Clock
begin

text \<open>
  \<^verbatim>\<open>internal/ai/gateway.go\<close> and \<^verbatim>\<open>input.go\<close>: the data that goes to and from the AI gateway, its
  validation, and the errors of the package.  A wrapped error is a constructor around the error it
  wraps, so that \<^verbatim>\<open>errors.Is\<close> and \<^verbatim>\<open>errors.As\<close> are functions on the chain; the texts that only decorate
  a sentinel (\<^verbatim>\<open>%v\<close>) are dropped.
\<close>

section \<open>Data\<close>

record SessionContext =
  scSessionID :: string
  scTrack :: "CatalogRef option"
  scLayout :: "CatalogRef option"

record Signal =
  sgKind :: string
  sgSeverity :: string
  sgSummary :: string
  sgDetails :: "string list"

record SafetyMetadata =
  smRedactionPolicy :: string
  smAllowedInputKinds :: "string list"

record ConsumerInput =
  ciContractVersion :: string
  ciSession :: SessionContext
  ciEvents :: "EngineerEvent list"
  ciSignals :: "Signal list"
  ciSafety :: SafetyMetadata
  ciConstraints :: "string list"

record GatewayRequest =
  gqInput :: ConsumerInput
  gqMode :: string

record Message =
  msRole :: string
  msContent :: string

record ProviderRequest =
  pqModel :: string
  pqMessages :: "Message list"
  pqTemperature :: f64
  pqMaxTokens :: int

record UsageInfo =
  usPromptTokens :: int
  usCompletionTokens :: int
  usTotalTokens :: int

record ProviderResponse =
  prContent :: string
  prModel :: string
  prFinishReason :: string
  prUsage :: UsageInfo

definition no_usage :: UsageInfo where
  "no_usage = \<lparr>usPromptTokens = 0, usCompletionTokens = 0, usTotalTokens = 0\<rparr>"

definition no_response :: ProviderResponse where
  "no_response = \<lparr>prContent = [], prModel = [], prFinishReason = [], prUsage = no_usage\<rparr>"

section \<open>Errors\<close>

datatype sentinel =
    ErrMissingContractVersion | ErrUnsupportedContract | ErrMissingSessionID | ErrMissingEvents | ErrInvalidEvent
  | ErrMissingSignalKind | ErrMissingSignalSummary | ErrMissingRedactionPolicy | ErrMissingAllowedInputKind | ErrUnsupportedInputKind
  | ErrEmptyGatewayRequest | ErrNoEventsInGateway | ErrUnsupportedGatewayMode
  | ErrProviderNotAvailable | ErrProviderRejected | ErrProviderTimeout | ErrInvalidProviderResponse
  | ErrBudgetExceeded | ErrRateLimited | ErrRetryExhausted | ErrCanceled | ErrDeadlineExceeded

datatype ai_err =
    Sentinel sentinel
  | BudgetChars int int
  | BudgetEvents int int
  | RateLimitedFor int
  | ProviderRateLimit "int option" string string ai_err
  | RetryExhausted int ai_err
  | OtherError string

fun ctx_ai_err :: "ctx_err \<Rightarrow> ai_err" where
  "ctx_ai_err Canceled = Sentinel ErrCanceled"
| "ctx_ai_err DeadlineExceeded = Sentinel ErrDeadlineExceeded"

text \<open>\<^verbatim>\<open>errors.Is\<close> for the sentinels, \<^verbatim>\<open>errors.As\<close> for the rate limit of the provider.\<close>

fun err_is :: "ai_err \<Rightarrow> sentinel \<Rightarrow> bool" where
  "err_is (Sentinel e) s = (e = s)"
| "err_is (BudgetChars a b) s = (s = ErrBudgetExceeded)"
| "err_is (BudgetEvents a b) s = (s = ErrBudgetExceeded)"
| "err_is (RateLimitedFor d) s = (s = ErrRateLimited)"
| "err_is (ProviderRateLimit r n m e) s = err_is e s"
| "err_is (RetryExhausted n e) s = (s = ErrRetryExhausted \<or> err_is e s)"
| "err_is (OtherError t) s = False"

fun as_rate_limit :: "ai_err \<Rightarrow> (int option \<times> string \<times> string) option" where
  "as_rate_limit (ProviderRateLimit r n m e) = Some (r, n, m)"
| "as_rate_limit (RetryExhausted n e) = as_rate_limit e"
| "as_rate_limit _ = None"

section \<open>Validation\<close>

definition AiContractVersionV1 :: string where "AiContractVersionV1 = ''telemetry-one.ai-consumer-input.v1''"

definition allowedInputKind :: "string \<Rightarrow> bool" where
  "allowedInputKind kind = (kind \<in> set [''engineer_events'', ''derived_metrics'', ''derived_signals'', ''catalog_refs'',
     ''session_context'', ''unknown_states_explicit''])"

definition session_context_Validate :: "SessionContext \<Rightarrow> sentinel option" where
  "session_context_Validate s = (if scSessionID s = [] then Some ErrMissingSessionID else None)"

definition safety_Validate :: "SafetyMetadata \<Rightarrow> sentinel option" where
  "safety_Validate s =
    (if smRedactionPolicy s = [] then Some ErrMissingRedactionPolicy
     else if length (smAllowedInputKinds s) = 0 then Some ErrMissingAllowedInputKind
     else if list_ex (\<lambda>kind. \<not> allowedInputKind kind) (smAllowedInputKinds s) then Some ErrUnsupportedInputKind
     else None)"

text \<open>The error of a signal is only printed by its caller.\<close>

definition signal_invalid :: "Signal \<Rightarrow> bool" where
  "signal_invalid s = (sgKind s = [] \<or> sgSummary s = [] \<or>
     sgSeverity s \<noteq> [] \<and> sgSeverity s \<noteq> ''low'' \<and> sgSeverity s \<noteq> ''medium'' \<and> sgSeverity s \<noteq> ''high'')"

definition input_Validate :: "ConsumerInput \<Rightarrow> sentinel option" where
  "input_Validate i =
    (if ciContractVersion i = [] then Some ErrMissingContractVersion
     else if ciContractVersion i \<noteq> AiContractVersionV1 then Some ErrUnsupportedContract
     else case session_context_Validate (ciSession i) of Some e \<Rightarrow> Some e
     | None \<Rightarrow>
       if length (ciEvents i) = 0 \<and> length (ciSignals i) = 0 then Some ErrMissingEvents
       else if list_ex (\<lambda>e. event_Validate e \<noteq> None) (ciEvents i) then Some ErrInvalidEvent
       else if list_ex signal_invalid (ciSignals i) then Some ErrInvalidEvent
       else safety_Validate (ciSafety i))"

definition gateway_Validate :: "GatewayRequest \<Rightarrow> sentinel option" where
  "gateway_Validate r =
    (if ciContractVersion (gqInput r) = [] then Some ErrEmptyGatewayRequest
     else if length (ciEvents (gqInput r)) = 0 \<and> length (ciSignals (gqInput r)) = 0 then Some ErrNoEventsInGateway
     else case input_Validate (gqInput r) of Some e \<Rightarrow> Some e
     | None \<Rightarrow> if gqMode r = ''engineer'' \<or> gqMode r = ''coach'' then None else Some ErrUnsupportedGatewayMode)"

section \<open>The answer of the gateway\<close>

record ProviderResultInfo =
  piModel :: string
  piFinishReason :: string
  piUsage :: UsageInfo
  piRetryAfterSeconds :: "int option"
  piProviderName :: string

text \<open>The explanations and recommendations are never filled; the error is kept instead of its text.\<close>

record GatewayResponse =
  grSummary :: string
  grReferencedEvents :: "string list"
  grSignals :: "Signal list"
  grProviderInfo :: ProviderResultInfo
  grState :: string
  grError :: "ai_err option"

definition extractEventIDs :: "EngineerEvent list \<Rightarrow> string list" where
  "extractEventIDs es = map eEventID es"

end
