(* ===== verification/AiPrompts.thy ===== *)
theory AiPrompts
  imports AiInput
begin

text \<open>
  \<^verbatim>\<open>internal/ai/context.go\<close> and \<^verbatim>\<open>prompts.go\<close>: the text given to the model, and the summary of the
  fallback in \<^verbatim>\<open>fallback.go\<close>.  Texts are byte strings, so the dash of the persona lines is its three
  bytes and lengths are those the budget counts.
\<close>

section \<open>Printing\<close>

text \<open>\<^verbatim>\<open>%.2f\<close>: the exact value rounded half to even at the second decimal.\<close>

fun fmt_f2 :: "f64 \<Rightarrow> string" where
  "fmt_f2 FNaN = ''NaN''"
| "fmt_f2 (FInf s) = (if s then ''-Inf'' else ''+Inf'')"
| "fmt_f2 FNegZero = ''-0.00''"
| "fmt_f2 (Fin q) = (let n = rhe (\<bar>q\<bar> * 100) in (if q < 0 then ''-'' else []) @ dec (n div 100) @ ''.'' @ pad2 (n mod 100))"

definition lf :: string where "lf = [CHR 0x0A]"

definition em_dash :: string where "em_dash = [CHR 0xE2, CHR 0x80, CHR 0x94]"

section \<open>The context\<close>

record SessionSummary =
  ssSessionID :: string
  ssTrack :: string
  ssLayout :: string

record EventSummary =
  vsEventID :: string
  vsType :: string
  vsSeverity :: string
  vsConfidence :: f64
  vsLapNumber :: int
  vsCorner :: string
  vsMetricSummary :: string

record ContextSummary =
  csSession :: SessionSummary
  csEvents :: "EventSummary list"
  csSignals :: "Signal list"
  csRedactionPolicy :: string
  csAllowedKinds :: "string list"

definition ref_name :: "CatalogRef option \<Rightarrow> string" where
  "ref_name r = (case r of None \<Rightarrow> [] | Some r \<Rightarrow> (case crName r of None \<Rightarrow> [] | Some n \<Rightarrow> n))"

definition sessionSummary :: "SessionContext \<Rightarrow> SessionSummary" where
  "sessionSummary s = \<lparr>ssSessionID = scSessionID s, ssTrack = ref_name (scTrack s), ssLayout = ref_name (scLayout s)\<rparr>"

definition metricSummary :: "MetricEvidence list \<Rightarrow> string" where
  "metricSummary metrics = string_join '', '' (map (\<lambda>m.
     mvName m @ ''='' @ fmt_f2 (mvValue m) @ (if mvUnit m \<noteq> [] then '' '' @ mvUnit m else [])
       @ (if mvRole m \<noteq> [] then '' ('' @ mvRole m @ '')'' else [])) metrics)"

definition eventSummaries :: "EngineerEvent list \<Rightarrow> EventSummary list" where
  "eventSummaries es = map (\<lambda>e. \<lparr>vsEventID = eEventID e, vsType = eType e, vsSeverity = eSeverity e, vsConfidence = eConfidence e,
     vsLapNumber = eLapNumber e, vsCorner = ref_name (eCorner e), vsMetricSummary = metricSummary (eMetrics e)\<rparr>) es"

definition context_Build :: "ConsumerInput \<Rightarrow> ContextSummary" where
  "context_Build i = \<lparr>csSession = sessionSummary (ciSession i), csEvents = eventSummaries (ciEvents i), csSignals = ciSignals i,
     csRedactionPolicy = smRedactionPolicy (ciSafety i), csAllowedKinds = smAllowedInputKinds (ciSafety i)\<rparr>"

definition or_unknown :: "string \<Rightarrow> string \<Rightarrow> string" where
  "or_unknown dflt s = (if s \<noteq> [] then s else dflt)"

definition session_lines :: "ContextSummary \<Rightarrow> string list" where
  "session_lines c =
    [''Session: '' @ ssSessionID (csSession c), ''Track: '' @ or_unknown ''unknown'' (ssTrack (csSession c)),
     ''Layout: '' @ or_unknown ''unknown'' (ssLayout (csSession c)), [],
     ''Engineer Events ('' @ itoa (int (length (csEvents c))) @ '' total):'']"

definition metric_lines :: "EventSummary \<Rightarrow> string list" where
  "metric_lines ev = (if vsMetricSummary ev \<noteq> [] then [''    metrics: '' @ vsMetricSummary ev] else [])"

definition signal_lines :: "string \<Rightarrow> Signal \<Rightarrow> string list" where
  "signal_lines bullet s = [bullet @ ''['' @ sgKind s @ ''] '' @ sgSummary s]
     @ (if sgSeverity s \<noteq> [] then [''    severity: '' @ sgSeverity s] else []) @ map (\<lambda>d. ''    detail: '' @ d) (sgDetails s)"

definition event_lines :: "EventSummary \<Rightarrow> string list" where
  "event_lines ev =
    [''  - ['' @ vsEventID ev @ ''] '' @ vsType ev @ '' (severity: '' @ vsSeverity ev @ '', confidence: '' @ fmt_f2 (vsConfidence ev)
      @ '', lap: '' @ itoa (vsLapNumber ev) @ '', corner: '' @ or_unknown ''unknown corner'' (vsCorner ev) @ '')''] @ metric_lines ev"

definition BuildPromptSummary :: "ConsumerInput \<Rightarrow> string" where
  "BuildPromptSummary i =
    (let c = context_Build i in
     string_join lf (session_lines c @ concat (map event_lines (csEvents c))
       @ (if length (csSignals c) > 0
          then [[], ''Signals ('' @ itoa (int (length (csSignals c))) @ '' total):''] @ concat (map (signal_lines ''  - '') (csSignals c)) else [])
       @ [[], ''Safety: '' @ csRedactionPolicy c]))"

section \<open>The prompts\<close>

definition formatAllowedInputs :: "string list \<Rightarrow> string" where
  "formatAllowedInputs kinds = string_join '', '' kinds"

definition safety_lines :: "ConsumerInput \<Rightarrow> string list" where
  "safety_lines i = [''Allowed input kinds: '' @ formatAllowedInputs (smAllowedInputKinds (ciSafety i)),
     ''Redaction policy: '' @ smRedactionPolicy (ciSafety i), [], ''Constraints:'',
     ''1. Only reference track, layout, and corner names provided in the context below.'',
     ''2. If a track, layout, or corner is listed as unknown, do not invent a name.'']"

definition caller_lines :: "ConsumerInput \<Rightarrow> string list" where
  "caller_lines i = (if length (ciConstraints i) > 0
     then [[], ''Additional constraints from caller:''] @ map (\<lambda>c. ''- '' @ c) (ciConstraints i) else [])"

definition engineerSystem :: "ConsumerInput \<Rightarrow> string" where
  "engineerSystem i = string_join lf
    ([''You are a Telemetry One Engineer '' @ em_dash @ '' a technical driving data analyst.'', [],
      ''You receive structured driving events detected by a deterministic rule engine.'',
      ''Your task is to analyze each event, explain its driving implications, and rank events by relevance.'', []]
     @ safety_lines i
     @ [''3. Base your analysis solely on the structured events and their derived metric evidence.'',
        ''4. Do not assume or infer raw telemetry data that is not provided.'',
        ''5. Do not fabricate events, metrics, or driving details.'']
     @ caller_lines i
     @ [[], ''For each event, provide:'',
        ''- Explanation: a concise technical explanation of the driving issue'',
        ''- Relevance: a score from 0.0 (irrelevant) to 1.0 (critical) indicating the event'' @ [CHR 0x27] @ ''s impact on lap time and consistency'',
        [], ''Then provide an overall session summary and 2-3 actionable recommendations based on the most relevant events.''])"

definition engineerUserPrompt :: "ConsumerInput \<Rightarrow> string" where
  "engineerUserPrompt i = string_join lf
    [''Analyze the following driving session data:'', [], BuildPromptSummary i, [],
     ''Provide your analysis as a structured evaluation with explanations per event and actionable recommendations.'']"

definition coachSystem :: "ConsumerInput \<Rightarrow> string" where
  "coachSystem i = string_join lf
    ([''You are a Telemetry One Coach '' @ em_dash @ '' an expert driving instructor.'',
      ''Your goal is to help the driver improve their performance with constructive, actionable coaching advice.'', [],
      ''You receive structured driving events detected by a deterministic rule engine.'',
      ''Use these events to identify patterns and provide feedback that is specific, practical, and encouraging.'', []]
     @ safety_lines i
     @ [''3. Base your coaching exclusively on the structured events and their derived metric evidence.'',
        ''4. Do not assume or infer raw telemetry data that is not provided.'',
        ''5. Focus on actionable advice '' @ em_dash @ '' what the driver can do differently, not just what went wrong.'',
        ''6. Prioritize the most frequent or highest-severity events in your coaching recommendations.'']
     @ caller_lines i
     @ [[], ''For each event, provide:'',
        ''- Explanation: a concise technical explanation of the driving issue, framed as coaching feedback'',
        ''- Relevance: a score from 0.0 (minor) to 1.0 (critical) indicating how much this event impacts the driver'' @ [CHR 0x27] @ ''s performance'',
        [], ''Then provide an encouraging overall summary and 2-3 specific, actionable tips the driver can work on next session.''])"

definition coachUserPrompt :: "ConsumerInput \<Rightarrow> string" where
  "coachUserPrompt i = string_join lf
    [''Review the following driving session and provide coaching feedback:'', [], BuildPromptSummary i, [],
     ''Provide your coaching advice as a structured evaluation with explanations per event and specific recommendations for improvement.'']"

record PromptSet =
  psSystemPrompt :: string
  psUserPrompt :: string
  psMode :: string

definition buildEngineer :: "GatewayRequest \<Rightarrow> PromptSet" where
  "buildEngineer r = \<lparr>psSystemPrompt = engineerSystem (gqInput r), psUserPrompt = engineerUserPrompt (gqInput r), psMode = ''engineer''\<rparr>"

definition buildCoach :: "GatewayRequest \<Rightarrow> PromptSet" where
  "buildCoach r = \<lparr>psSystemPrompt = coachSystem (gqInput r), psUserPrompt = coachUserPrompt (gqInput r), psMode = ''coach''\<rparr>"

definition prompt_Build :: "GatewayRequest \<Rightarrow> PromptSet" where
  "prompt_Build r =
    (if gqMode r = ''engineer'' then buildEngineer r
     else if gqMode r = ''coach'' then buildCoach r
     else \<lparr>psSystemPrompt = [], psUserPrompt = [], psMode = []\<rparr>)"

section \<open>The summary of the fallback\<close>

definition severityToWeight :: "string \<Rightarrow> int" where
  "severityToWeight s = (if s = ''low'' then 1 else if s = ''medium'' then 2 else if s = ''high'' then 3 else 0)"

definition severity_greater :: "EventSummary \<Rightarrow> EventSummary \<Rightarrow> bool" where
  "severity_greater a b = (severityToWeight (vsSeverity a) > severityToWeight (vsSeverity b))"

definition sortBySeverityDesc :: "EventSummary list \<Rightarrow> EventSummary list" where
  "sortBySeverityDesc es = sort_slice severity_greater es"

definition fallback_event_lines :: "EventSummary \<Rightarrow> string list" where
  "fallback_event_lines ev =
    [''  ['' @ vsEventID ev @ ''] '' @ vsType ev @ '' - severity: '' @ vsSeverity ev @ '', lap: '' @ itoa (vsLapNumber ev)
      @ '', corner: '' @ or_unknown ''unknown corner'' (vsCorner ev)] @ metric_lines ev"

definition fallback_lines :: "ContextSummary \<Rightarrow> string \<Rightarrow> string list" where
  "fallback_lines c status =
    (let displayCount = min 3 (length (csEvents c));
         remaining = length (csEvents c) - displayCount in
     [''AI analysis is currently unavailable ('' @ status @ '').'', [], ''The following summary is based on deterministic event data:'', []]
     @ session_lines c
     @ concat (map fallback_event_lines (take displayCount (sortBySeverityDesc (csEvents c))))
     @ (if remaining > 0 then [''  ... and '' @ itoa (int remaining) @ '' more event(s)''] else [])
     @ (if length (csSignals c) > 0
        then [[], ''Derived Signals ('' @ itoa (int (length (csSignals c))) @ '' total):''] @ concat (map (signal_lines ''  '') (csSignals c)) else [])
     @ [[], ''No AI explanations or recommendations are available for this request.'',
        if length (csSignals c) > 0 then ''Review the derived signals above for manual analysis.''
        else ''Review the highest severity events above for manual analysis.''])"

definition buildFallbackSummary :: "ConsumerInput \<Rightarrow> string \<Rightarrow> string" where
  "buildFallbackSummary i status = string_join lf (fallback_lines (context_Build i) status)"

interpretation severity_order: slice_less severity_greater UNIV
  by unfold_locales (auto simp: severity_greater_def)

section \<open>Lemmas\<close>

lemma fmt_f2_examples:
  "fmt_f2 (Fin (1 / 8)) = ''0.12''" "fmt_f2 (Fin (- 5 / 2)) = ''-2.50''" "fmt_f2 (Fin (3 / 8)) = ''0.38''" "fmt_f2 (Fin 85) = ''85.00''"
  by code_simp+

lemma set_string_join: "x \<in> set xs \<Longrightarrow> length x \<le> length (string_join sep xs)"
  by (induction sep xs rule: string_join.induct) auto

lemma buildFallbackSummary_not_empty: "buildFallbackSummary i status \<noteq> []"
proof
  assume e: "buildFallbackSummary i status = []"
  have "''AI analysis is currently unavailable ('' @ status @ '').'' \<in> set (fallback_lines (context_Build i) status)"
    by (simp add: fallback_lines_def Let_def)
  from set_string_join [OF this, of lf] e show False by (simp add: buildFallbackSummary_def)
qed

end
