(* ===== verification/AdviceSignals.thy ===== *)
theory AdviceSignals
  imports AiPrompts LapRepo
begin

text \<open>
  \<^verbatim>\<open>internal/api/race_engineer_signals.go\<close>: the signals the advice derives from the completed laps and
  the stored events of a session: a slower pace, gaps in the telemetry and stints off the track.
\<close>

section \<open>Printing a duration\<close>

text \<open>\<^verbatim>\<open>%.1f\<close>: the exact value rounded half to even at the first decimal.\<close>

fun fmt_f1 :: "f64 \<Rightarrow> string" where
  "fmt_f1 FNaN = ''NaN''"
| "fmt_f1 (FInf s) = (if s then ''-Inf'' else ''+Inf'')"
| "fmt_f1 FNegZero = ''-0.0''"
| "fmt_f1 (Fin q) = (let n = rhe (\<bar>q\<bar> * 10) in (if q < 0 then ''-'' else []) @ dec (n div 10) @ ''.'' @ dec (n mod 10))"

definition formatDurationMs :: "int \<Rightarrow> string" where
  "formatDurationMs ms = (if ms < 1000 then itoa ms @ ''ms'' else fmt_f1 (fdiv (f_of_int ms) (Fin 1000)) @ ''s'')"

definition maxInt64 :: "int \<Rightarrow> int \<Rightarrow> int" where
  "maxInt64 a b = (if a > b then a else b)"

section \<open>The window\<close>

definition filterRaceEngineerAdviceCompletedLapsBySince :: "CompletedLap list \<Rightarrow> int option \<Rightarrow> CompletedLap list" where
  "filterRaceEngineerAdviceCompletedLapsBySince completed since =
    (case since of None \<Rightarrow> completed | Some t \<Rightarrow> filter (\<lambda>l. \<not> lCompletedAtUnixMs l < t) completed)"

definition filterRaceEngineerAdviceEventsBySince :: "EngineerEvent list \<Rightarrow> int option \<Rightarrow> EngineerEvent list" where
  "filterRaceEngineerAdviceEventsBySince stored since =
    (case since of None \<Rightarrow> stored | Some t \<Rightarrow> filter (\<lambda>e. \<not> eTimestampUnixMs e < t) stored)"

section \<open>Pace\<close>

definition recentAverageLapMs :: "CompletedLap list \<Rightarrow> int \<Rightarrow> int option" where
  "recentAverageLapMs completed limit =
    (if length completed = 0 \<or> limit \<le> 0 then None
     else let limit = (if limit > int (length completed) then int (length completed) else limit);
              counted = filter (\<lambda>l. \<not> lLapTimeMs l \<le> 0) (drop (length completed - nat limit) completed)
          in if length counted = 0 then None
             else Some (div64 (fold (\<lambda>l total. add64 total (lLapTimeMs l)) counted 0) (int (length counted))))"

definition pace_less :: "CompletedLap \<Rightarrow> CompletedLap \<Rightarrow> bool" where
  "pace_less a b = (if lLapNumber a = lLapNumber b then lCompletedAtUnixMs a < lCompletedAtUnixMs b else lLapNumber a < lLapNumber b)"

fun best_loop :: "CompletedLap \<Rightarrow> CompletedLap list \<Rightarrow> CompletedLap" where
  "best_loop best [] = best"
| "best_loop best (lap # laps) = best_loop (if lLapTimeMs lap > 0 \<and> lLapTimeMs lap < lLapTimeMs best then lap else best) laps"

definition pace_threshold :: "int \<Rightarrow> int" where
  "pace_threshold best = maxInt64 1500 (f_to_int64 (fceil (fmul (f_of_int best) (rnd (3 / 100)))))"

definition pace_signal :: "int \<Rightarrow> int \<Rightarrow> string \<Rightarrow> string list \<Rightarrow> Signal" where
  "pace_signal delta threshold reference details =
    \<lparr>sgKind = ''lap_pace_regression'', sgSeverity = (if delta \<ge> mul64 threshold 2 then ''high'' else ''medium''),
     sgSummary = ''Latest completed lap is '' @ formatDurationMs delta @ '' slower than the '' @ reference @ ''.'', sgDetails = details\<rparr>"

definition buildLapPaceRegressionSignal :: "CompletedLap list \<Rightarrow> Signal option" where
  "buildLapPaceRegressionSignal completed =
    (if length completed < 2 then None
     else let sorted = sort_slice pace_less completed;
              latest = lLapTimeMs (last sorted);
              best = lLapTimeMs (best_loop (hd sorted) (tl sorted))
          in if latest \<le> 0 \<or> best \<le> 0 then None
             else let threshold = pace_threshold best;
                      bestDelta = sub64 latest best;
                      details = [''latestLapMs='' @ itoa latest, ''bestLapMs='' @ itoa best, ''bestDeltaMs='' @ itoa bestDelta]
                  in (case recentAverageLapMs sorted 3 of
                        Some recentAverage \<Rightarrow>
                          let recentDelta = sub64 latest recentAverage;
                              byRecent = (recentDelta \<ge> threshold \<and> recentDelta > bestDelta)
                          in if bestDelta < threshold \<and> recentDelta < threshold then None
                             else Some (pace_signal (if byRecent then recentDelta else bestDelta) threshold
                               (if byRecent then ''recent average'' else ''session best'')
                               (details @ [''recentAverageLapMs='' @ itoa recentAverage, ''recentDeltaMs='' @ itoa recentDelta]))
                      | None \<Rightarrow> if bestDelta < threshold then None
                                else Some (pace_signal bestDelta threshold ''session best'' details)))"

section \<open>Gaps\<close>

record gap_totals =
  gtTotal :: int
  gtAffected :: int
  gtWorst :: int
  gtLatest :: int

fun gap_loop :: "gap_totals \<Rightarrow> CompletedLap list \<Rightarrow> gap_totals" where
  "gap_loop g [] = g"
| "gap_loop g (lap # laps) =
    (if lTelemetryGapCount lap \<le> 0 then gap_loop g laps
     else gap_loop \<lparr>gtTotal = add64 (gtTotal g) (lTelemetryGapCount lap), gtAffected = gtAffected g + 1,
         gtWorst = (if lTelemetryGapCount lap > gtWorst g then lTelemetryGapCount lap else gtWorst g),
         gtLatest = (if lLapNumber lap > gtLatest g then lLapNumber lap else gtLatest g)\<rparr> laps)"

definition buildTelemetryGapSignal :: "CompletedLap list \<Rightarrow> Signal option" where
  "buildTelemetryGapSignal completed =
    (if length completed = 0 then None
     else let g = gap_loop \<lparr>gtTotal = 0, gtAffected = 0, gtWorst = 0, gtLatest = 0\<rparr> completed
          in if gtTotal g = 0 then None
             else if gtTotal g < 2 \<and> gtWorst g < 2 then None
             else Some \<lparr>sgKind = ''telemetry_gap_warning'',
               sgSeverity = (if gtTotal g \<ge> 4 \<or> gtWorst g \<ge> 3 then ''high''
                 else if gtTotal g \<ge> 2 \<or> gtAffected g \<ge> 2 then ''medium'' else ''low''),
               sgSummary = ''Telemetry gaps were recorded on '' @ itoa (gtAffected g) @ '' completed lap(s).'',
               sgDetails = [''affectedLaps='' @ itoa (gtAffected g), ''totalGapCount='' @ itoa (gtTotal g),
                 ''worstLapGapCount='' @ itoa (gtWorst g)]
                 @ (if gtLatest g > 0 then [''latestAffectedLap='' @ itoa (gtLatest g)] else [])\<rparr>)"

section \<open>Off track\<close>

record off_totals =
  otCount :: int
  otLatest :: int
  otSeverity :: string

fun off_loop :: "off_totals \<Rightarrow> EngineerEvent list \<Rightarrow> off_totals" where
  "off_loop t [] = t"
| "off_loop t (e # es) =
    (if eType e \<noteq> ''off_track_stint'' then off_loop t es
     else off_loop \<lparr>otCount = otCount t + 1,
         otLatest = (if eTimestampUnixMs e > otLatest t then eTimestampUnixMs e else otLatest t),
         otSeverity = (if eSeverity e = ''high'' then ''high''
           else if eSeverity e = ''medium'' \<and> otSeverity t \<noteq> ''high'' then ''medium'' else otSeverity t)\<rparr> es)"

definition buildOffTrackSignal :: "EngineerEvent list \<Rightarrow> Signal option" where
  "buildOffTrackSignal stored =
    (let t = off_loop \<lparr>otCount = 0, otLatest = 0, otSeverity = ''low''\<rparr> stored
     in if otCount t = 0 then None
        else Some \<lparr>sgKind = ''off_track_stint_warning'',
          sgSeverity = (if otCount t \<ge> 2 \<and> otSeverity t \<noteq> ''high'' then ''medium'' else otSeverity t),
          sgSummary = ''Off-track stints are still appearing ('' @ itoa (otCount t) @ '' event(s)).'',
          sgDetails = [''eventCount='' @ itoa (otCount t)]
            @ (if otLatest t > 0 then [''latestEventUnixMs='' @ itoa (otLatest t)] else [])\<rparr>)"

definition buildRaceEngineerAdviceSignals :: "EngineerEvent list \<Rightarrow> CompletedLap list \<Rightarrow> int option \<Rightarrow> Signal list" where
  "buildRaceEngineerAdviceSignals stored completed since =
    (let es = filterRaceEngineerAdviceEventsBySince stored since;
         ls = filterRaceEngineerAdviceCompletedLapsBySince completed since
     in concat (map (case_option [] (\<lambda>s. [s])) [buildLapPaceRegressionSignal ls, buildTelemetryGapSignal ls, buildOffTrackSignal es]))"

section \<open>Lemmas\<close>

lemma fmt_f1_examples: "fmt_f1 (Fin (9 / 4)) = ''2.2''" "fmt_f1 (Fin 85) = ''85.0''" "formatDurationMs 2350 = ''2.4s''" "formatDurationMs 999 = ''999ms''"
  by code_simp+

lemma signals_valid:
  "list_all (\<lambda>s. \<not> signal_invalid s) (buildRaceEngineerAdviceSignals stored completed since)"
proof -
  have pace: "\<not> signal_invalid s" if "buildLapPaceRegressionSignal ls = Some s" for ls s
    using that by (auto simp: buildLapPaceRegressionSignal_def Let_def pace_signal_def signal_invalid_def split: if_splits option.splits)
  have gap: "\<not> signal_invalid s" if "buildTelemetryGapSignal ls = Some s" for ls s
    using that by (auto simp: buildTelemetryGapSignal_def Let_def signal_invalid_def split: if_splits)
  have sev: "otSeverity (off_loop ot es) \<in> {''low'', ''medium'', ''high''}" if "otSeverity ot \<in> {''low'', ''medium'', ''high''}" for ot es
    using that by (induction es arbitrary: ot) auto
  have off: "\<not> signal_invalid s" if "buildOffTrackSignal es = Some s" for es s
    using that sev [of "\<lparr>otCount = 0, otLatest = 0, otSeverity = ''low''\<rparr>" es]
    by (auto simp: buildOffTrackSignal_def Let_def signal_invalid_def split: if_splits)
  show ?thesis using pace gap off by (auto simp: buildRaceEngineerAdviceSignals_def Let_def split: option.splits)
qed

lemma best_loop_Min:
  "0 < lLapTimeMs b \<Longrightarrow> list_all (\<lambda>l. 0 < lLapTimeMs l) ls \<Longrightarrow>
    lLapTimeMs (best_loop b ls) = Min (insert (lLapTimeMs b) (lLapTimeMs ` set ls))"
proof (induction ls arbitrary: b)
  case (Cons l ls)
  let ?b = "if lLapTimeMs l > 0 \<and> lLapTimeMs l < lLapTimeMs b then l else b"
  have b: "lLapTimeMs ?b = min (lLapTimeMs l) (lLapTimeMs b)" "0 < lLapTimeMs ?b" using Cons.prems by auto
  have "lLapTimeMs (best_loop ?b ls) = Min (insert (lLapTimeMs ?b) (lLapTimeMs ` set ls))"
    using Cons.IH [OF b(2)] Cons.prems(2) by simp
  also have "\<dots> = Min (insert (lLapTimeMs b) (lLapTimeMs ` set (l # ls)))" unfolding b(1)
    by (cases "ls = []") (auto simp: Min_insert min.commute min.left_commute min.assoc)
  finally show ?case by simp
qed simp

lemma fold_add64_total:
  "list_all (\<lambda>l. 0 < lLapTimeMs l \<and> lLapTimeMs l \<le> 2 ^ 60) ls \<Longrightarrow> 0 \<le> t \<Longrightarrow> t + int (length ls) * 2 ^ 60 < 2 ^ 63 \<Longrightarrow>
    fold (\<lambda>l total. add64 total (lLapTimeMs l)) ls t = t + sum_list (map lLapTimeMs ls)"
proof (induction ls arbitrary: t)
  case (Cons l ls)
  have "add64 t (lLapTimeMs l) = t + lLapTimeMs l" using Cons.prems by (intro add64_id) (auto simp: in64_def)
  then show ?case using Cons.IH [of "t + lLapTimeMs l"] Cons.prems by (simp add: algebra_simps)
qed simp

lemma sum_list_ge: "list_all (\<lambda>l. m \<le> lLapTimeMs l) ls \<Longrightarrow> int (length ls) * m \<le> sum_list (map lLapTimeMs ls)"
  by (induction ls) (auto simp: algebra_simps)

text \<open>The average of the last laps is never below the best of all laps.\<close>

lemma recent_not_below_best:
  assumes "list_all (\<lambda>l. 0 < lLapTimeMs l \<and> lLapTimeMs l \<le> 2 ^ 60 \<and> m \<le> lLapTimeMs l) ls" "ls \<noteq> []" "0 < m"
  shows "\<exists>a. recentAverageLapMs ls 3 = Some a \<and> m \<le> a \<and> a \<le> 2 ^ 62"
proof -
  define k where "k = min 3 (length ls)"
  let ?w = "drop (length ls - k) ls"
  have k: "0 < k" "length ?w = k" "k \<le> 3" using assms(2) by (auto simp: k_def)
  have w: "list_all (\<lambda>l. 0 < lLapTimeMs l \<and> lLapTimeMs l \<le> 2 ^ 60) ?w" "list_all (\<lambda>l. m \<le> lLapTimeMs l) ?w"
    using assms(1) by (auto simp: list_all_iff dest: in_set_dropD)
  have f: "filter (\<lambda>l. \<not> lLapTimeMs l \<le> 0) ?w = ?w" using w(1) by (auto simp: list_all_iff intro!: filter_True)
  have lim: "nat (if 3 > int (length ls) then int (length ls) else 3) = k" by (auto simp: k_def)
  have tot: "fold (\<lambda>l total. add64 total (lLapTimeMs l)) ?w 0 = sum_list (map lLapTimeMs ?w)"
    using fold_add64_total [OF w(1), of 0] k(3) unfolding k(2) by simp
  have ge: "int k * m \<le> sum_list (map lLapTimeMs ?w)" using sum_list_ge [OF w(2)] unfolding k(2) .
  have le: "sum_list (map lLapTimeMs xs) \<le> int (length xs) * 2 ^ 60" if "list_all (\<lambda>l. 0 < lLapTimeMs l \<and> lLapTimeMs l \<le> 2 ^ 60) xs" for xs
    using that by (induction xs) (auto simp: algebra_simps)
  from le [OF w(1)] k have le': "sum_list (map lLapTimeMs ?w) \<le> 2 ^ 62" by simp
  have pos: "0 \<le> sum_list (map lLapTimeMs ?w)" using ge assms(3) k(1) by (meson mult_nonneg_nonneg of_nat_0_le_iff less_imp_le order_trans)
  have d: "div64 (sum_list (map lLapTimeMs ?w)) (int k) = sum_list (map lLapTimeMs ?w) div int k"
    using pos by (simp add: div64_def)
  have "recentAverageLapMs ls 3 = Some (sum_list (map lLapTimeMs ?w) div int k)"
    using assms(2) k f tot d unfolding recentAverageLapMs_def Let_def lim by simp
  moreover have "m \<le> sum_list (map lLapTimeMs ?w) div int k"
    using ge k(1) by (metis mult.commute nonzero_mult_div_cancel_left of_nat_0_less_iff order_less_irrefl zdiv_mono1)
  moreover have "sum_list (map lLapTimeMs ?w) div int k \<le> 2 ^ 62"
    using le' zdiv_mono2 [OF pos, of 1 "int k"] k(1) by simp
  ultimately show ?thesis by blast
qed

definition fastest :: "CompletedLap list \<Rightarrow> int" where
  "fastest ls = Min (lLapTimeMs ` set ls)"

definition latest_lap :: "CompletedLap list \<Rightarrow> int" where
  "latest_lap ls = lLapTimeMs (last (sort_slice pace_less ls))"

text \<open>
  For laps as the repository holds them (positive times, here up to \<open>2 ^ 60\<close> ms), the signal is given
  exactly when the latest lap is slower than the fastest one by the threshold: the average of the last
  laps is never below the fastest lap, so that it neither triggers the signal nor is named by it.
\<close>

theorem pace_signal_exact:
  assumes "list_all (\<lambda>l. 0 < lLapTimeMs l \<and> lLapTimeMs l \<le> 2 ^ 60) ls" "2 \<le> length ls"
  shows "map_option (\<lambda>s. (sgKind s, sgSeverity s, sgSummary s)) (buildLapPaceRegressionSignal ls) =
    (let delta = latest_lap ls - fastest ls; threshold = pace_threshold (fastest ls)
     in if delta < threshold then None
        else Some (''lap_pace_regression'', if delta \<ge> mul64 threshold 2 then ''high'' else ''medium'',
          ''Latest completed lap is '' @ formatDurationMs delta @ '' slower than the session best.''))"
proof -
  let ?s = "sort_slice pace_less ls"
  have ne: "?s \<noteq> []" "ls \<noteq> []" using assms(2) by auto
  have all: "0 < lLapTimeMs l \<and> lLapTimeMs l \<le> 2 ^ 60" if "l \<in> set ?s" for l using assms(1) that by (auto simp: list_all_iff)
  have last: "last ?s \<in> set ?s" by (rule last_in_set [OF ne(1)])
  have ht: "set ?s = insert (hd ?s) (set (tl ?s))" using ne(1) by (cases ?s) auto
  have "lLapTimeMs (best_loop (hd ?s) (tl ?s)) = Min (insert (lLapTimeMs (hd ?s)) (lLapTimeMs ` set (tl ?s)))"
    using all ht by (intro best_loop_Min) (auto simp: list_all_iff)
  also have "\<dots> = fastest ls" using ht by (simp add: fastest_def flip: image_insert)
  finally have best: "lLapTimeMs (best_loop (hd ?s) (tl ?s)) = fastest ls" .
  have "fastest ls \<in> lLapTimeMs ` set ls" unfolding fastest_def using ne(2) by (intro Min_in) auto
  then have f: "0 < fastest ls" "fastest ls \<le> 2 ^ 60" using assms(1) by (auto simp: list_all_iff)
  have le: "fastest ls \<le> lLapTimeMs l" if "l \<in> set ?s" for l using that by (auto simp: fastest_def)
  obtain a where a: "recentAverageLapMs ?s 3 = Some a" "fastest ls \<le> a" "a \<le> 2 ^ 62"
    using recent_not_below_best [of "fastest ls" ?s] all le ne(1) f(1) by (auto simp: list_all_iff)
  note l = all [OF last] le [OF last]
  have d1: "sub64 (latest_lap ls) (fastest ls) = latest_lap ls - fastest ls"
    unfolding latest_lap_def using l f by (intro sub64_id) (auto simp: in64_def)
  have d2: "sub64 (latest_lap ls) a = latest_lap ls - a"
    unfolding latest_lap_def using l a f(1) by (intro sub64_id) (auto simp: in64_def)
  have no: "\<not> latest_lap ls - a > latest_lap ls - fastest ls" using a(2) by simp
  have pos: "\<not> latest_lap ls \<le> 0" "\<not> fastest ls \<le> 0" using l f by (auto simp: latest_lap_def)
  have "buildLapPaceRegressionSignal ls =
      (if latest_lap ls - fastest ls < pace_threshold (fastest ls) \<and> latest_lap ls - a < pace_threshold (fastest ls) then None
       else Some (pace_signal (latest_lap ls - fastest ls) (pace_threshold (fastest ls)) ''session best''
         [''latestLapMs='' @ itoa (latest_lap ls), ''bestLapMs='' @ itoa (fastest ls), ''bestDeltaMs='' @ itoa (latest_lap ls - fastest ls),
          ''recentAverageLapMs='' @ itoa a, ''recentDeltaMs='' @ itoa (latest_lap ls - a)]))"
    using assms(2) pos no unfolding buildLapPaceRegressionSignal_def Let_def latest_lap_def [symmetric] best a(1) d1
    by (simp add: d2)
  moreover have "latest_lap ls - a < pace_threshold (fastest ls)" if "latest_lap ls - fastest ls < pace_threshold (fastest ls)"
    using that a(2) by linarith
  ultimately show ?thesis by (simp add: pace_signal_def Let_def)
qed

definition demo_laps :: "CompletedLap list" where
  "demo_laps = map (\<lambda>(n, t). \<lparr>lID = ''l'', lSessionID = ''s'', lLapNumber = n, lLapTimeMs = t, lCompletedAtUnixMs = n, lBestLapMs = None,
     lSampleCount = None, lTelemetryGapCount = 0\<rparr>) [(1, 90000), (2, 85000), (3, 87550)]"

theorem pace_signal_exact_witness:
  "map_option (\<lambda>s. (sgKind s, sgSeverity s, sgSummary s)) (buildLapPaceRegressionSignal demo_laps) =
    Some (''lap_pace_regression'', ''medium'', ''Latest completed lap is 2.5s slower than the session best.'')"
proof -
  have "latest_lap demo_laps = 87550" "fastest demo_laps = 85000" "pace_threshold 85000 = 2550" "mul64 2550 2 = 5100" "formatDurationMs 2550 = ''2.5s''"
    by code_simp+
  moreover have "list_all (\<lambda>l. 0 < lLapTimeMs l \<and> lLapTimeMs l \<le> 2 ^ 60) demo_laps" "2 \<le> length demo_laps" by code_simp+
  ultimately show ?thesis using pace_signal_exact [of demo_laps] by (simp add: Let_def)
qed

section \<open>Gaps\<close>

abbreviation gaps_of :: "CompletedLap list \<Rightarrow> int" where
  "gaps_of ls \<equiv> sum_list (map (\<lambda>l. max 0 (lTelemetryGapCount l)) ls)"

lemma gap_loop_bounds:
  "0 \<le> gtWorst g \<Longrightarrow> gtWorst g \<le> gtTotal g \<Longrightarrow> gtTotal g + gaps_of ls < 2 ^ 63 \<Longrightarrow>
    gtWorst (gap_loop g ls) \<le> gtTotal (gap_loop g ls) \<and> gtTotal (gap_loop g ls) = gtTotal g + gaps_of ls \<and>
    (3 \<le> gtWorst (gap_loop g ls) \<longleftrightarrow> 3 \<le> gtWorst g \<or> list_ex (\<lambda>l. 3 \<le> lTelemetryGapCount l) ls)"
proof (induction ls arbitrary: g)
  case (Cons l ls)
  have s: "0 \<le> gaps_of ls" by (rule sum_list_nonneg) auto
  show ?case
  proof (cases "lTelemetryGapCount l \<le> 0")
    case True
    then have "max 0 (lTelemetryGapCount l) = 0" by simp
    then show ?thesis using Cons.IH [of g] Cons.prems True by simp
  next
    case False
    define h where "h = \<lparr>gtTotal = add64 (gtTotal g) (lTelemetryGapCount l), gtAffected = gtAffected g + 1,
         gtWorst = (if lTelemetryGapCount l > gtWorst g then lTelemetryGapCount l else gtWorst g),
         gtLatest = (if lLapNumber l > gtLatest g then lLapNumber l else gtLatest g)\<rparr>"
    have e: "gap_loop g (l # ls) = gap_loop h ls" using False by (simp add: h_def)
    have a: "add64 (gtTotal g) (lTelemetryGapCount l) = gtTotal g + lTelemetryGapCount l"
      using Cons.prems False s by (intro add64_id) (auto simp: in64_def)
    have t: "gtTotal h = gtTotal g + lTelemetryGapCount l" "gtWorst h = max (lTelemetryGapCount l) (gtWorst g)"
      unfolding h_def using a by auto
    have "gtWorst (gap_loop h ls) \<le> gtTotal (gap_loop h ls) \<and> gtTotal (gap_loop h ls) = gtTotal h + gaps_of ls \<and>
        (3 \<le> gtWorst (gap_loop h ls) \<longleftrightarrow> 3 \<le> gtWorst h \<or> list_ex (\<lambda>l. 3 \<le> lTelemetryGapCount l) ls)"
      using Cons.prems False by (intro Cons.IH) (auto simp: t)
    moreover have "max 0 (lTelemetryGapCount l) = lTelemetryGapCount l" using False by simp
    ultimately show ?thesis unfolding e t by (simp add: le_max_iff_disj) blast
  qed
qed simp

text \<open>
  The gap signal is given from two gaps on, and its severity is never low: it is high from four gaps,
  or three on one lap, and medium otherwise.
\<close>

theorem gap_signal_exact:
  assumes "gaps_of ls < 2 ^ 63"
  shows "map_option sgSeverity (buildTelemetryGapSignal ls) =
    (if gaps_of ls < 2 then None
     else Some (if gaps_of ls \<ge> 4 \<or> list_ex (\<lambda>l. lTelemetryGapCount l \<ge> 3) ls then ''high'' else ''medium''))"
proof -
  let ?g = "\<lparr>gtTotal = 0, gtAffected = 0, gtWorst = 0, gtLatest = 0\<rparr>"
  have b: "gtWorst (gap_loop ?g ls) \<le> gaps_of ls" "gtTotal (gap_loop ?g ls) = gaps_of ls"
    "3 \<le> gtWorst (gap_loop ?g ls) \<longleftrightarrow> list_ex (\<lambda>l. 3 \<le> lTelemetryGapCount l) ls"
    using gap_loop_bounds [of ?g ls] assms by auto
  show ?thesis
  proof (cases "ls = []")
    case False
    then show ?thesis using b by (auto simp: buildTelemetryGapSignal_def Let_def)
  qed (simp add: buildTelemetryGapSignal_def)
qed

theorem gap_signal_exact_witness:
  "map_option sgSeverity (buildTelemetryGapSignal (map (\<lambda>l. l\<lparr>lTelemetryGapCount := 1\<rparr>) demo_laps)) = Some ''medium''"
proof -
  have "gaps_of (map (\<lambda>l. l\<lparr>lTelemetryGapCount := 1\<rparr>) demo_laps) = 3"
    "list_ex (\<lambda>l. lTelemetryGapCount l \<ge> 3) (map (\<lambda>l. l\<lparr>lTelemetryGapCount := 1\<rparr>) demo_laps) = False" by code_simp+
  then show ?thesis using gap_signal_exact [of "map (\<lambda>l. l\<lparr>lTelemetryGapCount := 1\<rparr>) demo_laps"] by simp
qed

end
