(* ===== verification/AiControls.thy ===== *)
theory AiControls
  imports AiInput
begin

text \<open>
  \<^verbatim>\<open>internal/ai/controls.go\<close>: the token budget, the retry policy, the token bucket per session, the
  account of the tokens used, and the controller that runs a provider call under them.  The provider,
  the sleeper and the state of the context are functions of the attempt; the calls, waits and hooks a
  request makes are kept as a trace.
\<close>

section \<open>Budget\<close>

record TokenBudget =
  tbMaxPromptChars :: int
  tbMaxCompletionTokens :: int
  tbMaxEventsPerRequest :: int

definition DefaultTokenBudget :: TokenBudget where
  "DefaultTokenBudget = \<lparr>tbMaxPromptChars = 40000, tbMaxCompletionTokens = 2000, tbMaxEventsPerRequest = 50\<rparr>"

definition budget_Validate :: "TokenBudget \<Rightarrow> bool" where
  "budget_Validate b = (tbMaxPromptChars b > 0 \<and> tbMaxCompletionTokens b > 0 \<and> tbMaxEventsPerRequest b > 0)"

definition CheckPromptChars :: "TokenBudget \<Rightarrow> int \<Rightarrow> ai_err option" where
  "CheckPromptChars b chars = (if chars > tbMaxPromptChars b then Some (BudgetChars chars (tbMaxPromptChars b)) else None)"

definition CheckEvents :: "TokenBudget \<Rightarrow> int \<Rightarrow> ai_err option" where
  "CheckEvents b cnt = (if cnt > tbMaxEventsPerRequest b then Some (BudgetEvents cnt (tbMaxEventsPerRequest b)) else None)"

section \<open>Retry policy\<close>

record RetryPolicy =
  rpMaxAttempts :: int
  rpBaseBackoffMs :: int
  rpMaxBackoffMs :: int

definition DefaultRetryPolicy :: RetryPolicy where
  "DefaultRetryPolicy = \<lparr>rpMaxAttempts = 3, rpBaseBackoffMs = 1000, rpMaxBackoffMs = 10000\<rparr>"

definition retry_Validate :: "RetryPolicy \<Rightarrow> bool" where
  "retry_Validate p = (\<not> rpMaxAttempts p < 1 \<and> \<not> rpBaseBackoffMs p < 100 \<and> \<not> rpMaxBackoffMs p < rpBaseBackoffMs p)"

definition IsRetryable :: "ai_err \<Rightarrow> bool" where
  "IsRetryable e =
    (if err_is e ErrCanceled \<or> err_is e ErrDeadlineExceeded then False
     else if err_is e ErrProviderRejected then False
     else list_ex (err_is e) [ErrProviderNotAvailable, ErrProviderTimeout])"

text \<open>\<^verbatim>\<open>math.Pow(2, k)\<close> for a natural \<open>k\<close>: exact up to the largest exponent of the format.\<close>

definition pow_two :: "int \<Rightarrow> f64" where
  "pow_two k = (if k < 1024 then Fin (pow2 k) else FInf False)"

definition Backoff :: "RetryPolicy \<Rightarrow> int \<Rightarrow> int" where
  "Backoff p attempt =
    (if attempt \<le> 0 then 0
     else let b = fmul (f_of_int (rpBaseBackoffMs p)) (pow_two (attempt - 1));
              limit = f_of_int (rpMaxBackoffMs p)
          in mul64 (f_to_int64 (if flt limit b then limit else b)) 1000000)"

section \<open>Rate limiter\<close>

record tokenBucket =
  bkTokens :: f64
  bkLastRefill :: int

record RateLimiter =
  rlSessions :: "string \<rightharpoonup> tokenBucket"
  rlRate :: f64
  rlBurst :: int

definition NewRateLimiter :: "f64 \<Rightarrow> int \<Rightarrow> RateLimiter" where
  "NewRateLimiter ratePerSec burst =
    \<lparr>rlSessions = Map.empty, rlRate = (if fle ratePerSec (Fin 0) then Fin 10 else ratePerSec),
     rlBurst = (if burst \<le> 0 then 5 else burst)\<rparr>"

text \<open>\<^verbatim>\<open>Duration.Seconds\<close>: whole seconds and the fraction, each with the sign of the duration.\<close>

definition seconds_f :: "int \<Rightarrow> f64" where
  "seconds_f d =
    (let s = sgn d * (\<bar>d\<bar> div 1000000000); n = sgn d * (\<bar>d\<bar> mod 1000000000)
     in fadd (f_of_int s) (fdiv (f_of_int n) (Fin 1000000000)))"

definition refilled :: "RateLimiter \<Rightarrow> tokenBucket \<Rightarrow> int \<Rightarrow> f64" where
  "refilled rl b now =
    fmin (f_of_int (rlBurst rl)) (fadd (bkTokens b) (fmul (seconds_f (time_sub now (bkLastRefill b))) (rlRate rl)))"

definition Allow :: "RateLimiter \<Rightarrow> string \<Rightarrow> int \<Rightarrow> (bool \<times> int) \<times> RateLimiter" where
  "Allow rl sessionID now =
    (case rlSessions rl sessionID of
       None \<Rightarrow> ((True, 0), rl\<lparr>rlSessions := (rlSessions rl)(sessionID \<mapsto>
                 \<lparr>bkTokens = fsub (f_of_int (rlBurst rl)) (Fin 1), bkLastRefill = now\<rparr>)\<rparr>)
     | Some b \<Rightarrow>
       let t = refilled rl b now
       in if fle (Fin 1) t
          then ((True, 0), rl\<lparr>rlSessions := (rlSessions rl)(sessionID \<mapsto> \<lparr>bkTokens = fsub t (Fin 1), bkLastRefill = now\<rparr>)\<rparr>)
          else ((False, f_to_int64 (fmul (fdiv (fsub (Fin 1) t) (rlRate rl)) (Fin 1000000000))),
                rl\<lparr>rlSessions := (rlSessions rl)(sessionID \<mapsto> \<lparr>bkTokens = t, bkLastRefill = now\<rparr>)\<rparr>))"

section \<open>Cost and usage\<close>

record CostEstimator =
  cePerPromptToken :: f64
  cePerCompletionToken :: f64

definition DefaultCostEstimator :: CostEstimator where
  "DefaultCostEstimator = \<lparr>cePerPromptToken = rnd (15 / 100000), cePerCompletionToken = rnd (60 / 100000)\<rparr>"

definition EstimateCost :: "CostEstimator \<Rightarrow> int \<Rightarrow> int \<Rightarrow> f64" where
  "EstimateCost e promptTokens completionTokens =
    fadd (fmul (fdiv (f_of_int promptTokens) (Fin 1000)) (cePerPromptToken e))
         (fmul (fdiv (f_of_int completionTokens) (Fin 1000)) (cePerCompletionToken e))"

record SessionUsage =
  suTotalRequests :: int
  suTotalPromptTokens :: int
  suTotalCompletionTokens :: int
  suTotalCost :: f64

type_synonym UsageAccount = "string \<rightharpoonup> SessionUsage"

definition zero_usage :: SessionUsage where
  "zero_usage = \<lparr>suTotalRequests = 0, suTotalPromptTokens = 0, suTotalCompletionTokens = 0, suTotalCost = Fin 0\<rparr>"

definition account_Record :: "UsageAccount \<Rightarrow> string \<Rightarrow> int \<Rightarrow> int \<Rightarrow> f64 \<Rightarrow> UsageAccount" where
  "account_Record a sessionID promptTokens completionTokens cost =
    (let u = (case a sessionID of Some u \<Rightarrow> u | None \<Rightarrow> zero_usage)
     in a(sessionID \<mapsto> \<lparr>suTotalRequests = add64 (suTotalRequests u) 1,
           suTotalPromptTokens = add64 (suTotalPromptTokens u) promptTokens,
           suTotalCompletionTokens = add64 (suTotalCompletionTokens u) completionTokens,
           suTotalCost = fadd (suTotalCost u) cost\<rparr>))"

definition account_SessionUsage :: "UsageAccount \<Rightarrow> string \<Rightarrow> SessionUsage \<times> bool" where
  "account_SessionUsage a sessionID = (case a sessionID of Some u \<Rightarrow> (u, True) | None \<Rightarrow> (zero_usage, False))"

section \<open>Controller\<close>

text \<open>For each hook whether it is set; what it does with its arguments is the caller's.\<close>

record ObservabilityHooks =
  hkAfterRequest :: bool
  hkBudgetExceeded :: bool
  hkRateLimited :: bool
  hkRetryAttempt :: bool

record Controller =
  coBudget :: TokenBudget
  coRetry :: RetryPolicy
  coRateLimiter :: "RateLimiter option"
  coAccount :: "UsageAccount option"
  coCostEstimator :: CostEstimator
  coHooks :: ObservabilityHooks

datatype trace_event =
    TCall nat
  | TSleep nat int
  | HookAfterRequest string string int int int "ai_err option"
  | HookBudgetExceeded string ai_err TokenBudget
  | HookRateLimited string int
  | HookRetryAttempt string nat ai_err

definition controller_Validate :: "Controller \<Rightarrow> bool" where
  "controller_Validate c = (budget_Validate (coBudget c) \<and> retry_Validate (coRetry c))"

definition hook :: "bool \<Rightarrow> trace_event \<Rightarrow> trace_event list" where
  "hook is_set e = (if is_set then [e] else [])"

definition PreCheck :: "Controller \<Rightarrow> string \<Rightarrow> int \<Rightarrow> int \<Rightarrow> int \<Rightarrow> ai_err option \<times> Controller \<times> trace_event list" where
  "PreCheck c sessionID promptCharCount eventCount now =
    (case CheckPromptChars (coBudget c) promptCharCount of
       Some e \<Rightarrow> (Some e, c, hook (hkBudgetExceeded (coHooks c)) (HookBudgetExceeded sessionID e (coBudget c)))
     | None \<Rightarrow>
       case CheckEvents (coBudget c) eventCount of
         Some e \<Rightarrow> (Some e, c, hook (hkBudgetExceeded (coHooks c)) (HookBudgetExceeded sessionID e (coBudget c)))
       | None \<Rightarrow>
         case coRateLimiter c of
           None \<Rightarrow> (None, c, [])
         | Some rl \<Rightarrow>
           let ((allowed, retryAfter), rl') = Allow rl sessionID now; c' = c\<lparr>coRateLimiter := Some rl'\<rparr>
           in if allowed then (None, c', [])
              else (Some (RateLimitedFor retryAfter), c',
                    hook (hkRateLimited (coHooks c)) (HookRateLimited sessionID retryAfter)))"

definition retryDelay :: "RetryPolicy \<Rightarrow> nat \<Rightarrow> ai_err \<Rightarrow> int" where
  "retryDelay p attempt e =
    (case as_rate_limit e of
       Some (Some s, _, _) \<Rightarrow> if s > 0 then mul64 s 1000000000 else Backoff p (int attempt)
     | _ \<Rightarrow> Backoff p (int attempt))"

text \<open>The rest of the loop from one attempt on; a delay that is not positive does not wait.\<close>

fun retry_loop :: "Controller \<Rightarrow> string \<Rightarrow> (nat \<Rightarrow> ctx_err option) \<Rightarrow> (nat \<Rightarrow> int \<Rightarrow> ai_err option) \<Rightarrow>
    (nat \<Rightarrow> ai_err + ProviderResponse) \<Rightarrow> nat \<Rightarrow> nat \<Rightarrow> ai_err \<Rightarrow> (ai_err + ProviderResponse) \<times> trace_event list" where
  "retry_loop c sid ctx sleep fn 0 attempt lastErr = (Inl (RetryExhausted (int attempt) lastErr), [])"
| "retry_loop c sid ctx sleep fn (Suc remaining) attempt lastErr =
    (let delay = retryDelay (coRetry c) attempt lastErr;
         waits = attempt > 0 \<and> delay > 0;
         t0 = (if waits then [TSleep attempt delay] else [])
     in if attempt > 0 \<and> ctx attempt \<noteq> None then (Inl (ctx_ai_err (the (ctx attempt))), [])
        else case (if waits then sleep attempt delay else None) of
          Some e \<Rightarrow> (Inl e, t0)
        | None \<Rightarrow>
          case fn attempt of
            Inr resp \<Rightarrow> (Inr resp, t0 @ [TCall attempt])
          | Inl e \<Rightarrow>
            let t1 = t0 @ [TCall attempt] @ hook (attempt > 0 \<and> hkRetryAttempt (coHooks c)) (HookRetryAttempt sid attempt e)
            in if \<not> IsRetryable e then (Inl e, t1)
               else let (r, t2) = retry_loop c sid ctx sleep fn remaining (Suc attempt) e in (r, t1 @ t2))"

definition ExecuteWithRetries :: "Controller \<Rightarrow> string \<Rightarrow> (nat \<Rightarrow> ctx_err option) \<Rightarrow> (nat \<Rightarrow> int \<Rightarrow> ai_err option) \<Rightarrow>
    (nat \<Rightarrow> ai_err + ProviderResponse) \<Rightarrow> (ai_err + ProviderResponse) \<times> trace_event list" where
  "ExecuteWithRetries c sid ctx sleep fn =
    retry_loop c sid ctx sleep fn (nat (if rpMaxAttempts (coRetry c) < 1 then 1 else rpMaxAttempts (coRetry c))) 0 (OtherError [])"

definition RecordResult :: "Controller \<Rightarrow> string \<Rightarrow> string \<Rightarrow> int \<Rightarrow> ai_err + ProviderResponse \<Rightarrow> Controller \<times> trace_event list" where
  "RecordResult c sessionID mode duration r =
    (case r of
       Inl e \<Rightarrow> (c, hook (hkAfterRequest (coHooks c)) (HookAfterRequest sessionID mode duration 0 0 (Some e)))
     | Inr resp \<Rightarrow>
       let u = prUsage resp
       in (case coAccount c of
             None \<Rightarrow> c
           | Some a \<Rightarrow> c\<lparr>coAccount := Some (account_Record a sessionID (usPromptTokens u) (usCompletionTokens u)
               (EstimateCost (coCostEstimator c) (usPromptTokens u) (usCompletionTokens u)))\<rparr>,
           hook (hkAfterRequest (coHooks c)) (HookAfterRequest sessionID mode duration (usPromptTokens u) (usCompletionTokens u) None)))"

text \<open>What surrounds a call: the clock when it starts, its duration, the context, the sleeper and the
  answers of the provider to the attempts.\<close>

record provider_world =
  pwNow :: int
  pwDuration :: int
  pwCtx :: "nat \<Rightarrow> ctx_err option"
  pwSleep :: "nat \<Rightarrow> int \<Rightarrow> ai_err option"
  pwAnalyze :: "ProviderRequest \<Rightarrow> nat \<Rightarrow> ai_err + ProviderResponse"

definition Execute :: "Controller \<Rightarrow> provider_world \<Rightarrow> string \<Rightarrow> string \<Rightarrow> int \<Rightarrow> int \<Rightarrow> ProviderRequest \<Rightarrow>
    (ai_err + ProviderResponse) \<times> Controller \<times> trace_event list" where
  "Execute c w sessionID mode promptCharCount eventCount req =
    (case PreCheck c sessionID promptCharCount eventCount (pwNow w) of
       (Some e, c', t) \<Rightarrow> (Inl e, c', t)
     | (None, c', t) \<Rightarrow>
       let (r, t2) = ExecuteWithRetries c' sessionID (pwCtx w) (pwSleep w) (pwAnalyze w req);
           (c2, t3) = RecordResult c' sessionID mode (pwDuration w) r
       in (r, c2, t @ t2 @ t3))"

section \<open>Backoff\<close>

lemma rep_shift: "rep q \<Longrightarrow> 0 \<le> k \<Longrightarrow> rep (q * pow2 k)"
proof -
  assume "rep q" "0 \<le> k"
  then obtain m j where "q = of_int m * pow2 j" "\<bar>m\<bar> \<le> 2 ^ 53" "- 1074 \<le> j" by (auto simp: rep_def)
  with \<open>0 \<le> k\<close> show ?thesis unfolding rep_def by (intro exI [of _ m] exI [of _ "j + k"]) (simp add: pow2_add)
qed

lemma rnd_big: "rep q \<Longrightarrow> pow2 1024 \<le> q \<Longrightarrow> rnd q = FInf False"
  by (simp add: rnd_def rnd_rat_rep)

text \<open>A positive product is exact or overflows.\<close>

lemma fmul_pow_two:
  assumes "0 < b" "b \<le> 2 ^ 53" "0 \<le> k"
  shows "fmul (f_of_int b) (pow_two k) =
    (if of_int b * pow2 k < pow2 1024 then Fin (of_int b * pow2 k) else FInf False)"
proof (cases "k < 1024")
  case True
  have r: "rep (of_int b * pow2 k)" using assms by (intro rep_shift rep_int) auto
  have p: "0 < (of_int b :: rat) * pow2 k" using assms by simp
  show ?thesis using True assms p r
    by (auto simp: pow_two_def f_of_int_exact rnds_def rnd_rep rnd_big)
next
  case False
  have "pow2 1024 \<le> 1 * pow2 k" using False by simp
  also have "\<dots> \<le> of_int b * pow2 k" using assms(1) by (intro mult_right_mono) auto
  finally show ?thesis using False assms by (simp add: pow_two_def f_of_int_exact not_less)
qed

lemma pow2_of_nat: "pow2 (int n) = of_int (2 ^ n)"
  by (simp add: pow2_int p2_nat)

lemma f_to_int64_of_int: "- (2 ^ 63) \<le> n \<Longrightarrow> n < 2 ^ 63 \<Longrightarrow> f_to_int64 (Fin (of_int n)) = n"
  by (simp add: f_to_int64_def rat_trunc_def)

lemma backoff_ms:
  assumes "0 < b" "b \<le> m" "m \<le> 2 ^ 53" "1 \<le> a"
  shows "f_to_int64 (if flt (f_of_int m) (fmul (f_of_int b) (pow_two (a - 1))) then f_of_int m
           else fmul (f_of_int b) (pow_two (a - 1))) = min (b * 2 ^ nat (a - 1)) m"
proof -
  let ?n = "nat (a - 1)"
  have k: "pow2 (a - 1) = of_int (2 ^ ?n)" using pow2_of_nat [of ?n] assms(4) by simp
  have q: "of_int b * pow2 (a - 1) = (of_int (b * 2 ^ ?n) :: rat)" by (simp add: k)
  have mm: "(of_int m :: rat) < pow2 1024"
  proof -
    have "(of_int m :: rat) \<le> of_int (2 ^ 53)" using assms(3) unfolding of_int_le_iff .
    also have "\<dots> = pow2 53" using pow2_of_nat [of 53] by simp
    also have "\<dots> < pow2 1024" by simp
    finally show ?thesis .
  qed
  have fm: "f_of_int m = Fin (of_int m)" using assms by (simp add: f_of_int_exact)
  have fb: "fmul (f_of_int b) (pow_two (a - 1)) =
      (if of_int b * pow2 (a - 1) < pow2 1024 then Fin (of_int b * pow2 (a - 1)) else FInf False)"
    using assms by (intro fmul_pow_two) auto
  have m63: "m < 2 ^ 63" using assms(3) by simp
  show ?thesis
  proof (cases "of_int b * pow2 (a - 1) < pow2 1024")
    case True
    then have e: "fmul (f_of_int b) (pow_two (a - 1)) = Fin (of_int (b * 2 ^ ?n))" unfolding fb q by simp
    have pos: "0 < b * 2 ^ ?n" using assms(1) by simp
    show ?thesis
    proof (cases "m < b * 2 ^ ?n")
      case True
      then show ?thesis unfolding e fm using assms m63 by (simp add: f_to_int64_of_int del: of_int_mult)
    next
      case False
      then show ?thesis unfolding e fm using pos m63 by (simp add: f_to_int64_of_int del: of_int_mult)
    qed
  next
    case False
    then have "(of_int m :: rat) < of_int (b * 2 ^ ?n)" using mm unfolding q by linarith
    then have "m < b * 2 ^ ?n" unfolding of_int_less_iff .
    then show ?thesis using False assms m63 unfolding fb fm by (simp add: f_to_int64_of_int)
  qed
qed

lemma in64_ms: "0 < m \<Longrightarrow> m \<le> 9223372036854 \<Longrightarrow> in64 (m * 1000000)"
  by (simp add: in64_def)

text \<open>C27: 
  For a policy the validation accepts and whose longest delay fits a duration, the delay before
  attempt number \<open>a\<close> is the base delay doubled \<open>a - 1\<close> times and capped: no rounding and no overflow.
\<close>

theorem backoff_exact:
  assumes "retry_Validate p" "rpMaxBackoffMs p \<le> 9223372036854" "1 \<le> a"
  shows "Backoff p a = min (rpBaseBackoffMs p * 2 ^ nat (a - 1)) (rpMaxBackoffMs p) * 1000000"
proof -
  let ?m = "min (rpBaseBackoffMs p * 2 ^ nat (a - 1)) (rpMaxBackoffMs p)"
  have v: "0 < rpBaseBackoffMs p" "rpBaseBackoffMs p \<le> rpMaxBackoffMs p" "rpMaxBackoffMs p \<le> 2 ^ 53"
    using assms by (auto simp: retry_Validate_def)
  have "0 < rpBaseBackoffMs p * 2 ^ nat (a - 1)" using v(1) by simp
  then have r: "0 < ?m" "?m \<le> 9223372036854" using v assms(2) by (auto simp: min_def)
  have "Backoff p a = mul64 ?m 1000000"
    using assms(3) by (simp add: Backoff_def Let_def backoff_ms [OF v assms(3)])
  moreover have "in64 (?m * 1000000)" using r by (rule in64_ms)
  ultimately show ?thesis by (simp add: mul64_def)
qed

theorem backoff_exact_witness:
  "map (Backoff DefaultRetryPolicy) [1, 2, 3, 4, 5, 64] = map (\<lambda>s. s * 1000000000) [1, 2, 4, 8, 10, 10]"
proof -
  show ?thesis
    using backoff_exact [of DefaultRetryPolicy 1] backoff_exact [of DefaultRetryPolicy 2]
      backoff_exact [of DefaultRetryPolicy 3] backoff_exact [of DefaultRetryPolicy 4]
      backoff_exact [of DefaultRetryPolicy 5] backoff_exact [of DefaultRetryPolicy 64]
    by (simp add: DefaultRetryPolicy_def retry_Validate_def)
qed

section \<open>Retries\<close>

lemmas retry_splits = if_splits option.splits sum.splits

text \<open>The attempts of a trace, and what the loop returns after a number of them.\<close>

definition calls :: "trace_event list \<Rightarrow> nat list" where
  "calls t = concat (map (\<lambda>e. case e of TCall k \<Rightarrow> [k] | _ \<Rightarrow> []) t)"

definition retried :: "(nat \<Rightarrow> ai_err + ProviderResponse) \<Rightarrow> nat \<Rightarrow> bool" where
  "retried fn k = (\<exists>e. fn k = Inl e \<and> IsRetryable e)"

definition retry_outcome :: "(nat \<Rightarrow> ctx_err option) \<Rightarrow> (nat \<Rightarrow> int \<Rightarrow> ai_err option) \<Rightarrow> (nat \<Rightarrow> ai_err + ProviderResponse) \<Rightarrow>
    nat \<Rightarrow> nat \<Rightarrow> ai_err + ProviderResponse \<Rightarrow> bool" where
  "retry_outcome ctx sleep fn limit n r =
    (case fn (n - 1) of
       Inr resp \<Rightarrow> r = Inr resp
     | Inl e \<Rightarrow>
       if \<not> IsRetryable e then r = Inl e
       else if n = limit then r = Inl (RetryExhausted (int limit) e)
       else (\<exists>c. ctx n = Some c \<and> r = Inl (ctx_ai_err c)) \<or> (\<exists>d x. d > 0 \<and> sleep n d = Some x \<and> r = Inl x))"

lemma calls_simps [simp]:
  "calls [] = []" "calls (TCall k # t) = k # calls t" "calls (TSleep k d # t) = calls t" "calls (HookRetryAttempt s k e # t) = calls t"
  "calls (t @ u) = calls t @ calls u" "calls (hook b (HookRetryAttempt s k e)) = []"
  by (auto simp: calls_def hook_def)

lemma retry_loop_calls:
  assumes "retry_loop c sid ctx sleep fn remaining attempt lastErr = (r, t)"
    and "attempt > 0 \<Longrightarrow> fn (attempt - 1) = Inl lastErr \<and> IsRetryable lastErr"
    and "attempt = 0 \<Longrightarrow> remaining > 0"
  shows "\<exists>n. calls t = [attempt..<n] \<and> attempt \<le> n \<and> n \<le> attempt + remaining \<and> (attempt = 0 \<longrightarrow> 0 < n) \<and>
    (\<forall>k. attempt \<le> k \<and> Suc k < n \<longrightarrow> retried fn k) \<and> retry_outcome ctx sleep fn (attempt + remaining) n r"
  using assms
proof (induction remaining arbitrary: attempt lastErr r t)
  case 0
  then have "fn (attempt - 1) = Inl lastErr \<and> IsRetryable lastErr" by auto
  with 0 show ?case by (intro exI [of _ attempt]) (auto simp: retry_outcome_def)
next
  case (Suc remaining)
  let ?d = "retryDelay (coRetry c) attempt lastErr"
  let ?w = "attempt > 0 \<and> ?d > 0"
  have stop: ?case if "calls t = []" "attempt > 0"
      "(\<exists>c. ctx attempt = Some c \<and> r = Inl (ctx_ai_err c)) \<or> (\<exists>d x. d > 0 \<and> sleep attempt d = Some x \<and> r = Inl x)"
    using that Suc.prems(2) by (intro exI [of _ attempt]) (auto simp: retry_outcome_def)
  show ?case
  proof (cases "attempt > 0 \<and> ctx attempt \<noteq> None")
    case True
    then show ?thesis using Suc.prems(1) by (intro stop) auto
  next
    case go: False
    show ?thesis
    proof (cases "if ?w then sleep attempt ?d else None")
      case (Some x)
      then have "?w" "sleep attempt ?d = Some x" by (auto split: if_splits)
      then show ?thesis using Suc.prems(1) go by (intro stop) (auto simp: Let_def)
    next
      case slept: None
      show ?thesis
      proof (cases "fn attempt")
        case (Inr resp)
        then have "r = Inr resp" "calls t = [attempt]" using Suc.prems(1) go slept by (auto simp: Let_def split: if_splits)
        then show ?thesis using Inr by (intro exI [of _ "Suc attempt"]) (auto simp: retry_outcome_def)
      next
        case (Inl e)
        show ?thesis
        proof (cases "IsRetryable e")
          case False
          then have "r = Inl e" "calls t = [attempt]" using Suc.prems(1) go slept Inl by (auto simp: Let_def split: if_splits)
          then show ?thesis using Inl False by (intro exI [of _ "Suc attempt"]) (auto simp: retry_outcome_def)
        next
          case True
          obtain t' where rec: "retry_loop c sid ctx sleep fn remaining (Suc attempt) e = (r, t')" and ct: "calls t = attempt # calls t'"
            using Suc.prems(1) go slept Inl True by (auto simp: Let_def split: if_splits prod.splits)
          obtain n where n: "calls t' = [Suc attempt..<n]" "Suc attempt \<le> n" "n \<le> Suc attempt + remaining"
            "\<forall>k. Suc attempt \<le> k \<and> Suc k < n \<longrightarrow> retried fn k" "retry_outcome ctx sleep fn (Suc attempt + remaining) n r"
            using Suc.IH [OF rec] Inl True by auto
          have "retried fn k" if "attempt \<le> k" "Suc k < n" for k
            using that n(4) Inl True by (cases "k = attempt") (auto simp: retried_def)
          then show ?thesis using n ct by (intro exI [of _ n]) (auto simp: upt_conv_Cons)
        qed
      qed
    qed
  qed
qed

text \<open>C26: 
  The provider is called for the attempts \<open>0, ..., n - 1\<close> in this order, at least once and at most as
  often as the policy says; every call but the last failed with an error worth a retry, and the outcome
  is the answer to the last one, the exhausted retries, or an error of the context or the sleeper.
\<close>

theorem retries_exact:
  "\<exists>n. calls (snd (ExecuteWithRetries c sid ctx sleep fn)) = [0..<n] \<and> 0 < n \<and> int n \<le> max 1 (rpMaxAttempts (coRetry c)) \<and>
     list_all (retried fn) [0..<n - 1] \<and>
     retry_outcome ctx sleep fn (nat (max 1 (rpMaxAttempts (coRetry c)))) n (fst (ExecuteWithRetries c sid ctx sleep fn))"
proof -
  let ?m = "nat (max 1 (rpMaxAttempts (coRetry c)))"
  have m: "nat (if rpMaxAttempts (coRetry c) < 1 then 1 else rpMaxAttempts (coRetry c)) = ?m" by auto
  obtain r t where e: "ExecuteWithRetries c sid ctx sleep fn = (r, t)" by (cases "ExecuteWithRetries c sid ctx sleep fn")
  have "retry_loop c sid ctx sleep fn ?m 0 (OtherError []) = (r, t)" using e unfolding ExecuteWithRetries_def m .
  from retry_loop_calls [OF this] obtain n where n: "calls t = [0..<n]" "n \<le> 0 + ?m" "0 < n"
    "\<forall>k. 0 \<le> k \<and> Suc k < n \<longrightarrow> retried fn k" "retry_outcome ctx sleep fn (0 + ?m) n r" by fastforce
  have "int n \<le> max 1 (rpMaxAttempts (coRetry c))" using n(2) by linarith
  with n show ?thesis unfolding e by (intro exI [of _ n]) (auto simp: list_all_iff)
qed

section \<open>The token bucket\<close>

text \<open>Requests for the sessions of a list, each with its time.\<close>

fun allow_all :: "RateLimiter \<Rightarrow> (string \<times> int) list \<Rightarrow> bool list \<times> RateLimiter" where
  "allow_all rl [] = ([], rl)"
| "allow_all rl ((sid, now) # rs) =
    (let ((ok, _), rl') = Allow rl sid now; (oks, rl'') = allow_all rl' rs in (ok # oks, rl''))"

definition answers_of :: "string \<Rightarrow> string list \<Rightarrow> bool list \<Rightarrow> bool list" where
  "answers_of sid sids oks = map snd (filter (\<lambda>(s, _). s = sid) (zip sids oks))"

lemma answers_of_Cons [simp]:
  "answers_of sid [] [] = []"
  "answers_of sid (s # sids) (ok # oks) = (if s = sid then ok # answers_of sid sids oks else answers_of sid sids oks)"
  by (auto simp: answers_of_def)

lemma Fin_int_op [simp]:
  assumes "\<bar>n\<bar> \<le> 2 ^ 53"
  shows "rnd (of_int n) = Fin (of_int n)"
  using f_of_int_exact [OF assms] by (simp add: f_of_int_def)

lemma refilled_now:
  assumes "is_fin (rlRate rl)" "0 < rlBurst rl" "rlBurst rl \<le> 2 ^ 53" "0 \<le> m" "m \<le> rlBurst rl"
  shows "refilled rl \<lparr>bkTokens = Fin (of_int m), bkLastRefill = now\<rparr> now = Fin (of_int m)"
proof -
  have z: "seconds_f (time_sub now now) = Fin 0"
    by (simp add: seconds_f_def time_sub_def Let_def f_of_int_def rnds_def)
  have "fmul (Fin 0) (rlRate rl) = fzero (signbit (rlRate rl))"
    using assms(1) by (simp add: fmul_fin rnds_def)
  then have "fadd (Fin (of_int m)) (fmul (seconds_f (time_sub now now)) (rlRate rl)) = Fin (of_int m)"
    using assms(3-5) unfolding z by simp
  then show ?thesis using assms by (auto simp: refilled_def f_of_int_exact fmin_def isNaN_def)
qed

definition tokens_left :: "RateLimiter \<Rightarrow> string \<Rightarrow> int \<Rightarrow> int \<Rightarrow> bool" where
  "tokens_left rl sid now m \<longleftrightarrow> 0 \<le> m \<and> m \<le> rlBurst rl \<and>
     (case rlSessions rl sid of None \<Rightarrow> m = rlBurst rl | Some b \<Rightarrow> b = \<lparr>bkTokens = Fin (of_int m), bkLastRefill = now\<rparr>)"

lemma fsub_int: "\<bar>m\<bar> \<le> 2 ^ 53 \<Longrightarrow> 0 < m \<Longrightarrow> fsub (Fin (of_int m)) (Fin 1) = Fin (of_int (m - 1))"
  using Fin_int_op [of "m - 1"] by (simp add: fsub_def)

lemma Allow_now:
  assumes "is_fin (rlRate rl)" "0 < rlBurst rl" "rlBurst rl \<le> 2 ^ 53" "tokens_left rl sid now m"
  shows "fst (fst (Allow rl sid now)) = (0 < m)" "tokens_left (snd (Allow rl sid now)) sid now (if 0 < m then m - 1 else 0)"
proof -
  have m: "0 \<le> m" "m \<le> rlBurst rl" using assms(4) by (auto simp: tokens_left_def)
  have r: "refilled rl \<lparr>bkTokens = Fin (of_int m), bkLastRefill = now\<rparr> now = Fin (of_int m)"
    using assms(1-3) m by (rule refilled_now)
  have b: "\<bar>rlBurst rl\<bar> \<le> 2 ^ 53" "\<bar>m\<bar> \<le> 2 ^ 53" using assms(2,3) m by auto
  have r0: "refilled rl \<lparr>bkTokens = Fin 0, bkLastRefill = now\<rparr> now = Fin 0"
    using refilled_now [OF assms(1-3), of 0] assms(2) by simp
  show "fst (fst (Allow rl sid now)) = (0 < m)"
    using assms(2,4) m by (auto simp: Allow_def tokens_left_def r Let_def split: option.splits)
  show "tokens_left (snd (Allow rl sid now)) sid now (if 0 < m then m - 1 else 0)"
    using assms(2,4) m fsub_int [OF b(1)] fsub_int [OF b(2)] f_of_int_exact [OF b(1)] r0
    by (auto simp: Allow_def tokens_left_def r Let_def split: option.splits)
qed

lemma Allow_frame:
  "rlRate (snd (Allow rl sid now)) = rlRate rl" "rlBurst (snd (Allow rl sid now)) = rlBurst rl"
  "other \<noteq> sid \<Longrightarrow> rlSessions (snd (Allow rl sid now)) other = rlSessions rl other"
  by (auto simp: Allow_def Let_def split: option.splits)

lemma burst_left:
  assumes "is_fin (rlRate rl)" "0 < rlBurst rl" "rlBurst rl \<le> 2 ^ 53" "tokens_left rl sid now m"
  shows "answers_of sid sids (fst (allow_all rl (map (\<lambda>s. (s, now)) sids))) =
    replicate (min (count_list sids sid) (nat m)) True @ replicate (count_list sids sid - nat m) False"
  using assms
proof (induction sids arbitrary: rl m)
  case (Cons s sids)
  obtain ok d rl' where A: "Allow rl s now = ((ok, d), rl')" by (metis prod.exhaust)
  have fr: "rlRate rl' = rlRate rl" "rlBurst rl' = rlBurst rl" "t \<noteq> s \<Longrightarrow> rlSessions rl' t = rlSessions rl t" for t
    using Allow_frame(1,2) [of rl s now] Allow_frame(3) [of t s rl now] A by auto
  obtain oks rl'' where R: "allow_all rl' (map (\<lambda>s. (s, now)) sids) = (oks, rl'')" by (cases "allow_all rl' (map (\<lambda>s. (s, now)) sids)")
  show ?case
  proof (cases "s = sid")
    case True
    have ok: "ok = (0 < m)" and left: "tokens_left rl' sid now (if 0 < m then m - 1 else 0)"
      using Allow_now [OF Cons.prems] A True by auto
    have IH: "answers_of sid sids oks = replicate (min (count_list sids sid) (nat (if 0 < m then m - 1 else 0))) True @
        replicate (count_list sids sid - nat (if 0 < m then m - 1 else 0)) False"
      using Cons.IH [OF _ _ _ left] Cons.prems(1-3) fr R by simp
    have m: "0 \<le> m" using Cons.prems(4) by (simp add: tokens_left_def)
    show ?thesis
    proof (cases "0 < m")
      case True
      then obtain k where k: "nat m = Suc k" by (cases "nat m") auto
      then have "nat (m - 1) = k" by linarith
      with k show ?thesis using IH True ok A R \<open>s = sid\<close> by simp
    next
      case False
      then show ?thesis using IH ok A R m \<open>s = sid\<close> by simp
    qed
  next
    case False
    have "tokens_left rl' sid now m" using Cons.prems(4) fr False by (auto simp: tokens_left_def split: option.splits)
    from Cons.IH [OF _ _ _ this] show ?thesis using Cons.prems(1-3) fr R A False by simp
  qed
qed (simp add: answers_of_def)

text \<open>C28: 
  Of the requests of one session that arrive at one instant, whatever other sessions ask in between,
  exactly the first \<open>burst\<close> are admitted.
\<close>

theorem burst_exact:
  assumes "is_fin rate" "burst \<le> 2 ^ 53"
  shows "answers_of sid sids (fst (allow_all (NewRateLimiter rate burst) (map (\<lambda>s. (s, now)) sids))) =
    (let b = (if burst \<le> 0 then 5 else nat burst); n = count_list sids sid
     in replicate (min n b) True @ replicate (n - b) False)"
proof -
  let ?rl = "NewRateLimiter rate burst"
  have b: "nat (rlBurst ?rl) = (if burst \<le> 0 then 5 else nat burst)" by (simp add: NewRateLimiter_def)
  have "tokens_left ?rl sid now (rlBurst ?rl)" by (simp add: tokens_left_def NewRateLimiter_def)
  from burst_left [OF _ _ _ this] show ?thesis
    using assms unfolding b Let_def by (simp add: NewRateLimiter_def split: if_splits)
qed

theorem burst_exact_witness:
  "answers_of ''a'' [''a'', ''b'', ''a'', ''a''] (fst (allow_all (NewRateLimiter (Fin 10) 2) (map (\<lambda>s. (s, 77)) [''a'', ''b'', ''a'', ''a'']))) =
    [True, True, False]"
  using burst_exact [of "Fin 10" 2 "''a''" "[''a'', ''b'', ''a'', ''a'']" 77] by (simp add: numeral_2_eq_2)

definition buckets_ok :: "RateLimiter \<Rightarrow> int \<Rightarrow> bool" where
  "buckets_ok rl now \<longleftrightarrow> is_fin (rlRate rl) \<and> 0 < fval (rlRate rl) \<and> 0 < rlBurst rl \<and> rlBurst rl \<le> 2 ^ 53 \<and>
     (\<forall>b \<in> ran (rlSessions rl). is_fin (bkTokens b) \<and> 0 \<le> fval (bkTokens b) \<and> fval (bkTokens b) \<le> of_int (rlBurst rl) \<and>
        bkLastRefill b \<le> now)"

lemma fmul_nonneg: "fle (Fin 0) x \<Longrightarrow> is_fin y \<Longrightarrow> 0 < fval y \<Longrightarrow> fle (Fin 0) (fmul x y)"
  using rnds_mono [of 0 "fval x * fval y" "signbit x \<noteq> signbit y" "signbit x \<noteq> signbit y"]
  by (cases x; cases y) (auto simp: fle0_iff rnds_def)

lemma rnds_nonneg: "0 \<le> q \<Longrightarrow> fle (Fin 0) (rnds s q)"
  using rnd_nonneg [of q] by (auto simp: rnds_def fle0_iff)

lemma seconds_f_nonneg:
  assumes "0 \<le> d"
  shows "fle (Fin 0) (seconds_f d)"
proof -
  have s: "0 \<le> sgn d * (\<bar>d\<bar> div 1000000000)" "0 \<le> sgn d * (\<bar>d\<bar> mod 1000000000)" using assms by (auto simp: sgn_if)
  have n: "fle (Fin 0) (f_of_int k)" if "0 \<le> k" for k using that by (auto simp: f_of_int_def intro: rnd_nonneg)
  have "fle (Fin 0) (fdiv (f_of_int (sgn d * (\<bar>d\<bar> mod 1000000000))) (Fin 1000000000))"
    using n [OF s(2)] by (cases "f_of_int (sgn d * (\<bar>d\<bar> mod 1000000000))") (auto simp: fle0_iff intro!: rnds_nonneg [unfolded fle0_iff])
  then show ?thesis using n [OF s(1)] unfolding seconds_f_def Let_def by (intro fadd_nonneg)
qed

lemma fmin_capped: "fle (Fin 0) y \<Longrightarrow> 0 \<le> c \<Longrightarrow> is_fin (fmin (Fin c) y) \<and> 0 \<le> fval (fmin (Fin c) y) \<and> fval (fmin (Fin c) y) \<le> c"
  by (cases y) (auto simp: fle0_iff fmin_def isNaN_def)

lemma refilled_range:
  assumes "buckets_ok rl now" "b \<in> ran (rlSessions rl)" "now \<le> later"
  shows "is_fin (refilled rl b later) \<and> 0 \<le> fval (refilled rl b later) \<and> fval (refilled rl b later) \<le> of_int (rlBurst rl)"
proof -
  have "fle (Fin 0) (seconds_f (time_sub later (bkLastRefill b)))"
    using assms by (intro seconds_f_nonneg) (auto simp: buckets_ok_def time_sub_def)
  then have "fle (Fin 0) (fadd (bkTokens b) (fmul (seconds_f (time_sub later (bkLastRefill b))) (rlRate rl)))"
    using assms by (intro fadd_nonneg fmul_nonneg) (auto simp: buckets_ok_def fle0_iff)
  moreover have "f_of_int (rlBurst rl) = Fin (of_int (rlBurst rl))" "(0 :: rat) \<le> of_int (rlBurst rl)"
    using assms(1) by (auto simp: buckets_ok_def f_of_int_exact)
  ultimately show ?thesis unfolding refilled_def by (simp add: fmin_capped)
qed

lemma fsub_one_range:
  assumes "is_fin x" "1 \<le> fval x" "fval x \<le> of_int n" "0 < n" "n \<le> 2 ^ 53"
  shows "is_fin (fsub x (Fin 1)) \<and> 0 \<le> fval (fsub x (Fin 1)) \<and> fval (fsub x (Fin 1)) \<le> of_int n"
proof -
  have r: "rep (of_int n)" using assms(4,5) by (intro rep_int) auto
  have "(of_int n :: rat) \<le> of_int (2 ^ 53)" using assms(5) unfolding of_int_le_iff .
  also have "\<dots> < pow2 1024" using pow2_of_nat [of 53] pow2_strict [of 53 1024] by simp
  finally have lt: "(of_int n :: rat) < pow2 1024" .
  have f: "is_fin (fsub x (Fin 1))" using assms by (intro is_fin_fsub_bound [OF _ _ _ r lt]) auto
  have "0 \<le> rnd_rat (fval x - 1)" using assms by (intro rnd_rat_nonneg) auto
  moreover have "rnd_rat (fval x - 1) \<le> of_int n" using assms r by (intro rnd_rat_le_rep) auto
  ultimately show ?thesis using f assms(1) by (simp add: fval_fsub)
qed

lemma Allow_buckets_ok:
  assumes "buckets_ok rl now" "now \<le> later"
  shows "buckets_ok (snd (Allow rl sid later)) later"
proof -
  have B: "is_fin (rlRate rl)" "0 < fval (rlRate rl)" "0 < rlBurst rl" "rlBurst rl \<le> 2 ^ 53" using assms(1) by (auto simp: buckets_ok_def)
  have old: "is_fin (bkTokens b) \<and> 0 \<le> fval (bkTokens b) \<and> fval (bkTokens b) \<le> of_int (rlBurst rl) \<and> bkLastRefill b \<le> later"
    if "rlSessions rl s = Some b" for s b
    using that assms by (force simp: buckets_ok_def ran_def)
  have new: "is_fin (fsub (Fin (of_int (rlBurst rl))) (Fin 1)) \<and> 0 \<le> fval (fsub (Fin (of_int (rlBurst rl))) (Fin 1)) \<and>
      fval (fsub (Fin (of_int (rlBurst rl))) (Fin 1)) \<le> of_int (rlBurst rl)"
    using B(3,4) by (intro fsub_one_range) auto
  have step: "snd (Allow rl sid later) = rl\<lparr>rlSessions := (rlSessions rl)(sid \<mapsto> nb)\<rparr> \<Longrightarrow>
      is_fin (bkTokens nb) \<and> 0 \<le> fval (bkTokens nb) \<and> fval (bkTokens nb) \<le> of_int (rlBurst rl) \<Longrightarrow> bkLastRefill nb = later \<Longrightarrow> ?thesis" for nb
    using B old by (auto simp: buckets_ok_def ran_def split: if_splits)
  show ?thesis
  proof (cases "rlSessions rl sid")
    case None
    show ?thesis using None B new f_of_int_exact [of "rlBurst rl"] by (intro step [of "\<lparr>bkTokens = fsub (f_of_int (rlBurst rl)) (Fin 1), bkLastRefill = later\<rparr>"]) (auto simp: Allow_def)
  next
    case (Some b)
    let ?t = "refilled rl b later"
    have t: "is_fin ?t" "0 \<le> fval ?t" "fval ?t \<le> of_int (rlBurst rl)"
      using refilled_range [OF assms(1) _ assms(2), of b] Some by (auto simp: ran_def)
    show ?thesis
    proof (cases "fle (Fin 1) ?t")
      case True
      then have "1 \<le> fval ?t" using t(1) by simp
      then show ?thesis using True Some fsub_one_range [OF t(1) _ t(3) B(3,4)]
        by (intro step [of "\<lparr>bkTokens = fsub ?t (Fin 1), bkLastRefill = later\<rparr>"]) (auto simp: Allow_def)
    next
      case False
      then show ?thesis using Some t by (intro step [of "\<lparr>bkTokens = ?t, bkLastRefill = later\<rparr>"]) (auto simp: Allow_def Let_def)
    qed
  qed
qed

lemma allow_all_buckets_ok:
  "buckets_ok rl now \<Longrightarrow> sorted (now # map snd rs) \<Longrightarrow> buckets_ok (snd (allow_all rl rs)) (last (now # map snd rs))"
proof (induction rs arbitrary: rl now)
  case (Cons r rs)
  obtain sid later where r: "r = (sid, later)" by (cases r)
  from Cons.prems have "buckets_ok (snd (Allow rl sid later)) later" by (intro Allow_buckets_ok) (auto simp: r)
  from Cons.IH [OF this] Cons.prems(2) show ?case by (auto simp: r Let_def split: prod.splits)
qed simp

lemma allow_all_burst: "rlBurst (snd (allow_all rl qs)) = rlBurst rl"
proof (induction qs arbitrary: rl)
  case (Cons q qs)
  obtain sid t where q: "q = (sid, t)" by (cases q)
  obtain ok d rl' where A: "Allow rl sid t = ((ok, d), rl')" by (metis prod.exhaust)
  show ?case using Cons.IH [of rl'] Allow_frame(2) [of rl sid t] by (cases "allow_all rl' qs") (simp add: q A)
qed simp

text \<open>
  Over any run of requests whose times do not go back, every bucket holds a finite number of tokens
  between zero and the burst.
\<close>

theorem tokens_bounded:
  assumes "is_fin rate" "burst \<le> 2 ^ 53" "sorted (map snd rs)"
    and "rlSessions (snd (allow_all (NewRateLimiter rate burst) rs)) sid = Some b"
  shows "is_fin (bkTokens b) \<and> 0 \<le> fval (bkTokens b) \<and> fval (bkTokens b) \<le> of_int (if burst \<le> 0 then 5 else burst)"
proof (cases rs)
  case Nil
  then show ?thesis using assms(4) by (simp add: NewRateLimiter_def)
next
  case (Cons r rs')
  have "buckets_ok (NewRateLimiter rate burst) (snd r)"
    using assms(1,2) by (auto simp: buckets_ok_def NewRateLimiter_def not_le)
  from allow_all_buckets_ok [OF this, of rs] assms(3)
  have ok: "buckets_ok (snd (allow_all (NewRateLimiter rate burst) rs)) (last (snd r # map snd rs))" by (simp add: Cons)
  show ?thesis using ok assms(4) allow_all_burst [of "NewRateLimiter rate burst" rs]
    by (auto simp: buckets_ok_def ran_def NewRateLimiter_def)
qed

theorem tokens_bounded_witness:
  "\<exists>b. rlSessions (snd (allow_all (NewRateLimiter (Fin 10) 2) [(''a'', 5), (''a'', 300000005), (''a'', 300000005)])) ''a'' = Some b \<and>
     is_fin (bkTokens b) \<and> 0 \<le> fval (bkTokens b) \<and> fval (bkTokens b) \<le> 2"
proof -
  have "rlSessions (snd (allow_all (NewRateLimiter (Fin 10) 2) [(''a'', 5), (''a'', 300000005), (''a'', 300000005)])) ''a'' =
      Some \<lparr>bkTokens = Fin 0, bkLastRefill = 300000005\<rparr>"
    by code_simp
  then show ?thesis
    using tokens_bounded [of "Fin 10" 2 "[(''a'', 5), (''a'', 300000005), (''a'', 300000005)]" "''a''" "\<lparr>bkTokens = Fin 0, bkLastRefill = 300000005\<rparr>"]
    by simp
qed

end
