(* ===== verification/AiService.thy ===== *)
theory AiService
  imports AiPrompts AiControls
begin

text \<open>
  \<^verbatim>\<open>internal/ai/service.go\<close> and \<^verbatim>\<open>fallback.go\<close>: the service that sends the prompts to a provider under
  the controller, and the service around it that answers every valid request, with a summary of the
  events where the provider gave none.  The controller is the only state.
\<close>

section \<open>The service\<close>

record ai_service =
  svController :: Controller
  svModel :: string
  svTemperature :: f64

definition NewService :: "Controller \<Rightarrow> ai_service" where
  "NewService c = \<lparr>svController = c, svModel = ''gpt-4o-mini'', svTemperature = rnd (7 / 10)\<rparr>"

definition WithModel :: "string \<Rightarrow> ai_service \<Rightarrow> ai_service" where
  "WithModel model s = (if model \<noteq> [] then s\<lparr>svModel := model\<rparr> else s)"

definition WithTemperature :: "f64 \<Rightarrow> ai_service \<Rightarrow> ai_service" where
  "WithTemperature temperature s = (if flt (Fin 0) temperature then s\<lparr>svTemperature := temperature\<rparr> else s)"

definition provider_request :: "ai_service \<Rightarrow> PromptSet \<Rightarrow> ProviderRequest" where
  "provider_request s prompts =
    \<lparr>pqModel = svModel s,
     pqMessages = [\<lparr>msRole = ''system'', msContent = psSystemPrompt prompts\<rparr>, \<lparr>msRole = ''user'', msContent = psUserPrompt prompts\<rparr>],
     pqTemperature = svTemperature s, pqMaxTokens = tbMaxCompletionTokens (coBudget (svController s))\<rparr>"

definition prompt_chars :: "GatewayRequest \<Rightarrow> int" where
  "prompt_chars req = int (length (psSystemPrompt (prompt_Build req)) + length (psUserPrompt (prompt_Build req)))"

definition analysis_items :: "GatewayRequest \<Rightarrow> int" where
  "analysis_items req = int (length (ciEvents (gqInput req)) + length (ciSignals (gqInput req)))"

definition gateway_response :: "GatewayRequest \<Rightarrow> ProviderResponse \<Rightarrow> GatewayResponse" where
  "gateway_response req resp =
    \<lparr>grSummary = prContent resp, grReferencedEvents = extractEventIDs (ciEvents (gqInput req)), grSignals = ciSignals (gqInput req),
     grProviderInfo = \<lparr>piModel = prModel resp, piFinishReason = prFinishReason resp, piUsage = prUsage resp,
       piRetryAfterSeconds = None, piProviderName = []\<rparr>,
     grState = [], grError = None\<rparr>"

definition service_Analyze :: "ai_service \<Rightarrow> provider_world \<Rightarrow> GatewayRequest \<Rightarrow>
    (ai_err + GatewayResponse) \<times> ai_service \<times> trace_event list" where
  "service_Analyze s w req =
    (case gateway_Validate req of
       Some e \<Rightarrow> (Inl (Sentinel e), s, [])
     | None \<Rightarrow>
       let (r, c, t) = Execute (svController s) w (scSessionID (ciSession (gqInput req))) (gqMode req) (prompt_chars req)
             (analysis_items req) (provider_request s (prompt_Build req))
       in (case r of Inl e \<Rightarrow> Inl e | Inr resp \<Rightarrow> Inr (gateway_response req resp), s\<lparr>svController := c\<rparr>, t))"

section \<open>The fallback\<close>

definition statusFromError :: "ai_err \<Rightarrow> string" where
  "statusFromError e =
    (if as_rate_limit e \<noteq> None then ''rate_limited''
     else if err_is e ErrBudgetExceeded then ''budget_limited''
     else if err_is e ErrRateLimited then ''rate_limited''
     else if err_is e ErrRetryExhausted \<or> err_is e ErrProviderNotAvailable \<or> err_is e ErrProviderTimeout then ''provider_error''
     else if err_is e ErrInvalidProviderResponse then ''invalid_response''
     else if err_is e ErrCanceled \<or> err_is e ErrDeadlineExceeded then ''provider_error''
     else ''provider_error'')"

definition fallback_info :: "ai_err \<Rightarrow> string \<Rightarrow> ProviderResultInfo" where
  "fallback_info e status =
    (case as_rate_limit e of
       None \<Rightarrow> \<lparr>piModel = [], piFinishReason = status, piUsage = no_usage, piRetryAfterSeconds = None, piProviderName = []\<rparr>
     | Some (retryAfter, name, model) \<Rightarrow>
       \<lparr>piModel = model, piFinishReason = status, piUsage = no_usage, piRetryAfterSeconds = retryAfter, piProviderName = name\<rparr>)"

definition buildFallbackResponse :: "GatewayRequest \<Rightarrow> ai_err \<Rightarrow> string \<Rightarrow> GatewayResponse" where
  "buildFallbackResponse req e status =
    \<lparr>grSummary = buildFallbackSummary (gqInput req) status, grReferencedEvents = extractEventIDs (ciEvents (gqInput req)),
     grSignals = ciSignals (gqInput req), grProviderInfo = fallback_info e status, grState = status, grError = Some e\<rparr>"

definition accept_answer :: "GatewayRequest \<Rightarrow> ai_err + GatewayResponse \<Rightarrow> GatewayResponse" where
  "accept_answer req r =
    (case r of
       Inr resp \<Rightarrow>
         if grSummary resp = [] then buildFallbackResponse req (Sentinel ErrInvalidProviderResponse) ''invalid_response''
         else if length (ciEvents (gqInput req)) > 0 \<and> length (grReferencedEvents resp) = 0
           then buildFallbackResponse req (Sentinel ErrInvalidProviderResponse) ''invalid_response''
         else resp\<lparr>grState := ''success''\<rparr>
     | Inl e \<Rightarrow> buildFallbackResponse req e (statusFromError e))"

definition fallback_Analyze :: "ai_service \<Rightarrow> provider_world \<Rightarrow> GatewayRequest \<Rightarrow>
    (ai_err + GatewayResponse) \<times> ai_service \<times> trace_event list" where
  "fallback_Analyze s w req =
    (case gateway_Validate req of
       Some e \<Rightarrow> (Inl (Sentinel e), s, [])
     | None \<Rightarrow> let (r, s', t) = service_Analyze s w req in (Inr (accept_answer req r), s', t))"

section \<open>Lemmas\<close>

definition known_statuses :: "string list" where
  "known_statuses = [''success'', ''provider_error'', ''invalid_response'', ''budget_limited'', ''rate_limited'']"

lemma statusFromError_known: "statusFromError e \<in> set known_statuses"
  by (auto simp: statusFromError_def known_statuses_def)

lemma buildFallbackResponse_simps [simp]:
  "grSummary (buildFallbackResponse req e st) \<noteq> []" "grState (buildFallbackResponse req e st) = st"
  "grReferencedEvents (buildFallbackResponse req e st) = extractEventIDs (ciEvents (gqInput req))"
  "grSignals (buildFallbackResponse req e st) = ciSignals (gqInput req)" "grError (buildFallbackResponse req e st) = Some e"
  by (simp_all add: buildFallbackResponse_def buildFallbackSummary_not_empty)

lemma gateway_response_simps [simp]:
  "grReferencedEvents (gateway_response req resp) = extractEventIDs (ciEvents (gqInput req))"
  "grSignals (gateway_response req resp) = ciSignals (gqInput req)" "grSummary (gateway_response req resp) = prContent resp"
  by (simp_all add: gateway_response_def)

lemma length_extractEventIDs [simp]: "length (extractEventIDs es) = length es"
  by (simp add: extractEventIDs_def)

text \<open>What every answer satisfies, whatever the provider did.\<close>

definition answers :: "GatewayRequest \<Rightarrow> GatewayResponse \<Rightarrow> bool" where
  "answers req resp \<longleftrightarrow> grSummary resp \<noteq> [] \<and> grState resp \<in> set known_statuses \<and>
     grReferencedEvents resp = extractEventIDs (ciEvents (gqInput req)) \<and> grSignals resp = ciSignals (gqInput req)"

lemma accept_answer_answers:
  "(case r of Inr resp \<Rightarrow> \<exists>p. resp = gateway_response req p | Inl e \<Rightarrow> True) \<Longrightarrow> answers req (accept_answer req r)"
  using statusFromError_known by (auto simp: answers_def accept_answer_def known_statuses_def split: sum.splits)

lemma service_Analyze_valid:
  assumes "gateway_Validate req = None"
  shows "service_Analyze s w req =
    (let (r, c, t) = Execute (svController s) w (scSessionID (ciSession (gqInput req))) (gqMode req) (prompt_chars req)
       (analysis_items req) (provider_request s (prompt_Build req))
     in (case r of Inl e \<Rightarrow> Inl e | Inr resp \<Rightarrow> Inr (gateway_response req resp), s\<lparr>svController := c\<rparr>, t))"
  using assms by (simp add: service_Analyze_def)

lemma fallback_answers:
  "fst (fallback_Analyze s w req) = Inr resp \<Longrightarrow> gateway_Validate req = None \<and> answers req resp"
  by (auto simp: fallback_Analyze_def service_Analyze_valid Let_def split: option.splits prod.splits sum.splits
      intro!: accept_answer_answers)

lemma fallback_total:
  "(\<exists>resp. fst (fallback_Analyze s w req) = Inr resp \<and> answers req resp) \<longleftrightarrow> gateway_Validate req = None"
proof
  assume "gateway_Validate req = None"
  then have "\<exists>resp. fst (fallback_Analyze s w req) = Inr resp"
    by (simp add: fallback_Analyze_def Let_def split: prod.splits)
  then show "\<exists>resp. fst (fallback_Analyze s w req) = Inr resp \<and> answers req resp" using fallback_answers by blast
qed (use fallback_answers in blast)

section \<open>What a request spends\<close>

definition refused :: "Controller \<Rightarrow> string \<Rightarrow> int \<Rightarrow> bool" where
  "refused c sid now = (case coRateLimiter c of None \<Rightarrow> False | Some rl \<Rightarrow> \<not> fst (fst (Allow rl sid now)))"

definition over_budget :: "Controller \<Rightarrow> int \<Rightarrow> int \<Rightarrow> bool" where
  "over_budget c chars items = (chars > tbMaxPromptChars (coBudget c) \<or> items > tbMaxEventsPerRequest (coBudget c))"

lemma calls_hooks [simp]:
  "calls (hook b (HookAfterRequest s m d p q e)) = []" "calls (hook b (HookBudgetExceeded s x tb)) = []" "calls (hook b (HookRateLimited s d)) = []"
  by (auto simp: calls_def hook_def)

lemma PreCheck_cases:
  "PreCheck c sid chars items now = (e, c', t) \<Longrightarrow>
    calls t = [] \<and> coAccount c' = coAccount c \<and> coCostEstimator c' = coCostEstimator c \<and>
    (e = None \<longleftrightarrow> \<not> over_budget c chars items \<and> \<not> refused c sid now) \<and>
    (case e of None \<Rightarrow> True | Some x \<Rightarrow> statusFromError x = (if over_budget c chars items then ''budget_limited'' else ''rate_limited''))"
  by (auto simp: PreCheck_def CheckPromptChars_def CheckEvents_def over_budget_def refused_def Let_def statusFromError_def
      split: if_splits option.splits prod.splits)

lemma RecordResult_calls: "RecordResult c sid mode d r = (c', t) \<Longrightarrow> calls t = []"
  by (auto simp: RecordResult_def Let_def split: sum.splits)

lemma RecordResult_account: "RecordResult c sid mode d r = (c', t) \<Longrightarrow> coAccount c' = (case r of Inl e \<Rightarrow> coAccount c | Inr resp \<Rightarrow>
    map_option (\<lambda>a. account_Record a sid (usPromptTokens (prUsage resp)) (usCompletionTokens (prUsage resp))
      (EstimateCost (coCostEstimator c) (usPromptTokens (prUsage resp)) (usCompletionTokens (prUsage resp)))) (coAccount c))"
  by (auto simp: RecordResult_def Let_def split: sum.splits option.splits)

lemma ExecuteWithRetries_calls: "calls (snd (ExecuteWithRetries c sid ctx sleep fn)) \<noteq> []"
proof -
  let ?m = "nat (if rpMaxAttempts (coRetry c) < 1 then 1 else rpMaxAttempts (coRetry c))"
  obtain r t where e: "retry_loop c sid ctx sleep fn ?m 0 (OtherError []) = (r, t)" by (cases "retry_loop c sid ctx sleep fn ?m 0 (OtherError [])")
  moreover have "?m > 0" by simp
  ultimately obtain n where "calls t = [0..<n]" "0 < n" using retry_loop_calls [of c sid ctx sleep fn ?m 0 "OtherError []" r t] by blast
  with e show ?thesis by (simp add: ExecuteWithRetries_def)
qed

definition charge :: "Controller \<Rightarrow> string \<Rightarrow> ai_err + ProviderResponse \<Rightarrow> UsageAccount option" where
  "charge c sid r = (case r of Inl e \<Rightarrow> coAccount c | Inr resp \<Rightarrow>
     map_option (\<lambda>a. account_Record a sid (usPromptTokens (prUsage resp)) (usCompletionTokens (prUsage resp))
       (EstimateCost (coCostEstimator c) (usPromptTokens (prUsage resp)) (usCompletionTokens (prUsage resp)))) (coAccount c))"

lemma Execute_spends:
  assumes "Execute c w sid mode chars items req = (r, c', t)"
  shows "calls t = [] \<longleftrightarrow> over_budget c chars items \<or> refused c sid (pwNow w)"
    and "coAccount c' = charge c sid r"
    and "calls t = [] \<Longrightarrow> \<exists>e. r = Inl e \<and> statusFromError e = (if over_budget c chars items then ''budget_limited'' else ''rate_limited'')"
proof -
  obtain e c1 t1 where P: "PreCheck c sid chars items (pwNow w) = (e, c1, t1)" by (metis prod.exhaust)
  note pre = PreCheck_cases [OF P]
  have "(calls t = [] \<longleftrightarrow> over_budget c chars items \<or> refused c sid (pwNow w)) \<and> coAccount c' = charge c sid r \<and>
      (calls t = [] \<longrightarrow> (\<exists>e. r = Inl e \<and> statusFromError e = (if over_budget c chars items then ''budget_limited'' else ''rate_limited'')))"
  proof (cases e)
    case (Some x)
    then have "r = Inl x" "c' = c1" "t = t1" using assms P by (auto simp: Execute_def)
    then show ?thesis using pre Some by (auto simp: charge_def)
  next
    case None
    obtain r2 t2 where E: "ExecuteWithRetries c1 sid (pwCtx w) (pwSleep w) (pwAnalyze w req) = (r2, t2)"
      by (cases "ExecuteWithRetries c1 sid (pwCtx w) (pwSleep w) (pwAnalyze w req)")
    obtain c3 t3 where R: "RecordResult c1 sid mode (pwDuration w) r2 = (c3, t3)" by (cases "RecordResult c1 sid mode (pwDuration w) r2")
    have eq: "r = r2" "c' = c3" "t = t1 @ t2 @ t3" using assms P None E R by (auto simp: Execute_def)
    have "calls t \<noteq> []" using ExecuteWithRetries_calls [of c1 sid "pwCtx w" "pwSleep w" "pwAnalyze w req"] E eq(3) by simp
    then show ?thesis using pre None RecordResult_account [OF R] eq by (auto simp: charge_def cong: sum.case_cong)
  qed
  then show "calls t = [] \<longleftrightarrow> over_budget c chars items \<or> refused c sid (pwNow w)" "coAccount c' = charge c sid r"
    "calls t = [] \<Longrightarrow> \<exists>e. r = Inl e \<and> statusFromError e = (if over_budget c chars items then ''budget_limited'' else ''rate_limited'')"
    by auto
qed

text \<open>C29: 
  The provider is called exactly when the budget and the rate limit allow the request; otherwise the
  answer of the fallback says which of them was exceeded.
\<close>

theorem limits_before_provider:
  assumes "gateway_Validate req = None"
    and "over = over_budget (svController s) (prompt_chars req) (analysis_items req)"
    and "late = refused (svController s) (scSessionID (ciSession (gqInput req))) (pwNow w)"
  shows "(calls (snd (snd (fallback_Analyze s w req))) = []) = (over \<or> late) \<and>
    (over \<or> late \<longrightarrow> map_sum id grState (fst (fallback_Analyze s w req)) = Inr (if over then ''budget_limited'' else ''rate_limited''))"
proof -
  let ?sid = "scSessionID (ciSession (gqInput req))"
  obtain r c t where E: "Execute (svController s) w ?sid (gqMode req) (prompt_chars req) (analysis_items req)
      (provider_request s (prompt_Build req)) = (r, c, t)" by (metis prod.exhaust)
  note X = Execute_spends [OF E]
  have t: "snd (snd (fallback_Analyze s w req)) = t" using assms(1) E by (simp add: fallback_Analyze_def service_Analyze_valid)
  have "map_sum id grState (fst (fallback_Analyze s w req)) = Inr (if over then ''budget_limited'' else ''rate_limited'')" if no: "over \<or> late"
  proof -
    obtain e where "r = Inl e" "statusFromError e = (if over then ''budget_limited'' else ''rate_limited'')"
      using X(1,3) no assms(2,3) by blast
    then show ?thesis using assms(1) E by (simp add: fallback_Analyze_def service_Analyze_valid accept_answer_def)
  qed
  then show ?thesis using X(1) assms(2,3) unfolding t by blast
qed

section \<open>Examples\<close>

definition demo_hooks :: ObservabilityHooks where
  "demo_hooks = \<lparr>hkAfterRequest = False, hkBudgetExceeded = False, hkRateLimited = False, hkRetryAttempt = False\<rparr>"

definition demo_controller :: "int \<Rightarrow> Controller" where
  "demo_controller maxChars = \<lparr>coBudget = \<lparr>tbMaxPromptChars = maxChars, tbMaxCompletionTokens = 2000, tbMaxEventsPerRequest = 50\<rparr>,
     coRetry = DefaultRetryPolicy, coRateLimiter = Some (NewRateLimiter (Fin 10) 1), coAccount = Some Map.empty,
     coCostEstimator = DefaultCostEstimator, coHooks = demo_hooks\<rparr>"

definition demo_input :: ConsumerInput where
  "demo_input = \<lparr>ciContractVersion = AiContractVersionV1, ciSession = \<lparr>scSessionID = ''s1'', scTrack = None, scLayout = None\<rparr>, ciEvents = [],
     ciSignals = [\<lparr>sgKind = ''pace'', sgSeverity = ''low'', sgSummary = ''slow'', sgDetails = []\<rparr>],
     ciSafety = \<lparr>smRedactionPolicy = ''none'', smAllowedInputKinds = [''derived_signals'']\<rparr>, ciConstraints = []\<rparr>"

definition demo_gateway_request :: GatewayRequest where
  "demo_gateway_request = \<lparr>gqInput = demo_input, gqMode = ''coach''\<rparr>"

definition demo_world :: "(nat \<Rightarrow> ai_err + ProviderResponse) \<Rightarrow> provider_world" where
  "demo_world fn = \<lparr>pwNow = 0, pwDuration = 1, pwCtx = (\<lambda>_. None), pwSleep = (\<lambda>_ _. None), pwAnalyze = (\<lambda>_. fn)\<rparr>"

lemma demo_request_valid: "gateway_Validate demo_gateway_request = None"
  by code_simp

lemma demo_over_budget:
  "over_budget (svController (NewService (demo_controller 100))) (prompt_chars demo_gateway_request) (analysis_items demo_gateway_request) = True"
  by code_simp

lemma demo_not_refused: "refused (svController (NewService (demo_controller 100))) ''s1'' 0 = False"
  by code_simp

theorem limits_before_provider_witness:
  "calls (snd (snd (fallback_Analyze (NewService (demo_controller 100)) (demo_world (\<lambda>_. Inr no_response)) demo_gateway_request))) = [] \<and>
   map_sum id grState (fst (fallback_Analyze (NewService (demo_controller 100)) (demo_world (\<lambda>_. Inr no_response)) demo_gateway_request)) =
     Inr ''budget_limited''"
  using limits_before_provider [OF demo_request_valid demo_over_budget [symmetric], of False "demo_world (\<lambda>_. Inr no_response)"]
    demo_not_refused by (simp add: demo_gateway_request_def demo_input_def demo_world_def)

end
