(* ===== verification/OpenRouter.thy ===== *)
theory OpenRouter
  imports AiControls
begin

text \<open>
  \<^verbatim>\<open>internal/ai/openrouter.go\<close>: the client of the OpenRouter service.  The transport and the decoding
  of the bodies are arguments: a reply carries its status, its \<^verbatim>\<open>Retry-After\<close> header and what
  \<^verbatim>\<open>encoding/json\<close> makes of its body as an answer and as an error; \<^verbatim>\<open>http.ParseTime\<close> and
  \<^verbatim>\<open>strconv.ParseFloat\<close> are arguments too.
\<close>

record OpenRouterConfig =
  orAPIKey :: string
  orBaseURL :: string
  orHTTPReferer :: string
  orTitle :: string

definition NewOpenRouterAdapter :: "OpenRouterConfig \<Rightarrow> OpenRouterConfig" where
  "NewOpenRouterAdapter config = (if orBaseURL config = [] then config\<lparr>orBaseURL := ''https://openrouter.ai/api/v1''\<rparr> else config)"

record openRouterRequest =
  oqModel :: string
  oqMessages :: "Message list"
  oqTemperature :: f64
  oqMaxTokens :: int

record http_request =
  hqURL :: string
  hqHeaders :: "(string \<times> string) list"
  hqBody :: openRouterRequest

record openRouterChoice =
  ocContent :: string
  ocFinishReason :: string

record openRouterResponse =
  osModel :: string
  osChoices :: "openRouterChoice list"
  osUsage :: "UsageInfo option"

text \<open>A raw JSON value that is only read as a number or as a string.\<close>

datatype raw_json = RawMissing | RawNull | RawNumber f64 | RawString string | RawOther

record openRouterErrorMetadata =
  omRetryAfterSeconds :: raw_json
  omRetryAfterSecondsRaw :: raw_json
  omProviderName :: string

record http_reply =
  hrCode :: int
  hrRetryAfter :: string
  hrAnswer :: "openRouterResponse option"
  hrErrorBody :: "openRouterErrorMetadata option"

text \<open>The transport fails (and the context may be over by then), the body cannot be read, or there is a reply.\<close>

datatype http_outcome = RequestFailed bool | ReadFailed | Reply http_reply

record http_env =
  heBadURL :: "string \<Rightarrow> bool"
  heDo :: "http_request \<Rightarrow> nat \<Rightarrow> http_outcome"
  heParseTime :: "string \<Rightarrow> int option"
  heParseFloat :: "string \<Rightarrow> f64 option"
  heNow :: "nat \<Rightarrow> int"

section \<open>Retry-After\<close>

definition maxRetryAfterSeconds :: int where "maxRetryAfterSeconds = 2 ^ 63 - 1"

definition positiveCeilSeconds :: "f64 \<Rightarrow> int option" where
  "positiveCeilSeconds seconds =
    (if fle seconds (Fin 0) \<or> isNaN seconds \<or> isInf0 seconds \<or> flt (f_of_int maxRetryAfterSeconds) seconds then None
     else Some (f_to_int64 (fceil seconds)))"

definition parsePositiveSeconds :: "http_env \<Rightarrow> raw_json \<Rightarrow> int option" where
  "parsePositiveSeconds env raw =
    (case raw of
       RawNumber n \<Rightarrow> positiveCeilSeconds n
     | RawString s \<Rightarrow> (case heParseFloat env (trim_space s) of Some x \<Rightarrow> positiveCeilSeconds x | None \<Rightarrow> None)
     | _ \<Rightarrow> None)"

definition metadata_retryAfterSeconds :: "http_env \<Rightarrow> openRouterErrorMetadata \<Rightarrow> int option" where
  "metadata_retryAfterSeconds env m =
    (case parsePositiveSeconds env (omRetryAfterSeconds m) of
       Some s \<Rightarrow> Some s
     | None \<Rightarrow> parsePositiveSeconds env (omRetryAfterSecondsRaw m))"

definition parse_http_date :: "http_env \<Rightarrow> nat \<Rightarrow> string \<Rightarrow> int option" where
  "parse_http_date env k value =
    (case heParseTime env value of None \<Rightarrow> None | Some t \<Rightarrow> positiveCeilSeconds (seconds_f (time_sub t (heNow env k))))"

definition parseRetryAfterHeader :: "http_env \<Rightarrow> nat \<Rightarrow> string \<Rightarrow> int option" where
  "parseRetryAfterHeader env k header =
    (let value = trim_space header in
     if value = [] then None
     else case atoi value of
       Some seconds \<Rightarrow> if seconds > 0 then Some seconds else parse_http_date env k value
     | None \<Rightarrow> parse_http_date env k value)"

definition parseRateLimitError :: "http_env \<Rightarrow> nat \<Rightarrow> http_reply \<Rightarrow> string \<Rightarrow> ai_err" where
  "parseRateLimitError env k reply model =
    (let header = parseRetryAfterHeader env k (hrRetryAfter reply) in
     case hrErrorBody reply of
       None \<Rightarrow> ProviderRateLimit header [] model (Sentinel ErrProviderNotAvailable)
     | Some m \<Rightarrow>
       ProviderRateLimit (case header of Some s \<Rightarrow> Some s | None \<Rightarrow> metadata_retryAfterSeconds env m)
         (omProviderName m) model (Sentinel ErrProviderNotAvailable))"

section \<open>The request and its answer\<close>

definition mapHTTPError :: "http_env \<Rightarrow> nat \<Rightarrow> http_reply \<Rightarrow> string \<Rightarrow> ai_err option" where
  "mapHTTPError env k reply model =
    (let code = hrCode reply in
     if code = 401 \<or> code = 403 then Some (Sentinel ErrProviderRejected)
     else if code = 400 then Some (Sentinel ErrProviderRejected)
     else if code = 429 then Some (parseRateLimitError env k reply model)
     else if code \<ge> 500 then Some (Sentinel ErrProviderNotAvailable)
     else if code < 200 \<or> code \<ge> 300 then Some (Sentinel ErrProviderNotAvailable)
     else None)"

definition trim_right_slash :: "string \<Rightarrow> string" where
  "trim_right_slash s = rev (dropWhile (\<lambda>c. c = CHR ''/'') (rev s))"

definition chatEndpoint :: "OpenRouterConfig \<Rightarrow> string" where
  "chatEndpoint a = trim_right_slash (orBaseURL a) @ ''/chat/completions''"

definition openrouter_request :: "OpenRouterConfig \<Rightarrow> ProviderRequest \<Rightarrow> http_request" where
  "openrouter_request a req =
    \<lparr>hqURL = chatEndpoint a,
     hqHeaders = [(''Content-Type'', ''application/json''), (''Authorization'', ''Bearer '' @ orAPIKey a)]
       @ (if orHTTPReferer a \<noteq> [] then [(''HTTP-Referer'', orHTTPReferer a)] else [])
       @ (if orTitle a \<noteq> [] then [(''X-OpenRouter-Title'', orTitle a)] else []),
     hqBody = \<lparr>oqModel = pqModel req, oqMessages = pqMessages req, oqTemperature = pqTemperature req, oqMaxTokens = pqMaxTokens req\<rparr>\<rparr>"

text \<open>JSON has no numbers for not-a-number and the infinities.\<close>

definition openrouter_Analyze :: "OpenRouterConfig \<Rightarrow> http_env \<Rightarrow> ProviderRequest \<Rightarrow> nat \<Rightarrow> ai_err + ProviderResponse" where
  "openrouter_Analyze a env req k =
    (if isNaN (pqTemperature req) \<or> isInf0 (pqTemperature req) then Inl (Sentinel ErrProviderNotAvailable)
     else if heBadURL env (chatEndpoint a) then Inl (Sentinel ErrProviderNotAvailable)
     else case heDo env (openrouter_request a req) k of
       RequestFailed ctx_over \<Rightarrow> Inl (Sentinel (if ctx_over then ErrProviderTimeout else ErrProviderNotAvailable))
     | ReadFailed \<Rightarrow> Inl (Sentinel ErrProviderNotAvailable)
     | Reply reply \<Rightarrow>
       if hrCode reply \<noteq> 200
       then (case mapHTTPError env k reply (pqModel req) of Some e \<Rightarrow> Inl e | None \<Rightarrow> Inr no_response)
       else case hrAnswer reply of
         None \<Rightarrow> Inl (Sentinel ErrProviderNotAvailable)
       | Some answer \<Rightarrow>
         case osChoices answer of
           [] \<Rightarrow> Inl (Sentinel ErrInvalidProviderResponse)
         | choice # _ \<Rightarrow> Inr \<lparr>prContent = ocContent choice, prModel = osModel answer, prFinishReason = ocFinishReason choice,
             prUsage = (case osUsage answer of Some u \<Rightarrow> u | None \<Rightarrow> no_usage)\<rparr>)"

section \<open>Lemmas\<close>

lemma max_seconds_float: "f_of_int maxRetryAfterSeconds = Fin (of_int (2 ^ 63))"
  by code_simp

lemma fceil_range:
  "is_fin x \<Longrightarrow> 0 < fval x \<Longrightarrow> fval x \<le> of_int (2 ^ 63) \<Longrightarrow>
    f_to_int64 (fceil x) = (if \<lceil>fval x\<rceil> = 2 ^ 63 then - (2 ^ 63) else \<lceil>fval x\<rceil>)"
proof (cases x)
  case (Fin q)
  assume a: "is_fin x" "0 < fval x" "fval x \<le> of_int (2 ^ 63)"
  then have q: "0 < q" "q \<le> of_int (2 ^ 63)" using Fin by simp_all
  then have c: "0 < \<lceil>q\<rceil>" "\<lceil>q\<rceil> \<le> 2 ^ 63" unfolding ceiling_le_iff by simp_all
  have e: "fceil x = Fin (of_int \<lceil>q\<rceil>)" using c(1) Fin by (simp add: Let_def)
  have "f_to_int64 (Fin (of_int n)) = (if n = 2 ^ 63 then - (2 ^ 63) else n)" if "0 < n" "n \<le> 2 ^ 63" for n :: int
    using that by (auto simp: f_to_int64_def Let_def rat_trunc_def)
  from this [OF c] show ?thesis using Fin unfolding e by simp
qed auto

text \<open>
  A delay read from a reply is the number of seconds rounded up, hence positive; only the largest
  number the test admits is out of range of the conversion.
\<close>

theorem retry_seconds_exact:
  "positiveCeilSeconds x = (if is_fin x \<and> 0 < fval x \<and> fval x \<le> of_int (2 ^ 63)
     then Some (if \<lceil>fval x\<rceil> = 2 ^ 63 then - (2 ^ 63) else \<lceil>fval x\<rceil>) else None)"
proof (cases "is_fin x")
  case True
  have "fle x (Fin 0) \<longleftrightarrow> fval x \<le> 0" "flt (Fin (of_int (2 ^ 63))) x \<longleftrightarrow> of_int (2 ^ 63) < fval x" "\<not> isNaN x" "\<not> isInf0 x"
    using fle_fin [OF True, of "Fin 0"] flt_fin [OF _ True, of "Fin (of_int (2 ^ 63))"] True is_fin_iff [of x] by simp_all
  then show ?thesis using True fceil_range [OF True]
    unfolding positiveCeilSeconds_def max_seconds_float by (auto simp del: of_int_power of_int_numeral)
next
  case False
  then have "isNaN x \<or> isInf0 x" by (simp add: is_fin_iff)
  with False show ?thesis unfolding positiveCeilSeconds_def by auto
qed

definition retried_code :: "int \<Rightarrow> bool" where
  "retried_code code = (code < 200 \<or> 300 \<le> code \<and> code \<notin> {400, 401, 403})"

lemma rate_limit_retryable: "IsRetryable (parseRateLimitError env k reply model)"
  by (auto simp: parseRateLimitError_def Let_def IsRetryable_def split: option.splits)

text \<open>C32: 
  Which replies are retried: those outside 2xx but a rejected request or key.  The codes of 2xx
  other than 200 are no error, so their reply is the empty answer.
\<close>

theorem reply_classification:
  assumes "is_fin (pqTemperature req)" "\<not> heBadURL env (chatEndpoint a)" "heDo env (openrouter_request a req) k = Reply reply"
    and "hrCode reply \<noteq> 200"
  shows "retried (openrouter_Analyze a env req) k = retried_code (hrCode reply) \<and>
    (openrouter_Analyze a env req k = Inr no_response) = (200 < hrCode reply \<and> hrCode reply < 300)"
proof -
  have e: "openrouter_Analyze a env req k = (case mapHTTPError env k reply (pqModel req) of Some e \<Rightarrow> Inl e | None \<Rightarrow> Inr no_response)"
    using assms by (simp add: openrouter_Analyze_def is_fin_iff)
  have r: "IsRetryable (Sentinel ErrProviderNotAvailable)" "\<not> IsRetryable (Sentinel ErrProviderRejected)" by (simp_all add: IsRetryable_def)
  show ?thesis using assms(4) r rate_limit_retryable [of env k reply "pqModel req"]
    by (auto simp: e retried_def retried_code_def mapHTTPError_def Let_def)
qed

definition demo_http :: "int \<Rightarrow> http_env" where
  "demo_http code = \<lparr>heBadURL = (\<lambda>_. False),
     heDo = (\<lambda>_ _. Reply \<lparr>hrCode = code, hrRetryAfter = '' 7 '', hrAnswer = None, hrErrorBody = None\<rparr>),
     heParseTime = (\<lambda>_. None), heParseFloat = (\<lambda>_. None), heNow = (\<lambda>_. 0)\<rparr>"

definition demo_provider_request :: ProviderRequest where
  "demo_provider_request = \<lparr>pqModel = ''m'', pqMessages = [], pqTemperature = rnd (7 / 10), pqMaxTokens = 10\<rparr>"

definition demo_openrouter :: OpenRouterConfig where
  "demo_openrouter = NewOpenRouterAdapter \<lparr>orAPIKey = ''k'', orBaseURL = [], orHTTPReferer = [], orTitle = []\<rparr>"

theorem reply_classification_witness:
  "map (\<lambda>code. retried (openrouter_Analyze demo_openrouter (demo_http code) demo_provider_request) 0) [202, 400, 429, 503] = [False, False, True, True] \<and>
   openrouter_Analyze demo_openrouter (demo_http 202) demo_provider_request 0 = Inr no_response"
proof -
  have fin: "is_fin (pqTemperature demo_provider_request)" by code_simp
  have R: "retried (openrouter_Analyze demo_openrouter (demo_http code) demo_provider_request) 0 = retried_code code \<and>
      (openrouter_Analyze demo_openrouter (demo_http code) demo_provider_request 0 = Inr no_response) = (200 < code \<and> code < 300)" if "code \<noteq> 200" for code
    using reply_classification [OF fin, of "demo_http code" demo_openrouter 0 "\<lparr>hrCode = code, hrRetryAfter = '' 7 '', hrAnswer = None, hrErrorBody = None\<rparr>"] that
    by (simp add: demo_http_def)
  show ?thesis using R [of 202] R [of 400] R [of 429] R [of 503] by (simp add: retried_code_def)
qed

end
