(* ===== verification/AiAudit.thy ===== *)
theory AiAudit
  imports AiService OpenRouter Rules
begin

text \<open>
  \<^verbatim>\<open>internal/ai/audit.go\<close> and \<^verbatim>\<open>compose.go\<close>: the record kept of every analysis, its store and the
  service around the fallback that writes it; then the pipeline the program composes from its
  configuration, with the provider it selects.
\<close>

section \<open>Identifiers\<close>

definition hex_digit :: "nat \<Rightarrow> char" where
  "hex_digit n = ''0123456789abcdef'' ! n"

definition hex_bytes :: "nat list \<Rightarrow> string" where
  "hex_bytes bs = concat (map (\<lambda>b. [hex_digit (b div 16), hex_digit (b mod 16)]) bs)"

text \<open>From the sixteen bytes read from the random source.\<close>

definition UUID_NewID :: "nat list \<Rightarrow> string" where
  "UUID_NewID b = hex_bytes (take 4 b) @ ''-'' @ hex_bytes (take 2 (drop 4 b)) @ ''-'' @ hex_bytes (take 2 (drop 6 b)) @ ''-''
     @ hex_bytes (take 2 (drop 8 b)) @ ''-'' @ hex_bytes (drop 10 b)"

definition Sequential_NewID :: "int \<Rightarrow> string \<times> int" where
  "Sequential_NewID n = (''trace-'' @ itoa (add64 n 1), add64 n 1)"

section \<open>Records and their store\<close>

record AuditRecord =
  auTraceID :: string
  auSessionID :: string
  auMode :: string
  auSourceEventIDs :: "string list"
  auProviderModel :: string
  auPromptTemplateVersion :: string
  auConstraintSummary :: string
  auResponseSummary :: string
  auResponseSummaryLimited :: bool
  auPromptTokenCount :: int
  auCompletionTokenCount :: int
  auTotalTokenCount :: int
  auDurationMs :: int
  auState :: string
  auErrorMessage :: "ai_err option"
  auRedactionVerified :: bool
  auCreatedAt :: int

text \<open>The index points into the slice; a stored record is never changed, so it may hold copies.\<close>

record MemoryAuditStore =
  maRecords :: "AuditRecord list"
  maByTraceID :: "string \<rightharpoonup> AuditRecord"

definition NewMemoryAuditStore :: MemoryAuditStore where
  "NewMemoryAuditStore = \<lparr>maRecords = [], maByTraceID = Map.empty\<rparr>"

definition audit_Record :: "AuditRecord \<Rightarrow> MemoryAuditStore \<Rightarrow> MemoryAuditStore" where
  "audit_Record r s = \<lparr>maRecords = maRecords s @ [r], maByTraceID = (maByTraceID s)(auTraceID r \<mapsto> r)\<rparr>"

definition GetByTraceID :: "MemoryAuditStore \<Rightarrow> string \<Rightarrow> AuditRecord option" where
  "GetByTraceID s traceID = maByTraceID s traceID"

definition audit_ListBySession :: "MemoryAuditStore \<Rightarrow> string \<Rightarrow> AuditRecord list" where
  "audit_ListBySession s sessionID = filter (\<lambda>r. auSessionID r = sessionID) (maRecords s)"

definition audit_Len :: "MemoryAuditStore \<Rightarrow> nat" where
  "audit_Len s = length (maRecords s)"

section \<open>The audited service\<close>

definition buildConstraintSummary :: "string list \<Rightarrow> string" where
  "buildConstraintSummary constraints =
    (if length constraints = 0 then ''no constraints'' else itoa (int (length constraints)) @ '' constraints'')"

definition PromptTemplateVersion :: string where "PromptTemplateVersion = ''telemetry-one.prompt.v1''"

definition no_gateway_response :: GatewayResponse where
  "no_gateway_response = \<lparr>grSummary = [], grReferencedEvents = [], grSignals = [],
     grProviderInfo = \<lparr>piModel = [], piFinishReason = [], piUsage = no_usage, piRetryAfterSeconds = None, piProviderName = []\<rparr>,
     grState = [], grError = None\<rparr>"

text \<open>The trace identifier, the duration in nanoseconds and the time of the record come from outside.\<close>

definition audit_record_of :: "string \<Rightarrow> int \<Rightarrow> int \<Rightarrow> GatewayRequest \<Rightarrow> ai_err + GatewayResponse \<Rightarrow> AuditRecord" where
  "audit_record_of traceID duration now req r =
    (let resp = (case r of Inr resp \<Rightarrow> resp | Inl e \<Rightarrow> no_gateway_response);
         usage = piUsage (grProviderInfo resp);
         answered = (\<not> isl r)
     in \<lparr>auTraceID = traceID, auSessionID = scSessionID (ciSession (gqInput req)), auMode = gqMode req,
         auSourceEventIDs = extractEventIDs (ciEvents (gqInput req)),
         auProviderModel = (if answered then piModel (grProviderInfo resp) else []),
         auPromptTemplateVersion = PromptTemplateVersion,
         auConstraintSummary = buildConstraintSummary (ciConstraints (gqInput req)),
         auResponseSummary = (if answered then if length (grSummary resp) > 500 then take 500 (grSummary resp) else grSummary resp else []),
         auResponseSummaryLimited = (answered \<and> length (grSummary resp) > 500),
         auPromptTokenCount = (if answered then usPromptTokens usage else 0),
         auCompletionTokenCount = (if answered then usCompletionTokens usage else 0),
         auTotalTokenCount = (if answered then usTotalTokens usage else 0),
         auDurationMs = div64 duration 1000000,
         auState = (if answered then if grState resp = [] then ''success'' else grState resp else ''error''),
         auErrorMessage = (case r of Inl e \<Rightarrow> Some e | Inr resp \<Rightarrow> grError resp),
         auRedactionVerified = True, auCreatedAt = now\<rparr>)"

text \<open>The logger may fail, which is ignored: then the store is as it was.\<close>

definition audited_Analyze :: "bool \<Rightarrow> string \<Rightarrow> int \<Rightarrow> int \<Rightarrow> ai_service \<Rightarrow> provider_world \<Rightarrow> GatewayRequest \<Rightarrow> MemoryAuditStore \<Rightarrow>
    (ai_err + GatewayResponse) \<times> ai_service \<times> MemoryAuditStore \<times> trace_event list" where
  "audited_Analyze logged traceID duration now s w req store =
    (let (r, s', t) = fallback_Analyze s w req;
         rec = audit_record_of traceID duration now req r
     in (r, s', if logged then audit_Record rec store else store, t))"

section \<open>The composed pipeline\<close>

record PipelineConfig =
  pcAIMaxPromptChars :: int
  pcAIMaxCompletionTokens :: int
  pcAIMaxEventsPerRequest :: int
  pcAIRetryMaxAttempts :: int
  pcAIRetryBaseBackoffMs :: int
  pcAIRetryMaxBackoffMs :: int
  pcAIRatePerSecond :: f64
  pcAIRateBurst :: int
  pcAICostPerPromptToken :: f64
  pcAICostPerCompletionToken :: f64
  pcAIModel :: string
  pcAIProvider :: string
  pcOpenRouterAPIKey :: string
  pcOpenRouterBaseURL :: string
  pcOpenRouterHTTPReferer :: string
  pcOpenRouterTitle :: string

text \<open>The warnings are the names of the fields they are about.\<close>

definition pipeline_Validate :: "PipelineConfig \<Rightarrow> string list" where
  "pipeline_Validate p = (if pcAIProvider p = ''openrouter'' \<and> pcOpenRouterAPIKey p = [] then [''OpenRouterAPIKey''] else [])"

text \<open>
  The lower case of a text is read for ASCII texts only, for which \<open>to_lower\<close> of the rules is exact.
\<close>

fun contains :: "string \<Rightarrow> string \<Rightarrow> bool" where
  "contains [] sub = (sub = [])"
| "contains (c # s) sub = (has_prefix (c # s) sub \<or> contains s sub)"

definition isEngineerAnalysisRequest :: "Message list \<Rightarrow> bool" where
  "isEngineerAnalysisRequest messages =
    list_ex (\<lambda>m. let content = to_lower (msContent m) in
      contains content ''telemetry one engineer'' \<or> contains content ''structured engineer events'' \<or> contains content ''engineer events'') messages"

definition FakeProvider_Analyze :: "ProviderRequest \<Rightarrow> nat \<Rightarrow> ai_err + ProviderResponse" where
  "FakeProvider_Analyze req k =
    (let content =
       (if isEngineerAnalysisRequest (pqMessages req)
        then ''Fake race engineer analysis: reviewed structured engineer events only. Prioritize the highest-severity corner events, smooth inputs on the next lap, and use referenced events for follow-up.''
        else case pqMessages req of m # _ \<Rightarrow> ''AI analysis result for '' @ msContent m | [] \<Rightarrow> ''AI analysis result'')
     in Inr \<lparr>prContent = content, prModel = pqModel req, prFinishReason = ''stop'',
         prUsage = \<lparr>usPromptTokens = 10, usCompletionTokens = 20, usTotalTokens = 30\<rparr>\<rparr>)"

definition no_hooks :: ObservabilityHooks where
  "no_hooks = \<lparr>hkAfterRequest = False, hkBudgetExceeded = False, hkRateLimited = False, hkRetryAttempt = False\<rparr>"

definition compose_controller :: "PipelineConfig \<Rightarrow> Controller" where
  "compose_controller p =
    \<lparr>coBudget = \<lparr>tbMaxPromptChars = pcAIMaxPromptChars p, tbMaxCompletionTokens = pcAIMaxCompletionTokens p,
       tbMaxEventsPerRequest = pcAIMaxEventsPerRequest p\<rparr>,
     coRetry = \<lparr>rpMaxAttempts = pcAIRetryMaxAttempts p, rpBaseBackoffMs = pcAIRetryBaseBackoffMs p, rpMaxBackoffMs = pcAIRetryMaxBackoffMs p\<rparr>,
     coRateLimiter = Some (NewRateLimiter (pcAIRatePerSecond p) (pcAIRateBurst p)),
     coAccount = Some Map.empty,
     coCostEstimator = \<lparr>cePerPromptToken = pcAICostPerPromptToken p, cePerCompletionToken = pcAICostPerCompletionToken p\<rparr>,
     coHooks = no_hooks\<rparr>"

definition compose_adapter :: "PipelineConfig \<Rightarrow> http_env \<Rightarrow> ProviderRequest \<Rightarrow> nat \<Rightarrow> ai_err + ProviderResponse" where
  "compose_adapter p env =
    (if pcAIProvider p = ''openrouter''
     then openrouter_Analyze (NewOpenRouterAdapter \<lparr>orAPIKey = pcOpenRouterAPIKey p, orBaseURL = pcOpenRouterBaseURL p,
       orHTTPReferer = pcOpenRouterHTTPReferer p, orTitle = pcOpenRouterTitle p\<rparr>) env
     else FakeProvider_Analyze)"

definition ComposePipelineWithAudit :: "PipelineConfig \<Rightarrow> http_env \<Rightarrow>
    ai_service \<times> (ProviderRequest \<Rightarrow> nat \<Rightarrow> ai_err + ProviderResponse)" where
  "ComposePipelineWithAudit p env = (WithModel (pcAIModel p) (NewService (compose_controller p)), compose_adapter p env)"

section \<open>Identifiers name their bytes\<close>

fun hex_value :: "char \<Rightarrow> nat" where
  "hex_value c = (let n = of_char c in if n < 58 then n - 48 else n - 87)"

fun read_hex :: "string \<Rightarrow> nat list" where
  "read_hex (a # b # s) = (if a = CHR ''-'' then read_hex (b # s) else (16 * hex_value a + hex_value b) # read_hex s)"
| "read_hex _ = []"

lemma hex_digit_value:
  assumes "n < 16"
  shows "hex_value (hex_digit n) = n \<and> hex_digit n \<noteq> CHR ''-''"
proof -
  have "list_all (\<lambda>n. hex_value (hex_digit n) = n \<and> hex_digit n \<noteq> CHR ''-'') [0..<16]" by code_simp
  then show ?thesis using assms by (simp add: list_all_iff)
qed

lemma read_hex_bytes [simp]:
  "list_all (\<lambda>x. x < 256) b \<Longrightarrow> read_hex (hex_bytes b @ s) = b @ read_hex s"
proof (induction b)
  case (Cons x b)
  have "x div 16 < 16" "x mod 16 < 16" using Cons.prems by auto
  with Cons show ?case using hex_digit_value [of "x div 16"] hex_digit_value [of "x mod 16"]
    by (simp add: hex_bytes_def del: hex_value.simps)
qed (simp add: hex_bytes_def)

lemma read_hex_dash [simp]: "s \<noteq> [] \<Longrightarrow> read_hex (CHR ''-'' # s) = read_hex s"
  by (cases s) auto

text \<open>C31: The sixteen random bytes can be read back from an identifier, so distinct bytes give distinct ones.\<close>

theorem uuid_roundtrip:
  assumes "length b = 16" "list_all (\<lambda>x. x < 256) b"
  shows "read_hex (UUID_NewID b) = b"
proof -
  have ok: "list_all (\<lambda>x. x < 256) (take n (drop m b))" "list_all (\<lambda>x. x < 256) (take n b)" "list_all (\<lambda>x. x < 256) (drop m b)" for n m
    using assms(2) by (auto simp: list_all_iff dest!: in_set_takeD in_set_dropD)
  have e: "read_hex (hex_bytes (drop 10 b)) = drop 10 b" using read_hex_bytes [OF ok(3) [of 10], of "[]"] by simp
  have n: "hex_bytes (drop 10 b) \<noteq> []" using e assms(1) by auto
  have c: "take 2 (drop 8 b) @ drop 10 b = drop 8 b" "take 2 (drop 6 b) @ drop 8 b = drop 6 b" "take 2 (drop 4 b) @ drop 6 b = drop 4 b"
    using append_take_drop_id [of 2 "drop 8 b"] append_take_drop_id [of 2 "drop 6 b"] append_take_drop_id [of 2 "drop 4 b"] by simp_all
  have "take 4 b @ take 2 (drop 4 b) @ take 2 (drop 6 b) @ take 2 (drop 8 b) @ drop 10 b = b" unfolding c by (rule append_take_drop_id)
  then show ?thesis using e n by (simp add: UUID_NewID_def ok)
qed

theorem uuid_roundtrip_witness:
  "read_hex (UUID_NewID [0, 255, 1, 2, 3, 4, 5, 6, 7, 8, 9, 10, 11, 12, 13, 171]) = [0, 255, 1, 2, 3, 4, 5, 6, 7, 8, 9, 10, 11, 12, 13, 171]"
  by (rule uuid_roundtrip) simp_all

section \<open>Every analysis is answered and recorded\<close>

record analysis =
  anTraceID :: string
  anDuration :: int
  anNow :: int
  anWorld :: provider_world
  anRequest :: GatewayRequest

fun pipeline_run :: "ai_service \<Rightarrow> MemoryAuditStore \<Rightarrow> analysis list \<Rightarrow> (ai_err + GatewayResponse) list \<times> ai_service \<times> MemoryAuditStore" where
  "pipeline_run s store [] = ([], s, store)"
| "pipeline_run s store (a # as) =
    (let (r, s', store', _) = audited_Analyze True (anTraceID a) (anDuration a) (anNow a) s (anWorld a) (anRequest a) store;
         (rs, s'', store'') = pipeline_run s' store' as
     in (r # rs, s'', store''))"

definition answered_well :: "GatewayRequest \<Rightarrow> ai_err + GatewayResponse \<Rightarrow> bool" where
  "answered_well req r = (case r of Inr resp \<Rightarrow> gateway_Validate req = None \<and> answers req resp
     | Inl e \<Rightarrow> map_option Sentinel (gateway_Validate req) = Some e)"

definition audit_index_ok :: "MemoryAuditStore \<Rightarrow> bool" where
  "audit_index_ok s \<longleftrightarrow> (\<forall>id. GetByTraceID s id = find (\<lambda>r. auTraceID r = id) (rev (maRecords s)))"

lemma audit_Record_index: "audit_index_ok s \<Longrightarrow> audit_index_ok (audit_Record r s)"
  by (auto simp: audit_index_ok_def GetByTraceID_def audit_Record_def)

lemma fallback_answered_well: "fallback_Analyze s w req = (r, s', t) \<Longrightarrow> answered_well req r"
proof (cases "gateway_Validate req")
  case None
  assume "fallback_Analyze s w req = (r, s', t)"
  then show ?thesis using fallback_total [of s w req] None by (auto simp: answered_well_def)
next
  case (Some e)
  assume "fallback_Analyze s w req = (r, s', t)"
  then show ?thesis using Some by (auto simp: answered_well_def fallback_Analyze_def)
qed

lemma pipeline_run_spec:
  "pipeline_run s store as = (rs, s', store') \<Longrightarrow> audit_index_ok store \<Longrightarrow>
    maRecords store' = maRecords store @ map2 (\<lambda>a r. audit_record_of (anTraceID a) (anDuration a) (anNow a) (anRequest a) r) as rs \<and>
    list_all2 (\<lambda>a r. answered_well (anRequest a) r) as rs \<and> audit_index_ok store'"
proof (induction as arbitrary: s store rs)
  case (Cons a as)
  obtain r s1 t where F: "fallback_Analyze s (anWorld a) (anRequest a) = (r, s1, t)" by (metis prod.exhaust)
  let ?store = "audit_Record (audit_record_of (anTraceID a) (anDuration a) (anNow a) (anRequest a) r) store"
  obtain rs1 where R: "pipeline_run s1 ?store as = (rs1, s', store')" "rs = r # rs1"
    using Cons.prems(1) F by (auto simp: audited_Analyze_def Let_def split: prod.splits)
  show ?case using Cons.IH [OF R(1) audit_Record_index [OF Cons.prems(2)]] R(2) fallback_answered_well [OF F]
    by (auto simp: audit_Record_def)
qed simp

text \<open>C30: 
  Every request of a run is answered (the valid ones with a summary, a known status and the identifiers
  of their events), exactly one record is kept for each, in order, and looking a trace identifier up
  finds its latest record.
\<close>

theorem analyses_answered_and_recorded:
  "case pipeline_run (fst (ComposePipelineWithAudit p env)) NewMemoryAuditStore as of (rs, _, store) \<Rightarrow>
     list_all2 (\<lambda>a r. answered_well (anRequest a) r) as rs \<and>
     maRecords store = map2 (\<lambda>a r. audit_record_of (anTraceID a) (anDuration a) (anNow a) (anRequest a) r) as rs \<and>
     audit_index_ok store"
proof -
  obtain rs s' store where R: "pipeline_run (fst (ComposePipelineWithAudit p env)) NewMemoryAuditStore as = (rs, s', store)"
    by (metis prod.exhaust)
  have "audit_index_ok NewMemoryAuditStore" by (simp add: audit_index_ok_def GetByTraceID_def NewMemoryAuditStore_def)
  from pipeline_run_spec [OF R this] show ?thesis unfolding R by (simp add: NewMemoryAuditStore_def)
qed

end
