(* ===== verification/Advice.thy ===== *)
theory Advice
  imports AdviceSignals AiAudit Service
begin

text \<open>
  \<^verbatim>\<open>internal/api/race_engineer_advice.go\<close> and the analysis handler of \<^verbatim>\<open>routes.go\<close>: the handlers that
  use the AI service.  The service is the argument \<open>analyze\<close>, as it is an interface of the code; what the
  handlers rely on is the locale \<open>analysis_service\<close>, interpreted on the audited pipeline.
\<close>

section \<open>The request\<close>

record raceEngineerAdviceRequest =
  aqSinceUnixMs :: "int option"
  aqMaxEvents :: "int option"

record raceEngineerAdviceWindow =
  awSinceUnixMs :: "int option"
  awMaxEvents :: int
  awSelectedEventCount :: int
  awDerivedSignalCount :: int
  awFromUnixMs :: int
  awToUnixMs :: int
  awProviderCalled :: bool

record raceEngineerAdviceResponse =
  arSessionID :: string
  arState :: string
  arMessage :: string
  arReferencedEvents :: "string list"
  arSignals :: "Signal list"
  arWindow :: raceEngineerAdviceWindow
  arProviderInfo :: ProviderResultInfo
  arGeneratedAtUnixMs :: int

definition decodeRaceEngineerAdviceRequest :: "raceEngineerAdviceRequest body \<Rightarrow> raceEngineerAdviceRequest option" where
  "decodeRaceEngineerAdviceRequest b =
    (case b of BodyJSON r \<Rightarrow> Some r | BodyMalformed \<Rightarrow> None | _ \<Rightarrow> Some \<lparr>aqSinceUnixMs = None, aqMaxEvents = None\<rparr>)"

definition normalizeAdviceMaxEvents :: "int option \<Rightarrow> int" where
  "normalizeAdviceMaxEvents maxEvents =
    (case maxEvents of None \<Rightarrow> 5 | Some n \<Rightarrow> if n < 1 then 1 else if n > 10 then 10 else n)"

section \<open>Events\<close>

definition event_earlier :: "EngineerEvent \<Rightarrow> EngineerEvent \<Rightarrow> bool" where
  "event_earlier a b = (eTimestampUnixMs a < eTimestampUnixMs b)"

definition selectRaceEngineerAdviceEvents :: "EngineerEvent list \<Rightarrow> int option \<Rightarrow> int \<Rightarrow> EngineerEvent list" where
  "selectRaceEngineerAdviceEvents stored since maxEvents =
    (let matching = sort_slice event_earlier
           (filter (\<lambda>e. \<not> (case since of None \<Rightarrow> False | Some t \<Rightarrow> eTimestampUnixMs e < t)) stored)
     in if int (length matching) > maxEvents then drop (nat (int (length matching) - maxEvents)) matching else matching)"

fun window_loop :: "int \<Rightarrow> int \<Rightarrow> EngineerEvent list \<Rightarrow> int \<times> int" where
  "window_loop a b [] = (a, b)"
| "window_loop a b (e # es) =
    window_loop (if eTimestampUnixMs e < a then eTimestampUnixMs e else a) (if eTimestampUnixMs e > b then eTimestampUnixMs e else b) es"

definition buildRaceEngineerAdviceWindow :: "int option \<Rightarrow> int \<Rightarrow> EngineerEvent list \<Rightarrow> int \<Rightarrow> bool \<Rightarrow> raceEngineerAdviceWindow" where
  "buildRaceEngineerAdviceWindow since maxEvents selected derived called =
    (let (a, b) = (case selected of [] \<Rightarrow> (0, 0) | e # es \<Rightarrow> window_loop (eTimestampUnixMs e) (eTimestampUnixMs e) es)
     in \<lparr>awSinceUnixMs = since, awMaxEvents = maxEvents, awSelectedEventCount = int (length selected), awDerivedSignalCount = derived,
         awFromUnixMs = a, awToUnixMs = b, awProviderCalled = called\<rparr>)"

definition referencedEventIDs :: "EngineerEvent list \<Rightarrow> string list" where
  "referencedEventIDs selected = map eEventID selected"

section \<open>The track of the advice\<close>

type_synonym catalog_refs = "CatalogRef option \<times> CatalogRef option"

fun selectAdviceEventCatalogRefs :: "EngineerEvent list \<Rightarrow> catalog_refs" where
  "selectAdviceEventCatalogRefs [] = (None, None)"
| "selectAdviceEventCatalogRefs (e # es) =
    (if eTrack e \<noteq> None \<and> eLayout e \<noteq> None then (eTrack e, eLayout e) else selectAdviceEventCatalogRefs es)"

fun persisted_layouts_loop :: "string \<Rightarrow> CatalogTrack \<Rightarrow> CatalogLayout list \<Rightarrow> (CatalogRef \<times> CatalogRef) option" where
  "persisted_layouts_loop layoutID track [] = None"
| "persisted_layouts_loop layoutID track (layout # layouts) =
    (if loID layout \<noteq> layoutID then persisted_layouts_loop layoutID track layouts
     else Some (catalog_name_ref (trID track) (trName track), catalog_name_ref (loID layout) (loName layout)))"

fun persisted_loop :: "Session \<Rightarrow> CatalogTrack list \<Rightarrow> catalog_refs" where
  "persisted_loop session [] = (None, None)"
| "persisted_loop session (track # tracks) =
    (if trID track \<noteq> sDetectedTrackID session then persisted_loop session tracks
     else case persisted_layouts_loop (sDetectedLayoutID session) track (trLayouts track) of
       Some (t, l) \<Rightarrow> (Some t, Some l)
     | None \<Rightarrow> persisted_loop session tracks)"

definition resolvePersistedSessionCatalogRefs :: "Session \<Rightarrow> Catalog \<Rightarrow> catalog_refs" where
  "resolvePersistedSessionCatalogRefs session c =
    (if sDetectedTrackID session = [] \<or> sDetectedLayoutID session = [] then (None, None) else persisted_loop session (caTracks c))"

definition resolveManualSessionTrackRef :: "Session \<Rightarrow> Catalog \<Rightarrow> CatalogRef option" where
  "resolveManualSessionTrackRef session c =
    (if sTrackID session = [] then None
     else map_option (\<lambda>t. catalog_name_ref (trID t) (trName t)) (find (\<lambda>t. trID t = sTrackID session) (caTracks c)))"

definition detectTrackLayoutFromFrames :: "ctx \<Rightarrow> string \<Rightarrow> FrameStore \<Rightarrow> Catalog \<Rightarrow> catalog_refs" where
  "detectTrackLayoutFromFrames ctx sessionID store c =
    (case store_frames store ctx sessionID of Inl _ \<Rightarrow> (None, None)
     | Inr frames \<Rightarrow>
       if length frames = 0 then (None, None)
       else if \<not> hasLapOneBegan frames then (None, None)
       else let r = DetectTrack frames c zero_options
            in if dsStatus r \<noteq> ''detected'' then (None, None)
               else (case (dsTrackID r, dsTrackName r) of (Some i, Some n) \<Rightarrow> Some (catalog_name_ref i n) | _ \<Rightarrow> None,
                     case (dsLayoutID r, dsLayoutName r) of (Some i, Some n) \<Rightarrow> Some (catalog_name_ref i n) | _ \<Rightarrow> None))"

definition advice_catalog_refs :: "ctx \<Rightarrow> Session \<Rightarrow> EngineerEvent list \<Rightarrow> FrameStore \<Rightarrow> Catalog \<Rightarrow> catalog_refs" where
  "advice_catalog_refs ctx session selected store c =
    (let (track, layout) = selectAdviceEventCatalogRefs selected;
         (track, layout) = (if track = None \<or> layout = None then resolvePersistedSessionCatalogRefs session c else (track, layout));
         (track, layout) = (if track = None \<or> layout = None
           then (case detectTrackLayoutFromFrames ctx (sID session) store c of
                   (Some t, Some l) \<Rightarrow> (Some t, Some l) | _ \<Rightarrow> (track, layout))
           else (track, layout))
     in (if track = None then resolveManualSessionTrackRef session c else track, layout))"

definition advice_safety :: SafetyMetadata where
  "advice_safety = \<lparr>smRedactionPolicy = ''structured engineer events, derived metrics, and derived signals only; raw telemetry frames, provider keys, prompts, and model configuration are not accepted from clients'',
    smAllowedInputKinds = [''engineer_events'', ''derived_metrics'', ''derived_signals'', ''catalog_refs'', ''session_context'',
      ''unknown_states_explicit'']\<rparr>"

definition advice_constraints :: "string list" where
  "advice_constraints = [''Base advice only on the selected stored engineer events plus backend-derived signals and their supporting evidence.'',
     ''Do not infer raw telemetry values or use client-supplied prompts, provider names, model names, or API keys.'',
     ''Keep advice concise and actionable for a live race engineer text response.'']"

definition buildRaceEngineerAdviceGatewayRequest ::
  "ctx \<Rightarrow> Session \<Rightarrow> EngineerEvent list \<Rightarrow> FrameStore \<Rightarrow> Catalog \<Rightarrow> Signal list \<Rightarrow> GatewayRequest" where
  "buildRaceEngineerAdviceGatewayRequest ctx session selected store c derived =
    (let (track, layout) = advice_catalog_refs ctx session selected store c in
     \<lparr>gqInput =
        \<lparr>ciContractVersion = AiContractVersionV1,
         ciSession = \<lparr>scSessionID = sID session, scTrack = track, scLayout = layout\<rparr>,
         ciEvents = selected, ciSignals = derived,
         ciSafety = advice_safety, ciConstraints = advice_constraints\<rparr>,
      gqMode = ''engineer''\<rparr>)"

section \<open>The handlers\<close>

text \<open>The bodies these routes add to those of the other ones; an error of the service is answered with 400 and its text.\<close>

datatype ai_reply =
    Plain reply
  | AdviceReply raceEngineerAdviceResponse
  | AnalysisReply GatewayResponse
  | AnalysisRefused ai_err

definition listRaceEngineerAdviceCompletedLaps :: "lap_repo \<Rightarrow> ctx \<Rightarrow> string \<Rightarrow> CompletedLap list" where
  "listRaceEngineerAdviceCompletedLaps r ctx sessionID =
    (if sessionID = [] then [] else case ListBySession r ctx sessionID of Inl _ \<Rightarrow> [] | Inr ls \<Rightarrow> ls)"

definition no_events_message :: string where
  "no_events_message = ''No race engineer events are available for the selected window yet. Keep driving and request advice again after new events are detected.''"

type_synonym 's analyzer = "'s \<Rightarrow> GatewayRequest \<Rightarrow> (ai_err + GatewayResponse) \<times> 's"

text \<open>The handler after the events were listed, in two steps: what is selected, and the answer.\<close>

definition advice_answer :: "Catalog \<Rightarrow> 's analyzer \<Rightarrow> ctx \<Rightarrow> int \<Rightarrow> Session \<Rightarrow> string \<Rightarrow> int option \<Rightarrow> int \<Rightarrow>
    EngineerEvent list \<Rightarrow> Signal list \<Rightarrow> FrameStore \<Rightarrow> 's \<Rightarrow> ai_reply \<times> 's" where
  "advice_answer c analyze ctx now session sessionID since maxEvents selected derived store s =
    (let window = buildRaceEngineerAdviceWindow since maxEvents selected (int (length derived)) False in
     if length selected = 0 \<and> length derived = 0
     then (AdviceReply \<lparr>arSessionID = sessionID, arState = ''no_events'', arMessage = no_events_message, arReferencedEvents = [],
             arSignals = [], arWindow = window, arProviderInfo = grProviderInfo no_gateway_response, arGeneratedAtUnixMs = now\<rparr>, s)
     else case analyze s (buildRaceEngineerAdviceGatewayRequest ctx session selected store c derived) of
       (Inl e, s) \<Rightarrow> (AnalysisRefused e, s)
     | (Inr resp, s) \<Rightarrow>
       (AdviceReply \<lparr>arSessionID = sessionID, arState = (if grState resp = [] then ''success'' else grState resp), arMessage = grSummary resp,
          arReferencedEvents = referencedEventIDs selected, arSignals = derived, arWindow = window\<lparr>awProviderCalled := True\<rparr>,
          arProviderInfo = grProviderInfo resp, arGeneratedAtUnixMs = now\<rparr>, s))"

definition raceEngineerAdviceHandler :: "Catalog \<Rightarrow> 's analyzer \<Rightarrow> (nat \<Rightarrow> ctx) \<Rightarrow> int \<Rightarrow> string \<Rightarrow>
    raceEngineerAdviceRequest body \<Rightarrow> server \<Rightarrow> 's \<Rightarrow> ai_reply \<times> 's" where
  "raceEngineerAdviceHandler c analyze cx now sessionID b sv s =
    (case validateSession (svSessions sv) sessionID False of Inl e \<Rightarrow> (Plain (writeSessionError e), s)
     | Inr session \<Rightarrow>
       case decodeRaceEngineerAdviceRequest b of
         None \<Rightarrow> (Plain (writeJSON 400 (Envelope (BadRequest ''invalid JSON body''))), s)
       | Some request \<Rightarrow>
         let maxEvents = normalizeAdviceMaxEvents (aqMaxEvents request); since = aqSinceUnixMs request in
         if (case since of None \<Rightarrow> False | Some t \<Rightarrow> t \<le> 0)
         then (Plain (writeJSON 400 (Envelope (BadRequest ''sinceUnixMs must be greater than zero''))), s)
         else case event_list (svEvents sv) (cx 0) (session_query sessionID) of
           Inl _ \<Rightarrow> (Plain (writeJSON 500 (Envelope (Internal ''failed to list race engineer events''))), s)
         | Inr stored \<Rightarrow>
           advice_answer c analyze (cx 2) now session sessionID since maxEvents (selectRaceEngineerAdviceEvents stored since maxEvents)
             (buildRaceEngineerAdviceSignals stored (listRaceEngineerAdviceCompletedLaps (svLaps sv) (cx 1) sessionID) since) (svFrames sv) s)"

definition analyzeHandler :: "'s analyzer \<Rightarrow> string \<Rightarrow> GatewayRequest body \<Rightarrow> server \<Rightarrow> 's \<Rightarrow> ai_reply \<times> 's" where
  "analyzeHandler analyze sessionID b sv s =
    (case validateSession (svSessions sv) sessionID False of Inl e \<Rightarrow> (Plain (writeSessionError e), s)
     | Inr _ \<Rightarrow>
       case decodeJSON b of None \<Rightarrow> (Plain (writeJSON 400 (Envelope (BadRequest ''invalid JSON body''))), s)
       | Some req \<Rightarrow>
         case analyze s req of (Inl e, s) \<Rightarrow> (AnalysisRefused e, s) | (Inr resp, s) \<Rightarrow> (AnalysisReply resp, s))"

section \<open>What the handlers rely on\<close>

locale analysis_service =
  fixes analyze :: "'s \<Rightarrow> GatewayRequest \<Rightarrow> (ai_err + GatewayResponse) \<times> 's"
  assumes answers_valid: "gateway_Validate req = None \<Longrightarrow> \<exists>resp. fst (analyze s req) = Inr resp \<and> answers req resp"
    and refuses_invalid: "gateway_Validate req = Some e \<Longrightarrow> fst (analyze s req) = Inl (Sentinel e)"
begin

lemma analyze_iff: "(\<exists>resp. fst (analyze s req) = Inr resp) \<longleftrightarrow> gateway_Validate req = None"
  using answers_valid [of req s] refuses_invalid [of req _ s] by (cases "gateway_Validate req") auto

text \<open>An advice whose request is valid is given, with a text; without events and signals none is asked for.\<close>

lemma advice_given:
  assumes "gateway_Validate (buildRaceEngineerAdviceGatewayRequest ctx session selected store c derived) = None \<or> selected = [] \<and> derived = []"
  shows "\<exists>resp. fst (advice_answer c analyze ctx now session sid since maxEvents selected derived store s) = AdviceReply resp \<and>
    arMessage resp \<noteq> [] \<and> arReferencedEvents resp = map eEventID selected \<and> arSignals resp = derived \<and>
    arState resp \<in> set (''no_events'' # known_statuses) \<and> awProviderCalled (arWindow resp) = (selected \<noteq> [] \<or> derived \<noteq> [])"
proof (cases "selected = [] \<and> derived = []")
  case True
  then show ?thesis by (simp add: advice_answer_def Let_def no_events_message_def buildRaceEngineerAdviceWindow_def)
next
  case False
  let ?req = "buildRaceEngineerAdviceGatewayRequest ctx session selected store c derived"
  obtain resp s' where r: "analyze s ?req = (Inr resp, s')" "answers ?req resp"
    using answers_valid [of ?req s] assms False by (metis prod.collapse)
  then show ?thesis using False
    by (auto simp: advice_answer_def Let_def answers_def referencedEventIDs_def known_statuses_def)
qed

end

text \<open>The service of the program: the audited pipeline, for whatever happens around a call.\<close>

definition pipeline_analyze :: "bool \<Rightarrow> string \<Rightarrow> int \<Rightarrow> int \<Rightarrow> provider_world \<Rightarrow> (ai_service \<times> MemoryAuditStore) analyzer" where
  "pipeline_analyze kept traceID duration now w s req =
    (let (r, s', store', t) = audited_Analyze kept traceID duration now (fst s) w req (snd s) in (r, (s', store')))"

lemma pipeline_analyze_fst: "fst (pipeline_analyze kept traceID duration now w s req) = fst (fallback_Analyze (fst s) w req)"
  by (simp add: pipeline_analyze_def audited_Analyze_def Let_def split: prod.split)

interpretation pipeline: analysis_service "pipeline_analyze kept traceID duration now w"
proof unfold_locales
  show "gateway_Validate req = None \<Longrightarrow> \<exists>resp. fst (pipeline_analyze kept traceID duration now w s req) = Inr resp \<and> answers req resp" for req s
    using fallback_total [of "fst s" w req] by (simp add: pipeline_analyze_fst)
  show "gateway_Validate req = Some e \<Longrightarrow> fst (pipeline_analyze kept traceID duration now w s req) = Inl (Sentinel e)" for req s e
    by (simp add: pipeline_analyze_fst fallback_Analyze_def)
qed

section \<open>The events a request carries\<close>

interpretation event_order: slice_less event_earlier UNIV
  by unfold_locales (auto simp: event_earlier_def)

lemma set_select: "set (selectRaceEngineerAdviceEvents stored since n) \<subseteq> set stored"
  by (auto simp: selectRaceEngineerAdviceEvents_def Let_def dest: in_set_dropD)

lemma advice_safety_valid: "safety_Validate advice_safety = None"
  by code_simp

lemma advice_request_simps [simp]:
  "ciContractVersion (gqInput (buildRaceEngineerAdviceGatewayRequest ctx session selected store c derived)) = AiContractVersionV1"
  "scSessionID (ciSession (gqInput (buildRaceEngineerAdviceGatewayRequest ctx session selected store c derived))) = sID session"
  "ciEvents (gqInput (buildRaceEngineerAdviceGatewayRequest ctx session selected store c derived)) = selected"
  "ciSignals (gqInput (buildRaceEngineerAdviceGatewayRequest ctx session selected store c derived)) = derived"
  "ciSafety (gqInput (buildRaceEngineerAdviceGatewayRequest ctx session selected store c derived)) = advice_safety"
  "gqMode (buildRaceEngineerAdviceGatewayRequest ctx session selected store c derived) = ''engineer''"
  by (simp_all add: buildRaceEngineerAdviceGatewayRequest_def split: prod.split)

lemma advice_request_valid:
  assumes "sID session \<noteq> []" "selected \<noteq> [] \<or> derived \<noteq> []" "list_all (\<lambda>e. event_Validate e = None) selected"
    "list_all (\<lambda>s. \<not> signal_invalid s) derived"
  shows "gateway_Validate (buildRaceEngineerAdviceGatewayRequest ctx session selected store c derived) = None"
proof -
  have v: "AiContractVersionV1 \<noteq> []" by (simp add: AiContractVersionV1_def)
  have e: "\<not> list_ex (\<lambda>e. event_Validate e \<noteq> None) selected" "\<not> list_ex signal_invalid derived"
    using assms(3,4) by (auto simp: list_all_iff list_ex_iff)
  show ?thesis using assms(1,2) v e advice_safety_valid
    by (simp add: gateway_Validate_def input_Validate_def session_context_Validate_def)
qed

text \<open>The event log of a server holds valid events only.\<close>

definition events_ok :: "server \<Rightarrow> bool" where
  "events_ok sv \<longleftrightarrow> event_store_ok (svEvents sv) \<and> list_all (\<lambda>e. event_Validate e = None) (vEvents (svEvents sv))"

lemma event_append_valid:
  assumes "event_store_ok s" "list_all (\<lambda>e. event_Validate e = None) (vEvents s)"
  shows "event_store_ok (snd (event_append s ctx e)) \<and> list_all (\<lambda>e. event_Validate e = None) (vEvents (snd (event_append s ctx e)))"
proof -
  have "list_all (\<lambda>e. event_Validate e = None) (vEvents (snd (event_append s ctx e)))"
    using assms(2) by (auto simp: event_append_def Let_def list_all_iff split: option.splits prod.splits dest: in_set_dropD)
  then show ?thesis using events.append_invar [OF assms(1)] by blast
qed

lemma append_events_valid:
  "event_store_ok s \<Longrightarrow> list_all (\<lambda>e. event_Validate e = None) (vEvents s) \<Longrightarrow>
    event_store_ok (snd (append_events_loop cx k es s)) \<and> list_all (\<lambda>e. event_Validate e = None) (vEvents (snd (append_events_loop cx k es s)))"
proof (induction es arbitrary: k s)
  case (Cons e es)
  obtain r s' where a: "event_append s (cx k) e = (r, s')" by fastforce
  have "event_store_ok s' \<and> list_all (\<lambda>e. event_Validate e = None) (vEvents s')"
    using event_append_valid [OF Cons.prems, of "cx k" e] a by simp
  then show ?case using Cons.IH [of s' "k + 1"] by (auto simp: a split: sum.split)
qed simp

lemma ingest_events_valid:
  assumes "events_ok sv" shows "events_ok (snd (ingest_events c env session sid acc sv))"
proof -
  have "events_ok (sv\<lparr>svSessions := repo\<rparr>)" "events_ok (sv\<lparr>svSessions := repo, svEvents := snd (append_events_loop cx k es (svEvents sv))\<rparr>)" for repo cx k es
    using assms append_events_valid [of "svEvents sv" cx k es] by (auto simp: events_ok_def)
  from this(1) this(2) show ?thesis using assms
    unfolding ingest_events_def Let_def by (auto split: sum.split prod.split) (metis snd_conv)
qed

lemma ingest_accepted_valid:
  assumes "events_ok sv" shows "events_ok (snd (ingest_accepted c env session sid acc sv))"
proof -
  have "events_ok (sv\<lparr>svFrames := store\<rparr>)" "events_ok (sv\<lparr>svFrames := store, svLaps := r\<rparr>)" for store r
    using assms by (auto simp: events_ok_def)
  then show ?thesis unfolding ingest_accepted_def by (auto split: prod.split option.split intro!: ingest_events_valid)
qed

lemma ingest_valid:
  assumes "events_ok sv" shows "events_ok (snd (ingestFramesHandler c env i b sv))"
proof (cases "validateSession (svSessions sv) i True")
  case (Inr session)
  obtain r sv' where r: "ingest_validated c env i session b sv = (r, sv')" by fastforce
  then have "events_ok sv'"
  proof (cases rule: ingest_validated_cases)
    case (failed request result)
    then show ?thesis using ingest_accepted_valid [OF assms] by (metis snd_conv)
  next
    case (stored request result sv1)
    have "sv1 = (if nFrames result \<noteq> [] then snd (ingest_accepted c env session i (nFrames result) sv) else sv)"
      using stored(4) by (auto split: if_splits)
    then have "events_ok sv1" using ingest_accepted_valid [OF assms] assms by simp
    then show ?thesis using stored(6) by (simp add: events_ok_def)
  qed (use assms in simp)
  then show ?thesis by (simp add: ingestFramesHandler_def Inr r)
qed (simp add: ingestFramesHandler_def assms)

lemma other_stores_events [simp]:
  "svEvents (snd (createSessionHandler c unixMs entropy cb sv)) = svEvents sv"
  "svEvents (snd (finishSessionHandler c cx now i fb sv)) = svEvents sv"
  "svEvents (snd (sessionTrackLayoutHandler c cx i lb sv)) = svEvents sv"
  by (auto simp: createSessionHandler_def finishSessionHandler_def sessionTrackLayoutHandler_def Let_def split: option.split prod.split sum.split)

lemma serves_events_ok: "serves cfg c sv sv' \<Longrightarrow> events_ok sv \<Longrightarrow> events_ok sv'"
proof (induction rule: serves.induct)
  case (serve sv sv1 cx req)
  then have "events_ok sv1" by simp
  then show ?case by (cases req) (simp_all add: ingest_valid, simp_all add: events_ok_def)
qed

section \<open>Properties\<close>

text \<open>The layout a user selected by hand is not part of what the service is asked.\<close>

lemma selected_layout_not_sent:
  "buildRaceEngineerAdviceGatewayRequest ctx (session\<lparr>sLayoutID := l\<rparr>) selected store c derived =
    buildRaceEngineerAdviceGatewayRequest ctx session selected store c derived"
proof -
  have "persisted_loop (session\<lparr>sLayoutID := l\<rparr>) ts = persisted_loop session ts" for ts
    by (induction ts) (auto split: option.splits)
  then have p: "resolvePersistedSessionCatalogRefs (session\<lparr>sLayoutID := l\<rparr>) c = resolvePersistedSessionCatalogRefs session c"
    by (simp add: resolvePersistedSessionCatalogRefs_def)
  have m: "resolveManualSessionTrackRef (session\<lparr>sLayoutID := l\<rparr>) c = resolveManualSessionTrackRef session c"
    by (simp add: resolveManualSessionTrackRef_def)
  have i: "sID (session\<lparr>sLayoutID := l\<rparr>) = sID session" by simp
  show ?thesis unfolding buildRaceEngineerAdviceGatewayRequest_def advice_catalog_refs_def p m i ..
qed

text \<open>C33: 
  An advice looks at the latest events of its window, between one and ten of them as asked: they are in
  the order of time, there are as many as asked or all there are, and none left out is later than one
  that is taken.
\<close>

theorem advice_takes_latest:
  "let n = normalizeAdviceMaxEvents asked; window = filterRaceEngineerAdviceEventsBySince stored since;
       taken = selectRaceEngineerAdviceEvents stored since n
   in 1 \<le> n \<and> n \<le> 10 \<and> length taken = min (nat n) (length window) \<and>
     sorted_wrt (\<lambda>a b. eTimestampUnixMs a \<le> eTimestampUnixMs b) taken \<and>
     (\<exists>rest. mset window = mset rest + mset taken \<and>
        list_all (\<lambda>e. list_all (\<lambda>x. eTimestampUnixMs e \<le> eTimestampUnixMs x) taken) rest)"
proof -
  define n where "n = normalizeAdviceMaxEvents asked"
  define window where "window = filterRaceEngineerAdviceEventsBySince stored since"
  define taken where "taken = selectRaceEngineerAdviceEvents stored since n"
  have n: "1 \<le> n" "n \<le> 10" by (auto simp: n_def normalizeAdviceMaxEvents_def split: option.splits)
  have w: "filter (\<lambda>e. \<not> (case since of None \<Rightarrow> False | Some t \<Rightarrow> eTimestampUnixMs e < t)) stored = window"
    by (auto simp: window_def filterRaceEngineerAdviceEventsBySince_def split: option.splits)
  let ?s = "sort_slice event_earlier window"
  have t: "taken = lastn (nat n) ?s"
    using drop_lastn [OF n(1), of ?s] by (simp add: taken_def selectRaceEngineerAdviceEvents_def w Let_def)
  have o: "sorted_wrt (\<lambda>a b. eTimestampUnixMs a \<le> eTimestampUnixMs b) ?s"
    using event_order.ordered_sort_slice [of window] by (simp add: event_order.ordered_def event_earlier_def not_less)
  obtain rest where r: "?s = rest @ taken" unfolding t lastn_def by (metis append_take_drop_id)
  have "mset window = mset rest + mset taken" by (metis mset_append mset_sort_slice r)
  moreover have "sorted_wrt (\<lambda>a b. eTimestampUnixMs a \<le> eTimestampUnixMs b) taken"
    "list_all (\<lambda>e. list_all (\<lambda>x. eTimestampUnixMs e \<le> eTimestampUnixMs x) taken) rest"
    using o unfolding r by (auto simp: sorted_wrt_append list_all_iff)
  moreover have "length taken = min (nat n) (length window)" unfolding t by simp
  ultimately show ?thesis using n unfolding Let_def n_def [symmetric] window_def [symmetric] taken_def [symmetric] by blast
qed

text \<open>C34: 
  In every store the requests leave, an advice for an existing session is given: with a text, a known
  status and exactly the selected events, whether or not the provider answers.
\<close>

theorem advice_always_given:
  assumes "runtimeHandler cfg seed = Inr (c, sv0)" "serves cfg c sv0 sv" "map_of (svSessions sv) sid = Some session"
    and "decodeRaceEngineerAdviceRequest b = Some \<lparr>aqSinceUnixMs = since, aqMaxEvents = maxEvents\<rparr>"
    and "case since of None \<Rightarrow> True | Some t \<Rightarrow> 0 < t" "cx 0 = None"
  shows "\<exists>resp. fst (raceEngineerAdviceHandler c (pipeline_analyze kept traceID duration later w) cx now sid b sv s) = AdviceReply resp \<and>
    arMessage resp \<noteq> [] \<and> arState resp \<in> set (''no_events'' # known_statuses) \<and>
    arReferencedEvents resp = map eEventID (selectRaceEngineerAdviceEvents (filter (\<lambda>e. eSessionID e = sid) (vEvents (svEvents sv)))
      since (normalizeAdviceMaxEvents maxEvents))"
proof -
  have "svSessions sv0 = []" "events_ok sv0"
    using assms(1) by (auto simp: runtimeHandler_def NewSessionRepository_def events_ok_def NewEventStore_def split: sum.splits)
      (simp_all add: event_store_ok_def DefaultStoredEventsLimit_def)
  then have ok: "repo_wf (svSessions sv)" "events_ok sv"
    using serves_repo_wf [OF assms(2)] serves_events_ok [OF assms(2)] by (simp_all add: repo_wf_def)
  have id: "sID session = sid" "sid \<noteq> []" using repo_wfD [OF ok(1) assms(3)] by simp_all
  let ?stored = "filter (\<lambda>e. eSessionID e = sid) (vEvents (svEvents sv))"
  have stored: "event_list (svEvents sv) (cx 0) (session_query sid) = Inr ?stored"
  proof -
    have "query_matches (session_query sid) = (\<lambda>e. eSessionID e = sid)" by (auto simp: fun_eq_iff query_matches_def session_query_def)
    then show ?thesis using id(2) assms(6) by (simp add: event_list_def session_query_def query_Validate_def)
  qed
  have v: "validateSession (svSessions sv) sid False = Inr session"
    using assms(3) id(2) by (simp add: validateSession_def session_FindByID_def)
  let ?n = "normalizeAdviceMaxEvents maxEvents"
  let ?sel = "selectRaceEngineerAdviceEvents ?stored since ?n"
  let ?sig = "buildRaceEngineerAdviceSignals ?stored (listRaceEngineerAdviceCompletedLaps (svLaps sv) (cx 1) sid) since"
  have "list_all (\<lambda>e. event_Validate e = None) ?sel"
    using ok(2) set_select [of ?stored since ?n] by (auto simp: events_ok_def list_all_iff)
  then have "gateway_Validate (buildRaceEngineerAdviceGatewayRequest (cx 2) session ?sel (svFrames sv) c ?sig) = None" if "?sel \<noteq> [] \<or> ?sig \<noteq> []"
    using that id by (intro advice_request_valid signals_valid) auto
  then have g: "gateway_Validate (buildRaceEngineerAdviceGatewayRequest (cx 2) session ?sel (svFrames sv) c ?sig) = None \<or> ?sel = [] \<and> ?sig = []"
    by blast
  have h: "raceEngineerAdviceHandler c an cx now sid b sv s =
      advice_answer c an (cx 2) now session sid since ?n ?sel ?sig (svFrames sv) s" for an :: "(ai_service \<times> MemoryAuditStore) analyzer"
    using v assms(4,5) stored by (simp add: raceEngineerAdviceHandler_def Let_def not_le split: option.splits)
  show ?thesis unfolding h using pipeline.advice_given [OF g] by blast
qed

definition demo_reached :: server where
  "demo_reached = serve_all demo_config demo_catalog demo_requests (snd (projr (runtimeHandler demo_config demo_catalog)))"

definition demo_sid :: string where "demo_sid = fst (hd (svSessions demo_reached))"

lemma demo_session_reached: "map_of (svSessions demo_reached) demo_sid \<noteq> None"
  by code_simp

theorem advice_always_given_witness:
  "\<exists>resp. fst (raceEngineerAdviceHandler demo_catalog (pipeline_analyze True ''t'' 1 2 (demo_world (\<lambda>_. Inr no_response))) (\<lambda>k. None) 3 demo_sid
     BodyAbsent demo_reached (NewService (demo_controller 100), NewMemoryAuditStore)) = AdviceReply resp \<and> arMessage resp \<noteq> []"
proof -
  have r: "runtimeHandler demo_config demo_catalog = Inr (demo_catalog, snd (projr (runtimeHandler demo_config demo_catalog)))"
    by (simp add: runtimeHandler_def prepareRuntimeCatalog_def PrepareApprovedGeometry_def sanitized_def demo_catalog_def)
  obtain session where s: "map_of (svSessions demo_reached) demo_sid = Some session" using demo_session_reached by auto
  have d: "decodeRaceEngineerAdviceRequest BodyAbsent = Some \<lparr>aqSinceUnixMs = None, aqMaxEvents = None\<rparr>"
    by (simp add: decodeRaceEngineerAdviceRequest_def)
  have v: "serves demo_config demo_catalog (snd (projr (runtimeHandler demo_config demo_catalog))) demo_reached"
    unfolding demo_reached_def by (rule serves_all)
  note given = advice_always_given [OF r v s d, of "\<lambda>k. None"]
  have "(case (None :: int option) of None \<Rightarrow> True | Some t \<Rightarrow> 0 < t)" "(\<lambda>k. None :: ctx) 0 = None" by simp_all
  from given [OF this, of True "''t''" 1 2 "demo_world (\<lambda>_. Inr no_response)" 3 "(NewService (demo_controller 100), NewMemoryAuditStore)"]
  show ?thesis by blast
qed

end
