(* ===== verification/AppConfig.thy ===== *)
theory AppConfig
  imports AiAudit
begin

text \<open>
  \<^verbatim>\<open>internal/config/config.go\<close>: the configuration read from the environment, and the part of it the AI
  pipeline is composed from.  \<^verbatim>\<open>os.Getenv\<close>, \<^verbatim>\<open>time.ParseDuration\<close> and \<^verbatim>\<open>strconv.ParseFloat\<close> are arguments;
  an unset variable is empty.
\<close>

record environment =
  evGetenv :: "string \<Rightarrow> string"
  evParseDuration :: "string \<Rightarrow> int option"
  evParseFloat :: "string \<Rightarrow> f64 option"

datatype config_err =
    InvalidDuration string string
  | InvalidFloat string string
  | FloatNotPositive string string
  | InvalidInteger string string
  | IntegerNotPositive string string

record AppConfig =
  acAddr :: string
  acEnv :: string
  acLogLevel :: string
  acReadHeaderTimeout :: int
  acShutdownTimeout :: int
  acRetainedFramesPerSession :: int
  acDatabaseURL :: string
  acAdminToken :: string
  acSkipInvalidApprovedGeometry :: bool
  acEnableSessionExport :: bool
  acAIMaxPromptChars :: int
  acAIMaxCompletionTokens :: int
  acAIMaxEventsPerRequest :: int
  acAIRetryMaxAttempts :: int
  acAIRetryBaseBackoffMs :: int
  acAIRetryMaxBackoffMs :: int
  acAIRatePerSecond :: f64
  acAIRateBurst :: int
  acAICostPerPromptToken :: f64
  acAICostPerCompletionToken :: f64
  acAIModel :: string
  acAIProvider :: string
  acOpenRouterAPIKey :: string
  acOpenRouterBaseURL :: string
  acOpenRouterHTTPReferer :: string
  acOpenRouterTitle :: string

section \<open>Variables\<close>

definition stringEnv :: "environment \<Rightarrow> string \<Rightarrow> string \<Rightarrow> string" where
  "stringEnv env key fallback = (if evGetenv env key = [] then fallback else evGetenv env key)"

definition durationEnv :: "environment \<Rightarrow> string \<Rightarrow> int \<Rightarrow> config_err + int" where
  "durationEnv env key fallback =
    (let value = evGetenv env key in
     if value = [] then Inr fallback
     else case evParseDuration env value of None \<Rightarrow> Inl (InvalidDuration key value) | Some d \<Rightarrow> Inr d)"

definition positiveFloat64Env :: "environment \<Rightarrow> string \<Rightarrow> f64 \<Rightarrow> config_err + f64" where
  "positiveFloat64Env env key fallback =
    (let value = evGetenv env key in
     if value = [] then Inr fallback
     else case evParseFloat env value of None \<Rightarrow> Inl (InvalidFloat key value)
       | Some x \<Rightarrow> if fle x (Fin 0) then Inl (FloatNotPositive key value) else Inr x)"

definition positiveIntEnv :: "environment \<Rightarrow> string \<Rightarrow> int \<Rightarrow> config_err + int" where
  "positiveIntEnv env key fallback =
    (let value = evGetenv env key in
     if value = [] then Inr fallback
     else case atoi value of None \<Rightarrow> Inl (InvalidInteger key value)
       | Some n \<Rightarrow> if n \<le> 0 then Inl (IntegerNotPositive key value) else Inr n)"

text \<open>\<^verbatim>\<open>strconv.ParseBool\<close>.\<close>

definition parse_bool :: "string \<Rightarrow> bool option" where
  "parse_bool s =
    (if s \<in> set [''1'', ''t'', ''T'', ''TRUE'', ''true'', ''True''] then Some True
     else if s \<in> set [''0'', ''f'', ''F'', ''FALSE'', ''false'', ''False''] then Some False else None)"

definition boolEnv :: "environment \<Rightarrow> string \<Rightarrow> bool \<Rightarrow> bool" where
  "boolEnv env key fallback =
    (let value = evGetenv env key in
     if value = [] then fallback else case parse_bool value of None \<Rightarrow> fallback | Some b \<Rightarrow> b)"

section \<open>Load\<close>

definition and_then :: "config_err + 'a \<Rightarrow> ('a \<Rightarrow> config_err + 'b) \<Rightarrow> config_err + 'b" where
  "and_then r f = (case r of Inl e \<Rightarrow> Inl e | Inr x \<Rightarrow> f x)"

definition Load :: "environment \<Rightarrow> config_err + AppConfig" where
  "Load env =
    and_then (durationEnv env ''TELEMETRY_ONE_READ_HEADER_TIMEOUT'' 5000000000) (\<lambda>readHeaderTimeout.
    and_then (durationEnv env ''TELEMETRY_ONE_SHUTDOWN_TIMEOUT'' 10000000000) (\<lambda>shutdownTimeout.
    and_then (positiveIntEnv env ''TELEMETRY_ONE_RETAINED_FRAMES_PER_SESSION'' 12000) (\<lambda>retainedFramesPerSession.
    and_then (positiveIntEnv env ''TELEMETRY_ONE_AI_MAX_PROMPT_CHARS'' 40000) (\<lambda>aiMaxPromptChars.
    and_then (positiveIntEnv env ''TELEMETRY_ONE_AI_MAX_COMPLETION_TOKENS'' 2000) (\<lambda>aiMaxCompletionTokens.
    and_then (positiveIntEnv env ''TELEMETRY_ONE_AI_MAX_EVENTS_PER_REQUEST'' 50) (\<lambda>aiMaxEventsPerRequest.
    and_then (positiveIntEnv env ''TELEMETRY_ONE_AI_RETRY_MAX_ATTEMPTS'' 3) (\<lambda>aiRetryMaxAttempts.
    and_then (positiveIntEnv env ''TELEMETRY_ONE_AI_RETRY_BASE_BACKOFF_MS'' 1000) (\<lambda>aiRetryBaseBackoffMs.
    and_then (positiveIntEnv env ''TELEMETRY_ONE_AI_RETRY_MAX_BACKOFF_MS'' 10000) (\<lambda>aiRetryMaxBackoffMs.
    and_then (positiveFloat64Env env ''TELEMETRY_ONE_AI_RATE_PER_SECOND'' (Fin 10)) (\<lambda>aiRatePerSecond.
    and_then (positiveIntEnv env ''TELEMETRY_ONE_AI_RATE_BURST'' 5) (\<lambda>aiRateBurst.
    and_then (positiveFloat64Env env ''TELEMETRY_ONE_AI_COST_PER_PROMPT_TOKEN'' (rnd (15 / 100000))) (\<lambda>aiCostPerPromptToken.
    and_then (positiveFloat64Env env ''TELEMETRY_ONE_AI_COST_PER_COMPLETION_TOKEN'' (rnd (60 / 100000))) (\<lambda>aiCostPerCompletionToken.
    Inr \<lparr>acAddr = stringEnv env ''TELEMETRY_ONE_ADDR'' '':8080'',
      acEnv = stringEnv env ''TELEMETRY_ONE_ENV'' ''development'',
      acLogLevel = stringEnv env ''TELEMETRY_ONE_LOG_LEVEL'' ''info'',
      acReadHeaderTimeout = readHeaderTimeout, acShutdownTimeout = shutdownTimeout,
      acRetainedFramesPerSession = retainedFramesPerSession,
      acDatabaseURL = stringEnv env ''TELEMETRY_ONE_DATABASE_URL'' [],
      acAdminToken = evGetenv env ''TELEMETRY_ONE_ADMIN_TOKEN'',
      acSkipInvalidApprovedGeometry = boolEnv env ''TELEMETRY_ONE_SKIP_INVALID_APPROVED_GEOMETRY'' False,
      acEnableSessionExport = boolEnv env ''TELEMETRY_ONE_ENABLE_SESSION_EXPORT'' False,
      acAIMaxPromptChars = aiMaxPromptChars, acAIMaxCompletionTokens = aiMaxCompletionTokens,
      acAIMaxEventsPerRequest = aiMaxEventsPerRequest, acAIRetryMaxAttempts = aiRetryMaxAttempts,
      acAIRetryBaseBackoffMs = aiRetryBaseBackoffMs, acAIRetryMaxBackoffMs = aiRetryMaxBackoffMs,
      acAIRatePerSecond = aiRatePerSecond, acAIRateBurst = aiRateBurst,
      acAICostPerPromptToken = aiCostPerPromptToken, acAICostPerCompletionToken = aiCostPerCompletionToken,
      acAIModel = stringEnv env ''TELEMETRY_ONE_AI_MODEL'' ''gpt-4o-mini'',
      acAIProvider = stringEnv env ''TELEMETRY_ONE_AI_PROVIDER'' ''fake'',
      acOpenRouterAPIKey = stringEnv env ''TELEMETRY_ONE_OPENROUTER_API_KEY'' [],
      acOpenRouterBaseURL = stringEnv env ''TELEMETRY_ONE_OPENROUTER_BASE_URL'' ''https://openrouter.ai/api/v1'',
      acOpenRouterHTTPReferer = stringEnv env ''TELEMETRY_ONE_OPENROUTER_HTTP_REFERER'' [],
      acOpenRouterTitle = stringEnv env ''TELEMETRY_ONE_OPENROUTER_TITLE'' []\<rparr>)))))))))))))"

definition PipelineConfigFromConfig :: "AppConfig \<Rightarrow> PipelineConfig" where
  "PipelineConfigFromConfig cfg =
    \<lparr>pcAIMaxPromptChars = acAIMaxPromptChars cfg, pcAIMaxCompletionTokens = acAIMaxCompletionTokens cfg,
     pcAIMaxEventsPerRequest = acAIMaxEventsPerRequest cfg, pcAIRetryMaxAttempts = acAIRetryMaxAttempts cfg,
     pcAIRetryBaseBackoffMs = acAIRetryBaseBackoffMs cfg, pcAIRetryMaxBackoffMs = acAIRetryMaxBackoffMs cfg,
     pcAIRatePerSecond = acAIRatePerSecond cfg, pcAIRateBurst = acAIRateBurst cfg,
     pcAICostPerPromptToken = acAICostPerPromptToken cfg, pcAICostPerCompletionToken = acAICostPerCompletionToken cfg,
     pcAIModel = acAIModel cfg, pcAIProvider = acAIProvider cfg, pcOpenRouterAPIKey = acOpenRouterAPIKey cfg,
     pcOpenRouterBaseURL = acOpenRouterBaseURL cfg, pcOpenRouterHTTPReferer = acOpenRouterHTTPReferer cfg,
     pcOpenRouterTitle = acOpenRouterTitle cfg\<rparr>"

section \<open>Lemmas\<close>

lemma and_then_Inr: "and_then r f = Inr y \<longleftrightarrow> (\<exists>x. r = Inr x \<and> f x = Inr y)"
  by (auto simp: and_then_def split: sum.splits)

lemma positiveIntEnv_pos: "positiveIntEnv env key d = Inr n \<Longrightarrow> 0 < d \<Longrightarrow> 0 < n"
  by (auto simp: positiveIntEnv_def Let_def split: if_splits option.splits)

lemma positiveFloat64Env_pos: "positiveFloat64Env env key d = Inr x \<Longrightarrow> \<not> fle d (Fin 0) \<Longrightarrow> \<not> fle x (Fin 0)"
  by (auto simp: positiveFloat64Env_def Let_def split: if_splits option.splits)

lemma default_costs: "\<not> fle (rnd (15 / 100000)) (Fin 0)" "\<not> fle (rnd (60 / 100000)) (Fin 0)" "\<not> fle (Fin 10) (Fin 0)"
  by code_simp+

lemma Load_limits:
  "Load env = Inr cfg \<Longrightarrow> (positiveIntEnv env ''TELEMETRY_ONE_RETAINED_FRAMES_PER_SESSION'' 12000 = Inr (acRetainedFramesPerSession cfg)) \<and>
    (positiveIntEnv env ''TELEMETRY_ONE_AI_MAX_PROMPT_CHARS'' 40000 = Inr (acAIMaxPromptChars cfg)) \<and>
    (positiveIntEnv env ''TELEMETRY_ONE_AI_MAX_COMPLETION_TOKENS'' 2000 = Inr (acAIMaxCompletionTokens cfg)) \<and>
    (positiveIntEnv env ''TELEMETRY_ONE_AI_MAX_EVENTS_PER_REQUEST'' 50 = Inr (acAIMaxEventsPerRequest cfg)) \<and>
    (positiveIntEnv env ''TELEMETRY_ONE_AI_RETRY_MAX_ATTEMPTS'' 3 = Inr (acAIRetryMaxAttempts cfg)) \<and>
    (positiveFloat64Env env ''TELEMETRY_ONE_AI_RATE_PER_SECOND'' (Fin 10) = Inr (acAIRatePerSecond cfg)) \<and>
    (positiveIntEnv env ''TELEMETRY_ONE_AI_RATE_BURST'' 5 = Inr (acAIRateBurst cfg))"
  unfolding Load_def and_then_Inr
  by (elim exE conjE, drule sum.inject(2) [THEN iffD1], hypsubst, simp only: AppConfig.select_convs simp_thms)

text \<open>C35: 
  A configuration that loads is usable: every limit is positive, so the token budget of the composed
  pipeline is valid and the rate and burst are those of the configuration.  (The floats are only known
  not to be at most zero.)
\<close>

theorem loaded_limits_valid:
  assumes "Load env = Inr cfg"
  shows "budget_Validate (coBudget (compose_controller (PipelineConfigFromConfig cfg))) \<and>
    coRateLimiter (compose_controller (PipelineConfigFromConfig cfg)) =
      Some \<lparr>rlSessions = Map.empty, rlRate = acAIRatePerSecond cfg, rlBurst = acAIRateBurst cfg\<rparr> \<and>
    1 \<le> rpMaxAttempts (coRetry (compose_controller (PipelineConfigFromConfig cfg))) \<and> 1 \<le> acRetainedFramesPerSession cfg"
proof -
  have "\<not> fle (acAIRatePerSecond cfg) (Fin 0)" by (rule positiveFloat64Env_pos [OF _ default_costs(3)]) (use Load_limits [OF assms] in blast)
  then have "0 < acRetainedFramesPerSession cfg" "0 < acAIMaxPromptChars cfg" "0 < acAIMaxCompletionTokens cfg" "0 < acAIMaxEventsPerRequest cfg"
    "0 < acAIRetryMaxAttempts cfg" "0 < acAIRateBurst cfg" "\<not> fle (acAIRatePerSecond cfg) (Fin 0)"
    using Load_limits [OF assms] positiveIntEnv_pos [where env = env] by (blast intro: zero_less_numeral)+
  then show ?thesis
    by (auto simp: compose_controller_def PipelineConfigFromConfig_def budget_Validate_def NewRateLimiter_def)
qed

text \<open>The retry policy is not validated when the pipeline is composed.\<close>

definition demo_environment :: "(string \<times> string) list \<Rightarrow> environment" where
  "demo_environment vars = \<lparr>evGetenv = (\<lambda>k. case map_of vars k of None \<Rightarrow> [] | Some v \<Rightarrow> v), evParseDuration = (\<lambda>_. None),
     evParseFloat = (\<lambda>s. if s = ''NaN'' then Some FNaN else None)\<rparr>"

lemma retry_policy_not_checked:
  "\<exists>cfg. Load (demo_environment [(''TELEMETRY_ONE_AI_RETRY_BASE_BACKOFF_MS'', ''20000'')]) = Inr cfg \<and>
    \<not> controller_Validate (compose_controller (PipelineConfigFromConfig cfg))"
proof -
  let ?r = "Load (demo_environment [(''TELEMETRY_ONE_AI_RETRY_BASE_BACKOFF_MS'', ''20000'')])"
  have "\<not> isl ?r \<and> \<not> controller_Validate (compose_controller (PipelineConfigFromConfig (projr ?r)))" by code_simp
  then show ?thesis by (cases ?r) auto
qed

lemma refilled_nan:
  assumes "rlRate rl = FNaN" "0 \<le> rlBurst rl" shows "refilled rl b t = FNaN"
proof -
  have m: "fmul x FNaN = FNaN" "fadd x FNaN = FNaN" for x by (cases x; simp)+
  have "f_of_int (rlBurst rl) \<noteq> FInf True"
    using rnd_nonneg [of "of_int (rlBurst rl)"] assms(2) by (auto simp: f_of_int_def fle_def)
  then show ?thesis using assms(1) m by (simp add: refilled_def fmin_def isNaN_def)
qed

lemma Allow_nan:
  assumes "rlRate rl = FNaN" "0 \<le> rlBurst rl" "rlSessions rl sid \<noteq> None"
  shows "fst (fst (Allow rl sid t)) = False" "rlSessions (snd (Allow rl sid t)) sid \<noteq> None" "rlRate (snd (Allow rl sid t)) = FNaN"
  using assms by (auto simp: Allow_def refilled_nan Let_def)

lemma allow_all_nan:
  "rlRate rl = FNaN \<Longrightarrow> 0 \<le> rlBurst rl \<Longrightarrow> rlSessions rl sid \<noteq> None \<Longrightarrow>
    fst (allow_all rl (map (\<lambda>t. (sid, t)) ts)) = replicate (length ts) False"
proof (induction ts arbitrary: rl)
  case (Cons t ts)
  obtain ok d rl' where A: "Allow rl sid t = ((ok, d), rl')" by (metis prod.exhaust)
  have b: "rlBurst rl' = rlBurst rl" using Allow_frame(2) [of rl sid t] A by simp
  show ?case using Allow_nan [OF Cons.prems, of t] Cons.IH [of rl'] Cons.prems(2)
    by (cases "allow_all rl' (map (\<lambda>t. (sid, t)) ts)") (simp add: A b)
qed simp

text \<open>
  Not a number is accepted as the rate, and then the limiter admits the first request of a session and
  refuses every later one, however late.
\<close>

theorem nan_rate_refuses_forever:
  "\<exists>cfg. Load (demo_environment [(''TELEMETRY_ONE_AI_RATE_PER_SECOND'', ''NaN'')]) = Inr cfg \<and>
    map_option (\<lambda>rl. fst (allow_all rl (map (\<lambda>t. (sid, t)) (t # ts)))) (coRateLimiter (compose_controller (PipelineConfigFromConfig cfg)))
      = Some (True # replicate (length ts) False)"
proof -
  let ?r = "Load (demo_environment [(''TELEMETRY_ONE_AI_RATE_PER_SECOND'', ''NaN'')])"
  have "\<not> isl ?r \<and> acAIRatePerSecond (projr ?r) = FNaN \<and> acAIRateBurst (projr ?r) = 5" by code_simp
  then obtain cfg where cfg: "?r = Inr cfg" "acAIRatePerSecond cfg = FNaN" "acAIRateBurst cfg = 5" by (cases ?r) auto
  let ?rl = "\<lparr>rlSessions = Map.empty, rlRate = FNaN, rlBurst = 5\<rparr>"
  have c: "coRateLimiter (compose_controller (PipelineConfigFromConfig cfg)) = Some ?rl"
    using cfg(2,3) by (simp add: compose_controller_def PipelineConfigFromConfig_def NewRateLimiter_def)
  obtain rl' where A: "Allow ?rl sid t = ((True, 0), rl')" "rlRate rl' = FNaN" "0 \<le> rlBurst rl'" "rlSessions rl' sid \<noteq> None"
    by (simp add: Allow_def)
  have "fst (allow_all ?rl (map (\<lambda>t. (sid, t)) (t # ts))) = True # replicate (length ts) False"
    using allow_all_nan [OF A(2-4), of ts] by (cases "allow_all rl' (map (\<lambda>t. (sid, t)) ts)") (simp add: A(1))
  then show ?thesis using cfg(1) c by auto
qed

theorem loaded_limits_valid_witness:
  "budget_Validate (coBudget (compose_controller (PipelineConfigFromConfig (projr (Load (demo_environment []))))))"
proof -
  have "\<not> isl (Load (demo_environment []))" by code_simp
  then have "Load (demo_environment []) = Inr (projr (Load (demo_environment [])))" by simp
  from loaded_limits_valid [OF this] show ?thesis by blast
qed

end
