(* ===== verification/TrackGeometry.thy ===== *)
theory TrackGeometry
  imports Geometry Telemetry
begin

text \<open>
  \<^verbatim>\<open>internal/trackbuilder/geometry.go\<close>: from the positions of a drive to a centerline: cleaning, smoothing,
  simplification (Ramer, Douglas and Peucker) and resampling at a fixed step.  The resampling loop may
  not end for an arbitrary step, so it is a partial function, and is shown to end whenever its buffer
  can be allocated.
\<close>

section \<open>Points\<close>

datatype builder_err =
    BuildMissingLayoutID
  | BuildSmoothingWindow int
  | BuildEpsilon f64
  | BuildResampleStep f64
  | BuildInsufficientPoints
  | BuildZeroLength

record sampledPoint =
  spPoint :: Point
  spDistance :: f64
  spAccumulated :: f64

definition frame_point :: "Frame \<Rightarrow> Point" where
  "frame_point f = \<lparr>pX = fPositionX f, pY = fPositionY f, pZ = fPositionZ f\<rparr>"

definition point_finite :: "Point \<Rightarrow> bool" where
  "point_finite p = (geo_isFinite (pX p) \<and> geo_isFinite (pY p) \<and> geo_isFinite (pZ p))"

fun cleanup_loop :: "Point option \<Rightarrow> Frame list \<Rightarrow> Point list" where
  "cleanup_loop lastp [] = []"
| "cleanup_loop lastp (f # fs) =
    (let point = frame_point f in
     if \<not> point_finite point then cleanup_loop lastp fs
     else if (case lastp of None \<Rightarrow> False | Some l \<Rightarrow> samePoint point l) then cleanup_loop lastp fs
     else point # cleanup_loop (Some point) fs)"

definition cleanupTelemetryPoints :: "Frame list \<Rightarrow> Point list" where
  "cleanupTelemetryPoints frames = cleanup_loop None frames"

fun length_loop :: "f64 \<Rightarrow> Point list \<Rightarrow> f64" where
  "length_loop totalM (p # q # ps) = length_loop (fadd totalM (Distance p q)) (q # ps)"
| "length_loop totalM _ = totalM"

definition polylineLength :: "Point list \<Rightarrow> bool \<Rightarrow> f64" where
  "polylineLength points isClosed =
    (if length points < 2 then Fin 0
     else let totalM = length_loop (Fin 0) points
          in if isClosed then fadd totalM (Distance (last points) (hd points)) else totalM)"

definition isClosedLoop :: "Point list \<Rightarrow> bool" where
  "isClosedLoop points =
    (if length points < 3 then False
     else let gap = Distance (hd points) (last points); totalM = polylineLength points False
          in if fle totalM (Fin 0) then False
             else fle gap (fmax (Fin 25) (fmul totalM (rnd (5 / 100)))))"

section \<open>Smoothing\<close>

definition go_mod :: "int \<Rightarrow> int \<Rightarrow> int" where
  "go_mod v n = (let r = sgn v * (\<bar>v\<bar> mod n) in if r < 0 then r + n else r)"

definition smooth_index :: "bool \<Rightarrow> int \<Rightarrow> int \<Rightarrow> int" where
  "smooth_index isClosed n i =
    (if isClosed then go_mod i n else if i < 0 then 0 else if i \<ge> n then n - 1 else i)"

definition smooth_at :: "Point list \<Rightarrow> int \<Rightarrow> bool \<Rightarrow> int \<Rightarrow> Point" where
  "smooth_at points half isClosed i =
    (let window = map (\<lambda>d. points ! nat (smooth_index isClosed (int (length points)) (i + d))) [- half..half];
         mean = (\<lambda>c. fdiv (foldl fadd (Fin 0) (map c window)) (f_of_int (int (length window))))
     in \<lparr>pX = mean pX, pY = mean pY, pZ = mean pZ\<rparr>)"

definition smoothPoints :: "Point list \<Rightarrow> int \<Rightarrow> bool \<Rightarrow> builder_err + Point list" where
  "smoothPoints points window isClosed =
    (if window < 1 \<or> window mod 2 = 0 then Inl (BuildSmoothingWindow window)
     else if length points < 2 then Inl BuildInsufficientPoints
     else if window = 1 \<or> length points = 2 then Inr points
     else Inr (map (\<lambda>i. smooth_at points (window div 2) isClosed (int i)) [0..<length points]))"

section \<open>Simplification\<close>

definition distanceToSegment :: "Point \<Rightarrow> Point \<Rightarrow> Point \<Rightarrow> f64" where
  "distanceToSegment point a b =
    (let dx = fsub (pX b) (pX a); dy = fsub (pY b) (pY a); dz = fsub (pZ b) (pZ a);
         denominator = fadd (fadd (fmul dx dx) (fmul dy dy)) (fmul dz dz)
     in if feq denominator (Fin 0) then Distance point a
        else let ratio = fdiv (fadd (fadd (fmul (fsub (pX point) (pX a)) dx) (fmul (fsub (pY point) (pY a)) dy))
                   (fmul (fsub (pZ point) (pZ a)) dz)) denominator;
                 ratio = (if flt ratio (Fin 0) then Fin 0 else ratio);
                 ratio = (if flt (Fin 1) ratio then Fin 1 else ratio)
          in Distance point \<lparr>pX = fadd (pX a) (fmul dx ratio), pY = fadd (pY a) (fmul dy ratio), pZ = fadd (pZ a) (fmul dz ratio)\<rparr>)"

fun farthest_loop :: "Point list \<Rightarrow> Point \<Rightarrow> Point \<Rightarrow> nat list \<Rightarrow> f64 \<Rightarrow> nat option \<Rightarrow> f64 \<times> nat option" where
  "farthest_loop points pa pb [] m index = (m, index)"
| "farthest_loop points pa pb (i # is) m index =
    (let distance = distanceToSegment (points ! i) pa pb
     in if flt m distance then farthest_loop points pa pb is distance (Some i) else farthest_loop points pa pb is m index)"

definition farthest :: "Point list \<Rightarrow> nat \<Rightarrow> nat \<Rightarrow> f64 \<times> nat option" where
  "farthest points a b = farthest_loop points (points ! a) (points ! b) [a + 1..<b] (Fin (- 1)) None"

lemma farthest_loop_index: "snd (farthest_loop points pa pb js m index) \<in> insert index (Some ` set js)"
proof (induction js arbitrary: m index)
  case (Cons i js)
  show ?case using Cons [of "distanceToSegment (points ! i) pa pb" "Some i"] Cons [of m index] by (auto simp: Let_def)
qed simp

lemma farthest_between: "farthest points a b = (d, Some i) \<Longrightarrow> a < i \<and> i < b"
  using farthest_loop_index [of points "points ! a" "points ! b" "[a + 1..<b]" "Fin (- 1)" None]
  by (auto simp: farthest_def)

text \<open>The indices strictly between two kept ones that are kept as well, in order.\<close>

function simplify_between :: "Point list \<Rightarrow> f64 \<Rightarrow> nat \<Rightarrow> nat \<Rightarrow> nat list" where
  "simplify_between points epsilon a b =
    (if b - a < 2 then []
     else case farthest points a b of
       (d, Some i) \<Rightarrow> if flt epsilon d then simplify_between points epsilon a i @ [i] @ simplify_between points epsilon i b else []
     | (d, None) \<Rightarrow> [])"
  by pat_completeness auto
termination
  by (relation "measure (\<lambda>(_, _, a, b). b - a)") (auto dest!: farthest_between [OF sym])

declare simplify_between.simps [simp del]

definition rdpSimplify :: "Point list \<Rightarrow> f64 \<Rightarrow> Point list" where
  "rdpSimplify points epsilon =
    (if length points \<le> 2 \<or> fle epsilon (Fin 0) then points
     else map (\<lambda>i. points ! i) (0 # simplify_between points epsilon 0 (length points - 1) @ [length points - 1]))"

section \<open>Resampling\<close>

fun builder_segments_loop :: "Segment list \<Rightarrow> f64 \<Rightarrow> Point list \<Rightarrow> Segment list \<times> f64" where
  "builder_segments_loop segments totalM (p # q # ps) =
    (case newSegment p q totalM of
       None \<Rightarrow> builder_segments_loop segments totalM (q # ps)
     | Some s \<Rightarrow> builder_segments_loop (segments @ [s]) (sgEndMeters s) (q # ps))"
| "builder_segments_loop segments totalM _ = (segments, totalM)"

definition buildSegments :: "Point list \<Rightarrow> bool \<Rightarrow> Segment list \<times> f64" where
  "buildSegments points isClosed =
    (let points = (if isClosed \<and> length points > 2 \<and> samePoint (hd points) (last points) then butlast points else points) in
     case NewCenterline points isClosed of
       Inr c \<Rightarrow> (clSegments c, clTotalMeters c)
     | Inl _ \<Rightarrow>
       let (segments, totalM) = builder_segments_loop [] (Fin 0) points
       in if isClosed then
            let len = Distance (last points) (hd points) in
            if flt (Fin 0) len
            then (segments @ [\<lparr>sgStart = last points, sgEnd = hd points, sgStartMeters = totalM, sgEndMeters = fadd totalM len, sgLength = len\<rparr>],
                  fadd totalM len)
            else (segments, totalM)
          else (segments, totalM))"

fun segment_at :: "Point \<Rightarrow> f64 \<Rightarrow> Segment list \<Rightarrow> Point" where
  "segment_at end_point distance [] = end_point"
| "segment_at end_point distance (s # ss) =
    (if flt (sgEndMeters s) distance then segment_at end_point distance ss
     else let ratio = fdiv (fsub distance (sgStartMeters s)) (sgLength s);
              ratio = (if flt ratio (Fin 0) then Fin 0 else ratio);
              ratio = (if flt (Fin 1) ratio then Fin 1 else ratio);
              along = (\<lambda>c. fadd (c (sgStart s)) (fmul (fsub (c (sgEnd s)) (c (sgStart s))) ratio))
          in \<lparr>pX = along pX, pY = along pY, pZ = along pZ\<rparr>)"

definition interpolateSegments :: "Segment list \<Rightarrow> f64 \<Rightarrow> Point" where
  "interpolateSegments segments distance =
    (if length segments = 0 then \<lparr>pX = Fin 0, pY = Fin 0, pZ = Fin 0\<rparr>
     else if fle distance (Fin 0) then sgStart (hd segments)
     else if fle (sgEndMeters (last segments)) distance then sgEnd (last segments)
     else segment_at (sgEnd (last segments)) distance segments)"

partial_function (option) targets_loop :: "f64 \<Rightarrow> f64 \<Rightarrow> f64 \<Rightarrow> f64 list \<Rightarrow> f64 list option" where
  "targets_loop totalM step distance targets =
    (if flt distance totalM then targets_loop totalM step (fadd distance step) (targets @ [distance]) else Some targets)"

text \<open>\<^verbatim>\<open>make\<close> panics when the capacity is negative or more than the address space holds.\<close>

definition make_fails :: "int \<Rightarrow> int \<Rightarrow> bool" where
  "make_fails bytes n = (n < 0 \<or> 2 ^ 48 < n * bytes)"

datatype resample_outcome = Resampled "sampledPoint list" f64 | ResampleRefused builder_err | ResamplePanics | ResampleDiverges

definition resamplePolyline :: "Point list \<Rightarrow> f64 \<Rightarrow> bool \<Rightarrow> resample_outcome" where
  "resamplePolyline points step isClosed =
    (if length points < 2 then ResampleRefused BuildInsufficientPoints
     else if \<not> flt (Fin 0) step then ResampleRefused (BuildResampleStep step)
     else let (segments, totalM) = buildSegments points isClosed in
       if fle totalM (Fin 0) \<or> length segments = 0 then ResampleRefused BuildZeroLength
       else if make_fails 8 (add64 (f_to_int64 (fceil (fdiv totalM step))) 1) then ResamplePanics
       else case targets_loop totalM step (Fin 0) [] of
         None \<Rightarrow> ResampleDiverges
       | Some targets \<Rightarrow>
         let targets = (if \<not> isClosed \<and> (length targets = 0 \<or> \<not> feq (last targets) totalM) then targets @ [totalM] else targets)
         in if make_fails 40 (int (length targets)) then ResamplePanics
            else let out = map (\<lambda>t. \<lparr>spPoint = interpolateSegments segments t, spDistance = t, spAccumulated = t\<rparr>) targets
                 in if length out < 2 then ResampleRefused BuildInsufficientPoints else Resampled out totalM)"

section \<open>Cleaning\<close>

lemma cleanup_loop_finite: "list_all point_finite (cleanup_loop l fs)"
  by (induction l fs rule: cleanup_loop.induct) (auto simp: Let_def)

lemma cleanup_loop_distinct:
  "successively (\<lambda>p q. \<not> samePoint q p) (case l of None \<Rightarrow> cleanup_loop l fs | Some p \<Rightarrow> p # cleanup_loop l fs)"
proof (induction l fs rule: cleanup_loop.induct)
  case (1 l) then show ?case by (cases l) auto
next
  case (2 l f fs)
  show ?case
  proof (cases "point_finite (frame_point f) \<and> \<not> (case l of None \<Rightarrow> False | Some p \<Rightarrow> samePoint (frame_point f) p)")
    case True
    then have "successively (\<lambda>p q. \<not> samePoint q p) (frame_point f # cleanup_loop (Some (frame_point f)) fs)"
      using "2.IH" by (auto simp: Let_def split: option.splits)
    then show ?thesis using True by (auto simp: Let_def split: option.splits)
  next
    case False
    then have e: "cleanup_loop l (f # fs) = cleanup_loop l fs" by (auto simp: Let_def split: option.splits)
    show ?thesis using "2.IH" False unfolding e by (auto simp: Let_def split: option.splits)
  qed
qed

section \<open>Simplification keeps the shape\<close>

lemma not_flt_trans: "\<not> isNaN y \<Longrightarrow> \<not> flt x y \<Longrightarrow> \<not> flt y z \<Longrightarrow> \<not> flt x z"
  by (cases x; cases y; cases z) (auto simp: isNaN_def)

lemma successively_join: "successively P (xs @ [m]) \<Longrightarrow> successively P (m # ys) \<Longrightarrow> successively P (xs @ m # ys)"
  by (auto simp: successively_append_iff)

lemma farthest_loop_max:
  assumes "\<not> isNaN m"
  shows "\<not> isNaN (fst (farthest_loop points pa pb js m index)) \<and> \<not> flt (fst (farthest_loop points pa pb js m index)) m \<and>
    (\<forall>j \<in> set js. \<not> flt (fst (farthest_loop points pa pb js m index)) (distanceToSegment (points ! j) pa pb))"
  using assms
proof (induction js arbitrary: m index)
  case (Cons j js)
  let ?d = "distanceToSegment (points ! j) pa pb"
  show ?case
  proof (cases "flt m ?d")
    case True
    then have n: "\<not> isNaN ?d" by (auto simp: isNaN_def)
    from Cons.IH [OF n, of "Some j"] True Cons.prems show ?thesis by (auto simp: Let_def dest: flt_trans)
  next
    case False
    then have "\<not> flt (fst (farthest_loop points pa pb js m index)) ?d"
      using Cons.IH [OF Cons.prems, of index] not_flt_trans [OF Cons.prems, of "fst (farthest_loop points pa pb js m index)" ?d] by blast
    then show ?thesis using False Cons.IH [OF Cons.prems, of index] by (simp add: Let_def)
  qed
qed (simp add: isNaN_def)

text \<open>No point between two neighbouring kept ones is farther than \<open>epsilon\<close> from the segment between them.\<close>

definition near :: "Point list \<Rightarrow> f64 \<Rightarrow> nat \<Rightarrow> nat \<Rightarrow> bool" where
  "near points epsilon a b \<longleftrightarrow> a < b \<and>
     list_all (\<lambda>i. \<not> flt epsilon (distanceToSegment (points ! i) (points ! a) (points ! b))) [a + 1..<b]"

lemma farthest_near:
  assumes "a < b" "\<not> fle epsilon (Fin 0)" "snd (farthest points a b) = None \<or> \<not> flt epsilon (fst (farthest points a b))"
  shows "near points epsilon a b"
proof -
  let ?d = "\<lambda>i. distanceToSegment (points ! i) (points ! a) (points ! b)"
  let ?f = "farthest_loop points (points ! a) (points ! b) [a + 1..<b] (Fin (- 1)) None"
  have m: "\<not> isNaN (fst ?f)" "\<forall>j \<in> set [a + 1..<b]. \<not> flt (fst ?f) (?d j)"
    using farthest_loop_max [of "Fin (- 1)" points "points ! a" "points ! b" "[a + 1..<b]" None] by (auto simp: isNaN_def)
  have none: "snd (farthest_loop ps pa pb js (Fin (- 1)) None) = None \<Longrightarrow> fst (farthest_loop ps pa pb js (Fin (- 1)) None) = Fin (- 1)" for ps pa pb js
  proof (induction js)
    case (Cons j js)
    have "snd (farthest_loop ps pa pb js (distanceToSegment (ps ! j) pa pb) (Some j)) \<noteq> None"
      using farthest_loop_index [of ps pa pb js "distanceToSegment (ps ! j) pa pb" "Some j"] by auto
    then show ?case using Cons by (auto simp: Let_def split: if_splits)
  qed simp
  have e: "\<not> flt epsilon (Fin (- 1))" using assms(2) by (cases epsilon) (auto simp: fle_def)
  have "\<not> flt epsilon (fst ?f)" using assms(3) none [of points "points ! a" "points ! b" "[a + 1..<b]"] e by (auto simp: farthest_def)
  then have "\<not> flt epsilon (?d j)" if "j \<in> set [a + 1..<b]" for j
    using m that not_flt_trans [OF m(1), of epsilon "?d j"] by blast
  then show ?thesis using assms(1) by (simp add: near_def list_all_iff)
qed

lemma simplify_between_near:
  assumes "a < b" "\<not> fle epsilon (Fin 0)"
  shows "successively (near points epsilon) (a # simplify_between points epsilon a b @ [b])"
  using assms
proof (induction points epsilon a b rule: simplify_between.induct)
  case (1 points epsilon a b)
  show ?case
  proof (cases "b - a < 2")
    case True
    then have "simplify_between points epsilon a b = []" by (subst simplify_between.simps) simp
    then show ?thesis using "1.prems" True by (simp add: near_def)
  next
    case False
    obtain d index where f: "farthest points a b = (d, index)" by fastforce
    show ?thesis
    proof (cases "\<exists>i. index = Some i \<and> flt epsilon d")
      case True
      then obtain i where i: "index = Some i" "flt epsilon d" by blast
      have lt: "a < i" "i < b" using farthest_between f i(1) by auto
      have "successively (near points epsilon) (a # simplify_between points epsilon a i @ [i])"
        "successively (near points epsilon) (i # simplify_between points epsilon i b @ [b])"
        using "1.IH"(1) [OF False f [symmetric] i] "1.IH"(2) [OF False f [symmetric] i] lt "1.prems"(2) by simp_all
      then have "successively (near points epsilon) ((a # simplify_between points epsilon a i) @ i # simplify_between points epsilon i b @ [b])"
        using successively_join [of "near points epsilon" "a # simplify_between points epsilon a i" i] by (simp only: append_Cons)
      moreover have "simplify_between points epsilon a b = simplify_between points epsilon a i @ [i] @ simplify_between points epsilon i b"
        using False f i by (subst simplify_between.simps) simp
      ultimately show ?thesis by simp
    next
      case none: False
      then have "near points epsilon a b" using f by (intro farthest_near "1.prems") auto
      moreover have "simplify_between points epsilon a b = []"
        using False f none by (subst simplify_between.simps) (auto split: option.splits)
      ultimately show ?thesis by simp
    qed
  qed
qed

text \<open>C36: 
  The simplification keeps the first and the last point and, of each stretch between two neighbouring
  points it keeps, no point is farther than \<open>epsilon\<close> from the segment between them.
\<close>

theorem simplification_within_epsilon:
  assumes "2 < length points" "\<not> fle epsilon (Fin 0)"
  shows "\<exists>kept. rdpSimplify points epsilon = map (\<lambda>i. points ! i) kept \<and> hd kept = 0 \<and> last kept = length points - 1 \<and>
    sorted_wrt (<) kept \<and> successively (near points epsilon) kept"
proof (intro exI conjI)
  let ?kept = "0 # simplify_between points epsilon 0 (length points - 1) @ [length points - 1]"
  show "rdpSimplify points epsilon = map (\<lambda>i. points ! i) ?kept" using assms by (simp add: rdpSimplify_def)
  show "hd ?kept = 0" "last ?kept = length points - 1" by simp_all
  show n: "successively (near points epsilon) ?kept" using assms by (intro simplify_between_near) auto
  then have "successively (<) ?kept" by (rule successively_mono) (simp add: near_def)
  then show "sorted_wrt (<) ?kept" by (subst (asm) successively_conv_sorted_wrt) (auto intro: transpI)
qed

definition demo_polyline :: "Point list" where
  "demo_polyline = [\<lparr>pX = Fin 0, pY = Fin 0, pZ = Fin 0\<rparr>, \<lparr>pX = Fin 3, pY = Fin 1, pZ = Fin 0\<rparr>, \<lparr>pX = Fin 6, pY = Fin 0, pZ = Fin 0\<rparr>]"

lemma simplification_within_epsilon_witness:
  "\<exists>kept. rdpSimplify demo_polyline (Fin (1 / 2)) = map (\<lambda>i. demo_polyline ! i) kept \<and> hd kept = 0 \<and> last kept = length demo_polyline - 1 \<and>
    sorted_wrt (<) kept \<and> successively (near demo_polyline (Fin (1 / 2))) kept"
  by (rule simplification_within_epsilon) (simp_all add: demo_polyline_def fle_def)

section \<open>Resampling ends\<close>

lemma rnd_rat_error:
  assumes "0 < q"
  shows "q - pow2 (ulp_exp q) / 2 \<le> rnd_rat q"
proof -
  let ?k = "ulp_exp q"
  have "(q / pow2 ?k - 1 / 2) * pow2 ?k \<le> of_int (rhe (q / pow2 ?k)) * pow2 ?k"
    using rhe_bounds(2) [of "q / pow2 ?k"] by (intro mult_right_mono) auto
  moreover have "(q / pow2 ?k - 1 / 2) * pow2 ?k = q - pow2 ?k / 2" by (simp add: left_diff_distrib)
  ultimately show ?thesis using assms by (simp add: rnd_rat_def Let_def)
qed

text \<open>One step of the loop moves on by at least half a step, if the step is not too small for the total length.\<close>

lemma step_progress:
  assumes "0 \<le> d" "d < totalM" "totalM \<le> s * pow2 46" "pow2 (- 1074) \<le> s"
  shows "d + s / 2 \<le> rnd_rat (d + s)"
proof -
  have s: "0 < s" using assms(4) pow2_pos [of "- 1074"] by linarith
  have q: "0 < d + s" using assms(1) s by simp
  have "pow2 (ulp_exp (d + s)) \<le> s"
  proof (cases "flog2 \<bar>d + s\<bar> - 52 \<le> - 1074")
    case True
    then show ?thesis using assms(4) by (simp add: ulp_exp_def)
  next
    case False
    then have u: "ulp_exp (d + s) = flog2 (d + s) - 52" using q by (simp add: ulp_exp_def)
    have "pow2 (flog2 (d + s)) \<le> d + s" using flog2_bounds(1) [OF q] .
    also have "\<dots> \<le> s * pow2 46 + s * pow2 46"
    proof -
      have "s * 1 \<le> s * pow2 46" using s pow2_mono [of 0 46] by (intro mult_left_mono) auto
      then show ?thesis using assms(2,3) by linarith
    qed
    also have "\<dots> = s * pow2 47" using pow2_Suc [of 46] by simp
    finally have "pow2 (ulp_exp (d + s)) * pow2 52 \<le> s * pow2 47" unfolding u by (simp add: pow2_diff)
    moreover have "s * pow2 47 \<le> s * pow2 52" using s by (intro mult_left_mono) auto
    ultimately have "pow2 (ulp_exp (d + s)) * pow2 52 \<le> s * pow2 52" by linarith
    then show ?thesis by simp
  qed
  then show ?thesis using rnd_rat_error [OF q] by linarith
qed

lemma targets_loop_ends:
  assumes "totalM \<le> s * pow2 46" "pow2 (- 1074) \<le> s"
  shows "0 \<le> d \<Longrightarrow> totalM - d \<le> of_nat k * (s / 2) \<Longrightarrow>
    \<exists>ds. targets_loop (Fin totalM) (Fin s) (Fin d) acc = Some (acc @ ds) \<and> sorted_wrt flt ds \<and>
      list_all (\<lambda>x. is_fin x \<and> d \<le> fval x \<and> fval x < totalM) ds \<and> (d < totalM \<longrightarrow> ds \<noteq> [] \<and> hd ds = Fin d)"
proof (induction k arbitrary: d acc)
  case 0
  then show ?case by (subst targets_loop.simps) simp
next
  case (Suc k)
  have s: "0 < s" using assms(2) pow2_pos [of "- 1074"] by linarith
  show ?case
  proof (cases "d < totalM")
    case True
    let ?r = "rnd_rat (d + s)"
    have p: "d + s / 2 \<le> ?r" by (rule step_progress [OF Suc.prems(1) True assms])
    have e: "targets_loop (Fin totalM) (Fin s) (Fin d) acc = targets_loop (Fin totalM) (Fin s) (rnd (d + s)) (acc @ [Fin d])"
      using True by (subst targets_loop.simps) simp
    show ?thesis
    proof (cases "pow2 1024 \<le> ?r")
      case True
      then have "rnd (d + s) = FInf False" by (simp add: rnd_def Let_def)
      then have "targets_loop (Fin totalM) (Fin s) (Fin d) acc = Some (acc @ [Fin d])" unfolding e by (subst targets_loop.simps) simp
      then show ?thesis using \<open>d < totalM\<close> by (intro exI [of _ "[Fin d]"]) simp
    next
      case False
      have r: "0 < ?r" "d < ?r" using p s Suc.prems(1) by linarith+
      then have f: "rnd (d + s) = Fin ?r" using False pow2_pos [of 1024] by (simp add: rnd_def Let_def not_le)
      have "totalM - ?r \<le> of_nat k * (s / 2)" using Suc.prems(2) p by (simp add: algebra_simps)
      from Suc.IH [of ?r "acc @ [Fin d]", OF _ this] r(1) obtain ds where
        ds: "targets_loop (Fin totalM) (Fin s) (Fin ?r) (acc @ [Fin d]) = Some ((acc @ [Fin d]) @ ds)" "sorted_wrt flt ds"
          "list_all (\<lambda>x. is_fin x \<and> ?r \<le> fval x \<and> fval x < totalM) ds" by auto
      then show ?thesis unfolding e f using r(2) True
        by (intro exI [of _ "Fin d # ds"]) (auto simp: list_all_iff intro: order.trans)
    qed
  next
    case False
    then show ?thesis by (subst targets_loop.simps) simp
  qed
qed

lemma capacity_refuses:
  assumes "x = FNaN \<or> isInf0 x \<or> (\<exists>q. x = Fin q \<and> of_int (2 ^ 46) \<le> q)"
  shows "make_fails 8 (add64 (f_to_int64 (fceil x)) 1)"
proof -
  have big: "make_fails 8 (add64 (- (2 ^ 63)) 1)" by (simp add: make_fails_def add64_def wrap64_def)
  have up: "make_fails 8 (add64 n 1)" if "2 ^ 46 \<le> n" "n < 2 ^ 63" for n
  proof (cases "n = 2 ^ 63 - 1")
    case True then show ?thesis by (simp add: make_fails_def add64_def wrap64_def)
  next
    case False
    then have "add64 n 1 = n + 1" using that by (intro add64_id) (auto simp: in64_def)
    then show ?thesis using that by (simp add: make_fails_def)
  qed
  show ?thesis
  proof (cases "\<exists>q. x = Fin q \<and> of_int (2 ^ 46) \<le> q")
    case True
    then obtain q where q: "x = Fin q" "of_int (2 ^ 46) \<le> q" by blast
    have "(2 :: int) ^ 46 \<le> \<lceil>q\<rceil>" using q(2) le_of_int_ceiling [of q] unfolding of_int_le_iff [symmetric, where 'a = rat] by linarith
    moreover from this have "fceil x = Fin (of_int \<lceil>q\<rceil>)" using q(1) by (auto simp: Let_def)
    ultimately show ?thesis using big up [of "\<lceil>q\<rceil>"] by (auto simp: f_to_int64_def Let_def rat_trunc_def)
  next
    case False
    then have "x = FNaN \<or> (\<exists>b. x = FInf b)" using assms by (cases x) (auto simp: isInf0_def)
    then show ?thesis using big by (auto simp: f_to_int64_def)
  qed
qed

lemma pow2_of_nat_46: "pow2 46 = of_int (2 ^ 46)"
  by (simp add: pow2_powi)

lemma targets_spec:
  assumes "f64_ok step" "flt (Fin 0) step" "\<not> fle totalM (Fin 0)" "\<not> make_fails 8 (add64 (f_to_int64 (fceil (fdiv totalM step))) 1)"
  shows "\<exists>ds. targets_loop totalM step (Fin 0) [] = Some ds \<and> is_fin totalM \<and> sorted_wrt flt ds \<and>
    list_all (\<lambda>x. is_fin x \<and> fval x < fval totalM) ds \<and> ds \<noteq> [] \<and> hd ds = Fin 0"
proof -
  have no: "\<not> (fdiv totalM step = FNaN \<or> isInf0 (fdiv totalM step) \<or> (\<exists>q. fdiv totalM step = Fin q \<and> of_int (2 ^ 46) \<le> q))"
    using capacity_refuses assms(4) by blast
  have "step = FInf False \<or> (\<exists>s. step = Fin s \<and> 0 < s)" using assms(2) by (cases step) auto
  moreover have "\<exists>m. totalM = Fin m \<and> 0 < m"
  proof (cases totalM)
    case (FInf b)
    then show ?thesis using assms(3) no calculation by (auto simp: isInf0_def fle_def)
  qed (use assms(3) no in \<open>auto simp: fle_def\<close>)
  ultimately obtain m where m: "totalM = Fin m" "0 < m" by blast
  show ?thesis
  proof (cases step)
    case (Fin s)
    then have s: "0 < s" "rep s" using assms(1,2) by (auto simp: f64_ok_def)
    have s': "pow2 (- 1074) \<le> s" using rep_diff_pos [of s 0] s rep_int [of 0] by simp
    have d: "fdiv totalM step = rnd (m / s)" using m s(1) by (simp add: Fin rnds_def)
    have "m / s \<le> of_int (2 ^ 46)"
    proof (rule ccontr)
      assume "\<not> m / s \<le> of_int (2 ^ 46)"
      then have "of_int (2 ^ 46) \<le> rnd_rat (m / s)" by (intro rep_le_rnd_rat rep_int) auto
      then have "rnd (m / s) = FInf False \<or> rnd (m / s) = Fin (rnd_rat (m / s)) \<and> of_int (2 ^ 46) \<le> rnd_rat (m / s)"
        using pow2_pos [of 1024] by (auto simp: rnd_def Let_def)
      then show False using no unfolding d by (auto simp: isInf0_def)
    qed
    then have "m \<le> s * of_int (2 ^ 46)" using s(1) by (simp add: pos_divide_le_eq mult.commute)
    then have le: "m \<le> s * pow2 46" using pow2_of_nat_46 by simp
    obtain k where "m < of_nat k * (s / 2)" using ex_less_of_nat_mult [of "s / 2" m] s(1) by auto
    then have k: "m - 0 \<le> of_nat k * (s / 2)" by simp
    from targets_loop_ends [OF le s' _ k, of "[]"] show ?thesis using m Fin by (auto simp: list_all_iff)
  next
    case (FInf b)
    then have "targets_loop totalM step (Fin 0) [] = Some [Fin 0]"
      using assms(2) m by (subst targets_loop.simps, subst targets_loop.simps) simp
    then show ?thesis using m by simp
  qed (use assms(2) in auto)
qed

lemma flt_neq: "flt x y \<Longrightarrow> \<not> feq x y"
  by (cases x; cases y) auto

lemma fle_total: "fle x (Fin 0) = False \<Longrightarrow> is_fin x \<Longrightarrow> flt (Fin 0) x"
  by (cases x) (auto simp: fle_def)

definition resampled_ok :: "bool \<Rightarrow> sampledPoint list \<Rightarrow> f64 \<Rightarrow> bool" where
  "resampled_ok isClosed out t =
    (2 \<le> length out \<and> is_fin t \<and> map spDistance out = map spAccumulated out \<and> sorted_wrt flt (map spAccumulated out) \<and>
     spAccumulated (hd out) = Fin 0 \<and>
     (if isClosed then list_all (\<lambda>p. flt (spAccumulated p) t) out else feq (spAccumulated (last out)) t))"

lemma sorted_snoc: "sorted_wrt flt ds \<Longrightarrow> list_all (\<lambda>x. flt x t) ds \<Longrightarrow> sorted_wrt flt (ds @ [t])"
  by (auto simp: sorted_wrt_append list_all_iff)

lemma resample_result:
  assumes "f64_ok step"
  shows "case resamplePolyline points step isClosed of
    Resampled out t \<Rightarrow> resampled_ok isClosed out t | ResampleDiverges \<Rightarrow> False | ResampleRefused e \<Rightarrow> True | ResamplePanics \<Rightarrow> True"
proof -
  obtain segments t where b: "buildSegments points isClosed = (segments, t)" by force
  show ?thesis
  proof (cases "length points < 2 \<or> \<not> flt (Fin 0) step \<or> fle t (Fin 0) \<or> length segments = 0 \<or>
      make_fails 8 (add64 (f_to_int64 (fceil (fdiv t step))) 1)")
    case True then show ?thesis unfolding resamplePolyline_def b by auto
  next
    case False
    then obtain ds where ds: "targets_loop t step (Fin 0) [] = Some ds" "is_fin t" "sorted_wrt flt ds"
        "list_all (\<lambda>x. is_fin x \<and> fval x < fval t) ds" "ds \<noteq> []" "hd ds = Fin 0"
      using targets_spec [OF assms, of t] by auto
    obtain q where q: "t = Fin q" using ds(2) False by (cases t) (auto simp: fle_def)
    have "is_fin x \<and> fval x < fval t \<Longrightarrow> flt x t" for x unfolding q by (cases x) auto
    then have lt: "list_all (\<lambda>x. flt x t) ds" using ds(4) by (auto simp: list_all_iff)
    have nl: "\<not> feq (last ds) t" using lt ds(5) flt_neq [of "last ds" t] by (simp add: list_all_iff)
    let ?mk = "\<lambda>t. \<lparr>spPoint = interpolateSegments segments t, spDistance = t, spAccumulated = t\<rparr>"
    define ts where "ts = (if isClosed then ds else ds @ [t])"
    have e: "resamplePolyline points step isClosed =
      (if make_fails 40 (int (length ts)) then ResamplePanics
       else if length ts < 2 then ResampleRefused BuildInsufficientPoints else Resampled (map ?mk ts) t)"
      using False ds(1) nl unfolding resamplePolyline_def b ts_def by (simp add: Let_def)
    have "sorted_wrt flt ts" using ds(3) lt by (simp add: ts_def sorted_snoc)
    moreover have "hd ts = Fin 0" using ds(5,6) by (simp add: ts_def)
    moreover have "ts \<noteq> []" using ds(5) by (simp add: ts_def)
    ultimately have "resampled_ok isClosed (map ?mk ts) t" if "\<not> length ts < 2"
      using that ds(2) lt unfolding resampled_ok_def
      by (auto simp: ts_def o_def list.map_sel list_all_iff last_map q)
    then show ?thesis unfolding e by simp
  qed
qed

text \<open>C37: Resampling ends for every binary64 step, and its points lie at strictly increasing distances from zero
up to the length of the line (the last point of an open line is its end).\<close>

theorem resampling_ends:
  assumes "f64_ok step"
  shows "case resamplePolyline points step isClosed of
    Resampled out t \<Rightarrow> resampled_ok isClosed out t | ResampleDiverges \<Rightarrow> False | ResampleRefused e \<Rightarrow> True | ResamplePanics \<Rightarrow> True"
  by (rule resample_result [OF assms])

lemma resampling_ends_witness:
  "case resamplePolyline demo_polyline (Fin 2) False of
    Resampled out t \<Rightarrow> resampled_ok False out t | ResampleDiverges \<Rightarrow> False | ResampleRefused e \<Rightarrow> True | ResamplePanics \<Rightarrow> True"
  using rep_int [of 2] by (intro resampling_ends) (simp add: f64_ok_def pow2_powi)

end
