(* ===== verification/TrackRoughness.thy ===== *)
theory TrackRoughness
  imports TrackGeometry
begin

text \<open>
  \<^verbatim>\<open>internal/trackbuilder/roughness.go\<close> and the series summary of \<^verbatim>\<open>baseline.go\<close>: measures of how
  rough a recorded drive is.  \<open>hypot\<close> is the routine of the standard library
  (\<open>max * sqrt (1 + (min / max)\<^sup>2)\<close> with its special cases); the arc tangent, a polynomial
  approximation, is the parameter \<open>atan2\<close>.
\<close>

section \<open>Planar distances\<close>

definition planarLengthEpsilon :: f64 where "planarLengthEpsilon = rnd (1 / 1000000000)"

definition sourceChordExcessWindowPoints :: nat where "sourceChordExcessWindowPoints = 4"

definition hypot :: "f64 \<Rightarrow> f64 \<Rightarrow> f64" where
  "hypot p q =
    (if isInf0 p \<or> isInf0 q then FInf False
     else if isNaN p \<or> isNaN q then FNaN
     else let a = fabs p; b = fabs q; hi = (if flt a b then b else a); lo = (if flt a b then a else b)
          in if feq hi (Fin 0) then Fin 0
             else let r = fdiv lo hi in fmul hi (fsqrt (fadd (Fin 1) (fmul r r))))"

definition planarDistanceBetween :: "Point \<Rightarrow> Point \<Rightarrow> f64" where
  "planarDistanceBetween a b = hypot (fsub (pX b) (pX a)) (fsub (pZ b) (pZ a))"

definition planarVectorBetween :: "Point \<Rightarrow> Point \<Rightarrow> Point option" where
  "planarVectorBetween start end =
    (let v = \<lparr>pX = fsub (pX end) (pX start), pY = Fin 0, pZ = fsub (pZ end) (pZ start)\<rparr>
     in if fle (hypot (pX v) (pZ v)) planarLengthEpsilon then None else Some v)"

fun path_loop :: "f64 \<Rightarrow> Point list \<Rightarrow> f64 option" where
  "path_loop pathMeters (p # q # ps) =
    (let segment = planarDistanceBetween p q
     in if \<not> geo_isFinite segment \<or> fle segment planarLengthEpsilon then None
        else path_loop (fadd pathMeters segment) (q # ps))"
| "path_loop pathMeters _ = Some pathMeters"

definition planarWindowPathAndChord :: "Point list \<Rightarrow> (f64 \<times> f64) option" where
  "planarWindowPathAndChord points =
    (if length points < 2 then None
     else case path_loop (Fin 0) points of None \<Rightarrow> None
     | Some pathMeters \<Rightarrow>
       let chordMeters = planarDistanceBetween (hd points) (last points)
       in if \<not> geo_isFinite pathMeters \<or> \<not> geo_isFinite chordMeters \<or> fle chordMeters planarLengthEpsilon then None
          else Some (pathMeters, chordMeters))"

section \<open>Heading changes\<close>

definition angleBetween :: "(f64 \<Rightarrow> f64 \<Rightarrow> f64) \<Rightarrow> Point \<Rightarrow> Point \<Rightarrow> f64 option" where
  "angleBetween atan2 a b =
    (if fle (hypot (pX a) (pZ a)) planarLengthEpsilon \<or> fle (hypot (pX b) (pZ b)) planarLengthEpsilon then None
     else let dot = fadd (fmul (pX a) (pX b)) (fmul (pZ a) (pZ b));
              cross = fsub (fmul (pX a) (pZ b)) (fmul (pZ a) (pX b))
          in Some (atan2 (fabs cross) dot))"

text \<open>The vector of the first two points that are apart; the search covers all neighbouring pairs in order.\<close>

fun first_vector :: "Point list \<Rightarrow> Point option" where
  "first_vector (p # q # ps) = (case planarVectorBetween p q of Some v \<Rightarrow> Some v | None \<Rightarrow> first_vector (q # ps))"
| "first_vector _ = None"

fun heading_loop :: "(f64 \<Rightarrow> f64 \<Rightarrow> f64) \<Rightarrow> Point \<Rightarrow> f64 \<Rightarrow> Point list \<Rightarrow> f64" where
  "heading_loop atan2 previous totalRadians (p # q # ps) =
    (case planarVectorBetween p q of
       None \<Rightarrow> heading_loop atan2 previous totalRadians (q # ps)
     | Some next_vector \<Rightarrow>
       heading_loop atan2 next_vector
         (case angleBetween atan2 previous next_vector of Some angle \<Rightarrow> fadd totalRadians angle | None \<Rightarrow> totalRadians) (q # ps))"
| "heading_loop atan2 previous totalRadians _ = totalRadians"

definition go_Pi :: f64 where "go_Pi = Fin (884279719003555 / 281474976710656)"

definition headingChangeDegrees :: "(f64 \<Rightarrow> f64 \<Rightarrow> f64) \<Rightarrow> Point list \<Rightarrow> f64" where
  "headingChangeDegrees atan2 points =
    (if length points < 3 then Fin 0
     else case first_vector points of None \<Rightarrow> Fin 0
     | Some previous \<Rightarrow> fdiv (fmul (heading_loop atan2 previous (Fin 0) (tl points)) (Fin 180)) go_Pi)"

section \<open>Summaries of series\<close>

definition ffloor :: "f64 \<Rightarrow> f64" where "ffloor x = fneg (fceil (fneg x))"

definition float_less :: "f64 \<Rightarrow> f64 \<Rightarrow> bool" where
  "float_less x y = (flt x y \<or> isNaN x \<and> \<not> isNaN y)"

definition percentileSorted :: "f64 list \<Rightarrow> f64 \<Rightarrow> f64" where
  "percentileSorted values pct =
    (if length values = 0 then Fin 0
     else if length values = 1 then hd values
     else if fle pct (Fin 0) then hd values
     else if fle (Fin 1) pct then last values
     else let position = fmul pct (f_of_int (int (length values) - 1));
              lower = f_to_int64 (ffloor position);
              upper = f_to_int64 (fceil position)
          in if lower = upper then values ! nat lower
             else let weight = fsub position (f_of_int lower)
                  in fadd (values ! nat lower) (fmul (fsub (values ! nat upper) (values ! nat lower)) weight))"

record seriesSummary =
  ssAvg :: f64
  ssMin :: f64
  ssMax :: f64
  ssStddev :: f64

fun series_loop :: "int \<Rightarrow> f64 \<Rightarrow> f64 \<Rightarrow> f64 \<Rightarrow> f64 \<Rightarrow> f64 list \<Rightarrow> f64 \<times> f64 \<times> f64 \<times> f64" where
  "series_loop i lo hi mean m2 [] = (lo, hi, mean, m2)"
| "series_loop i lo hi mean m2 (value # vs) =
    (let lo = (if flt value lo then value else lo);
         hi = (if flt hi value then value else hi);
         delta = fsub value mean;
         mean = fadd mean (fdiv delta (f_of_int (i + 1)))
     in series_loop (i + 1) lo hi mean (fadd m2 (fmul delta (fsub value mean))) vs)"

definition summarizeFloatSeries :: "f64 list \<Rightarrow> seriesSummary" where
  "summarizeFloatSeries values =
    (case values of [] \<Rightarrow> \<lparr>ssAvg = FNaN, ssMin = FNaN, ssMax = FNaN, ssStddev = FNaN\<rparr>
     | v # _ \<Rightarrow>
       let (lo, hi, mean, m2) = series_loop 0 v v (Fin 0) (Fin 0) values
       in \<lparr>ssAvg = mean, ssMin = lo, ssMax = hi, ssStddev = fsqrt (fdiv m2 (f_of_int (int (length values))))\<rparr>)"

record windowSummary =
  wsAvg :: f64
  wsP50 :: f64
  wsP95 :: f64
  wsMax :: f64

definition summarizeWindowSeries :: "f64 list \<Rightarrow> windowSummary" where
  "summarizeWindowSeries values =
    (if length values = 0 then \<lparr>wsAvg = FNaN, wsP50 = FNaN, wsP95 = FNaN, wsMax = FNaN\<rparr>
     else let s = summarizeFloatSeries values; sorted_values = sort_slice float_less values
          in \<lparr>wsAvg = ssAvg s, wsP50 = percentileSorted sorted_values (rnd (50 / 100)),
              wsP95 = percentileSorted sorted_values (rnd (95 / 100)), wsMax = ssMax s\<rparr>)"

section \<open>The two reports\<close>

record roughness =
  roSegmentCount :: int
  roMinMeters :: f64
  roP50Meters :: f64
  roP95Meters :: f64
  roMaxMeters :: f64
  roHeadingChangeDegrees :: f64
  roHeadingChangePerMeter :: f64

definition no_roughness :: roughness where
  "no_roughness = \<lparr>roSegmentCount = 0, roMinMeters = Fin 0, roP50Meters = Fin 0, roP95Meters = Fin 0, roMaxMeters = Fin 0,
     roHeadingChangeDegrees = Fin 0, roHeadingChangePerMeter = Fin 0\<rparr>"

fun lengths_loop :: "f64 list \<Rightarrow> f64 \<Rightarrow> Point list \<Rightarrow> f64 list \<times> f64" where
  "lengths_loop lengths totalLength (p # q # ps) =
    (let len = Distance p q
     in if fle len (Fin 0) \<or> \<not> geo_isFinite len then lengths_loop lengths totalLength (q # ps)
        else lengths_loop (lengths @ [len]) (fadd totalLength len) (q # ps))"
| "lengths_loop lengths totalLength _ = (lengths, totalLength)"

definition sourceRoughnessMetrics :: "(f64 \<Rightarrow> f64 \<Rightarrow> f64) \<Rightarrow> Point list \<Rightarrow> roughness" where
  "sourceRoughnessMetrics atan2 points =
    (if length points < 2 then no_roughness
     else let (lengths, totalLength) = lengths_loop [] (Fin 0) points
          in if length lengths = 0 then no_roughness
             else let lengths = sort_slice float_less lengths; degrees = headingChangeDegrees atan2 points
                  in \<lparr>roSegmentCount = int (length lengths), roMinMeters = hd lengths,
                      roP50Meters = percentileSorted lengths (rnd (50 / 100)), roP95Meters = percentileSorted lengths (rnd (95 / 100)),
                      roMaxMeters = last lengths, roHeadingChangeDegrees = degrees,
                      roHeadingChangePerMeter = (if flt (Fin 0) totalLength then fdiv degrees totalLength else Fin 0)\<rparr>)"

record chordExcess =
  ceWindowCount :: int
  ceRatio :: windowSummary
  ceExcess :: windowSummary

definition window_measures :: "Point list \<Rightarrow> (f64 \<times> f64) option" where
  "window_measures window =
    (case planarWindowPathAndChord window of None \<Rightarrow> None
     | Some (pathMeters, chordMeters) \<Rightarrow>
       let ratio = fdiv pathMeters chordMeters
       in if \<not> geo_isFinite ratio then None else Some (ratio, fsub pathMeters chordMeters))"

definition point_windows :: "Point list \<Rightarrow> Point list list" where
  "point_windows points =
    map (\<lambda>i. take sourceChordExcessWindowPoints (drop i points)) [0..<length points + 1 - sourceChordExcessWindowPoints]"

definition sourceChordExcessMetrics :: "Point list \<Rightarrow> chordExcess" where
  "sourceChordExcessMetrics points =
    (if length points < sourceChordExcessWindowPoints
     then \<lparr>ceWindowCount = 0, ceRatio = summarizeWindowSeries [], ceExcess = summarizeWindowSeries []\<rparr>
     else let measures = List.map_filter window_measures (point_windows points)
          in \<lparr>ceWindowCount = int (length measures), ceRatio = summarizeWindowSeries (map fst measures),
              ceExcess = summarizeWindowSeries (map snd measures)\<rparr>)"

section \<open>Extremes of a series\<close>

lemma series_loop_bounds:
  assumes "\<not> isNaN lo" "\<not> isNaN hi" "list_all (\<lambda>v. \<not> isNaN v) vs"
  shows "case series_loop i lo hi mean m2 vs of (lo', hi', _, _) \<Rightarrow>
    (lo' = lo \<or> lo' \<in> set vs) \<and> (hi' = hi \<or> hi' \<in> set vs) \<and> \<not> flt lo lo' \<and> \<not> flt hi' hi \<and>
    list_all (\<lambda>v. \<not> flt v lo' \<and> \<not> flt hi' v) vs"
  using assms
proof (induction i lo hi mean m2 vs rule: series_loop.induct)
  case (1 i lo hi mean m2) then show ?case by (cases lo; cases hi) auto
next
  case (2 i lo hi mean m2 v vs)
  define lo1 where "lo1 = (if flt v lo then v else lo)"
  define hi1 where "hi1 = (if flt hi v then v else hi)"
  have n: "\<not> isNaN lo1" "\<not> isNaN hi1" "\<not> isNaN v" "list_all (\<lambda>v. \<not> isNaN v) vs" using "2.prems" by (auto simp: lo1_def hi1_def)
  have b: "\<not> flt lo lo1" "\<not> flt v lo1" "\<not> flt hi1 hi" "\<not> flt hi1 v"
    by (auto simp: lo1_def hi1_def dest: flt_trans)
  obtain lo' hi' mean' m2' where r: "series_loop i lo hi mean m2 (v # vs) = (lo', hi', mean', m2')" using prod_cases4 by blast
  then have r': "series_loop (i + 1) lo1 hi1 (fadd mean (fdiv (fsub v mean) (f_of_int (i + 1))))
      (fadd m2 (fmul (fsub v mean) (fsub v (fadd mean (fdiv (fsub v mean) (f_of_int (i + 1))))))) vs = (lo', hi', mean', m2')"
    by (simp add: lo1_def hi1_def Let_def)
  from "2.IH" [OF lo1_def hi1_def refl refl n(1,2,4)] r' have ih:
    "lo' = lo1 \<or> lo' \<in> set vs" "hi' = hi1 \<or> hi' \<in> set vs" "\<not> flt lo1 lo'" "\<not> flt hi' hi1" "list_all (\<lambda>v. \<not> flt v lo' \<and> \<not> flt hi' v) vs" by auto
  have "\<not> flt lo lo'" "\<not> flt v lo'" "\<not> flt hi' hi" "\<not> flt hi' v"
    using b ih(3,4) n not_flt_trans [of lo1] not_flt_trans [of hi1] by blast+
  then show ?case unfolding r using ih by (auto simp: lo1_def hi1_def split: if_splits)
qed

lemma series_extremes:
  assumes "values \<noteq> []" "list_all (\<lambda>v. \<not> isNaN v) values"
  shows "ssMin (summarizeFloatSeries values) \<in> set values" "ssMax (summarizeFloatSeries values) \<in> set values"
    "list_all (\<lambda>v. \<not> flt v (ssMin (summarizeFloatSeries values)) \<and> \<not> flt (ssMax (summarizeFloatSeries values)) v) values"
proof -
  obtain v vs where v: "values = v # vs" using assms(1) by (cases "values") auto
  obtain lo hi mean m2 where r: "series_loop 0 v v (Fin 0) (Fin 0) values = (lo, hi, mean, m2)" using prod_cases4 by blast
  have s: "ssMin (summarizeFloatSeries values) = lo" "ssMax (summarizeFloatSeries values) = hi"
    using r unfolding v by (simp_all add: summarizeFloatSeries_def)
  show "ssMin (summarizeFloatSeries values) \<in> set values" "ssMax (summarizeFloatSeries values) \<in> set values"
    "list_all (\<lambda>v. \<not> flt v (ssMin (summarizeFloatSeries values)) \<and> \<not> flt (ssMax (summarizeFloatSeries values)) v) values"
    using series_loop_bounds [of v v "values" 0 "Fin 0" "Fin 0"] assms(2) unfolding r s by (auto simp: v)
qed

section \<open>Order of the segment lengths\<close>

interpretation float_order: slice_less float_less UNIV
proof unfold_locales
  show "float_less x y \<Longrightarrow> \<not> float_less y x" for x y
    by (cases x; cases y) (auto simp: float_less_def isNaN_def)
  show "\<not> float_less y x \<Longrightarrow> \<not> float_less z y \<Longrightarrow> \<not> float_less z x" for x y z
    by (cases x; cases y; cases z) (auto simp: float_less_def isNaN_def)
qed

lemma sorted_extremes:
  assumes "sorted_wrt (\<lambda>x y. \<not> lt y x) xs" "x \<in> set xs" "\<And>x. \<not> lt x x"
  shows "\<not> lt x (hd xs) \<and> \<not> lt (last xs) x"
proof -
  obtain i where i: "i < length xs" "x = xs ! i" using assms(2) by (auto simp: in_set_conv_nth)
  then have ne: "xs \<noteq> []" by auto
  have "\<not> lt (xs ! j) (xs ! k)" if "k \<le> j" "j < length xs" for j k
    using that assms(1,3) by (cases "k = j") (auto simp: sorted_wrt_iff_nth_less)
  from this [of 0 i] this [of i "length xs - 1"] i ne show ?thesis by (auto simp: hd_conv_nth last_conv_nth)
qed

lemma float_less_irrefl: "\<not> float_less x x"
  by (cases x) (auto simp: float_less_def)

text \<open>The extremes the report shows are those of the segments that were counted.\<close>

lemma roughness_extremes:
  assumes "2 \<le> length points" "lengths_loop [] (Fin 0) points = (ls, t)" "ls \<noteq> []"
  shows "roSegmentCount (sourceRoughnessMetrics atan2 points) = int (length ls) \<and>
    list_all (\<lambda>x. \<not> float_less x (roMinMeters (sourceRoughnessMetrics atan2 points)) \<and>
      \<not> float_less (roMaxMeters (sourceRoughnessMetrics atan2 points)) x) ls"
proof -
  have "float_order.ordered (sort_slice float_less ls)" by (rule float_order.ordered_sort_slice) simp
  then have "\<not> float_less x (hd (sort_slice float_less ls)) \<and> \<not> float_less (last (sort_slice float_less ls)) x" if "x \<in> set ls" for x
    using sorted_extremes [of float_less "sort_slice float_less ls" x] that unfolding float_order.ordered_def
    by (simp add: float_less_irrefl)
  then have "list_all (\<lambda>x. \<not> float_less x (hd (sort_slice float_less ls)) \<and> \<not> float_less (last (sort_slice float_less ls)) x) ls"
    unfolding list_all_iff by blast
  moreover have "roSegmentCount (sourceRoughnessMetrics atan2 points) = int (length ls)"
    "roMinMeters (sourceRoughnessMetrics atan2 points) = hd (sort_slice float_less ls)"
    "roMaxMeters (sourceRoughnessMetrics atan2 points) = last (sort_slice float_less ls)"
    using assms unfolding sourceRoughnessMetrics_def Let_def by simp_all
  ultimately show ?thesis by simp
qed

end
