(* ===== verification/Trimming.thy ===== *)
theory Trimming
  imports Prelude
begin

text \<open>Trimming leaves a text alone that starts and ends with a visible ASCII character.\<close>

definition visible :: "char \<Rightarrow> bool" where
  "visible c \<longleftrightarrow> 33 \<le> (of_char c :: nat) \<and> (of_char c :: nat) \<le> 126"

lemma space_encodings_ends: "list_all (\<lambda>p. p \<noteq> [] \<and> \<not> visible (hd p) \<and> \<not> visible (last p)) space_encodings"
  by (simp add: space_encodings_def byte_char_def visible_def)

lemma strip_any_other: "list_all (\<lambda>p. p \<noteq> [] \<and> hd p \<noteq> hd s) ps \<Longrightarrow> s \<noteq> [] \<Longrightarrow> strip_any ps s = None"
proof (induction ps)
  case (Cons p ps)
  then have "strip_prefix p s = None" by (cases p; cases s) auto
  then show ?case using Cons by simp
qed simp

lemma trim_front_other: "list_all (\<lambda>p. p \<noteq> [] \<and> hd p \<noteq> hd s) ps \<Longrightarrow> trim_front ps s = s"
  using strip_any_other [of s ps] by (cases "s = []"; subst trim_front.simps) (auto split: option.splits)

lemma trim_visible:
  assumes "s \<noteq> []" "visible (hd s)" "visible (last s)"
  shows "trim_space s = s"
proof -
  have "list_all (\<lambda>p. p \<noteq> [] \<and> hd p \<noteq> hd s) space_encodings"
    "list_all (\<lambda>p. p \<noteq> [] \<and> hd p \<noteq> hd (rev s)) (map rev space_encodings)"
    using space_encodings_ends assms by (auto simp: list_all_iff hd_rev)
  then show ?thesis by (simp add: trim_space_def trim_front_other)
qed

lemma trim_empty: "trim_space [] = []"
  by (metis set_trim_space list.set(1) set_empty subset_empty)

end
