(* ===== verification/TrackBuilder.thy ===== *)
theory TrackBuilder
  imports TrackRoughness Tracks AiPrompts Trimming
begin

text \<open>
  \<^verbatim>\<open>internal/trackbuilder\<close>, the offline tool that turns the telemetry of one drive into a catalogue with a
  single curated layout (\<^verbatim>\<open>options.go\<close>, \<^verbatim>\<open>pipeline.go\<close>, \<^verbatim>\<open>report.go\<close>), and the baseline report over
  several laps (\<^verbatim>\<open>baseline.go\<close>).  The two constant texts \<^verbatim>\<open>GeneratedBy\<close> and \<^verbatim>\<open>Notes\<close> of the catalogue are
  not part of its record; the JSON encoding is not modelled.
\<close>

section \<open>Options and requests\<close>

record Options =
  opInputPath :: string
  opOutputPath :: string
  opLayoutID :: string
  opSmoothingWindow :: int
  opEpsilonMeters :: f64
  opResampleStepMeters :: f64

definition DefaultOptions :: Options where
  "DefaultOptions = \<lparr>opInputPath = [], opOutputPath = [], opLayoutID = [], opSmoothingWindow = 3,
     opEpsilonMeters = Fin (1 / 2), opResampleStepMeters = Fin 2\<rparr>"

definition options_Validate :: "Options \<Rightarrow> builder_err option" where
  "options_Validate o1 =
    (if trim_space (opLayoutID o1) = [] then Some BuildMissingLayoutID
     else if opSmoothingWindow o1 < 1 \<or> opSmoothingWindow o1 mod 2 = 0 then Some (BuildSmoothingWindow (opSmoothingWindow o1))
     else if \<not> flt (Fin 0) (opEpsilonMeters o1) then Some (BuildEpsilon (opEpsilonMeters o1))
     else if \<not> flt (Fin 0) (opResampleStepMeters o1) then Some (BuildResampleStep (opResampleStepMeters o1))
     else None)"

datatype build_error =
    BuilderRefused builder_err
  | InvalidBatch "int option" tel_err
  | LayoutNotFound string
  | GeneratedInvalid cat_error
  | NoBaselineSamples
  | NoAcceptedSamples

fun timestamps_loop :: "int \<Rightarrow> int \<Rightarrow> Frame list \<Rightarrow> build_error option" where
  "timestamps_loop index previousTimestamp [] = None"
| "timestamps_loop index previousTimestamp (f # fs) =
    (if fTimestampUnixMs f \<le> 0 then Some (InvalidBatch (Some index) tel_err.ErrInvalidTimestamp)
     else if index > 0 \<and> fTimestampUnixMs f \<le> previousTimestamp then Some (InvalidBatch (Some index) tel_err.ErrNonMonotonicTimestamp)
     else timestamps_loop (index + 1) (fTimestampUnixMs f) fs)"

definition validateBuildRequest :: "IngestBatchRequest \<Rightarrow> build_error option" where
  "validateBuildRequest request =
    (if trim_space (bSessionID request) = [] then Some (InvalidBatch None tel_err.ErrMissingSessionID)
     else if length (bFrames request) = 0 then Some (InvalidBatch None tel_err.ErrEmptyFrames)
     else timestamps_loop 0 0 (bFrames request))"

fun find_layout_in :: "CatalogLayout list \<Rightarrow> string \<Rightarrow> CatalogLayout option" where
  "find_layout_in [] layoutID = None"
| "find_layout_in (l # ls) layoutID = (if loID l = layoutID then Some l else find_layout_in ls layoutID)"

fun find_seed_loop :: "CatalogTrack list \<Rightarrow> string \<Rightarrow> (CatalogTrack \<times> CatalogLayout) option" where
  "find_seed_loop [] layoutID = None"
| "find_seed_loop (t # ts) layoutID =
    (case find_layout_in (trLayouts t) layoutID of Some l \<Rightarrow> Some (t, l) | None \<Rightarrow> find_seed_loop ts layoutID)"

definition findSeedLayout :: "Catalog \<Rightarrow> string \<Rightarrow> (CatalogTrack \<times> CatalogLayout) option" where
  "findSeedLayout catalog layoutID = find_seed_loop (caTracks catalog) layoutID"

definition curatedSourceRetrievedAt :: "Frame list \<Rightarrow> string" where
  "curatedSourceRetrievedAt frames = format_date (unix_milli (fTimestampUnixMs (hd frames)))"

definition curatedGeometrySourceType :: string where
  "curatedGeometrySourceType = ''telemetry_one_curated_geometry''"

definition appendCuratedSource :: "Source list \<Rightarrow> string \<Rightarrow> Source list" where
  "appendCuratedSource sources retrievedAt =
    sources @ [\<lparr>srcURL = ''urn:telemetry-one:trackbuilder:curated-geometry'', srcSourceType = curatedGeometrySourceType,
      srcRetrievedAt = retrievedAt,
      srcNote = ''Curated geometry generated from telemetry ingest; review-only and not runtime approved.''\<rparr>]"

section \<open>Comparison with the catalogue\<close>

definition toGeometryPoint :: "TrackPoint \<Rightarrow> Point" where
  "toGeometryPoint p = \<lparr>pX = tpX p, pY = tpY p, pZ = tpZ p\<rparr>"

fun deviation_loop :: "Centerline \<Rightarrow> f64 \<Rightarrow> int \<Rightarrow> f64 \<Rightarrow> TrackPoint list \<Rightarrow> f64 \<times> int \<times> f64" where
  "deviation_loop c acc n hi [] = (acc, n, hi)"
| "deviation_loop c acc n hi (p # ps) =
    (let off = pjOffCenterlineMeters (Project c (toGeometryPoint p))
     in if \<not> geo_isFinite off then deviation_loop c acc n hi ps
        else deviation_loop c (fadd acc off) (n + 1) (if flt hi off then off else hi) ps)"

definition deviationAgainstBaseline :: "TrackPoint list \<Rightarrow> TrackPoint list \<Rightarrow> (f64 \<times> f64) option" where
  "deviationAgainstBaseline baseline generated =
    (if length baseline < 2 \<or> length generated < 2 then None
     else let points = map toGeometryPoint baseline;
              baselineClosed = isClosedLoop points;
              points = (if baselineClosed \<and> length points > 2 \<and> samePoint (hd points) (last points) then butlast points else points)
          in case NewCenterline points baselineClosed of Inl _ \<Rightarrow> None
             | Inr centerline \<Rightarrow>
               let (acc, n, hi) = deviation_loop centerline (Fin 0) 0 (Fin 0) generated
               in if n = 0 then None else Some (fdiv acc (f_of_int n), hi))"

definition deltaPct :: "f64 \<Rightarrow> f64 \<Rightarrow> f64" where
  "deltaPct telemetryPathMeters catalogLengthMeters =
    (if fle catalogLengthMeters (Fin 0) \<or> \<not> geo_isFinite catalogLengthMeters then FNaN
     else fmul (fdiv (fsub telemetryPathMeters catalogLengthMeters) catalogLengthMeters) (Fin 100))"

section \<open>The pipeline\<close>

record Report =
  rpLayoutID :: string
  rpLayoutName :: string
  rpSourcePointCount :: int
  rpSourceSegmentCount :: int
  rpSourceSegmentLengthMinMeters :: f64
  rpSourceSegmentLengthP50Meters :: f64
  rpSourceSegmentLengthP95Meters :: f64
  rpSourceSegmentLengthMaxMeters :: f64
  rpSourceHeadingChangeDegrees :: f64
  rpSourceHeadingChangePerMeter :: f64
  rpSourceLocalChordWindowPoints :: int
  rpSourceLocalChordWindowCount :: int
  rpSourceLocalChordRatioAvg :: f64
  rpSourceLocalChordRatioP50 :: f64
  rpSourceLocalChordRatioP95 :: f64
  rpSourceLocalChordRatioMax :: f64
  rpSourceLocalChordExcessAvg :: f64
  rpSourceLocalChordExcessP50 :: f64
  rpSourceLocalChordExcessP95 :: f64
  rpSourceLocalChordExcessMax :: f64
  rpSourcePathLengthMeters :: f64
  rpSimplifiedPointCount :: int
  rpSimplificationDroppedPoints :: int
  rpGeneratedPointCount :: int
  rpGeneratedPathLengthMeters :: f64
  rpCatalogLengthMeters :: f64
  rpDeltaMeters :: f64
  rpDeltaPct :: f64
  rpStartEndGapMeters :: f64
  rpMeanDeviationMeters :: f64
  rpMaxDeviationMeters :: f64

definition centerline_points :: "sampledPoint list \<Rightarrow> TrackPoint list" where
  "centerline_points samples =
    map (\<lambda>(i, s). \<lparr>tpIndex = int i, tpX = pX (spPoint s), tpY = pY (spPoint s), tpZ = pZ (spPoint s),
       tpAccumulatedMeters = spAccumulated s, tpHeadingRadians = Fin 0, tpCurvature = Fin 0\<rparr>) (enumerate 0 samples)"

definition generated_catalog :: "CatalogTrack \<Rightarrow> CatalogLayout \<Rightarrow> string \<Rightarrow> f64 \<Rightarrow> TrackPoint list \<Rightarrow> Catalog" where
  "generated_catalog t l retrievedAt totalMeters line =
    \<lparr>caCatalogVersion = CatalogVersionV1,
     caTracks = [\<lparr>trID = trID t, trName = trName t, trCountry = trCountry t,
       trSources = appendCuratedSource (trSources t) retrievedAt,
       trLayouts = [\<lparr>loID = loID l, loName = loName l, loLengthMeters = totalMeters,
         loSources = appendCuratedSource (loSources l) retrievedAt, loSectors = [], loCorners = [], loCenterLine = line\<rparr>]\<rparr>],
     caApprovedGeometry = []\<rparr>"

definition build_report :: "(f64 \<Rightarrow> f64 \<Rightarrow> f64) \<Rightarrow> CatalogLayout \<Rightarrow> Point list \<Rightarrow> Point list \<Rightarrow> f64 \<Rightarrow> TrackPoint list \<Rightarrow> Report" where
  "build_report atan2 l cleaned simplified totalMeters line =
    (let ro = sourceRoughnessMetrics atan2 cleaned; ce = sourceChordExcessMetrics cleaned;
         deviation = deviationAgainstBaseline (loCenterLine l) line
     in \<lparr>rpLayoutID = loID l, rpLayoutName = loName l, rpSourcePointCount = int (length cleaned),
         rpSourceSegmentCount = roSegmentCount ro, rpSourceSegmentLengthMinMeters = roMinMeters ro,
         rpSourceSegmentLengthP50Meters = roP50Meters ro, rpSourceSegmentLengthP95Meters = roP95Meters ro,
         rpSourceSegmentLengthMaxMeters = roMaxMeters ro, rpSourceHeadingChangeDegrees = roHeadingChangeDegrees ro,
         rpSourceHeadingChangePerMeter = roHeadingChangePerMeter ro,
         rpSourceLocalChordWindowPoints = int sourceChordExcessWindowPoints, rpSourceLocalChordWindowCount = ceWindowCount ce,
         rpSourceLocalChordRatioAvg = wsAvg (ceRatio ce), rpSourceLocalChordRatioP50 = wsP50 (ceRatio ce),
         rpSourceLocalChordRatioP95 = wsP95 (ceRatio ce), rpSourceLocalChordRatioMax = wsMax (ceRatio ce),
         rpSourceLocalChordExcessAvg = wsAvg (ceExcess ce), rpSourceLocalChordExcessP50 = wsP50 (ceExcess ce),
         rpSourceLocalChordExcessP95 = wsP95 (ceExcess ce), rpSourceLocalChordExcessMax = wsMax (ceExcess ce),
         rpSourcePathLengthMeters = polylineLength cleaned False, rpSimplifiedPointCount = int (length simplified),
         rpSimplificationDroppedPoints = int (length cleaned) - int (length simplified),
         rpGeneratedPointCount = int (length line), rpGeneratedPathLengthMeters = totalMeters,
         rpCatalogLengthMeters = loLengthMeters l, rpDeltaMeters = fsub totalMeters (loLengthMeters l),
         rpDeltaPct = deltaPct totalMeters (loLengthMeters l),
         rpStartEndGapMeters = Distance (toGeometryPoint (hd line)) (toGeometryPoint (last line)),
         rpMeanDeviationMeters = (case deviation of Some (mean, _) \<Rightarrow> mean | None \<Rightarrow> FNaN),
         rpMaxDeviationMeters = (case deviation of Some (_, hi) \<Rightarrow> hi | None \<Rightarrow> FNaN)\<rparr>)"

datatype build_outcome = Built Catalog Report | BuildFailed build_error | BuildPanics | BuildDiverges

definition Build :: "(f64 \<Rightarrow> f64 \<Rightarrow> f64) \<Rightarrow> IngestBatchRequest \<Rightarrow> Options \<Rightarrow> Catalog \<Rightarrow> build_outcome" where
  "Build atan2 request opts seed =
    (case options_Validate opts of Some e \<Rightarrow> BuildFailed (BuilderRefused e)
     | None \<Rightarrow> (case validateBuildRequest request of Some e \<Rightarrow> BuildFailed e
     | None \<Rightarrow> (case findSeedLayout seed (opLayoutID opts) of None \<Rightarrow> BuildFailed (LayoutNotFound (opLayoutID opts))
     | Some (t, l) \<Rightarrow>
       let cleaned = cleanupTelemetryPoints (bFrames request) in
       if length cleaned < 2 then BuildFailed (BuilderRefused BuildInsufficientPoints)
       else let isClosed = isClosedLoop cleaned in
         (case smoothPoints cleaned (opSmoothingWindow opts) isClosed of Inl e \<Rightarrow> BuildFailed (BuilderRefused e)
          | Inr smoothed \<Rightarrow>
            let simplified = rdpSimplify smoothed (opEpsilonMeters opts) in
            if length simplified < 2 then BuildFailed (BuilderRefused BuildInsufficientPoints)
            else (case resamplePolyline simplified (opResampleStepMeters opts) isClosed of
                ResampleRefused e \<Rightarrow> BuildFailed (BuilderRefused e)
              | ResamplePanics \<Rightarrow> BuildPanics
              | ResampleDiverges \<Rightarrow> BuildDiverges
              | Resampled resampled totalMeters \<Rightarrow>
                let line = centerline_points resampled in
                if length line < 2 then BuildFailed (BuilderRefused BuildInsufficientPoints)
                else let catalog = generated_catalog t l (curatedSourceRetrievedAt (bFrames request)) totalMeters line
                     in (case catalog_Validate catalog of Some e \<Rightarrow> BuildFailed (GeneratedInvalid e)
                         | None \<Rightarrow> Built catalog (build_report atan2 l cleaned simplified totalMeters line)))))))"

section \<open>The text of a report\<close>

fun fmt_f4 :: "f64 \<Rightarrow> string" where
  "fmt_f4 FNaN = ''NaN''"
| "fmt_f4 (FInf s) = (if s then ''-Inf'' else ''+Inf'')"
| "fmt_f4 FNegZero = ''-0.0000''"
| "fmt_f4 (Fin q) = (let n = rhe (\<bar>q\<bar> * 10000) in (if q < 0 then ''-'' else []) @ dec (n div 10000) @ ''.'' @ pad4 (n mod 10000))"

definition newline :: string where "newline = [CHR 0x0A]"

definition report_String :: "Report \<Rightarrow> string" where
  "report_String r =
    ''trackbuilder closing report'' @ newline @
    ''layoutId: '' @ rpLayoutID r @ newline @
    ''layoutName: '' @ rpLayoutName r @ newline @
    ''source point count: '' @ itoa (rpSourcePointCount r) @ newline @
    ''source segment count: '' @ itoa (rpSourceSegmentCount r) @ newline @
    ''source segment length meters: min '' @ fmt_f2 (rpSourceSegmentLengthMinMeters r) @ ''m p50 '' @
      fmt_f2 (rpSourceSegmentLengthP50Meters r) @ ''m p95 '' @ fmt_f2 (rpSourceSegmentLengthP95Meters r) @ ''m max '' @
      fmt_f2 (rpSourceSegmentLengthMaxMeters r) @ ''m'' @ newline @
    ''source planar heading change (X/Z): '' @ fmt_f2 (rpSourceHeadingChangeDegrees r) @ ''deg total, '' @
      fmt_f4 (rpSourceHeadingChangePerMeter r) @ ''deg/m'' @ newline @
    (let windows = ''source local chord excess ('' @ itoa (rpSourceLocalChordWindowPoints r) @ ''-point windows, '' @
           itoa (rpSourceLocalChordWindowCount r) @ '' windows): ''
     in if rpSourceLocalChordWindowCount r = 0 \<or> isNaN (rpSourceLocalChordRatioAvg r) \<or> isNaN (rpSourceLocalChordExcessAvg r)
        then windows @ ''n/a'' @ newline
        else windows @ ''ratio avg '' @ fmt_f4 (rpSourceLocalChordRatioAvg r) @ '' p50 '' @ fmt_f4 (rpSourceLocalChordRatioP50 r) @
          '' p95 '' @ fmt_f4 (rpSourceLocalChordRatioP95 r) @ '' max '' @ fmt_f4 (rpSourceLocalChordRatioMax r) @
          ''; excess meters avg '' @ fmt_f2 (rpSourceLocalChordExcessAvg r) @ ''m p50 '' @ fmt_f2 (rpSourceLocalChordExcessP50 r) @
          ''m p95 '' @ fmt_f2 (rpSourceLocalChordExcessP95 r) @ ''m max '' @ fmt_f2 (rpSourceLocalChordExcessMax r) @ ''m'' @ newline) @
    ''source path length meters: '' @ fmt_f2 (rpSourcePathLengthMeters r) @ ''m'' @ newline @
    ''simplified point count: '' @ itoa (rpSimplifiedPointCount r) @ newline @
    ''simplification dropped points: '' @ itoa (rpSimplificationDroppedPoints r) @ newline @
    ''generated point count: '' @ itoa (rpGeneratedPointCount r) @ newline @
    ''generated path length meters: '' @ fmt_f2 (rpGeneratedPathLengthMeters r) @ ''m'' @ newline @
    ''catalogLengthMeters: '' @ fmt_f2 (rpCatalogLengthMeters r) @ ''m'' @ newline @
    ''deltaMeters: '' @ fmt_f2 (rpDeltaMeters r) @ ''m'' @ newline @
    ''deltaPct: '' @ fmt_f2 (rpDeltaPct r) @ ''%'' @ newline @
    ''start-end gap: '' @ fmt_f2 (rpStartEndGapMeters r) @ ''m'' @ newline @
    (if isNaN (rpMeanDeviationMeters r) \<or> isNaN (rpMaxDeviationMeters r)
     then ''deviation vs catalog centerline: n/a'' @ newline
     else ''deviation vs catalog centerline: mean '' @ fmt_f2 (rpMeanDeviationMeters r) @ ''m max '' @
       fmt_f2 (rpMaxDeviationMeters r) @ ''m'' @ newline)"

section \<open>The baseline over several laps\<close>

record TelemetryBaselineReport =
  tbStatus :: string
  tbLayoutID :: string
  tbLayoutName :: string
  tbCatalogLengthMeters :: f64
  tbSampleCount :: int
  tbAcceptedLapCount :: int
  tbRejectedLapCount :: int
  tbAvgSourcePathLengthMeters :: f64
  tbMinSourcePathLengthMeters :: f64
  tbMaxSourcePathLengthMeters :: f64
  tbStdDevSourcePathLengthMeters :: f64
  tbAvgDeltaMeters :: f64
  tbAvgDeltaPct :: f64
  tbAcceptanceRule :: string

definition baseline_String :: "TelemetryBaselineReport \<Rightarrow> string" where
  "baseline_String r =
    ''trackbuilder observed telemetry baseline'' @ newline @
    ''status: '' @ tbStatus r @ newline @
    ''layoutId: '' @ tbLayoutID r @ newline @
    ''layoutName: '' @ tbLayoutName r @ newline @
    ''catalogLengthMeters: '' @ fmt_f2 (tbCatalogLengthMeters r) @ ''m'' @ newline @
    ''sampleCount: '' @ itoa (tbSampleCount r) @ newline @
    ''acceptedLapCount: '' @ itoa (tbAcceptedLapCount r) @ newline @
    ''rejectedLapCount: '' @ itoa (tbRejectedLapCount r) @ newline @
    ''avgSourcePathLengthMeters: '' @ fmt_f2 (tbAvgSourcePathLengthMeters r) @ ''m'' @ newline @
    ''minSourcePathLengthMeters: '' @ fmt_f2 (tbMinSourcePathLengthMeters r) @ ''m'' @ newline @
    ''maxSourcePathLengthMeters: '' @ fmt_f2 (tbMaxSourcePathLengthMeters r) @ ''m'' @ newline @
    ''stddevSourcePathLengthMeters: '' @ fmt_f2 (tbStdDevSourcePathLengthMeters r) @ ''m'' @ newline @
    ''avgDeltaMeters: '' @ fmt_f2 (tbAvgDeltaMeters r) @ ''m'' @ newline @
    ''avgDeltaPct: '' @ fmt_f2 (tbAvgDeltaPct r) @ ''%'' @ newline @
    ''acceptanceRule: '' @ tbAcceptanceRule r @ newline"

definition isTelemetryBaselineSampleAccepted :: "Point list \<Rightarrow> bool" where
  "isTelemetryBaselineSampleAccepted cleaned =
    (if length cleaned < 3 then False
     else if \<not> isClosedLoop cleaned then False
     else let pathLength = polylineLength cleaned False in flt (Fin 0) pathLength \<and> geo_isFinite pathLength)"

fun baseline_loop :: "IngestBatchRequest list \<Rightarrow> f64 list \<Rightarrow> build_error + f64 list" where
  "baseline_loop [] sourceLengths = Inr sourceLengths"
| "baseline_loop (request # rs) sourceLengths =
    (case validateBuildRequest request of Some e \<Rightarrow> Inl e
     | None \<Rightarrow>
       let cleaned = cleanupTelemetryPoints (bFrames request) in
       if \<not> isTelemetryBaselineSampleAccepted cleaned then baseline_loop rs sourceLengths
       else baseline_loop rs (sourceLengths @ [polylineLength cleaned False]))"

definition acceptance_rule :: string where
  "acceptance_rule = ''accepted when cleaned telemetry has at least 3 usable points, positive path length, and a start-end gap within the existing closed-loop threshold (<= max(25m, 5% of path length))''"

definition BuildTelemetryBaseline :: "IngestBatchRequest list \<Rightarrow> string \<Rightarrow> Catalog \<Rightarrow> build_error + TelemetryBaselineReport" where
  "BuildTelemetryBaseline requests layoutID seed =
    (if trim_space layoutID = [] then Inl (BuilderRefused BuildMissingLayoutID)
     else if length requests = 0 then Inl NoBaselineSamples
     else case findSeedLayout seed layoutID of None \<Rightarrow> Inl (LayoutNotFound layoutID)
     | Some (t, l) \<Rightarrow>
       (case baseline_loop requests [] of Inl e \<Rightarrow> Inl e
        | Inr sourceLengths \<Rightarrow>
          if length sourceLengths = 0 then Inl NoAcceptedSamples
          else let s = summarizeFloatSeries sourceLengths;
                   deltas = map (\<lambda>x. fsub x (loLengthMeters l)) sourceLengths;
                   deltaPcts = map (\<lambda>x. deltaPct x (loLengthMeters l)) sourceLengths
               in Inr \<lparr>tbStatus = ''telemetry_baseline_only'', tbLayoutID = loID l, tbLayoutName = loName l,
                   tbCatalogLengthMeters = loLengthMeters l, tbSampleCount = int (length requests),
                   tbAcceptedLapCount = int (length sourceLengths),
                   tbRejectedLapCount = int (length requests) - int (length sourceLengths),
                   tbAvgSourcePathLengthMeters = ssAvg s, tbMinSourcePathLengthMeters = ssMin s,
                   tbMaxSourcePathLengthMeters = ssMax s, tbStdDevSourcePathLengthMeters = ssStddev s,
                   tbAvgDeltaMeters = ssAvg (summarizeFloatSeries deltas), tbAvgDeltaPct = ssAvg (summarizeFloatSeries deltaPcts),
                   tbAcceptanceRule = acceptance_rule\<rparr>))"

section \<open>What the pipeline builds\<close>

lemma simplify_between_length: "a < b \<Longrightarrow> length (simplify_between points epsilon a b) \<le> b - a - 1"
proof (induction points epsilon a b rule: simplify_between.induct)
  case (1 points epsilon a b)
  obtain d index where f: "farthest points a b = (d, index)" by fastforce
  show ?case
  proof (cases "\<exists>i. \<not> b - a < 2 \<and> index = Some i \<and> flt epsilon d")
    case True
    then obtain i where i: "\<not> b - a < 2" "index = Some i" "flt epsilon d" by blast
    have lt: "a < i" "i < b" using farthest_between f i(2) by auto
    have e: "simplify_between points epsilon a b = simplify_between points epsilon a i @ [i] @ simplify_between points epsilon i b"
      using f i by (subst simplify_between.simps) simp
    show ?thesis using "1.IH"(1) [OF i(1) f [symmetric] i(2,3) lt(1)] "1.IH"(2) [OF i(1) f [symmetric] i(2,3) lt(2)] lt unfolding e by simp
  next
    case False
    then have "simplify_between points epsilon a b = []" using f by (subst simplify_between.simps) (auto split: option.splits)
    then show ?thesis by simp
  qed
qed

lemma rdpSimplify_length: "length (rdpSimplify points epsilon) \<le> length points"
  using simplify_between_length [of 0 "length points - 1" points epsilon] by (auto simp: rdpSimplify_def)

lemma smoothPoints_length: "smoothPoints points window isClosed = Inr q \<Longrightarrow> length q = length points"
  by (auto simp: smoothPoints_def split: if_splits)

lemma find_layout_in_id: "find_layout_in ls layoutID = Some l \<Longrightarrow> loID l = layoutID \<and> l \<in> set ls"
  by (induction ls) (auto split: if_splits)

lemma find_seed_loop_id: "find_seed_loop ts layoutID = Some (t, l) \<Longrightarrow> loID l = layoutID \<and> t \<in> set ts \<and> l \<in> set (trLayouts t)"
  by (induction ts) (auto dest: find_layout_in_id split: option.splits)

lemma centerline_points_facts:
  "length (centerline_points samples) = length samples" "map tpIndex (centerline_points samples) = map int [0..<length samples]"
  "map tpAccumulatedMeters (centerline_points samples) = map spAccumulated samples"
proof -
  have "map (\<lambda>x. int (fst x)) (enumerate 0 samples) = map int (map fst (enumerate 0 samples))" by (simp only: map_map o_def)
  moreover have "map (\<lambda>x. spAccumulated (snd x)) (enumerate 0 samples) = map spAccumulated (map snd (enumerate 0 samples))"
    by (simp only: map_map o_def)
  ultimately show "length (centerline_points samples) = length samples"
    "map tpIndex (centerline_points samples) = map int [0..<length samples]"
    "map tpAccumulatedMeters (centerline_points samples) = map spAccumulated samples"
    by (simp_all add: centerline_points_def o_def case_prod_unfold)
qed

lemma curated_not_production: "\<not> list_all (\<lambda>s. isProductionSourceType (srcSourceType s)) (appendCuratedSource ss d)"
  by (simp add: appendCuratedSource_def isProductionSourceType_def curatedGeometrySourceType_def)

lemma generated_not_source_of_truth: "ValidateSourceOfTruth (generated_catalog t l d m line) \<noteq> None"
  using curated_not_production [of "trSources t" d]
  by (auto simp: ValidateSourceOfTruth_def generated_catalog_def track_sources_check_def requireProductionSources_def
    production_loop_iff simp del: production_loop.simps split: option.splits)

lemma Build_elim:
  assumes "Build atan2 request opts seed = Built c r"
  obtains t l cleaned simplified resampled totalMeters smoothed where
    "options_Validate opts = None" "validateBuildRequest request = None" "findSeedLayout seed (opLayoutID opts) = Some (t, l)"
    "cleaned = cleanupTelemetryPoints (bFrames request)"
    "smoothPoints cleaned (opSmoothingWindow opts) (isClosedLoop cleaned) = Inr smoothed"
    "simplified = rdpSimplify smoothed (opEpsilonMeters opts)"
    "resamplePolyline simplified (opResampleStepMeters opts) (isClosedLoop cleaned) = Resampled resampled totalMeters"
    "c = generated_catalog t l (curatedSourceRetrievedAt (bFrames request)) totalMeters (centerline_points resampled)"
    "catalog_Validate c = None" "r = build_report atan2 l cleaned simplified totalMeters (centerline_points resampled)"
  using assms unfolding Build_def Let_def
  by (auto split: option.splits if_splits sum.splits resample_outcome.splits prod.splits)

text \<open>C38: 
  What the pipeline builds: a catalogue that passes the validation, with the requested layout of the seed as
  its only one, its points numbered and at strictly increasing distances from zero; it is never a source
  of truth, because its curated source is not a production one.  The report counts its points.
\<close>

theorem built_catalog_sound:
  assumes "f64_ok (opResampleStepMeters opts)" "Build atan2 request opts seed = Built c r"
  shows "\<exists>t l line. findSeedLayout seed (opLayoutID opts) = Some (t, l) \<and> loID l = opLayoutID opts \<and>
    catalog_Validate c = None \<and> ValidateSourceOfTruth c \<noteq> None \<and>
    map (\<lambda>t. (trID t, map (\<lambda>l. (loID l, loCenterLine l)) (trLayouts t))) (caTracks c) = [(trID t, [(loID l, line)])] \<and>
    2 \<le> length line \<and> map tpIndex line = map int [0..<length line] \<and>
    sorted_wrt flt (map tpAccumulatedMeters line) \<and> tpAccumulatedMeters (hd line) = Fin 0 \<and>
    rpGeneratedPointCount r = int (length line) \<and> 0 \<le> rpSimplificationDroppedPoints r"
proof -
  from assms(2) obtain t l cleaned simplified resampled totalMeters smoothed where b:
    "findSeedLayout seed (opLayoutID opts) = Some (t, l)"
    "smoothPoints cleaned (opSmoothingWindow opts) (isClosedLoop cleaned) = Inr smoothed"
    "simplified = rdpSimplify smoothed (opEpsilonMeters opts)"
    "resamplePolyline simplified (opResampleStepMeters opts) (isClosedLoop cleaned) = Resampled resampled totalMeters"
    "c = generated_catalog t l (curatedSourceRetrievedAt (bFrames request)) totalMeters (centerline_points resampled)"
    "catalog_Validate c = None" "r = build_report atan2 l cleaned simplified totalMeters (centerline_points resampled)"
    by (elim Build_elim)
  let ?line = "centerline_points resampled"
  have ok: "resampled_ok (isClosedLoop cleaned) resampled totalMeters"
    using resample_result [OF assms(1), where points = simplified and isClosed = "isClosedLoop cleaned"] b(4) by simp
  have ne: "resampled \<noteq> []" "?line \<noteq> []" using ok centerline_points_facts(1) [of resampled] by (auto simp: resampled_ok_def)
  have "tpAccumulatedMeters (hd ?line) = spAccumulated (hd resampled)"
    using centerline_points_facts(3) [of resampled] ne by (metis list.map_sel(1))
  moreover have "length simplified \<le> length cleaned"
    using rdpSimplify_length [of smoothed "opEpsilonMeters opts"] smoothPoints_length [OF b(2)] unfolding b(3) by simp
  moreover have "rpGeneratedPointCount r = int (length ?line)" "rpSimplificationDroppedPoints r = int (length cleaned) - int (length simplified)"
    unfolding b(7) build_report_def Let_def by simp_all
  moreover have "loID l = opLayoutID opts" using find_seed_loop_id b(1) unfolding findSeedLayout_def by blast
  moreover have "map (\<lambda>t. (trID t, map (\<lambda>l. (loID l, loCenterLine l)) (trLayouts t))) (caTracks c) = [(trID t, [(loID l, ?line)])]"
    unfolding b(5) by (simp add: generated_catalog_def)
  ultimately show ?thesis using b(1,6) ok generated_not_source_of_truth unfolding b(5) resampled_ok_def
    by (intro exI [of _ t] exI [of _ l] exI [of _ ?line]) (simp add: centerline_points_facts)
qed

section \<open>What the baseline reports\<close>

definition accepted_lengths :: "IngestBatchRequest list \<Rightarrow> f64 list" where
  "accepted_lengths requests =
    map (\<lambda>ps. polylineLength ps False) (filter isTelemetryBaselineSampleAccepted (map (\<lambda>r. cleanupTelemetryPoints (bFrames r)) requests))"

lemma baseline_loop_lengths:
  "baseline_loop requests sourceLengths = Inr out \<Longrightarrow>
    out = sourceLengths @ accepted_lengths requests \<and> list_all (\<lambda>r. validateBuildRequest r = None) requests"
  by (induction requests sourceLengths rule: baseline_loop.induct)
    (auto simp: accepted_lengths_def Let_def split: option.splits if_splits)

lemma accepted_lengths_number: "list_all (\<lambda>v. \<not> isNaN v) (accepted_lengths requests)"
  by (auto simp: accepted_lengths_def list_all_iff isTelemetryBaselineSampleAccepted_def geo_isFinite_def Let_def split: if_splits)

lemma accepted_lengths_count: "length (accepted_lengths requests) \<le> length requests"
  using length_filter_le [of isTelemetryBaselineSampleAccepted "map (\<lambda>r. cleanupTelemetryPoints (bFrames r)) requests"]
  by (simp add: accepted_lengths_def)

text \<open>
  The baseline report counts the accepted and the rejected laps, and its extremes are the shortest and
  the longest accepted lap.
\<close>

theorem baseline_report_exact:
  assumes "BuildTelemetryBaseline requests layoutID seed = Inr r"
  shows "tbLayoutID r = layoutID \<and> tbAcceptedLapCount r = int (length (accepted_lengths requests)) \<and>
    1 \<le> tbAcceptedLapCount r \<and> 0 \<le> tbRejectedLapCount r \<and> tbAcceptedLapCount r + tbRejectedLapCount r = tbSampleCount r \<and>
    tbMinSourcePathLengthMeters r \<in> set (accepted_lengths requests) \<and> tbMaxSourcePathLengthMeters r \<in> set (accepted_lengths requests) \<and>
    list_all (\<lambda>v. \<not> flt v (tbMinSourcePathLengthMeters r) \<and> \<not> flt (tbMaxSourcePathLengthMeters r) v) (accepted_lengths requests)"
proof -
  obtain t l ls where b: "findSeedLayout seed layoutID = Some (t, l)" "baseline_loop requests [] = Inr ls" "ls \<noteq> []"
    using assms by (auto simp: BuildTelemetryBaseline_def split: if_splits option.splits sum.splits)
  have ls: "ls = accepted_lengths requests" using baseline_loop_lengths [OF b(2)] by simp
  have id: "loID l = layoutID" using find_seed_loop_id b(1) unfolding findSeedLayout_def by blast
  have r: "tbLayoutID r = loID l \<and> tbSampleCount r = int (length requests) \<and> tbAcceptedLapCount r = int (length ls) \<and>
      tbRejectedLapCount r = int (length requests) - int (length ls) \<and>
      tbMinSourcePathLengthMeters r = ssMin (summarizeFloatSeries ls) \<and> tbMaxSourcePathLengthMeters r = ssMax (summarizeFloatSeries ls)"
    using assms b by (auto simp: BuildTelemetryBaseline_def Let_def split: if_splits)
  show ?thesis using r id b(3) accepted_lengths_count [of requests] series_extremes [OF b(3)] accepted_lengths_number [of requests]
    unfolding ls by (auto simp: Suc_le_eq)
qed

section \<open>Examples\<close>

definition drive_frame :: "int \<Rightarrow> rat \<Rightarrow> Frame" where
  "drive_frame t x = \<lparr>fTimestampUnixMs = t, fSpeedMps = Fin 0, fRPM = Fin 0, fGear = 0, fThrottle = Fin 0, fBrake = Fin 0,
     fSteering = Fin 0, fFuelLiters = Fin 0, fPositionX = Fin x, fPositionY = Fin 0, fPositionZ = Fin 0, fYawRadians = None, fYawRate = None, fWheelSpeedFL = None, fWheelSpeedFR = None, fWheelSpeedRL = None, fWheelSpeedRR = None, fLapDistanceMeters = None, fLapNumber = 0, fCurrentLapMs = 0, fLastLapMs = None, fBestLapMs = None, fIsOnTrack = False\<rparr>"

definition demo_drive :: "rat list \<Rightarrow> IngestBatchRequest" where
  "demo_drive xs = \<lparr>bSessionID = ''s'', bFrames = map (\<lambda>(i, x). drive_frame (int i + 1) x) (enumerate 0 xs)\<rparr>"

definition demo_options :: Options where
  "demo_options = DefaultOptions\<lparr>opLayoutID := ''l'', opResampleStepMeters := Fin 20\<rparr>"

lemma demo_trim_one: "trim_space ''s'' = ''s''" "trim_space ''l'' = ''l''"
  by (simp_all add: trim_visible visible_def)

lemma demo_drive_valid: "length xs \<in> {1, 2, 3} \<Longrightarrow> validateBuildRequest (demo_drive xs) = None"
  by (auto simp: validateBuildRequest_def demo_drive_def demo_trim_one drive_frame_def length_Suc_conv numeral_3_eq_3 numeral_2_eq_2)

definition demo_ends :: "Point list" where
  "demo_ends = [\<lparr>pX = Fin 0, pY = Fin 0, pZ = Fin 0\<rparr>, \<lparr>pX = Fin 30, pY = Fin 0, pZ = Fin 0\<rparr>]"

definition demo_segments :: "Segment list" where
  "demo_segments = [\<lparr>sgStart = \<lparr>pX = Fin 0, pY = Fin 0, pZ = Fin 0\<rparr>, sgEnd = \<lparr>pX = Fin 30, pY = Fin 0, pZ = Fin 0\<rparr>,
     sgStartMeters = Fin 0, sgEndMeters = Fin 30, sgLength = Fin 30\<rparr>]"

definition demo_samples :: "sampledPoint list" where
  "demo_samples = map (\<lambda>t. \<lparr>spPoint = interpolateSegments demo_segments t, spDistance = t, spAccumulated = t\<rparr>) [Fin 0, Fin 20, Fin 30]"

lemma demo_resampled: "resamplePolyline demo_ends (Fin 20) False = Resampled demo_samples (Fin 30)"
proof -
  have a: "rnd 20 = Fin 20" "rnd 40 = Fin 40" by code_simp+
  have "targets_loop (Fin 30) (Fin 20) (Fin 40) acc = Some acc" for acc by (subst targets_loop.simps) simp
  then have "targets_loop (Fin 30) (Fin 20) (Fin 20) [Fin 0] = Some [Fin 0, Fin 20]" by (subst targets_loop.simps) (simp add: a)
  then have t: "targets_loop (Fin 30) (Fin 20) (Fin 0) [] = Some [Fin 0, Fin 20]" by (subst targets_loop.simps) (simp add: a)
  have b: "buildSegments demo_ends False = (demo_segments, Fin 30)" by code_simp
  have m: "\<not> make_fails 8 (add64 (f_to_int64 (fceil (fdiv (Fin 30) (Fin 20)))) 1)" "\<not> make_fails 40 3" by code_simp+
  have e: "length demo_ends = 2" "demo_segments \<noteq> []" by (simp_all add: demo_ends_def demo_segments_def)
  show ?thesis unfolding resamplePolyline_def b using m by (simp add: t e demo_samples_def Let_def fle_def)
qed

lemma demo_generated_valid:
  "catalog_Validate (generated_catalog demo_track demo_layout (curatedSourceRetrievedAt (bFrames (demo_drive [0, 30]))) (Fin 30)
     (centerline_points demo_samples)) = None"
  by code_simp

lemma demo_build_outcome: "\<exists>c r. Build (\<lambda>_ _. Fin 0) (demo_drive [0, 30]) demo_options demo_catalog = Built c r"
proof -
  have 1: "options_Validate demo_options = None" "validateBuildRequest (demo_drive [0, 30]) = None"
    by (simp_all add: options_Validate_def demo_options_def DefaultOptions_def demo_drive_valid demo_trim_one)
  have 2: "cleanupTelemetryPoints (bFrames (demo_drive [0, 30])) = demo_ends" by code_simp
  have 3: "findSeedLayout demo_catalog (opLayoutID demo_options) = Some (demo_track, demo_layout)" by code_simp
  have 5: "opSmoothingWindow demo_options = 3" "opResampleStepMeters demo_options = Fin 20"
    by (simp_all add: demo_options_def DefaultOptions_def)
  have 6: "length demo_ends = 2" "length demo_samples = 3" by (simp_all add: demo_ends_def demo_samples_def)
  have 7: "isClosedLoop demo_ends = False" "smoothPoints demo_ends 3 False = Inr demo_ends" "rdpSimplify demo_ends e = demo_ends" for e
    by (simp_all add: isClosedLoop_def smoothPoints_def rdpSimplify_def 6)
  show ?thesis unfolding Build_def 1 2 3 5
    by (simp add: 6 7 demo_resampled demo_generated_valid Let_def centerline_points_facts)
qed

lemma built_catalog_sound_witness:
  "\<exists>c r. Build (\<lambda>_ _. Fin 0) (demo_drive [0, 30]) demo_options demo_catalog = Built c r \<and>
   (\<exists>t l line. findSeedLayout demo_catalog (opLayoutID demo_options) = Some (t, l) \<and> loID l = opLayoutID demo_options \<and>
    catalog_Validate c = None \<and> ValidateSourceOfTruth c \<noteq> None \<and>
    map (\<lambda>t. (trID t, map (\<lambda>l. (loID l, loCenterLine l)) (trLayouts t))) (caTracks c) = [(trID t, [(loID l, line)])] \<and>
    2 \<le> length line \<and> map tpIndex line = map int [0..<length line] \<and>
    sorted_wrt flt (map tpAccumulatedMeters line) \<and> tpAccumulatedMeters (hd line) = Fin 0 \<and>
    rpGeneratedPointCount r = int (length line) \<and> 0 \<le> rpSimplificationDroppedPoints r)"
proof -
  obtain c r where b: "Build (\<lambda>_ _. Fin 0) (demo_drive [0, 30]) demo_options demo_catalog = Built c r"
    using demo_build_outcome by blast
  have "f64_ok (opResampleStepMeters demo_options)" using rep_int [of 20] by (simp add: demo_options_def f64_ok_def pow2_powi)
  from b built_catalog_sound [OF this b] show ?thesis by (intro exI [of _ c] exI [of _ r] conjI)
qed

lemma demo_baseline: "\<exists>r. BuildTelemetryBaseline [demo_drive [0, 3, 6], demo_drive [0]] ''l'' demo_catalog = Inr r"
proof -
  have 1: "validateBuildRequest (demo_drive [0, 3, 6]) = None" "validateBuildRequest (demo_drive [0]) = None"
    by (simp_all add: demo_drive_valid)
  have 2: "isTelemetryBaselineSampleAccepted (cleanupTelemetryPoints (bFrames (demo_drive [0, 3, 6])))" by code_simp
  have 3: "\<not> isTelemetryBaselineSampleAccepted (cleanupTelemetryPoints (bFrames (demo_drive [0])))" by code_simp
  have 4: "findSeedLayout demo_catalog ''l'' = Some (demo_track, demo_layout)" "trim_space ''l'' \<noteq> []"
    by (code_simp, simp add: demo_trim_one)
  show ?thesis using 1 2 3 4 by (simp add: BuildTelemetryBaseline_def Let_def)
qed

lemma baseline_report_exact_witness:
  "\<exists>r. BuildTelemetryBaseline [demo_drive [0, 3, 6], demo_drive [0]] ''l'' demo_catalog = Inr r \<and>
    tbLayoutID r = ''l'' \<and> tbAcceptedLapCount r = int (length (accepted_lengths [demo_drive [0, 3, 6], demo_drive [0]])) \<and>
    1 \<le> tbAcceptedLapCount r \<and> 0 \<le> tbRejectedLapCount r \<and> tbAcceptedLapCount r + tbRejectedLapCount r = tbSampleCount r \<and>
    tbMinSourcePathLengthMeters r \<in> set (accepted_lengths [demo_drive [0, 3, 6], demo_drive [0]]) \<and>
    tbMaxSourcePathLengthMeters r \<in> set (accepted_lengths [demo_drive [0, 3, 6], demo_drive [0]]) \<and>
    list_all (\<lambda>v. \<not> flt v (tbMinSourcePathLengthMeters r) \<and> \<not> flt (tbMaxSourcePathLengthMeters r) v) (accepted_lengths [demo_drive [0, 3, 6], demo_drive [0]])"
proof -
  obtain r where b: "BuildTelemetryBaseline [demo_drive [0, 3, 6], demo_drive [0]] ''l'' demo_catalog = Inr r"
    using demo_baseline by blast
  from baseline_report_exact [OF b] b show ?thesis by blast
qed

text \<open>A tiny step makes the buffer of the resampling unallocatable: the tool panics on a step it accepts.\<close>

lemma tiny_step_panics:
  "resamplePolyline [\<lparr>pX = Fin 0, pY = Fin 0, pZ = Fin 0\<rparr>, \<lparr>pX = Fin (2 ^ 20), pY = Fin 0, pZ = Fin 0\<rparr>] (Fin (1 / 2 ^ 30)) False = ResamplePanics"
  by code_simp

end
