(* ===== verification/Gt7Convert.thy ===== *)
theory Gt7Convert
  imports Rules Telemetry Trimming
begin

text \<open>
  \<^verbatim>\<open>cmd/gt7convert/main.go\<close>: a recorded drive in the CSV format of GT7Tracks is turned into an ingest batch.
  The records are what \<^verbatim>\<open>encoding/csv\<close> returns; that reader, the file system and \<^verbatim>\<open>strconv.ParseFloat\<close> are
  arguments.
\<close>

section \<open>Samples\<close>

record convert_options =
  cvInput :: string
  cvOutput :: string
  cvSessionID :: string
  cvFrequencyHz :: f64
  cvTrackID :: string
  cvLayoutID :: string
  cvStartUnixMs :: int

record rawSample =
  rsTrackID :: string
  rsX :: f64
  rsZ :: f64
  rsY :: f64
  rsSpeed :: "f64 option"
  rsRPM :: "f64 option"

datatype convert_err =
    InputRequired | SessionRequired | FrequencyInvalid | StartInvalid | InputUnreadable
  | CsvUnreadable | TooFewRecords | MissingColumn string
  | MissingCell int string | EmptyCell int string | InvalidNumber int string | InvalidNonNegative int string
  | TrackMismatch int string string | TrackIDsDiffer "string list"

type_synonym columns = "string \<Rightarrow> nat option"
type_synonym parse_float = "string \<Rightarrow> f64 option"

fun index_loop :: "nat \<Rightarrow> columns \<Rightarrow> string list \<Rightarrow> columns" where
  "index_loop i cols [] = cols"
| "index_loop i cols (c # cs) = index_loop (Suc i) (cols(to_lower (trim_space c) \<mapsto> i)) cs"

definition indexColumns :: "string list \<Rightarrow> columns" where
  "indexColumns header = index_loop 0 Map.empty header"

text \<open>The closures \<^verbatim>\<open>read\<close>, \<^verbatim>\<open>parseRequiredFloat\<close> and \<^verbatim>\<open>parseOptionalNonNegativeFloat\<close> of \<^verbatim>\<open>parseSample\<close>.\<close>

definition read_cell :: "int \<Rightarrow> string list \<Rightarrow> columns \<Rightarrow> string \<Rightarrow> convert_err + string" where
  "read_cell row rec cols column =
    (case cols column of None \<Rightarrow> Inl (MissingCell row column)
     | Some i \<Rightarrow> if i \<ge> length rec then Inl (MissingCell row column)
       else let cell = trim_space (rec ! i) in if cell = [] then Inl (EmptyCell row column) else Inr cell)"

definition required_float :: "parse_float \<Rightarrow> int \<Rightarrow> string list \<Rightarrow> columns \<Rightarrow> string \<Rightarrow> convert_err + f64" where
  "required_float pf row rec cols column =
    (case read_cell row rec cols column of Inl e \<Rightarrow> Inl e
     | Inr cell \<Rightarrow> (case pf cell of None \<Rightarrow> Inl (InvalidNumber row column)
         | Some x \<Rightarrow> if \<not> Telemetry.isFinite x then Inl (InvalidNumber row column) else Inr x))"

definition optional_float :: "parse_float \<Rightarrow> int \<Rightarrow> string list \<Rightarrow> columns \<Rightarrow> string \<Rightarrow> convert_err + f64 option" where
  "optional_float pf row rec cols column =
    (case cols column of None \<Rightarrow> Inr None
     | Some i \<Rightarrow> if i \<ge> length rec then Inr None
       else let cell = trim_space (rec ! i) in
         if cell = [] then Inr None
         else (case pf cell of None \<Rightarrow> Inl (InvalidNonNegative row column)
           | Some x \<Rightarrow> if \<not> Telemetry.isFinite x \<or> flt x (Fin 0) then Inl (InvalidNonNegative row column) else Inr (Some x)))"

definition parseSample :: "parse_float \<Rightarrow> int \<Rightarrow> string list \<Rightarrow> columns \<Rightarrow> convert_err + rawSample" where
  "parseSample pf row rec cols =
    (case read_cell row rec cols ''track_id'' of Inl e \<Rightarrow> Inl e
     | Inr trackID \<Rightarrow> (case required_float pf row rec cols ''x'' of Inl e \<Rightarrow> Inl e
     | Inr x \<Rightarrow> (case required_float pf row rec cols ''z'' of Inl e \<Rightarrow> Inl e
     | Inr z \<Rightarrow> (case required_float pf row rec cols ''y'' of Inl e \<Rightarrow> Inl e
     | Inr y \<Rightarrow> (case optional_float pf row rec cols ''speed'' of Inl e \<Rightarrow> Inl e
     | Inr speed \<Rightarrow> (case optional_float pf row rec cols ''rpm'' of Inl e \<Rightarrow> Inl e
     | Inr rpm \<Rightarrow> Inr \<lparr>rsTrackID = trackID, rsX = x, rsZ = z, rsY = y, rsSpeed = speed, rsRPM = rpm\<rparr>))))))"

fun required_loop :: "columns \<Rightarrow> string list \<Rightarrow> convert_err option" where
  "required_loop cols [] = None"
| "required_loop cols (c # cs) = (if cols c = None then Some (MissingColumn c) else required_loop cols cs)"

fun records_loop :: "parse_float \<Rightarrow> string \<Rightarrow> columns \<Rightarrow> int \<Rightarrow> string set \<Rightarrow> rawSample list \<Rightarrow> string list list \<Rightarrow>
    convert_err + string set \<times> rawSample list" where
  "records_loop pf expected cols rowIndex ids samples [] = Inr (ids, samples)"
| "records_loop pf expected cols rowIndex ids samples (rec # recs) =
    (case parseSample pf (rowIndex + 2) rec cols of Inl e \<Rightarrow> Inl e
     | Inr s \<Rightarrow> if expected \<noteq> [] \<and> rsTrackID s \<noteq> expected then Inl (TrackMismatch (rowIndex + 2) (rsTrackID s) expected)
       else records_loop pf expected cols (rowIndex + 1) (insert (rsTrackID s) ids) (samples @ [s]) recs)"

definition parseGT7TracksCSV :: "parse_float \<Rightarrow> string list list option \<Rightarrow> string \<Rightarrow> convert_err + rawSample list" where
  "parseGT7TracksCSV pf csv expectedTrackID =
    (let expected = trim_space expectedTrackID in
     case csv of None \<Rightarrow> Inl CsvUnreadable
     | Some recs \<Rightarrow>
       if length recs < 2 then Inl TooFewRecords
       else let cols = indexColumns (hd recs) in
         (case required_loop cols [''track_id'', ''x'', ''z'', ''y''] of Some e \<Rightarrow> Inl e
          | None \<Rightarrow> (case records_loop pf expected cols 0 {} [] (tl recs) of Inl e \<Rightarrow> Inl e
            | Inr (ids, samples) \<Rightarrow>
              if expected = [] \<and> card ids \<noteq> 1 then Inl (TrackIDsDiffer (sorted_list_of_set ids)) else Inr samples)))"

section \<open>Frames\<close>

definition round3 :: "f64 \<Rightarrow> f64" where "round3 v = fdiv (fround (fmul v (Fin 1000))) (Fin 1000)"
definition round1 :: "f64 \<Rightarrow> f64" where "round1 v = fdiv (fround (fmul v (Fin 10))) (Fin 10)"

definition sample_distance :: "rawSample \<Rightarrow> rawSample \<Rightarrow> f64" where
  "sample_distance a b =
    (let dx = fsub (rsX b) (rsX a); dy = fsub (rsY b) (rsY a); dz = fsub (rsZ b) (rsZ a)
     in fsqrt (fadd (fadd (fmul dx dx) (fmul dy dy)) (fmul dz dz)))"

definition gearForSpeed :: "f64 \<Rightarrow> int" where
  "gearForSpeed speed =
    (if flt speed (Fin 12) then 1 else if flt speed (Fin 22) then 2 else if flt speed (Fin 32) then 3
     else if flt speed (Fin 44) then 4 else if flt speed (Fin 56) then 5 else 6)"

definition interval_ms :: "f64 \<Rightarrow> int" where
  "interval_ms hz = (let i = f_to_int64 (fround (fdiv (Fin 1000) hz)) in if i \<le> 0 then 1 else i)"

definition converted_frame :: "int \<Rightarrow> int \<Rightarrow> int \<Rightarrow> rawSample option \<Rightarrow> rawSample \<Rightarrow> Frame" where
  "converted_frame startUnixMs intervalMs index previous s =
    (let speed = (case rsSpeed s of Some v \<Rightarrow> v
           | None \<Rightarrow> (case previous of Some p \<Rightarrow> fdiv (sample_distance p s) (fdiv (f_of_int intervalMs) (Fin 1000)) | None \<Rightarrow> Fin 0));
         rpm = (case rsRPM s of Some v \<Rightarrow> v | None \<Rightarrow> Fin 1000)
     in \<lparr>fTimestampUnixMs = add64 startUnixMs (mul64 index intervalMs), fSpeedMps = round3 speed, fRPM = round1 rpm,
         fGear = gearForSpeed speed, fThrottle = Fin 0, fBrake = Fin 0, fSteering = Fin 0, fFuelLiters = Fin 0,
         fPositionX = round3 (rsX s), fPositionY = round3 (rsY s), fPositionZ = round3 (rsZ s),
         fYawRadians = None, fYawRate = None, fWheelSpeedFL = None, fWheelSpeedFR = None, fWheelSpeedRL = None, fWheelSpeedRR = None,
         fLapDistanceMeters = None, fLapNumber = 1, fCurrentLapMs = mul64 index intervalMs, fLastLapMs = None, fBestLapMs = None,
         fIsOnTrack = True\<rparr>)"

fun convert_loop :: "int \<Rightarrow> int \<Rightarrow> int \<Rightarrow> rawSample option \<Rightarrow> rawSample list \<Rightarrow> Frame list" where
  "convert_loop startUnixMs intervalMs index previous [] = []"
| "convert_loop startUnixMs intervalMs index previous (s # ss) =
    converted_frame startUnixMs intervalMs index previous s # convert_loop startUnixMs intervalMs (index + 1) (Some s) ss"

definition convertSamples :: "rawSample list \<Rightarrow> convert_options \<Rightarrow> IngestBatchRequest" where
  "convertSamples samples opt =
    \<lparr>bSessionID = cvSessionID opt, bFrames = convert_loop (cvStartUnixMs opt) (interval_ms (cvFrequencyHz opt)) 0 None samples\<rparr>"

definition isFinitePositive :: "f64 \<Rightarrow> bool" where "isFinitePositive v = (Telemetry.isFinite v \<and> flt (Fin 0) v)"

text \<open>\<open>openFile\<close> and \<open>readCSV\<close> are the file system and the CSV reader.\<close>

definition convertFile :: "parse_float \<Rightarrow> (string \<Rightarrow> string option) \<Rightarrow> (string \<Rightarrow> string list list option) \<Rightarrow> convert_options \<Rightarrow>
    convert_err + IngestBatchRequest" where
  "convertFile pf openFile readCSV opt =
    (if trim_space (cvInput opt) = [] then Inl InputRequired
     else if trim_space (cvSessionID opt) = [] then Inl SessionRequired
     else if \<not> isFinitePositive (cvFrequencyHz opt) then Inl FrequencyInvalid
     else if cvStartUnixMs opt \<le> 0 then Inl StartInvalid
     else case openFile (cvInput opt) of None \<Rightarrow> Inl InputUnreadable
       | Some content \<Rightarrow> (case parseGT7TracksCSV pf (readCSV content) (cvTrackID opt) of Inl e \<Rightarrow> Inl e
         | Inr samples \<Rightarrow> Inr (convertSamples samples opt)))"

section \<open>What is parsed\<close>

definition sample_ok :: "rawSample \<Rightarrow> bool" where
  "sample_ok s \<longleftrightarrow> rsTrackID s \<noteq> [] \<and> is_fin (rsX s) \<and> is_fin (rsY s) \<and> is_fin (rsZ s) \<and>
     isOptionalFiniteNonNegative (rsSpeed s) \<and> isOptionalFiniteNonNegative (rsRPM s)"

lemma read_cell_nonempty: "read_cell row rec cols column = Inr cell \<Longrightarrow> cell \<noteq> []"
  by (auto simp: read_cell_def Let_def split: option.splits if_splits)

lemma required_float_finite: "required_float pf row rec cols column = Inr x \<Longrightarrow> is_fin x"
  by (auto simp: required_float_def isFinite_is_fin split: sum.splits option.splits if_splits)

lemma not_negative: "is_fin x \<Longrightarrow> \<not> flt x (Fin 0) \<Longrightarrow> isFiniteNonNegative x"
  by (cases x) (auto simp: isFiniteNonNegative_iff)

lemma optional_float_ok: "optional_float pf row rec cols column = Inr v \<Longrightarrow> isOptionalFiniteNonNegative v"
  by (auto simp: optional_float_def isOptionalFiniteNonNegative_def isFinite_is_fin not_negative Let_def split: option.splits if_splits)

lemma parseSample_ok: "parseSample pf row rec cols = Inr s \<Longrightarrow> sample_ok s"
  by (auto simp: parseSample_def sample_ok_def read_cell_nonempty required_float_finite optional_float_ok split: sum.splits)

lemma records_loop_ok:
  "records_loop pf expected cols i ids samples recs = Inr (ids', samples') \<Longrightarrow>
    \<exists>new. samples' = samples @ new \<and> length new = length recs \<and> list_all sample_ok new \<and> ids' = ids \<union> rsTrackID ` set new \<and>
      (expected \<noteq> [] \<longrightarrow> list_all (\<lambda>s. rsTrackID s = expected) new)"
proof (induction pf expected cols i ids samples recs rule: records_loop.induct)
  case (2 pf expected cols i ids samples rec recs)
  obtain s where s: "parseSample pf (i + 2) rec cols = Inr s" "\<not> (expected \<noteq> [] \<and> rsTrackID s \<noteq> expected)"
      "records_loop pf expected cols (i + 1) (insert (rsTrackID s) ids) (samples @ [s]) recs = Inr (ids', samples')"
    using "2.prems" by (auto split: sum.splits if_splits)
  from "2.IH" [OF s] obtain new where new: "samples' = (samples @ [s]) @ new" "length new = length recs" "list_all sample_ok new"
      "ids' = insert (rsTrackID s) ids \<union> rsTrackID ` set new" "expected \<noteq> [] \<longrightarrow> list_all (\<lambda>s. rsTrackID s = expected) new" by blast
  then show ?case using parseSample_ok [OF s(1)] s(2) by (intro exI [of _ "s # new"]) auto
qed simp

text \<open>
  A recording that is accepted has one sample per data record, each with finite coordinates and, where
  given, a finite speed and engine speed of at least zero; all of them are of one track, the expected
  one where it was named.
\<close>

theorem recording_of_one_track:
  assumes "parseGT7TracksCSV pf (Some recs) expectedTrackID = Inr samples"
  shows "length recs = length samples + 1 \<and> samples \<noteq> [] \<and> list_all sample_ok samples \<and>
    (\<exists>t. list_all (\<lambda>s. rsTrackID s = t) samples \<and> (trim_space expectedTrackID = [] \<or> t = trim_space expectedTrackID))"
proof -
  let ?e = "trim_space expectedTrackID"
  define rq where "rq = required_loop (indexColumns (hd recs)) [''track_id'', ''x'', ''z'', ''y'']"
  define rl where "rl = records_loop pf ?e (indexColumns (hd recs)) 0 {} [] (tl recs)"
  have e: "parseGT7TracksCSV pf (Some recs) expectedTrackID =
    (if length recs < 2 then Inl TooFewRecords else case rq of Some e \<Rightarrow> Inl e
     | None \<Rightarrow> (case rl of Inl e \<Rightarrow> Inl e
       | Inr (ids, samples) \<Rightarrow> if ?e = [] \<and> card ids \<noteq> 1 then Inl (TrackIDsDiffer (sorted_list_of_set ids)) else Inr samples))"
    unfolding parseGT7TracksCSV_def Let_def rq_def rl_def by simp
  have r': "\<not> length recs < 2 \<and> (\<exists>ids. rl = Inr (ids, samples) \<and> (?e \<noteq> [] \<or> card ids = 1))"
    using assms unfolding e by (auto split: if_splits option.splits sum.splits)
  then obtain ids where r: "\<not> length recs < 2" "records_loop pf ?e (indexColumns (hd recs)) 0 {} [] (tl recs) = Inr (ids, samples)"
      "?e \<noteq> [] \<or> card ids = 1" unfolding rl_def by blast
  from records_loop_ok [OF r(2)] have n: "length samples = length (tl recs)" "list_all sample_ok samples" "ids = rsTrackID ` set samples"
      "?e \<noteq> [] \<longrightarrow> list_all (\<lambda>s. rsTrackID s = ?e) samples" by auto
  have "\<exists>t. list_all (\<lambda>s. rsTrackID s = t) samples \<and> (?e = [] \<or> t = ?e)"
  proof (cases "?e = []")
    case True
    then obtain t where "rsTrackID ` set samples = {t}" using r(3) n(3) by (auto simp: card_1_singleton_iff)
    then show ?thesis using True by (auto simp: list_all_iff)
  qed (use n(4) in auto)
  then show ?thesis using r(1) n(1,2) by (cases recs) auto
qed

section \<open>What is converted\<close>

lemma convert_loop_length: "length (convert_loop t d i p ss) = length ss"
  by (induction ss arbitrary: i p) auto

lemma convert_loop_times:
  assumes "0 \<le> t" "0 < d"
  shows "0 \<le> i \<Longrightarrow> t + (i + int (length ss)) * d < 2 ^ 63 \<Longrightarrow>
    map fTimestampUnixMs (convert_loop t d i p ss) = map (\<lambda>k. t + (i + int k) * d) [0..<length ss] \<and>
    map fCurrentLapMs (convert_loop t d i p ss) = map (\<lambda>k. (i + int k) * d) [0..<length ss]"
proof (induction ss arbitrary: i p)
  case (Cons s ss)
  have le: "t + (i + 1 + int (length ss)) * d < 2 ^ 63" using Cons.prems(2) by (simp add: algebra_simps)
  have "i * d \<le> (i + int (length (s # ss))) * d" using assms(2) by (intro mult_right_mono) auto
  moreover have "0 \<le> i * d" using Cons.prems(1) assms(2) by simp
  ultimately have b: "0 \<le> i * d" "i * d < 2 ^ 63" "t + i * d < 2 ^ 63" using Cons.prems(2) assms(1) by linarith+
  then have w: "mul64 i d = i * d" "add64 t (mul64 i d) = t + i * d" using assms(1) by (auto simp: mul64_id add64_id in64_def)
  have sh: "map f [0..<length (s # ss)] = f 0 # map (\<lambda>k. f (Suc k)) [0..<length ss]" for f :: "nat \<Rightarrow> int"
    by (simp add: upt_conv_Cons map_Suc_upt [symmetric] o_def del: upt_Suc map_Suc_upt)
  show ?case unfolding sh using Cons.IH [OF _ le, of "Some s"] Cons.prems(1) w
    by (simp add: converted_frame_def Let_def algebra_simps)
qed simp

lemma interval_positive: "0 < interval_ms hz" by (simp add: interval_ms_def Let_def)

text \<open>
  The frames of a fixture are regular: as long as the clock does not overflow, frame number \<open>k\<close> is
  \<open>k\<close> intervals after the start, on the clock and in the lap time.
\<close>

theorem fixture_frames_regular:
  assumes "0 < cvStartUnixMs opt" "cvStartUnixMs opt + int (length samples) * interval_ms (cvFrequencyHz opt) < 2 ^ 63"
  shows "map (\<lambda>f. (fTimestampUnixMs f, fCurrentLapMs f)) (bFrames (convertSamples samples opt)) =
      map (\<lambda>k. (cvStartUnixMs opt + int k * interval_ms (cvFrequencyHz opt), int k * interval_ms (cvFrequencyHz opt))) [0..<length samples] \<and>
    1 \<le> interval_ms (cvFrequencyHz opt)"
proof -
  let ?d = "interval_ms (cvFrequencyHz opt)" let ?fs = "bFrames (convertSamples samples opt)"
  have t: "map fTimestampUnixMs ?fs = map (\<lambda>k. cvStartUnixMs opt + int k * ?d) [0..<length samples]"
      "map fCurrentLapMs ?fs = map (\<lambda>k. int k * ?d) [0..<length samples]"
    using convert_loop_times [of "cvStartUnixMs opt" ?d 0 samples None] assms interval_positive [of "cvFrequencyHz opt"]
    by (simp_all add: convertSamples_def)
  have "map (\<lambda>f. (fTimestampUnixMs f, fCurrentLapMs f)) ?fs = zip (map fTimestampUnixMs ?fs) (map fCurrentLapMs ?fs)"
    by (simp add: zip_map_map zip_same_conv_map)
  then show ?thesis unfolding t using interval_positive [of "cvFrequencyHz opt"] by (simp add: zip_map_map zip_same_conv_map)
qed

section \<open>Examples\<close>

definition demo_csv :: "string list list" where
  "demo_csv = [[''track_id'', ''x'', ''z'', ''y''], [''7'', ''1'', ''2'', ''3''], [''7'', ''4'', ''5'', ''6'']]"

definition demo_float :: parse_float where "demo_float s = map_of [(''1'', Fin 1), (''2'', Fin 2), (''3'', Fin 3), (''4'', Fin 4), (''5'', Fin 5), (''6'', Fin 6)] s"

definition demo_recording :: "rawSample list" where
  "demo_recording = [\<lparr>rsTrackID = ''7'', rsX = Fin 1, rsZ = Fin 2, rsY = Fin 3, rsSpeed = None, rsRPM = None\<rparr>,
     \<lparr>rsTrackID = ''7'', rsX = Fin 4, rsZ = Fin 5, rsY = Fin 6, rsSpeed = None, rsRPM = None\<rparr>]"

lemma demo_lower: "to_lower ''track_id'' = ''track_id''" "to_lower ''x'' = ''x''" "to_lower ''y'' = ''y''" "to_lower ''z'' = ''z''"
  by code_simp+

definition demo_cols :: columns where
  "demo_cols = Map.empty(''track_id'' \<mapsto> 0, ''x'' \<mapsto> 1, ''z'' \<mapsto> 2, ''y'' \<mapsto> 3)"

lemma demo_trim:
  "trim_space ''track_id'' = ''track_id''" "trim_space ''x'' = ''x''" "trim_space ''y'' = ''y''" "trim_space ''z'' = ''z''"
  "trim_space ''1'' = ''1''" "trim_space ''2'' = ''2''" "trim_space ''3'' = ''3''" "trim_space ''4'' = ''4''"
  "trim_space ''5'' = ''5''" "trim_space ''6'' = ''6''" "trim_space ''7'' = ''7''"
  by (simp_all add: trim_visible visible_def)

lemma demo_cols_at: "demo_cols ''track_id'' = Some 0" "demo_cols ''x'' = Some 1" "demo_cols ''z'' = Some 2" "demo_cols ''y'' = Some 3"
    "demo_cols ''speed'' = None" "demo_cols ''rpm'' = None"
  by (simp_all add: demo_cols_def)

lemma demo_float_at: "demo_float ''1'' = Some (Fin 1)" "demo_float ''2'' = Some (Fin 2)" "demo_float ''3'' = Some (Fin 3)"
    "demo_float ''4'' = Some (Fin 4)" "demo_float ''5'' = Some (Fin 5)" "demo_float ''6'' = Some (Fin 6)"
  by (simp_all add: demo_float_def)

lemma demo_rows:
  "parseSample demo_float 2 [''7'', ''1'', ''2'', ''3''] demo_cols = Inr \<lparr>rsTrackID = ''7'', rsX = Fin 1, rsZ = Fin 2, rsY = Fin 3, rsSpeed = None, rsRPM = None\<rparr>"
  "parseSample demo_float 3 [''7'', ''4'', ''5'', ''6''] demo_cols = Inr \<lparr>rsTrackID = ''7'', rsX = Fin 4, rsZ = Fin 5, rsY = Fin 6, rsSpeed = None, rsRPM = None\<rparr>"
  by (simp_all add: parseSample_def read_cell_def required_float_def optional_float_def demo_trim demo_cols_at demo_float_at
    Let_def isFinite_is_fin numeral_3_eq_3 numeral_2_eq_2)

lemma demo_header: "indexColumns [''track_id'', ''x'', ''z'', ''y''] = demo_cols"
  by (simp only: indexColumns_def index_loop.simps demo_lower demo_trim demo_cols_def One_nat_def numeral_3_eq_3 numeral_2_eq_2)

lemma demo_csv_parsed: "parseGT7TracksCSV demo_float (Some demo_csv) [] = Inr demo_recording"
proof -
  have r: "records_loop demo_float [] demo_cols 0 {} [] (tl demo_csv) = Inr ({''7''}, demo_recording)"
    by (simp add: demo_csv_def demo_rows demo_recording_def)
  have h: "indexColumns (hd demo_csv) = demo_cols" "\<not> length demo_csv < 2" by (simp_all add: demo_csv_def demo_header)
  have q: "required_loop demo_cols [''track_id'', ''x'', ''z'', ''y''] = None" by (simp add: demo_cols_at)
  show ?thesis using r h q by (simp add: parseGT7TracksCSV_def trim_empty Let_def del: required_loop.simps)
qed

theorem recording_of_one_track_witness:
  "length demo_csv = length demo_recording + 1 \<and> demo_recording \<noteq> []"
  using recording_of_one_track [OF demo_csv_parsed] by blast

definition demo_convert_options :: convert_options where
  "demo_convert_options = \<lparr>cvInput = ''in'', cvOutput = [], cvSessionID = ''s'', cvFrequencyHz = Fin 50, cvTrackID = [], cvLayoutID = [],
     cvStartUnixMs = 1720656000000\<rparr>"

theorem fixture_frames_regular_witness:
  "map (\<lambda>f. (fTimestampUnixMs f, fCurrentLapMs f)) (bFrames (convertSamples demo_recording demo_convert_options)) =
    map (\<lambda>k. (cvStartUnixMs demo_convert_options + int k * interval_ms (cvFrequencyHz demo_convert_options),
      int k * interval_ms (cvFrequencyHz demo_convert_options))) [0..<length demo_recording]"
proof -
  have "length demo_recording = 2" by (simp add: demo_recording_def)
  moreover have "interval_ms (cvFrequencyHz demo_convert_options) = 20" by code_simp
  ultimately show ?thesis using fixture_frames_regular [of demo_convert_options demo_recording] by (simp add: demo_convert_options_def)
qed

text \<open>A frequency far below one hertz overflows the interval, which then falls back to one millisecond.\<close>

lemma low_frequency_one_ms: "interval_ms (Fin (1 / 2 ^ 60)) = 1"
  by code_simp

end
