(* ===== verification/Simulator.thy ===== *)
theory Simulator
  imports Telemetry
begin

text \<open>
  \<^verbatim>\<open>internal/telemetry/sim/simulator.go\<close>: synthetic batches for tests.  The trigonometric functions of
  \<^verbatim>\<open>math\<close>, the file and the JSON decoder of a fixture are arguments.
\<close>

section \<open>Options\<close>

record sim_options =
  soSessionID :: string
  soFrequencyHz :: int
  soStartUnixMs :: int
  soLapDuration :: int

record trig =
  tgSin :: "f64 \<Rightarrow> f64"
  tgCos :: "f64 \<Rightarrow> f64"
  tgAtan2 :: "f64 \<Rightarrow> f64 \<Rightarrow> f64"

datatype sim_err = SimInvalidFrequency | SimInvalidDuration | SimRejected RejectionError | SimUnreadable | SimMalformed

definition isSupportedFrequency :: "int \<Rightarrow> bool" where
  "isSupportedFrequency frequencyHz = (frequencyHz = 20 \<or> frequencyHz = 30 \<or> frequencyHz = 60)"

text \<open>\<^verbatim>\<open>Duration.Seconds\<close> and \<^verbatim>\<open>Duration.Milliseconds\<close> of a duration that is not negative.\<close>

definition duration_seconds :: "int \<Rightarrow> f64" where
  "duration_seconds d = fadd (f_of_int (d div 1000000000)) (fdiv (f_of_int (d mod 1000000000)) (Fin 1000000000))"

definition duration_ms :: "int \<Rightarrow> int" where "duration_ms d = d div 1000000"

section \<open>A frame\<close>

definition two_pi :: f64 where "two_pi = Fin (2 * 884279719003555 / 281474976710656)"

definition inWindow :: "f64 \<Rightarrow> rat \<Rightarrow> rat \<Rightarrow> bool" where
  "inWindow v a b = (fle (rnd a) v \<and> fle v (rnd b))"

definition brakingForProgress :: "f64 \<Rightarrow> f64" where
  "brakingForProgress progress =
    (if inWindow progress (18 / 100) (24 / 100) \<or> inWindow progress (58 / 100) (64 / 100) \<or> inWindow progress (82 / 100) (87 / 100)
     then Fin (3 / 4) else Fin 0)"

definition throttleForProgress :: "trig \<Rightarrow> f64 \<Rightarrow> f64 \<Rightarrow> f64" where
  "throttleForProgress tg progress brake =
    (if flt (Fin 0) brake then rnd (8 / 100)
     else fadd (rnd (62 / 100)) (fmul (rnd (28 / 100)) (fmax (Fin 0) (tgSin tg (fmul two_pi progress)))))"

definition speedForProgress :: "trig \<Rightarrow> f64 \<Rightarrow> f64 \<Rightarrow> f64" where
  "speedForProgress tg progress brake =
    (let base = fadd (Fin 45) (fmul (Fin 18) (tgSin tg (fadd (fmul two_pi progress) (rnd (4 / 10)))));
         base = (if flt (Fin 0) brake then fsub base (Fin 18) else base)
     in if flt base (Fin 12) then Fin 12 else base)"

definition sim_gear :: "f64 \<Rightarrow> int" where
  "sim_gear speed =
    (if flt speed (Fin 12) then 1 else if flt speed (Fin 22) then 2 else if flt speed (Fin 32) then 3
     else if flt speed (Fin 44) then 4 else if flt speed (Fin 56) then 5 else 6)"

definition sim_round :: "f64 \<Rightarrow> rat \<Rightarrow> f64" where
  "sim_round v scale = fdiv (fround (fmul v (Fin scale))) (Fin scale)"

definition syntheticFrame :: "trig \<Rightarrow> int \<Rightarrow> int \<Rightarrow> f64 \<Rightarrow> Frame" where
  "syntheticFrame tg startUnixMs elapsed progress =
    (let theta = fmul two_pi progress;
         brake = brakingForProgress progress;
         throttle = throttleForProgress tg progress brake;
         speed = speedForProgress tg progress brake;
         sine = (\<lambda>k. tgSin tg (fmul (Fin k) theta));
         wheelSpeed = fmul speed (fadd (Fin 1) (fmul (rnd (1 / 100)) (sine 4)))
     in \<lparr>fTimestampUnixMs = add64 startUnixMs (duration_ms elapsed),
         fSpeedMps = sim_round speed 1000,
         fRPM = sim_round (fsub (fadd (Fin 2500) (fmul throttle (Fin 5200))) (fmul brake (Fin 800))) 10,
         fGear = sim_gear speed,
         fThrottle = sim_round throttle 1000, fBrake = sim_round brake 1000,
         fSteering = sim_round (fadd (fmul (rnd (34 / 100)) (tgSin tg theta)) (fmul (rnd (8 / 100)) (sine 3))) 1000,
         fFuelLiters = sim_round (fsub (Fin 40) (fmul progress (rnd (24 / 10)))) 1000,
         fPositionX = sim_round (fmul (Fin 420) (tgCos tg theta)) 1000,
         fPositionY = sim_round (fmul (Fin 3) (sine 2)) 1000,
         fPositionZ = sim_round (fmul (Fin 260) (tgSin tg theta)) 1000,
         fYawRadians = Some (sim_round (tgAtan2 tg (fmul (Fin 260) (tgCos tg theta)) (fmul (Fin (- 420)) (tgSin tg theta))) 1000),
         fYawRate = Some (sim_round (fmul (rnd (8 / 100)) (tgCos tg theta)) 1000),
         fWheelSpeedFL = Some (sim_round (fmul wheelSpeed (fsub (Fin 1) (fmul (rnd (4 / 1000)) brake))) 1000),
         fWheelSpeedFR = Some (sim_round (fmul wheelSpeed (fsub (Fin 1) (fmul (rnd (3 / 1000)) brake))) 1000),
         fWheelSpeedRL = Some (sim_round (fmul wheelSpeed (fadd (Fin 1) (fmul (rnd (4 / 1000)) throttle))) 1000),
         fWheelSpeedRR = Some (sim_round (fmul wheelSpeed (fadd (Fin 1) (fmul (rnd (5 / 1000)) throttle))) 1000),
         fLapDistanceMeters = None,
         fLapNumber = 1, fCurrentLapMs = duration_ms elapsed, fLastLapMs = Some 0, fBestLapMs = Some 9000, fIsOnTrack = True\<rparr>)"

section \<open>A batch\<close>

definition sim_defaults :: "sim_options \<Rightarrow> sim_options" where
  "sim_defaults o1 =
    \<lparr>soSessionID = (if soSessionID o1 = [] then ''synthetic-session-001'' else soSessionID o1), soFrequencyHz = soFrequencyHz o1,
     soStartUnixMs = (if soStartUnixMs o1 = 0 then 1720656000000 else soStartUnixMs o1),
     soLapDuration = (if soLapDuration o1 = 0 then 9000000000 else soLapDuration o1)\<rparr>"

definition sim_interval :: "sim_options \<Rightarrow> int" where
  "sim_interval o1 = div64 1000000000 (soFrequencyHz o1)"

definition frame_count :: "sim_options \<Rightarrow> int" where
  "frame_count o1 = add64 (div64 (soLapDuration o1) (sim_interval o1)) 1"

definition sim_frames :: "trig \<Rightarrow> sim_options \<Rightarrow> Frame list" where
  "sim_frames tg o1 =
    map (\<lambda>i. let elapsed = mul64 (int i) (sim_interval o1);
                 elapsed = (if elapsed > soLapDuration o1 then soLapDuration o1 else elapsed)
             in syntheticFrame tg (soStartUnixMs o1) elapsed (fdiv (duration_seconds elapsed) (duration_seconds (soLapDuration o1))))
      [0..<nat (frame_count o1)]"

definition GenerateBatch :: "trig \<Rightarrow> sim_options \<Rightarrow> sim_err + IngestBatchRequest" where
  "GenerateBatch tg options =
    (let o1 = sim_defaults options in
     if soLapDuration o1 < 0 then Inl SimInvalidDuration
     else if \<not> isSupportedFrequency (soFrequencyHz o1) then Inl SimInvalidFrequency
     else let request = \<lparr>bSessionID = soSessionID o1, bFrames = sim_frames tg o1\<rparr>
          in case batch_validate request of Some e \<Rightarrow> Inl (SimRejected e) | None \<Rightarrow> Inr request)"

definition LoadFixture :: "(string \<Rightarrow> string option) \<Rightarrow> (string \<Rightarrow> IngestBatchRequest option) \<Rightarrow> string \<Rightarrow> sim_err + IngestBatchRequest" where
  "LoadFixture readFile decode path =
    (case readFile path of None \<Rightarrow> Inl SimUnreadable
     | Some content \<Rightarrow> (case decode content of None \<Rightarrow> Inl SimMalformed
       | Some request \<Rightarrow> (case batch_validate request of Some e \<Rightarrow> Inl (SimRejected e) | None \<Rightarrow> Inr request)))"

section \<open>Pace\<close>

lemma supported_interval: "isSupportedFrequency (soFrequencyHz o1) \<Longrightarrow> 16000000 \<le> sim_interval o1 \<and> sim_interval o1 \<le> 50000000"
  by (auto simp: isSupportedFrequency_def sim_interval_def div64_def wrap64_def)

lemma div64_pos: "0 \<le> a \<Longrightarrow> div64 a b = a div b"
  by (simp add: div64_def)

text \<open>
  A generated batch is evenly paced: one frame per interval from the start to the end of the lap, on
  the clock and in the lap time, as long as the clock does not overflow; a request for another frequency or
  for a negative duration is refused.
\<close>

theorem generated_batch_paced:
  assumes "soLapDuration o1 < 2 ^ 63" "soStartUnixMs (sim_defaults o1) + duration_ms (soLapDuration (sim_defaults o1)) < 2 ^ 63"
    "0 \<le> soStartUnixMs o1"
  shows "case GenerateBatch tg o1 of
      Inr r \<Rightarrow> bFrames r \<noteq> [] \<and>
        map (\<lambda>f. (fTimestampUnixMs f, fCurrentLapMs f)) (bFrames r) =
          map (\<lambda>k. (soStartUnixMs (sim_defaults o1) + duration_ms (int k * sim_interval o1), duration_ms (int k * sim_interval o1)))
            [0..<nat (soLapDuration (sim_defaults o1) div sim_interval o1 + 1)]
    | Inl e \<Rightarrow> e = SimInvalidDuration \<and> soLapDuration o1 < 0 \<or> e = SimInvalidFrequency \<and> \<not> isSupportedFrequency (soFrequencyHz o1) \<or>
        (\<exists>r. e = SimRejected r)"
proof (cases "soLapDuration (sim_defaults o1) < 0 \<or> \<not> isSupportedFrequency (soFrequencyHz (sim_defaults o1))")
  case True
  then show ?thesis by (auto simp: GenerateBatch_def Let_def sim_defaults_def split: if_splits)
next
  case False
  let ?o = "sim_defaults o1" let ?d = "soLapDuration ?o" let ?i = "sim_interval ?o"
  have i: "16000000 \<le> ?i" "sim_interval o1 = ?i" using supported_interval [of ?o] False by (auto simp: sim_interval_def sim_defaults_def)
  have d: "0 \<le> ?d" "?d < 2 ^ 63" using False assms(1) by (auto simp: sim_defaults_def)
  have "?d div ?i \<le> ?d div 16000000" by (rule zdiv_mono2) (use d i(1) in auto)
  moreover have "?d div 16000000 < 2 ^ 62" using d(2) by simp
  ultimately have q: "0 \<le> ?d div ?i" "?d div ?i < 2 ^ 62" using d(1) i(1) by (auto simp: pos_imp_zdiv_nonneg_iff)
  have c: "frame_count ?o = ?d div ?i + 1" using q d i(1) by (simp add: frame_count_def div64_pos add64_id in64_def)
  have el: "mul64 (int k) ?i = int k * ?i" "int k * ?i \<le> ?d" if "k < nat (frame_count ?o)" for k
  proof -
    have "int k \<le> ?d div ?i" using that c q by linarith
    then have "int k * ?i \<le> ?d div ?i * ?i" using i(1) by (intro mult_right_mono) auto
    also have "\<dots> \<le> ?d" using i(1) by (simp add: minus_mod_eq_div_mult [symmetric])
    finally show "int k * ?i \<le> ?d" .
    then have "int k * ?i \<le> ?d" .
    moreover have "0 \<le> int k * ?i" using i(1) by (intro mult_nonneg_nonneg) auto
    ultimately show "mul64 (int k) ?i = int k * ?i" using d by (intro mul64_id) (simp add: in64_def)
  qed
  have s: "0 \<le> soStartUnixMs ?o" using assms(3) by (simp add: sim_defaults_def)
  have ms: "add64 (soStartUnixMs ?o) (duration_ms (int k * ?i)) = soStartUnixMs ?o + duration_ms (int k * ?i)" if "k < nat (frame_count ?o)" for k
  proof -
    have "0 \<le> duration_ms (int k * ?i)" "duration_ms (int k * ?i) \<le> duration_ms ?d"
      using el(2) [OF that] i(1) by (simp_all add: duration_ms_def zdiv_mono1 pos_imp_zdiv_nonneg_iff)
    then show ?thesis using s assms(2) by (intro add64_id) (simp add: in64_def)
  qed
  have "map (\<lambda>f. (fTimestampUnixMs f, fCurrentLapMs f)) (sim_frames tg ?o) =
      map (\<lambda>k. (soStartUnixMs ?o + duration_ms (int k * ?i), duration_ms (int k * ?i))) [0..<nat (?d div ?i + 1)]"
    unfolding c [symmetric] sim_frames_def map_map by (rule map_cong [OF refl]) (use el(1) ms el(2) [THEN leD] in \<open>auto simp: syntheticFrame_def Let_def\<close>)
  moreover have "sim_frames tg ?o \<noteq> []" using c q by (simp add: sim_frames_def)
  ultimately show ?thesis using False unfolding i(2) by (auto simp: GenerateBatch_def Let_def split: option.split)
qed

theorem generated_batch_paced_witness:
  "case GenerateBatch \<lparr>tgSin = \<lambda>_. Fin 0, tgCos = \<lambda>_. Fin 1, tgAtan2 = \<lambda>_ _. Fin 0\<rparr>
      \<lparr>soSessionID = ''s'', soFrequencyHz = 20, soStartUnixMs = 1, soLapDuration = 100000000\<rparr> of
    Inr r \<Rightarrow> bFrames r \<noteq> [] \<and> map (\<lambda>f. (fTimestampUnixMs f, fCurrentLapMs f)) (bFrames r) =
      map (\<lambda>k. (1 + duration_ms (int k * 50000000), duration_ms (int k * 50000000))) [0..<3]
  | Inl e \<Rightarrow> \<exists>r. e = SimRejected r"
  using generated_batch_paced [of "\<lparr>soSessionID = ''s'', soFrequencyHz = 20, soStartUnixMs = 1, soLapDuration = 100000000\<rparr>"
    "\<lparr>tgSin = \<lambda>_. Fin 0, tgCos = \<lambda>_. Fin 1, tgAtan2 = \<lambda>_ _. Fin 0\<rparr>"]
  by (auto simp: sim_defaults_def duration_ms_def sim_interval_def div64_def wrap64_def isSupportedFrequency_def split: sum.splits)

end
