(* ===== verification/ExportCommand.thy ===== *)
theory ExportCommand
  imports SessionExport
begin

text \<open>
  \<^verbatim>\<open>cmd/export-session-frames/main.go\<close>: the command that writes the frames of a session to a file.  The
  parsed flags, the environment, and the package variables \<^verbatim>\<open>openDatabasePool\<close>, \<^verbatim>\<open>exportSession\<close> and
  \<^verbatim>\<open>writeExport\<close> are arguments; the result is the exit code with what was written and whether the
  warning about an active session was printed.
\<close>

record export_flags =
  efSessionID :: string
  efOutputPath :: string
  efDatabaseURL :: string
  efAllowActive :: bool
  efLapNumber :: "int option"

datatype parsed_flags = FlagsHelp | FlagsInvalid | FlagsParsed export_flags

record export_outcome =
  eoExitCode :: int
  eoWritten :: "(string \<times> IngestBatchRequest) option"
  eoWarned :: bool

definition exitUsageOrConfig :: int where "exitUsageOrConfig = 2"
definition exitMissingData :: int where "exitMissingData = 3"
definition exitActiveBlocked :: int where "exitActiveBlocked = 4"
definition exitTimestamp :: int where "exitTimestamp = 5"
definition exitIO :: int where "exitIO = 6"

definition resolveDatabaseURL :: "(string \<Rightarrow> string) \<Rightarrow> string \<Rightarrow> string" where
  "resolveDatabaseURL getenv flagValue =
    (if trim_space flagValue \<noteq> [] then flagValue else getenv ''TELEMETRY_ONE_DATABASE_URL'')"

definition classifyExportError :: "export_err \<Rightarrow> int" where
  "classifyExportError e =
    (case e of
       ExpMissingSession _ \<Rightarrow> exitMissingData
     | ExpLoadSession _ SesNotFound \<Rightarrow> exitMissingData
     | ExpActiveSessionBlocked \<Rightarrow> exitActiveBlocked
     | ExpInvalidLapNumber \<Rightarrow> exitUsageOrConfig
     | ExpEmptyFrames _ _ \<Rightarrow> exitMissingData
     | ExpNonMonotonic _ _ _ \<Rightarrow> exitTimestamp
     | _ \<Rightarrow> exitIO)"

definition exit_with :: "int \<Rightarrow> export_outcome" where
  "exit_with code = \<lparr>eoExitCode = code, eoWritten = None, eoWarned = False\<rparr>"

definition export_run :: "(string \<Rightarrow> string) \<Rightarrow> (string \<Rightarrow> 'pool option) \<Rightarrow>
    ('pool \<Rightarrow> string \<Rightarrow> bool \<Rightarrow> int option \<Rightarrow> export_err + ExportResult) \<Rightarrow> (string \<Rightarrow> IngestBatchRequest \<Rightarrow> bool) \<Rightarrow>
    parsed_flags \<Rightarrow> export_outcome" where
  "export_run getenv openPool exportSession writeExport parsed =
    (case parsed of FlagsHelp \<Rightarrow> exit_with 0 | FlagsInvalid \<Rightarrow> exit_with exitUsageOrConfig
     | FlagsParsed f \<Rightarrow>
       if (case efLapNumber f of None \<Rightarrow> False | Some n \<Rightarrow> n < 0) then exit_with exitUsageOrConfig
       else if trim_space (efSessionID f) = [] then exit_with exitUsageOrConfig
       else if trim_space (efOutputPath f) = [] then exit_with exitUsageOrConfig
       else let databaseURL = resolveDatabaseURL getenv (efDatabaseURL f) in
         if trim_space databaseURL = [] then exit_with exitUsageOrConfig
         else case openPool databaseURL of None \<Rightarrow> exit_with exitIO
           | Some pool \<Rightarrow>
             case exportSession pool (efSessionID f) (efAllowActive f) (efLapNumber f) of
               Inl e \<Rightarrow> exit_with (classifyExportError e)
             | Inr result \<Rightarrow>
               let warned = (session_Status (xrSession result) = ''active'' \<and> efAllowActive f) in
               if \<not> writeExport (efOutputPath f) (xrRequest result)
               then \<lparr>eoExitCode = exitIO, eoWritten = None, eoWarned = warned\<rparr>
               else \<lparr>eoExitCode = 0, eoWritten = Some (efOutputPath f, xrRequest result), eoWarned = warned\<rparr>)"

lemma classify_nonzero: "classifyExportError e \<in> {2, 3, 4, 5, 6}"
  by (auto simp: classifyExportError_def exitUsageOrConfig_def exitMissingData_def exitActiveBlocked_def exitTimestamp_def exitIO_def
    split: export_err.splits session_err.splits)

text \<open>
  The command exits with zero exactly when it showed its help or wrote the batch the export returned to the
  path it was given; every other outcome has a code between two and six and writes nothing.
\<close>

theorem exit_code_exact:
  "eoExitCode (export_run getenv openPool exportSession writeExport parsed) = 0 \<longleftrightarrow>
     parsed = FlagsHelp \<or> (\<exists>f pool result. parsed = FlagsParsed f \<and> openPool (resolveDatabaseURL getenv (efDatabaseURL f)) = Some pool \<and>
       exportSession pool (efSessionID f) (efAllowActive f) (efLapNumber f) = Inr result \<and>
       eoWritten (export_run getenv openPool exportSession writeExport parsed) = Some (efOutputPath f, xrRequest result))"
  "eoExitCode (export_run getenv openPool exportSession writeExport parsed) \<in> {0, 2, 3, 4, 5, 6}"
proof -
  have c: "classifyExportError e \<noteq> 0" for e using classify_nonzero [of e] by auto
  show "eoExitCode (export_run getenv openPool exportSession writeExport parsed) = 0 \<longleftrightarrow>
     parsed = FlagsHelp \<or> (\<exists>f pool result. parsed = FlagsParsed f \<and> openPool (resolveDatabaseURL getenv (efDatabaseURL f)) = Some pool \<and>
       exportSession pool (efSessionID f) (efAllowActive f) (efLapNumber f) = Inr result \<and>
       eoWritten (export_run getenv openPool exportSession writeExport parsed) = Some (efOutputPath f, xrRequest result))"
    by (auto simp: export_run_def exit_with_def Let_def c exitUsageOrConfig_def exitIO_def split: parsed_flags.splits option.splits sum.splits if_splits)
  show "eoExitCode (export_run getenv openPool exportSession writeExport parsed) \<in> {0, 2, 3, 4, 5, 6}"
    using classify_nonzero
    by (auto simp: export_run_def exit_with_def Let_def exitUsageOrConfig_def exitIO_def split: parsed_flags.split option.split sum.split)
qed

end
