(* ===== verification/SeedCatalog.thy ===== *)
theory SeedCatalog
  imports Tracks
begin

text \<open>
  \<^verbatim>\<open>internal/tracks/seed.go\<close>: the catalogue the program starts with.  The approved geometry, an embedded file, is
  an argument; the constant texts \<^verbatim>\<open>GeneratedBy\<close> and \<^verbatim>\<open>Notes\<close> are not part of the record.  The catalogue
  passes its own validation, which is a theorem and not an evaluation: the identifiers are
  distinct because they can be read back.
\<close>

section \<open>Identifiers\<close>

text \<open>The loop of \<^verbatim>\<open>itoa\<close> fills its buffer from the end.\<close>

function itoa_loop :: "int \<Rightarrow> string \<Rightarrow> string" where
  "itoa_loop value digits = (if value > 0 then itoa_loop (value div 10) (digit (value mod 10) # digits) else digits)"
  by pat_completeness auto
termination by (relation "measure (\<lambda>(value, _). nat value)") auto

declare itoa_loop.simps [simp del]

definition uint_itoa :: "int \<Rightarrow> string" where
  "uint_itoa value = (if value = 0 then ''0'' else itoa_loop value [])"

definition layoutID :: "int \<Rightarrow> string" where "layoutID gt7LayoutID = ''gt7_layout_'' @ uint_itoa gt7LayoutID"

definition cornerID :: "int \<Rightarrow> int \<Rightarrow> string" where "cornerID n i = layoutID n @ ''_corner_'' @ uint_itoa i"

section \<open>Tracks and layouts\<close>

definition enumeratedCorners :: "int \<Rightarrow> int \<Rightarrow> Source list \<Rightarrow> Corner list" where
  "enumeratedCorners gt7LayoutID numCorners sources =
    (if numCorners = 0 then []
     else map (\<lambda>i. \<lparr>coID = cornerID gt7LayoutID i, coNumber = i, coName = ''Corner '' @ uint_itoa i,
         coDefinitionMode = CornerDefinitionCatalogEnumerated, coStartMeters = Fin 0, coApexMeters = Fin 0, coEndMeters = Fin 0,
         coDirection = [], coRadiusMeters = Fin 0, coSeverity = [], coConfidence = Fin 1, coSources = sources\<rparr>) [1..numCorners])"

definition layoutFromGT7Info :: "int \<Rightarrow> string \<Rightarrow> rat \<Rightarrow> int \<Rightarrow> Source list \<Rightarrow> CatalogLayout" where
  "layoutFromGT7Info gt7LayoutID name lengthMeters numCorners sources =
    \<lparr>loID = layoutID gt7LayoutID, loName = name, loLengthMeters = Fin lengthMeters, loSources = sources, loSectors = [],
     loCorners = enumeratedCorners gt7LayoutID numCorners sources, loCenterLine = []\<rparr>"

definition seed_track :: "string \<Rightarrow> string \<Rightarrow> string \<Rightarrow> Source list \<Rightarrow> CatalogLayout list \<Rightarrow> CatalogTrack" where
  "seed_track i name country sources layouts =
    \<lparr>trID = i, trName = name, trCountry = country, trSources = sources, trLayouts = layouts\<rparr>"

definition gt7Info :: Source where
  "gt7Info = \<lparr>srcURL = ''https://raw.githubusercontent.com/ddm999/gt7info/web-new/_data/db/course.csv'',
     srcSourceType = ''gt7info_course_csv'', srcRetrievedAt = ''2026-07-15'',
     srcNote = ''gt7info course.csv fields: ID, Name, Base, Country, Category, Length, IsReverse, IsOval, NumCorners; NumCorners is used only to generate ordinal Corner 1..N labels, not named/ranged corners''\<rparr>"

definition officialTracklist :: Source where
  "officialTracklist = \<lparr>srcURL = ''https://www.gran-turismo.com/common/dist/gt7/tracklist/assets/tracks.gb-DLTcO0kl.js'',
     srcSourceType = ''official_gran_turismo_tracklist_asset'', srcRetrievedAt = ''2026-07-12'',
     srcNote = ''official Gran Turismo generated tracklist asset; public first-party source for layout ID, name, length, and cornerCount''\<rparr>"

definition seed_tracks :: "CatalogTrack list" where
  "seed_tracks =
    [
     seed_track ''gt7_watkins_glen_international'' ''Watkins Glen International'' ''United States'' [officialTracklist, gt7Info]
       [layoutFromGT7Info 1240 ''Watkins Glen Long Course'' 5423 11 [officialTracklist, gt7Info],
        layoutFromGT7Info 1264 ''Watkins Glen Short Course'' 3942 7 [gt7Info]],
     seed_track ''gt7_brands_hatch'' ''Brands Hatch'' ''United Kingdom'' [officialTracklist, gt7Info]
       [layoutFromGT7Info 346 ''Brands Hatch Indy Circuit'' 1944 0 [officialTracklist, gt7Info]],
     seed_track ''gt7_tsukuba_circuit'' ''Tsukuba Circuit'' ''Japan'' [officialTracklist, gt7Info]
       [layoutFromGT7Info 471 ''Tsukuba Circuit'' 2045 8 [officialTracklist, gt7Info]],
     seed_track ''gt7_yas_marina_circuit'' ''Yas Marina Circuit'' ''United Arab Emirates'' [officialTracklist, gt7Info]
       [layoutFromGT7Info 2003 ''Yas Marina Circuit'' 5281 16 [officialTracklist, gt7Info]],
     seed_track ''gt7_circuit_gilles_villeneuve'' ''Circuit Gilles-Villeneuve'' ''Canada'' [officialTracklist, gt7Info]
       [layoutFromGT7Info 2004 ''Circuit Gilles-Villeneuve'' 4361 14 [officialTracklist, gt7Info]],
     seed_track ''gt7_weathertech_raceway_laguna_seca'' ''WeatherTech Raceway Laguna Seca'' ''United States'' [gt7Info]
       [layoutFromGT7Info 41 ''WeatherTech Raceway Laguna Seca'' 3602 11 [gt7Info]],
     seed_track ''gt7_nurburgring'' ''Nurburgring'' ''Germany'' [gt7Info]
       [layoutFromGT7Info 95 ''Nurburgring Nordschleife'' 20832 73 [gt7Info],
        layoutFromGT7Info 349 ''Nurburgring GP'' 5148 17 [gt7Info],
        layoutFromGT7Info 1247 ''Nurburgring Endurance'' 23864 85 [gt7Info],
        layoutFromGT7Info 1248 ''Nurburgring Sprint'' 3629 12 [gt7Info]],
     seed_track ''gt7_autodrome_lago_maggiore'' ''Autodrome Lago Maggiore'' ''Italy'' [gt7Info]
       [layoutFromGT7Info 365 ''Autodrome Lago Maggiore - Full Course'' 5809 17 [gt7Info],
        layoutFromGT7Info 1226 ''Autodrome Lago Maggiore - East'' 3643 11 [gt7Info],
        layoutFromGT7Info 1231 ''Autodrome Lago Maggiore - East Reverse'' 3643 11 [gt7Info]],
     seed_track ''gt7_lake_louise'' ''Lake Louise'' ''Canada'' [gt7Info]
       [layoutFromGT7Info 1309 ''Lake Louise Long Track'' 3694 11 [gt7Info],
        layoutFromGT7Info 1318 ''Lake Louise Long Track Reverse'' 3694 11 [gt7Info]],
     seed_track ''gt7_suzuka_circuit'' ''Suzuka Circuit'' ''Japan'' [gt7Info]
       [layoutFromGT7Info 10 ''Suzuka Circuit'' 5807 20 [gt7Info],
        layoutFromGT7Info 442 ''Suzuka Circuit East Course'' 2243 9 [gt7Info]],
     seed_track ''gt7_daytona_international_speedway'' ''Daytona International Speedway'' ''United States'' [gt7Info]
       [layoutFromGT7Info 4 ''Daytona Tri-Oval'' 4023 4 [gt7Info],
        layoutFromGT7Info 1163 ''Daytona Road Course'' 5729 12 [gt7Info]],
     seed_track ''gt7_circuit_de_spa_francorchamps'' ''Circuit de Spa-Francorchamps'' ''Belgium'' [gt7Info]
       [layoutFromGT7Info 462 ''Circuit de Spa-Francorchamps'' 7004 21 [gt7Info],
        layoutFromGT7Info 1269 ''Spa 24h Layout'' 7004 21 [gt7Info]],
     seed_track ''gt7_autodromo_nazionale_monza'' ''Autodromo Nazionale Monza'' ''Italy'' [gt7Info]
       [layoutFromGT7Info 469 ''Autodromo Nazionale Monza'' 5793 11 [gt7Info],
        layoutFromGT7Info 742 ''Autodromo Nazionale Monza No Chicane'' 5755 9 [gt7Info]],
     seed_track ''gt7_trial_mountain_circuit'' ''Trial Mountain Circuit'' ''United States'' [gt7Info]
       [layoutFromGT7Info 1024 ''Trial Mountain Circuit'' 5434 15 [gt7Info],
        layoutFromGT7Info 1034 ''Trial Mountain Circuit - Reverse'' 5434 15 [gt7Info]],
     seed_track ''gt7_michelin_raceway_road_atlanta'' ''Michelin Raceway Road Atlanta'' ''United States'' [gt7Info]
       [layoutFromGT7Info 1007 ''Michelin Raceway Road Atlanta'' 4088 12 [gt7Info]],
     seed_track ''gt7_autodromo_de_interlagos'' ''Autodromo de Interlagos'' ''Brazil'' [gt7Info]
       [layoutFromGT7Info 152 ''Autodromo de Interlagos'' 4309 15 [gt7Info]],
     seed_track ''gt7_red_bull_ring'' ''Red Bull Ring'' ''Austria'' [gt7Info]
       [layoutFromGT7Info 470 ''Red Bull Ring'' 4318 10 [gt7Info],
        layoutFromGT7Info 846 ''Red Bull Ring Short Track'' 2336 6 [gt7Info]],
     seed_track ''gt7_circuit_de_barcelona_catalunya'' ''Circuit de Barcelona-Catalunya'' ''Spain'' [gt7Info]
       [layoutFromGT7Info 874 ''Circuit de Barcelona-Catalunya Grand Prix Layout'' 4655 16 [gt7Info],
        layoutFromGT7Info 1249 ''Circuit de Barcelona-Catalunya GP Layout No Chicane'' 4730 14 [gt7Info],
        layoutFromGT7Info 1250 ''Circuit de Barcelona-Catalunya National'' 2977 11 [gt7Info]],
     seed_track ''gt7_24_heures_du_mans'' ''24 Heures du Mans Racing Circuit'' ''France'' [gt7Info]
       [layoutFromGT7Info 454 ''24 Heures du Mans Racing Circuit'' 13629 38 [gt7Info],
        layoutFromGT7Info 854 ''24 Heures du Mans Racing Circuit No Chicane'' 13567 32 [gt7Info]],
     seed_track ''gt7_fuji_international_speedway'' ''Fuji International Speedway'' ''Japan'' [gt7Info]
       [layoutFromGT7Info 16 ''Fuji International Speedway'' 4563 16 [gt7Info],
        layoutFromGT7Info 837 ''Fuji International Speedway (Short)'' 4526 14 [gt7Info]]]"

definition OfficialGT7SeedCatalog :: "ApprovedGeometryLayout list \<Rightarrow> Catalog" where
  "OfficialGT7SeedCatalog manifest =
    \<lparr>caCatalogVersion = CatalogVersionV1, caTracks = seed_tracks, caApprovedGeometry = manifest\<rparr>"

section \<open>Validation succeeds\<close>

text \<open>The converse of the lemmas on \<open>remembers\<close>: well-formed parts with new names are accepted.\<close>

definition fresh :: "string list \<Rightarrow> ids \<Rightarrow> bool" where
  "fresh xs ids \<longleftrightarrow> distinct xs \<and> set xs \<inter> dom ids = {}"

lemma fresh_Cons: "fresh (x # xs) ids \<Longrightarrow> rememberID ids x p = Inr (ids(x \<mapsto> p)) \<and> fresh xs (ids(x \<mapsto> p))"
  by (auto simp: fresh_def rememberID_def split: option.split)

lemma fresh_append: "fresh (xs @ ys) ids \<Longrightarrow> fresh xs ids \<and> (\<forall>ids'. remembers xs ids ids' \<longrightarrow> fresh ys ids')"
  by (auto simp: fresh_def remembers_def)

definition sources_ok :: "Source list \<Rightarrow> bool" where
  "sources_ok ss \<longleftrightarrow> ss \<noteq> [] \<and> list_all (\<lambda>s. srcURL s \<noteq> [] \<and> isProductionSourceType (srcSourceType s) \<and> srcRetrievedAt s \<noteq> []) ss"

lemma sources_ok_valid: "sources_ok ss \<Longrightarrow> validateSources p ss = None"
  unfolding validateSources_iff sources_ok_def by (auto simp: list_all_iff isProductionSourceType_def)

lemma sources_ok_production: "sources_ok ss \<Longrightarrow> requireProductionSources p ss = None"
  using sources_ok_valid [of ss p]
  by (auto simp: requireProductionSources_def requireSources_def production_loop_iff sources_ok_def list_all_iff)

definition corner_ok :: "Corner \<Rightarrow> bool" where
  "corner_ok c \<longleftrightarrow> coID c \<noteq> [] \<and> coName c \<noteq> [] \<and> coDefinitionMode c = CornerDefinitionCatalogEnumerated \<and> sources_ok (coSources c) \<and>
     coStartMeters c = Fin 0 \<and> coApexMeters c = Fin 0 \<and> coEndMeters c = Fin 0"

definition layout_ok :: "CatalogLayout \<Rightarrow> bool" where
  "layout_ok l \<longleftrightarrow> loID l \<noteq> [] \<and> loName l \<noteq> [] \<and> \<not> fle (loLengthMeters l) (Fin 0) \<and> sources_ok (loSources l) \<and> loSectors l = [] \<and>
     loCenterLine l = [] \<and> list_all corner_ok (loCorners l)"

definition track_ok :: "CatalogTrack \<Rightarrow> bool" where
  "track_ok t \<longleftrightarrow> trID t \<noteq> [] \<and> trName t \<noteq> [] \<and> sources_ok (trSources t) \<and> list_all layout_ok (trLayouts t)"

lemma corners_accepted: "list_all corner_ok cs \<Longrightarrow> fresh (map coID cs) ids \<Longrightarrow> \<exists>ids'. corners_loop p len n i pe fs hw ids cs = Inr ids'"
proof (induction cs arbitrary: ids i)
  case (Cons c cs)
  have f: "rememberID ids (coID c) q = Inr (ids(coID c \<mapsto> q))" "fresh (map coID cs) (ids(coID c \<mapsto> q))" for q
    using fresh_Cons [of "coID c" "map coID cs" ids] Cons.prems(2) by auto
  have c: "corner_ok c" "list_all corner_ok cs" using Cons.prems(1) by auto
  obtain ids' where "corners_loop p len n (i + 1) pe fs hw (ids(coID c \<mapsto> indexed p i)) cs = Inr ids'"
    using Cons.IH [OF c(2) f(2), of "i + 1" "indexed p i"] by blast
  then show ?case using c(1) by (simp add: f(1) corner_ok_def sources_ok_valid)
qed simp

lemma layout_accepted: "layout_ok l \<Longrightarrow> fresh (layout_ids l) ids \<Longrightarrow> \<exists>ids'. layout_validate l p ids = Inr ids'"
proof -
  assume l: "layout_ok l" "fresh (layout_ids l) ids"
  have f: "rememberID ids (loID l) p = Inr (ids(loID l \<mapsto> p))" "fresh (map coID (loCorners l)) (ids(loID l \<mapsto> p))"
    using fresh_Cons l(2) unfolding layout_ids_def by auto
  obtain ids' where "validateCorners (p @ ''.corners'') (loCorners l) (loLengthMeters l) (ids(loID l \<mapsto> p)) = Inr ids'"
    using corners_accepted [OF _ f(2)] l(1) unfolding validateCorners_def layout_ok_def by blast
  then show ?thesis using l(1)
    by (simp add: layout_validate_def layout_ok_def f(1) sources_ok_valid validateSectors_def validateCenterLine_def)
qed

lemma layouts_accepted: "list_all layout_ok ls \<Longrightarrow> fresh (concat (map layout_ids ls)) ids \<Longrightarrow> \<exists>ids'. layouts_loop p i ids ls = Inr ids'"
proof (induction ls arbitrary: ids i)
  case (Cons l ls)
  have f: "fresh (layout_ids l) ids" "remembers (layout_ids l) ids ids' \<Longrightarrow> fresh (concat (map layout_ids ls)) ids'" for ids'
    using fresh_append [of "layout_ids l" "concat (map layout_ids ls)" ids] Cons.prems(2) by auto
  obtain ids1 where 1: "layout_validate l (indexed (p @ ''.layouts'') i) ids = Inr ids1"
    using layout_accepted [OF _ f(1)] Cons.prems(1) by fastforce
  obtain ids' where "layouts_loop p (i + 1) ids1 ls = Inr ids'"
    using Cons.IH [OF _ f(2) [OF layout_validate_remembers [OF 1]], of "i + 1"] Cons.prems(1) by auto
  then show ?case by (simp add: 1)
qed simp

lemma tracks_accepted: "list_all track_ok ts \<Longrightarrow> fresh (concat (map track_ids ts)) ids \<Longrightarrow> \<exists>ids'. tracks_loop i ids ts = Inr ids'"
proof (induction ts arbitrary: ids i)
  case (Cons t ts)
  have f: "fresh (track_ids t) ids" "remembers (track_ids t) ids ids' \<Longrightarrow> fresh (concat (map track_ids ts)) ids'" for ids'
    using fresh_append [of "track_ids t" "concat (map track_ids ts)" ids] Cons.prems(2) by auto
  let ?p = "indexed ''tracks'' i"
  have g: "rememberID ids (trID t) ?p = Inr (ids(trID t \<mapsto> ?p))" "fresh (concat (map layout_ids (trLayouts t))) (ids(trID t \<mapsto> ?p))"
    using fresh_Cons f(1) unfolding track_ids_def by blast+
  have t: "track_ok t" "list_all track_ok ts" using Cons.prems(1) by auto
  obtain ids1 where 1: "layouts_loop ?p 0 (ids(trID t \<mapsto> ?p)) (trLayouts t) = Inr ids1"
    using layouts_accepted [OF _ g(2)] t(1) unfolding track_ok_def by blast
  have "remembers (track_ids t) ids ids1" unfolding track_ids_def by (rule remembers_Cons [OF g(1) layouts_loop_remembers [OF 1]])
  then obtain ids' where "tracks_loop (i + 1) ids1 ts = Inr ids'" using Cons.IH [OF t(2) f(2)] by blast
  then show ?case using t(1) by (simp add: Let_def g(1) 1 track_ok_def sources_ok_valid)
qed simp

lemma first_error_all: "list_all (\<lambda>x. \<forall>p. f p x = None) xs \<Longrightarrow> first_error f path i xs = None"
  by (induction xs arbitrary: i) auto

lemma layout_ok_sources: "layout_ok l \<Longrightarrow> layout_sources_check p l = None"
  by (auto simp: layout_ok_def layout_sources_check_def sources_ok_production corner_ok_def list_all_iff intro!: first_error_all)

lemma track_ok_sources: "track_ok t \<Longrightarrow> track_sources_check p t = None"
  by (auto simp: track_ok_def track_sources_check_def sources_ok_production layout_ok_sources list_all_iff intro!: first_error_all)

lemma source_of_truth_accepts:
  assumes "caCatalogVersion c = CatalogVersionV1" "list_all track_ok (caTracks c)" "distinct (concat (map track_ids (caTracks c)))"
  shows "ValidateSourceOfTruth c = None"
proof -
  obtain ids' where "tracks_loop 0 Map.empty (caTracks c) = Inr ids'"
    using tracks_accepted [OF assms(2), of Map.empty 0] assms(3) by (auto simp: fresh_def)
  then have "catalog_Validate c = None" using assms(1) by (simp add: catalog_Validate_def CatalogVersionV1_def)
  moreover have "first_error track_sources_check ''tracks'' 0 (caTracks c) = None"
    using assms(2) by (intro first_error_all) (auto simp: list_all_iff track_ok_sources)
  ultimately show ?thesis by (simp add: ValidateSourceOfTruth_def)
qed

section \<open>Identifiers can be read back\<close>

lemma itoa_loop_dec: "0 < n \<Longrightarrow> itoa_loop n ds = dec n @ ds"
proof (induction n ds rule: itoa_loop.induct)
  case (1 n ds)
  show ?case
  proof (cases "n < 10")
    case True
    then have "itoa_loop n ds = itoa_loop 0 (digit n # ds)" using 1(2) by (subst itoa_loop.simps) simp
    then show ?thesis using True by (subst dec.simps) (simp add: itoa_loop.simps [of 0])
  next
    case False
    then have "itoa_loop n ds = itoa_loop (n div 10) (digit (n mod 10) # ds)" by (subst itoa_loop.simps) simp
    also have "\<dots> = dec (n div 10) @ digit (n mod 10) # ds" using "1.IH" False 1(2) by auto
    finally show ?thesis using False by (subst dec.simps) simp
  qed
qed

lemma uint_itoa_dec: "0 \<le> n \<Longrightarrow> uint_itoa n = dec n"
  by (cases "n = 0") (simp_all add: uint_itoa_def itoa_loop_dec dec.simps [of 0] digit_def)

lemma no_underscore: "0 \<le> n \<Longrightarrow> CHR ''_'' \<notin> set (dec n)"
  by (simp add: dec_not sign_not_digit)

text \<open>The names in the order of the catalogue, as tokens.\<close>

datatype seed_name = TrackName string | LayoutName int | CornerName int int

fun render :: "seed_name \<Rightarrow> string" where
  "render (TrackName s) = s"
| "render (LayoutName n) = layoutID n"
| "render (CornerName n i) = cornerID n i"

fun name_ok :: "seed_name \<Rightarrow> bool" where
  "name_ok (TrackName s) = (strip_prefix ''gt7_layout_'' s = None)"
| "name_ok (LayoutName n) = (0 \<le> n)"
| "name_ok (CornerName n i) = (0 \<le> n \<and> 0 \<le> i)"

lemma render_inj: "name_ok a \<Longrightarrow> name_ok b \<Longrightarrow> render a = render b \<Longrightarrow> a = b"
proof -
  assume ok: "name_ok a" "name_ok b" and eq: "render a = render b"
  have t: "strip_prefix ''gt7_layout_'' s \<noteq> None" if "s = layoutID n \<or> s = cornerID n i" for s n i
    using that by (auto simp: layoutID_def cornerID_def)
  have l: "layoutID m = layoutID n \<Longrightarrow> m = n" "layoutID m \<noteq> cornerID n i" "cornerID m j = cornerID n i \<Longrightarrow> m = n \<and> j = i"
    if "0 \<le> m" "0 \<le> n" "0 \<le> i" "0 \<le> j" for m n i j
  proof -
    have u: "CHR ''_'' \<notin> set (dec m)" "CHR ''_'' \<notin> set (dec n)" using that no_underscore by auto
    show "layoutID m = layoutID n \<Longrightarrow> m = n" using that by (auto simp: layoutID_def uint_itoa_dec dest: dec_inj)
    show "layoutID m \<noteq> cornerID n i" using u(1) that by (auto simp: layoutID_def cornerID_def uint_itoa_dec)
    have c: "cornerID p q = (''gt7_layout_'' @ dec p @ ''_corner'') @ CHR ''_'' # dec q" if "0 \<le> p" "0 \<le> q" for p q
      using that by (simp add: cornerID_def layoutID_def uint_itoa_dec)
    have v: "CHR ''_'' \<notin> set (dec j)" "CHR ''_'' \<notin> set (dec i)" using that no_underscore by auto
    show "m = n \<and> j = i" if e: "cornerID m j = cornerID n i"
    proof -
      have "''gt7_layout_'' @ dec m @ ''_corner'' = ''gt7_layout_'' @ dec n @ ''_corner'' \<and> dec j = dec i"
        using append_sep_inj [OF v] e \<open>0 \<le> m\<close> \<open>0 \<le> n\<close> \<open>0 \<le> i\<close> \<open>0 \<le> j\<close> by (simp only: c)
      then have "dec m = dec n" "dec j = dec i" by simp_all
      then show ?thesis using dec_inj \<open>0 \<le> m\<close> \<open>0 \<le> n\<close> \<open>0 \<le> i\<close> \<open>0 \<le> j\<close> by blast
    qed
  qed
  have x: "strip_prefix ''gt7_layout_'' (layoutID n) \<noteq> None" "strip_prefix ''gt7_layout_'' (cornerID n i) \<noteq> None" for n i
    using t by blast+
  show "a = b"
  proof (cases a)
    case (TrackName s)
    then show ?thesis using ok eq x by (cases b) (metis render.simps name_ok.simps)+
  next
    case (LayoutName m)
    note a = this
    show ?thesis
    proof (cases b)
      case (TrackName s)
      then show ?thesis using ok eq x(1) a by (metis render.simps(1,2) name_ok.simps(1))
    next
      case (LayoutName n)
      then show ?thesis using ok eq l(1) [of m n 0 0] a by simp
    next
      case (CornerName n i)
      then show ?thesis using ok eq l(2) [of m n i 0] a by simp
    qed
  next
    case (CornerName m j)
    note a = this
    show ?thesis
    proof (cases b)
      case (TrackName s)
      then show ?thesis using ok eq x(2) a by (metis render.simps(1,3) name_ok.simps(1))
    next
      case (LayoutName n)
      then have "layoutID n = cornerID m j" using eq a by simp
      then show ?thesis using ok l(2) [of n m j 0] a LayoutName by simp
    next
      case (CornerName n i)
      then show ?thesis using ok eq l(3) [of m n i j] a by simp
    qed
  qed
qed

type_synonym seed_key = "string \<times> (int \<times> int) list"

definition layout_names :: "int \<times> int \<Rightarrow> seed_name list" where
  "layout_names k = LayoutName (fst k) # map (CornerName (fst k)) [1..snd k]"

definition track_names :: "seed_key \<Rightarrow> seed_name list" where
  "track_names k = TrackName (fst k) # concat (map layout_names (snd k))"

lemma set_layout_names: "set (layout_names k) = insert (LayoutName (fst k)) (CornerName (fst k) ` {1..snd k})"
  by (simp add: layout_names_def)

lemma distinct_layout_names: "distinct (map fst ks) \<Longrightarrow> distinct (concat (map layout_names ks))"
proof (induction ks)
  case (Cons k ks)
  have "distinct (layout_names k)" by (auto simp: layout_names_def distinct_map inj_on_def)
  then show ?case using Cons by (force simp: set_layout_names)
qed simp

lemma distinct_track_names:
  "distinct (map fst ks) \<Longrightarrow> distinct (concat (map (map fst \<circ> snd) ks)) \<Longrightarrow> distinct (concat (map track_names ks))"
proof (induction ks)
  case (Cons k ks)
  have d: "distinct (map fst (snd k))" "distinct (concat (map (map fst \<circ> snd) ks))" "distinct (map fst ks)" using Cons.prems by (auto simp: o_def)
  have "distinct (track_names k)" using distinct_layout_names [OF d(1)] by (auto simp: track_names_def set_layout_names)
  moreover have "set (track_names k) \<inter> set (concat (map track_names ks)) = {}"
    using Cons.prems by (force simp: track_names_def set_layout_names)
  ultimately show ?case using Cons.IH [OF d(3,2)] by simp
qed simp

section \<open>The seed\<close>

definition seed_keys :: "seed_key list" where
  "seed_keys =
    [(''gt7_watkins_glen_international'', [(1240, 11), (1264, 7)]),
     (''gt7_brands_hatch'', [(346, 0)]),
     (''gt7_tsukuba_circuit'', [(471, 8)]),
     (''gt7_yas_marina_circuit'', [(2003, 16)]),
     (''gt7_circuit_gilles_villeneuve'', [(2004, 14)]),
     (''gt7_weathertech_raceway_laguna_seca'', [(41, 11)]),
     (''gt7_nurburgring'', [(95, 73), (349, 17), (1247, 85), (1248, 12)]),
     (''gt7_autodrome_lago_maggiore'', [(365, 17), (1226, 11), (1231, 11)]),
     (''gt7_lake_louise'', [(1309, 11), (1318, 11)]),
     (''gt7_suzuka_circuit'', [(10, 20), (442, 9)]),
     (''gt7_daytona_international_speedway'', [(4, 4), (1163, 12)]),
     (''gt7_circuit_de_spa_francorchamps'', [(462, 21), (1269, 21)]),
     (''gt7_autodromo_nazionale_monza'', [(469, 11), (742, 9)]),
     (''gt7_trial_mountain_circuit'', [(1024, 15), (1034, 15)]),
     (''gt7_michelin_raceway_road_atlanta'', [(1007, 12)]),
     (''gt7_autodromo_de_interlagos'', [(152, 15)]),
     (''gt7_red_bull_ring'', [(470, 10), (846, 6)]),
     (''gt7_circuit_de_barcelona_catalunya'', [(874, 16), (1249, 14), (1250, 11)]),
     (''gt7_24_heures_du_mans'', [(454, 38), (854, 32)]),
     (''gt7_fuji_international_speedway'', [(16, 16), (837, 14)])]"

definition named :: "CatalogTrack \<Rightarrow> seed_key \<Rightarrow> bool" where
  "named t k \<longleftrightarrow> track_ids t = map render (track_names k) \<and> track_ok t \<and> list_all name_ok (track_names k)"

lemma enumerated_ids: "map coID (enumeratedCorners n k ss) = map (cornerID n) [1..k]"
  by (simp add: enumeratedCorners_def o_def)

lemma uint_itoa_Nil: "0 \<le> n \<Longrightarrow> uint_itoa n \<noteq> []"
  by (simp add: uint_itoa_dec)

lemma layout_names_ok: "0 \<le> n \<Longrightarrow> list_all name_ok (layout_names (n, k))"
  by (auto simp: layout_names_def list_all_iff)

lemma layout_from_info:
  assumes "0 \<le> n" "name \<noteq> []" "0 < len" "sources_ok ss"
  shows "layout_ok (layoutFromGT7Info n name len k ss)" "layout_ids (layoutFromGT7Info n name len k ss) = map render (layout_names (n, k))"
proof -
  have "list_all corner_ok (enumeratedCorners n k ss)"
    using assms(4) by (auto simp: enumeratedCorners_def corner_ok_def list_all_iff cornerID_def layoutID_def)
  then show "layout_ok (layoutFromGT7Info n name len k ss)"
    using assms by (simp add: layout_ok_def layoutFromGT7Info_def layoutID_def fle_def)
  show "layout_ids (layoutFromGT7Info n name len k ss) = map render (layout_names (n, k))"
    by (simp add: layout_ids_def layoutFromGT7Info_def enumerated_ids layout_names_def)
qed

lemma seed_sources: "sources_ok [gt7Info]" "sources_ok [officialTracklist, gt7Info]"
  by (simp_all add: sources_ok_def gt7Info_def officialTracklist_def isProductionSourceType_def)

lemma seed_track_named:
  assumes "i \<noteq> []" "name \<noteq> []" "sources_ok ss" "strip_prefix ''gt7_layout_'' i = None"
    "list_all2 (\<lambda>l k. layout_ok l \<and> layout_ids l = map render (layout_names k) \<and> list_all name_ok (layout_names k)) ls ks"
  shows "named (seed_track i name country ss ls) (i, ks)"
proof -
  have "list_all layout_ok ls \<and> concat (map layout_ids ls) = map render (concat (map layout_names ks)) \<and> list_all name_ok (concat (map layout_names ks))"
    using assms(5) by (induction ls ks rule: list_all2_induct) auto
  then show ?thesis using assms(1-4) by (simp add: named_def seed_track_def track_ids_def track_names_def track_ok_def)
qed

lemma seed_named: "list_all2 named seed_tracks seed_keys"
  unfolding seed_tracks_def seed_keys_def
  by (simp only: list_all2_Cons list_all2_Nil simp_thms) (intro conjI seed_track_named; simp add: layout_from_info layout_names_ok seed_sources)

lemma seed_ids: "list_all2 named ts ks \<Longrightarrow> concat (map track_ids ts) = map render (concat (map track_names ks)) \<and> list_all track_ok ts \<and>
    list_all name_ok (concat (map track_names ks))"
  by (induction ts ks rule: list_all2_induct) (auto simp: named_def)

lemma seed_numbers: "distinct (concat (map (map fst \<circ> snd) seed_keys))"
  by (simp add: seed_keys_def)

lemma seed_track_ids: "distinct (map fst seed_keys)"
  by (simp add: seed_keys_def)

text \<open>C39: 
  The catalogue the program starts with is a valid source of truth, whatever geometry is approved: every
  identifier in it is new, every layout has a length and production sources.
\<close>

theorem seed_catalog_valid:
  "ValidateSourceOfTruth (OfficialGT7SeedCatalog manifest) = None \<and>
    distinct (concat (map track_ids (caTracks (OfficialGT7SeedCatalog manifest))))"
proof -
  let ?names = "concat (map track_names seed_keys)"
  have s: "concat (map track_ids seed_tracks) = map render ?names" "list_all track_ok seed_tracks" "list_all name_ok ?names"
    using seed_ids [OF seed_named] by auto
  have "inj_on render (set ?names)" using s(3) by (auto simp: inj_on_def list_all_iff intro: render_inj)
  then have "distinct (concat (map track_ids seed_tracks))"
    using distinct_track_names [OF seed_track_ids seed_numbers] unfolding s(1) by (simp add: distinct_map)
  then show ?thesis using s(2) by (auto simp: OfficialGT7SeedCatalog_def intro: source_of_truth_accepts)
qed

end
