(* ===== verification/FileOutput.thy ===== *)
theory FileOutput
  imports SessionExport
begin

text \<open>
  \<^verbatim>\<open>internal/sessionexport/writer.go\<close>: the export is written to a temporary file that is renamed into
  place.  The files of the machine are a map from paths to contents.  What the system answers to a call,
  \<^verbatim>\<open>filepath.Dir\<close> and the JSON encoder are arguments: a write appends as many bytes as it reports, a rename
  that succeeds moves the content, a call that fails changes nothing else.
\<close>

section \<open>Files\<close>

type_synonym files = "string \<rightharpoonup> string"

record file_system =
  osCreateTemp :: "files \<Rightarrow> string \<Rightarrow> string \<Rightarrow> string option"
  osWrite :: "string \<Rightarrow> string \<Rightarrow> nat \<times> bool"
  osClose :: "string \<Rightarrow> bool"
  osRename :: "string \<Rightarrow> string \<Rightarrow> bool"
  osRemove :: "string \<Rightarrow> bool"

definition createTempFile :: "file_system \<Rightarrow> string \<Rightarrow> string \<Rightarrow> files \<Rightarrow> (string \<times> files) option" where
  "createTempFile os dir pattern fs = map_option (\<lambda>temp. (temp, fs(temp \<mapsto> []))) (osCreateTemp os fs dir pattern)"

definition write_bytes :: "(string \<Rightarrow> nat \<times> bool) \<Rightarrow> string \<Rightarrow> string \<Rightarrow> bool \<times> string" where
  "write_bytes put content bytes = (case put bytes of (n, ok) \<Rightarrow> (ok, content @ take n bytes))"

definition renameFile :: "file_system \<Rightarrow> string \<Rightarrow> string \<Rightarrow> files \<Rightarrow> bool \<times> files" where
  "renameFile os from to fs = (if osRename os from to then (True, (fs(from := None))(to := fs from)) else (False, fs))"

definition removeFile :: "file_system \<Rightarrow> string \<Rightarrow> files \<Rightarrow> files" where
  "removeFile os path fs = (if osRemove os path then fs(path := None) else fs)"

section \<open>The export\<close>

datatype write_err = OutputPathRequired | CreateTempFailed | MarshalFailed | WriteFailed | CloseFailed | MoveFailed

definition MarshalRequest :: "(IngestBatchRequest \<Rightarrow> string option) \<Rightarrow> IngestBatchRequest \<Rightarrow> write_err + string" where
  "MarshalRequest marshal request = (case marshal request of None \<Rightarrow> Inl MarshalFailed | Some encoded \<Rightarrow> Inr encoded)"

text \<open>The deferred close decides the result only where nothing failed before it.\<close>

definition close_result :: "file_system \<Rightarrow> string \<Rightarrow> write_err option \<Rightarrow> write_err option" where
  "close_result os path err = (if \<not> osClose os path \<and> err = None then Some CloseFailed else err)"

definition writeRequest :: "file_system \<Rightarrow> (IngestBatchRequest \<Rightarrow> string option) \<Rightarrow> string \<Rightarrow> IngestBatchRequest \<Rightarrow> files \<Rightarrow> write_err option \<times> files" where
  "writeRequest os marshal path request fs =
    (case MarshalRequest marshal request of Inl err \<Rightarrow> (close_result os path (Some err), fs)
     | Inr encoded \<Rightarrow>
       (case write_bytes (osWrite os path) (case fs path of None \<Rightarrow> [] | Some content \<Rightarrow> content) encoded of (ok, content) \<Rightarrow>
          (close_result os path (if ok then None else Some WriteFailed), fs(path \<mapsto> content))))"

definition WriteRequestFile :: "file_system \<Rightarrow> (string \<Rightarrow> string) \<Rightarrow> (IngestBatchRequest \<Rightarrow> string option) \<Rightarrow> string \<Rightarrow> IngestBatchRequest \<Rightarrow> files \<Rightarrow>
    write_err option \<times> files" where
  "WriteRequestFile os dirname marshal outputPath request fs =
    (if outputPath = [] then (Some OutputPathRequired, fs)
     else case createTempFile os (dirname outputPath) ''.export-session-frames-*.json'' fs of
       None \<Rightarrow> (Some CreateTempFailed, fs)
     | Some (tempPath, fs1) \<Rightarrow>
       (case writeRequest os marshal tempPath request fs1 of
          (Some err, fs2) \<Rightarrow> (Some err, removeFile os tempPath fs2)
        | (None, fs2) \<Rightarrow>
          (case renameFile os tempPath outputPath fs2 of
             (False, fs3) \<Rightarrow> (Some MoveFailed, removeFile os tempPath fs3)
           | (True, fs3) \<Rightarrow> (None, removeFile os tempPath fs3))))"

section \<open>All or nothing\<close>

text \<open>
  What the system promises: a temporary file is new and is not the output, and a write that reports
  success has written everything.
\<close>

definition promises :: "file_system \<Rightarrow> files \<Rightarrow> string \<Rightarrow> bool" where
  "promises os fs outputPath \<longleftrightarrow>
    (\<forall>dir pattern temp. osCreateTemp os fs dir pattern = Some temp \<longrightarrow> fs temp = None \<and> temp \<noteq> outputPath) \<and>
    (\<forall>path bytes n. osWrite os path bytes = (n, True) \<longrightarrow> length bytes \<le> n)"

lemma write_request_result:
  assumes "writeRequest os marshal path request fs = (err, fs')"
  shows "\<forall>p. p \<noteq> path \<longrightarrow> fs' p = fs p"
    "err = None \<Longrightarrow> fs path = Some [] \<Longrightarrow> promises os fs0 out \<Longrightarrow> \<exists>encoded. marshal request = Some encoded \<and> fs' path = Some encoded"
  using assms
  by (auto simp: writeRequest_def MarshalRequest_def write_bytes_def close_result_def promises_def split: option.splits prod.splits if_splits)

text \<open>C40: 
  The export is written completely or not at all: on success the output holds exactly the encoded
  request, on every failure it holds what it held before, and no other file has changed, unless the
  temporary file could not be removed, which is then the only file left behind.
\<close>

theorem export_all_or_nothing:
  assumes "promises os fs outputPath" "WriteRequestFile os dirname marshal outputPath request fs = (err, fs')"
  shows "(if err = None then marshal request \<noteq> None \<and> fs' outputPath = marshal request else fs' outputPath = fs outputPath) \<and>
    (\<exists>temp. (\<forall>p. p = outputPath \<or> p = temp \<or> fs' p = fs p) \<and> (fs' temp = fs temp \<or> (err \<noteq> None \<and> \<not> osRemove os temp)))"
proof (cases "outputPath = [] \<or> createTempFile os (dirname outputPath) ''.export-session-frames-*.json'' fs = None")
  case True
  then have "err \<noteq> None \<and> fs' = fs" using assms(2) by (auto simp: WriteRequestFile_def split: if_splits)
  then show ?thesis by auto
next
  case False
  then obtain temp where t: "osCreateTemp os fs (dirname outputPath) ''.export-session-frames-*.json'' = Some temp"
    by (auto simp: createTempFile_def)
  then have n: "fs temp = None" "temp \<noteq> outputPath" using assms(1) by (auto simp: promises_def)
  obtain e fs2 where w: "writeRequest os marshal temp request (fs(temp \<mapsto> [])) = (e, fs2)" by fastforce
  have same: "p \<noteq> temp \<Longrightarrow> fs2 p = fs p" for p using write_request_result(1) [OF w] by simp
  have run: "(err, fs') = (case e of Some x \<Rightarrow> (Some x, removeFile os temp fs2)
      | None \<Rightarrow> (if osRename os temp outputPath then (None, removeFile os temp ((fs2(temp := None))(outputPath := fs2 temp)))
                else (Some MoveFailed, removeFile os temp fs2)))"
    using assms(2) False t w by (auto simp: WriteRequestFile_def createTempFile_def renameFile_def split: option.splits)
  show ?thesis
  proof (cases "err = None")
    case True
    then have "e = None" "fs' = (fs2(temp := None))(outputPath := fs2 temp)"
      using run n by (auto simp: removeFile_def split: option.splits if_splits)
    moreover obtain encoded where "marshal request = Some encoded" "fs2 temp = Some encoded"
      using write_request_result(2) [OF w \<open>e = None\<close> _ assms(1)] by auto
    ultimately show ?thesis using True same n by (intro conjI exI [of _ temp]) auto
  next
    case False
    then have "fs' = removeFile os temp fs2" using run by (auto split: option.splits if_splits)
    then show ?thesis using False same n by (intro conjI exI [of _ temp]) (auto simp: removeFile_def)
  qed
qed

definition demo_system :: file_system where
  "demo_system = \<lparr>osCreateTemp = \<lambda>_ _ _. Some ''t'', osWrite = \<lambda>_ bytes. (length bytes, True), osClose = \<lambda>_. True,
     osRename = \<lambda>_ _. True, osRemove = \<lambda>_. True\<rparr>"

lemma export_all_or_nothing_witness:
  "let fs = [''o'' \<mapsto> ''old'']; r = WriteRequestFile demo_system (\<lambda>_. ''.'') (\<lambda>_. Some ''new'') ''o'' \<lparr>bSessionID = ''s'', bFrames = []\<rparr> fs
   in fst r = None \<and> snd r ''o'' = Some ''new'' \<and> snd r ''t'' = None"
proof -
  let ?r = "WriteRequestFile demo_system (\<lambda>_. ''.'') (\<lambda>_. Some ''new'') ''o'' \<lparr>bSessionID = ''s'', bFrames = []\<rparr> [''o'' \<mapsto> ''old'']"
  have p: "promises demo_system [''o'' \<mapsto> ''old''] ''o''" by (simp add: promises_def demo_system_def)
  have e: "fst ?r = None" "snd ?r ''t'' = None"
    by (simp_all add: WriteRequestFile_def createTempFile_def writeRequest_def MarshalRequest_def write_bytes_def close_result_def
      renameFile_def removeFile_def demo_system_def)
  moreover have "?r = (None, snd ?r)" using e(1) by (simp add: prod_eq_iff)
  note export_all_or_nothing [OF p this]
  ultimately show ?thesis unfolding Let_def by (metis option.distinct(1))
qed

end
