(* ===== verification/BuilderCommand.thy ===== *)
theory BuilderCommand
  imports FileOutput SeedCatalog TrackBuilder
begin

text \<open>
  \<^verbatim>\<open>cmd/trackbuilder/main.go\<close>: the command around the builder.  The parsed flags (\<open>None\<close> where the flag
  parser refused them), the JSON decoder and encoders, and what the system answers to each call are
  arguments; a write appends as many bytes as it reports.
\<close>

section \<open>The machine\<close>

record command_flags =
  cfInputPaths :: "string list"
  cfBaselineMode :: bool
  cfLayoutID :: string
  cfOutputPath :: string
  cfSmoothingWindow :: int
  cfEpsilonMeters :: f64

text \<open>The resampling step is not a flag and keeps its default.\<close>

definition command_options :: "command_flags \<Rightarrow> Options" where
  "command_options flags = DefaultOptions\<lparr>opLayoutID := cfLayoutID flags, opOutputPath := cfOutputPath flags,
     opSmoothingWindow := cfSmoothingWindow flags, opEpsilonMeters := cfEpsilonMeters flags\<rparr>"

record machine =
  mOpen :: "string \<Rightarrow> bool"
  mDecode :: "string \<Rightarrow> IngestBatchRequest option"
  mEncodeCatalog :: "Catalog \<Rightarrow> string option"
  mEncodeBaseline :: "TelemetryBaselineReport \<Rightarrow> string option"
  mCreate :: "string \<Rightarrow> bool"
  mWrite :: "string \<Rightarrow> string \<Rightarrow> string \<Rightarrow> nat \<times> bool"
  mStdout :: "string \<Rightarrow> string \<Rightarrow> nat \<times> bool"
  mStderr :: "string \<Rightarrow> string \<Rightarrow> nat \<times> bool"

record console =
  coFiles :: files
  coStdout :: string
  coStderr :: string

datatype command_err =
    FlagsRefused
  | MissingInputPath
  | OneInputOnly
  | OpenInput string
  | DecodeInput string
  | BuilderError build_error
  | EncodeFailed
  | WriteStdoutFailed
  | CreateOutputFailed
  | WriteOutputFailed

section \<open>Reading\<close>

definition readIngestBatch :: "machine \<Rightarrow> files \<Rightarrow> string \<Rightarrow> command_err + IngestBatchRequest" where
  "readIngestBatch m fs path =
    (if trim_space path = [] then Inl MissingInputPath
     else case (if mOpen m path then fs path else None) of None \<Rightarrow> Inl (OpenInput path)
     | Some content \<Rightarrow> (case mDecode m content of None \<Rightarrow> Inl (DecodeInput path) | Some request \<Rightarrow> Inr request))"

fun read_loop :: "machine \<Rightarrow> files \<Rightarrow> IngestBatchRequest list \<Rightarrow> string list \<Rightarrow> command_err + IngestBatchRequest list" where
  "read_loop m fs requests [] = Inr requests"
| "read_loop m fs requests (path # paths) =
    (case readIngestBatch m fs path of Inl err \<Rightarrow> Inl err | Inr request \<Rightarrow> read_loop m fs (requests @ [request]) paths)"

definition readIngestBatches :: "machine \<Rightarrow> files \<Rightarrow> string list \<Rightarrow> command_err + IngestBatchRequest list" where
  "readIngestBatches m fs paths = read_loop m fs [] paths"

section \<open>Writing\<close>

text \<open>Writes one after the other; the first that fails ends them.\<close>

fun chunk_writes :: "(string \<Rightarrow> string \<Rightarrow> nat \<times> bool) \<Rightarrow> string \<Rightarrow> string list \<Rightarrow> bool \<times> string" where
  "chunk_writes put content [] = (True, content)"
| "chunk_writes put content (bytes # rest) =
    (case write_bytes (put content) content bytes of (ok, content') \<Rightarrow> if ok then chunk_writes put content' rest else (False, content'))"

definition write_chunks :: "machine \<Rightarrow> string \<Rightarrow> string list \<Rightarrow> console \<Rightarrow> command_err option \<times> console" where
  "write_chunks m outputPath chunks w =
    (if trim_space outputPath = []
     then (case chunk_writes (mStdout m) (coStdout w) chunks of (ok, out) \<Rightarrow> (if ok then None else Some WriteStdoutFailed, w\<lparr>coStdout := out\<rparr>))
     else if \<not> mCreate m outputPath then (Some CreateOutputFailed, w)
     else (case chunk_writes (mWrite m outputPath) [] chunks of (ok, content) \<Rightarrow>
       (if ok then None else Some WriteOutputFailed, w\<lparr>coFiles := (coFiles w)(outputPath \<mapsto> content)\<rparr>)))"

definition writeTelemetryBaseline :: "machine \<Rightarrow> string \<Rightarrow> TelemetryBaselineReport \<Rightarrow> console \<Rightarrow> command_err option \<times> console" where
  "writeTelemetryBaseline m outputPath report w =
    (case mEncodeBaseline m report of None \<Rightarrow> (Some EncodeFailed, w) | Some encoded \<Rightarrow> write_chunks m outputPath [encoded, newline] w)"

definition EncodeCatalog :: "machine \<Rightarrow> Catalog \<Rightarrow> string option" where
  "EncodeCatalog m catalog = map_option (\<lambda>encoded. encoded @ newline) (mEncodeCatalog m catalog)"

definition writeCatalog :: "machine \<Rightarrow> string \<Rightarrow> Catalog \<Rightarrow> console \<Rightarrow> command_err option \<times> console" where
  "writeCatalog m outputPath catalog w =
    (case EncodeCatalog m catalog of None \<Rightarrow> (Some EncodeFailed, w) | Some encoded \<Rightarrow> write_chunks m outputPath [encoded] w)"

definition print_report :: "machine \<Rightarrow> string \<Rightarrow> console \<Rightarrow> console" where
  "print_report m report w = w\<lparr>coStderr := snd (write_bytes (mStderr m (coStderr w)) (coStderr w) report)\<rparr>"

section \<open>The command\<close>

datatype command_outcome = Ended "command_err option" console | CommandPanics | CommandDiverges

definition after_write :: "machine \<Rightarrow> string \<Rightarrow> command_err option \<times> console \<Rightarrow> command_outcome" where
  "after_write m report r = (case r of (Some err, w) \<Rightarrow> Ended (Some err) w | (None, w) \<Rightarrow> Ended None (print_report m report w))"

definition builder_run :: "machine \<Rightarrow> (f64 \<Rightarrow> f64 \<Rightarrow> f64) \<Rightarrow> ApprovedGeometryLayout list \<Rightarrow> command_flags option \<Rightarrow> console \<Rightarrow> command_outcome" where
  "builder_run m atan2 manifest parsed w =
    (case parsed of None \<Rightarrow> Ended (Some FlagsRefused) w
     | Some flags \<Rightarrow>
       let seed = OfficialGT7SeedCatalog manifest; opt = command_options flags; inputPaths = cfInputPaths flags in
       if cfBaselineMode flags
       then if length inputPaths = 0 then Ended (Some MissingInputPath) w
         else case readIngestBatches m (coFiles w) inputPaths of Inl err \<Rightarrow> Ended (Some err) w
         | Inr requests \<Rightarrow> (case BuildTelemetryBaseline requests (opLayoutID opt) seed of Inl err \<Rightarrow> Ended (Some (BuilderError err)) w
         | Inr report \<Rightarrow> after_write m (baseline_String report) (writeTelemetryBaseline m (opOutputPath opt) report w))
       else if length inputPaths \<noteq> 1 then Ended (Some (if length inputPaths = 0 then MissingInputPath else OneInputOnly)) w
       else case readIngestBatch m (coFiles w) (hd inputPaths) of Inl err \<Rightarrow> Ended (Some err) w
       | Inr request \<Rightarrow> (case options_Validate opt of Some err \<Rightarrow> Ended (Some (BuilderError (BuilderRefused err))) w
       | None \<Rightarrow> (case Build atan2 request opt seed of
           BuildFailed err \<Rightarrow> Ended (Some (BuilderError err)) w
         | BuildPanics \<Rightarrow> CommandPanics
         | BuildDiverges \<Rightarrow> CommandDiverges
         | Built catalog report \<Rightarrow> after_write m (report_String report) (writeCatalog m (opOutputPath opt) catalog w))))"

section \<open>What the command publishes\<close>

text \<open>A write that reports success has written everything, on each of the three streams.\<close>

definition complete_writes :: "(string \<Rightarrow> string \<Rightarrow> nat \<times> bool) \<Rightarrow> bool" where
  "complete_writes put \<longleftrightarrow> (\<forall>content bytes n. put content bytes = (n, True) \<longrightarrow> length bytes \<le> n)"

lemma chunk_writes_complete:
  "complete_writes put \<Longrightarrow> chunk_writes put content chunks = (True, content') \<Longrightarrow> content' = content @ concat chunks"
  by (induction put content chunks arbitrary: content' rule: chunk_writes.induct)
    (auto simp: complete_writes_def write_bytes_def split: prod.splits if_splits)

definition published :: "string \<Rightarrow> string \<Rightarrow> console \<Rightarrow> console \<Rightarrow> bool" where
  "published outputPath bytes w w' \<longleftrightarrow>
    (if trim_space outputPath = [] then coStdout w' = coStdout w @ bytes \<and> coFiles w' = coFiles w
     else coStdout w' = coStdout w \<and> coFiles w' = (coFiles w)(outputPath \<mapsto> bytes))"

lemma write_chunks_published:
  assumes "complete_writes (mStdout m)" "complete_writes (mWrite m outputPath)" "write_chunks m outputPath chunks w = (None, w')"
  shows "published outputPath (concat chunks) w w' \<and> coStderr w' = coStderr w"
  using assms chunk_writes_complete
  by (auto simp: write_chunks_def published_def split: if_splits prod.splits dest!: chunk_writes_complete)

lemma write_chunks_failed:
  "write_chunks m outputPath chunks w = (Some err, w') \<Longrightarrow> coStderr w' = coStderr w \<and>
    (err \<in> {CreateOutputFailed} \<and> w' = w \<or> err \<in> {WriteStdoutFailed, WriteOutputFailed})"
  by (auto simp: write_chunks_def split: if_splits prod.splits)

lemma after_write_ended: "after_write m report r = Ended None w' \<longleftrightarrow> (\<exists>w1. r = (None, w1) \<and> w' = print_report m report w1)"
  by (auto simp: after_write_def split: prod.split option.split)

lemma after_write_failed: "after_write m report r = Ended (Some err) w' \<longleftrightarrow> r = (Some err, w')"
  by (auto simp: after_write_def split: prod.split option.split)

lemma published_print: "published o1 bytes w (print_report m report w1) = published o1 bytes w w1"
  by (simp add: published_def print_report_def)

lemma read_loop_maps:
  "read_loop m fs requests paths = Inr rs \<Longrightarrow> \<exists>new. rs = requests @ new \<and> map (readIngestBatch m fs) paths = map Inr new"
proof (induction m fs requests paths arbitrary: rs rule: read_loop.induct)
  case (2 m fs requests path paths)
  then show ?case by (fastforce split: sum.splits)
qed simp

lemma catalog_written:
  assumes "writeCatalog m outputPath c w = (None, w')" "complete_writes (mStdout m)" "complete_writes (mWrite m outputPath)"
  shows "\<exists>encoded. mEncodeCatalog m c = Some encoded \<and> published outputPath (encoded @ newline) w w'"
  using assms write_chunks_published [OF assms(2,3)] by (fastforce simp: writeCatalog_def EncodeCatalog_def split: option.splits)

lemma baseline_written:
  assumes "writeTelemetryBaseline m outputPath r w = (None, w')" "complete_writes (mStdout m)" "complete_writes (mWrite m outputPath)"
  shows "\<exists>encoded. mEncodeBaseline m r = Some encoded \<and> published outputPath (encoded @ newline) w w'"
  using assms write_chunks_published [OF assms(2,3)] by (fastforce simp: writeTelemetryBaseline_def split: option.splits)

lemma generated_ids:
  "map trID (caTracks (generated_catalog t l d len pts)) = [trID t] \<and>
    concat (map (map loID \<circ> trLayouts) (caTracks (generated_catalog t l d len pts))) = [loID l]"
  by (simp add: generated_catalog_def)

lemma built_never_truth: "Build atan2 request opts seed = Built c r \<Longrightarrow> catalog_Validate c = None \<and> ValidateSourceOfTruth c \<noteq> None \<and>
    (\<exists>t l. findSeedLayout seed (opLayoutID opts) = Some (t, l) \<and> loID l = opLayoutID opts \<and>
      map trID (caTracks c) = [trID t] \<and> concat (map (map loID \<circ> trLayouts) (caTracks c)) = [loID l])"
  by (elim Build_elim) (use generated_not_source_of_truth generated_ids find_seed_loop_id findSeedLayout_def in metis)

lemma command_options_facts [simp]:
  "opLayoutID (command_options flags) = cfLayoutID flags" "opOutputPath (command_options flags) = cfOutputPath flags"
  by (simp_all add: command_options_def)

text \<open>
  What a run that ends well has published, to the output file or to standard output: in build mode the
  complete encoding of a catalogue built from its only input, valid, with the requested layout of the seed
  as its only one, and never a source of truth; in baseline mode the complete encoding of the baseline of
  all its inputs in order.  No other file has changed.
\<close>

theorem command_publishes_result:
  assumes "complete_writes (mStdout m)" "complete_writes (mWrite m (cfOutputPath flags))"
    "builder_run m atan2 manifest (Some flags) w = Ended None w'"
  shows "\<exists>encoded. published (cfOutputPath flags) (encoded @ newline) w w' \<and>
    (if cfBaselineMode flags
     then \<exists>requests report. map (readIngestBatch m (coFiles w)) (cfInputPaths flags) = map Inr requests \<and>
       BuildTelemetryBaseline requests (cfLayoutID flags) (OfficialGT7SeedCatalog manifest) = Inr report \<and> mEncodeBaseline m report = Some encoded
     else \<exists>path request c r t l. cfInputPaths flags = [path] \<and> readIngestBatch m (coFiles w) path = Inr request \<and>
       Build atan2 request (command_options flags) (OfficialGT7SeedCatalog manifest) = Built c r \<and> mEncodeCatalog m c = Some encoded \<and>
       catalog_Validate c = None \<and> ValidateSourceOfTruth c \<noteq> None \<and>
       findSeedLayout (OfficialGT7SeedCatalog manifest) (cfLayoutID flags) = Some (t, l) \<and> loID l = cfLayoutID flags \<and>
       map trID (caTracks c) = [trID t] \<and> concat (map (map loID \<circ> trLayouts) (caTracks c)) = [loID l])"
proof (cases "cfBaselineMode flags")
  case True
  then obtain requests report w1 where r: "readIngestBatches m (coFiles w) (cfInputPaths flags) = Inr requests"
    "BuildTelemetryBaseline requests (cfLayoutID flags) (OfficialGT7SeedCatalog manifest) = Inr report"
    "writeTelemetryBaseline m (cfOutputPath flags) report w = (None, w1)" "w' = print_report m (baseline_String report) w1"
    using assms(3) by (auto simp: builder_run_def Let_def after_write_ended split: if_splits sum.splits)
  then show ?thesis using True baseline_written [OF r(3) assms(1,2)] read_loop_maps [OF r(1) [unfolded readIngestBatches_def]]
    by (auto simp: published_print)
next
  case False
  then obtain request c r w1 where r: "length (cfInputPaths flags) = 1" "readIngestBatch m (coFiles w) (hd (cfInputPaths flags)) = Inr request"
    "Build atan2 request (command_options flags) (OfficialGT7SeedCatalog manifest) = Built c r"
    "writeCatalog m (cfOutputPath flags) c w = (None, w1)" "w' = print_report m (report_String r) w1"
    using assms(3) by (auto simp: builder_run_def Let_def after_write_ended split: if_splits sum.splits option.splits build_outcome.splits)
  obtain path where p: "cfInputPaths flags = [path]" using r(1) by (auto simp: length_Suc_conv)
  show ?thesis using False p r(2,3,5) catalog_written [OF r(4) assms(1,2)] built_never_truth [OF r(3)]
    by (simp add: published_print) blast
qed

text \<open>
  A run that ends with an error prints no report, and leaves every file and standard output as they were,
  unless it was a write that failed: then the output keeps what was written before, unlike the export's.
\<close>

theorem command_failure_exact:
  assumes "builder_run m atan2 manifest parsed w = Ended (Some err) w'"
  shows "coStderr w' = coStderr w \<and> (w' = w \<or> err = WriteStdoutFailed \<or> err = WriteOutputFailed)"
proof -
  have c: "writeCatalog m o1 c w = (Some err, w') \<Longrightarrow> ?thesis" for o1 c
    using write_chunks_failed by (fastforce simp: writeCatalog_def split: option.splits)
  have b: "writeTelemetryBaseline m o1 r w = (Some err, w') \<Longrightarrow> ?thesis" for o1 r
    using write_chunks_failed by (fastforce simp: writeTelemetryBaseline_def split: option.splits)
  from assms show ?thesis using b c
    by (auto simp: builder_run_def Let_def after_write_failed split: option.splits if_splits sum.splits build_outcome.splits)
qed

section \<open>A run\<close>

definition demo_machine :: machine where
  "demo_machine = \<lparr>mOpen = \<lambda>_. True, mDecode = \<lambda>content. Some (demo_drive (if content = ''x'' then [0, 3, 6] else [0])),
     mEncodeCatalog = \<lambda>_. Some ''c'', mEncodeBaseline = \<lambda>_. Some ''b'', mCreate = \<lambda>_. True,
     mWrite = \<lambda>_ _ bytes. (length bytes, True), mStdout = \<lambda>_ bytes. (length bytes, True), mStderr = \<lambda>_ bytes. (length bytes, True)\<rparr>"

definition demo_flags :: command_flags where
  "demo_flags = \<lparr>cfInputPaths = [''s'', ''l''], cfBaselineMode = True, cfLayoutID = ''gt7_layout_1240'', cfOutputPath = ''o'',
     cfSmoothingWindow = 3, cfEpsilonMeters = Fin 1\<rparr>"

definition demo_console :: console where
  "demo_console = \<lparr>coFiles = [''s'' \<mapsto> ''x'', ''l'' \<mapsto> ''y''], coStdout = [], coStderr = []\<rparr>"

lemma baseline_other_seed:
  assumes "BuildTelemetryBaseline requests lid seed = Inr r" "trim_space lid' \<noteq> []" "findSeedLayout seed' lid' = Some found"
  shows "\<exists>r'. BuildTelemetryBaseline requests lid' seed' = Inr r'"
  using assms by (cases found) (auto simp: BuildTelemetryBaseline_def Let_def split: if_splits option.splits sum.splits)

lemma seed_layout_found: "\<exists>found. findSeedLayout (OfficialGT7SeedCatalog manifest) ''gt7_layout_1240'' = Some found"
proof -
  have "layoutID 1240 = ''gt7_layout_1240''" by code_simp
  then show ?thesis
    by (simp add: findSeedLayout_def OfficialGT7SeedCatalog_def seed_tracks_def seed_track_def layoutFromGT7Info_def)
qed

lemma demo_trims: "trim_space ''gt7_layout_1240'' \<noteq> []" "trim_space ''o'' = ''o''"
  by (simp_all add: trim_visible visible_def)

lemma demo_command_runs: "\<exists>w'. builder_run demo_machine (\<lambda>_ _. Fin 0) [] (Some demo_flags) demo_console = Ended None w'"
proof -
  obtain r where "BuildTelemetryBaseline [demo_drive [0, 3, 6], demo_drive [0]] ''gt7_layout_1240'' (OfficialGT7SeedCatalog []) = Inr r"
    using demo_baseline baseline_other_seed demo_trims(1) seed_layout_found by blast
  then show ?thesis
    by (simp add: builder_run_def Let_def demo_flags_def demo_console_def demo_machine_def readIngestBatches_def readIngestBatch_def demo_trim_one
      writeTelemetryBaseline_def write_chunks_def demo_trims write_bytes_def after_write_def)
qed

lemma command_publishes_result_witness:
  "\<exists>w'. builder_run demo_machine (\<lambda>_ _. Fin 0) [] (Some demo_flags) demo_console = Ended None w' \<and>
    coFiles w' ''o'' = Some (''b'' @ newline) \<and> coFiles w' ''s'' = Some ''x''"
proof -
  obtain w' where r: "builder_run demo_machine (\<lambda>_ _. Fin 0) [] (Some demo_flags) demo_console = Ended None w'"
    using demo_command_runs by blast
  have c: "complete_writes (mStdout demo_machine)" "complete_writes (mWrite demo_machine (cfOutputPath demo_flags))"
    by (simp_all add: complete_writes_def demo_machine_def)
  have m: "cfBaselineMode demo_flags" "cfOutputPath demo_flags = ''o''" "mEncodeBaseline demo_machine = (\<lambda>_. Some ''b'')"
    "coFiles demo_console ''s'' = Some ''x''"
    by (simp_all add: demo_flags_def demo_machine_def demo_console_def)
  from command_publishes_result [OF c r] have "published ''o'' (''b'' @ newline) demo_console w'" using m(1,2,3) by auto
  then show ?thesis using r m(4) by (auto simp: published_def demo_trims)
qed

lemma command_failure_exact_witness:
  "\<exists>w'. builder_run demo_machine (\<lambda>_ _. Fin 0) [] None demo_console = Ended (Some FlagsRefused) w' \<and> w' = demo_console"
proof -
  have r: "builder_run demo_machine (\<lambda>_ _. Fin 0) [] None demo_console = Ended (Some FlagsRefused) demo_console"
    by (simp add: builder_run_def)
  then show ?thesis using command_failure_exact [OF r] by blast
qed

end
