(* ===== verification/Spec2Isabelle.thy ===== *)
theory Spec2Isabelle
  imports FrameStore RejectionStore Gaps LapRepo LapContinuity Detection Corners Dedup
  ApprovedGeometry EventStore Producer SessionIds SessionSummary AdminStats SessionExport Acceptance Advice AppConfig TrackBuilder Gt7Convert Simulator
  ExportCommand SeedCatalog FileOutput BuilderCommand
begin

text \<open>
  The telemetry backend: a Go service that takes batches of telemetry frames from a racing game over HTTP,
  keeps them per session, derives laps, lap samples, track detection and race engineer events from them, and
  asks a language model for advice on those events; and the offline tools that build track geometry.  The
  development models the packages under \<^verbatim>\<open>src/internal\<close> and two commands under \<^verbatim>\<open>src/cmd\<close>.

  \<^bold>\<open>How the parts interact.\<close>
  A request reaches a route of \<^verbatim>\<open>api/routes.go\<close>, which checks the session, decodes the body and calls the
  stores.  An ingest request passes the frame validation (\<^verbatim>\<open>telemetry/frame.go\<close>), is appended to the frame
  store, and then drives the lap extraction, the gap counts, the resampling of the completed laps, the track
  detection, the event producer and the event log with its deduplication; rejected frames go to the
  rejection log.  The advice route reads the event log and the laps, derives signals, and passes a request to the AI
  pipeline: audit, fallback, request controls (budget, rate limit, retries), prompts, provider.  The track
  builder and the converter are command line tools over the same frames and catalogue types.

  \<^bold>\<open>Which theory models which part\<close> (all paths under \<^verbatim>\<open>src/internal\<close> unless they start with \<^verbatim>\<open>cmd\<close>).
  A definition has the name of the function it models; a method has the name of its receiver first
  (\<open>store_append\<close>, \<open>batch_normalize\<close>, \<open>session_Create\<close>), and a loop has a function of its own (\<open>_loop\<close>).

  \<^item> \<open>Float64\<close>: binary64 on the rationals (NaN, infinities, a negative zero, and finite values), rounding to
    nearest even, and the operations of \<^verbatim>\<open>math\<close> the source uses.  \<open>Prelude\<close>: \<open>int\<close> kept at 64 bits
    (\<open>add64\<close>, \<open>mul64\<close>, \<open>div64\<close>), decimal printing and parsing, \<^verbatim>\<open>strings.TrimSpace\<close> (\<open>Trimming\<close> has lemmas
    on it), \<^verbatim>\<open>sort.Slice\<close>.  \<open>Clock\<close>: UTC times in nanoseconds and their formats.
  \<^item> \<open>Telemetry\<close>, \<open>FrameStore\<close>, \<open>RejectionStore\<close>: \<^verbatim>\<open>telemetry/frame.go\<close>, \<^verbatim>\<open>store.go\<close>,
    \<^verbatim>\<open>rejection_summary_store.go\<close>.
  \<^item> \<open>Laps\<close>, \<open>Gaps\<close>, \<open>LapSamples\<close>, \<open>LapRepo\<close>: \<^verbatim>\<open>laps/lap.go\<close>, \<^verbatim>\<open>gap.go\<close>, \<^verbatim>\<open>sample.go\<close>,
    \<^verbatim>\<open>memory_repository.go\<close>.
  \<^item> \<open>Geometry\<close>, \<open>LapContinuity\<close>: \<^verbatim>\<open>geometry/centerline.go\<close>, \<^verbatim>\<open>lap_continuity.go\<close>.  \<open>Tracks\<close>,
    \<open>Detection\<close>, \<open>ApprovedGeometry\<close>: \<^verbatim>\<open>tracks/track.go\<close>, \<^verbatim>\<open>catalog.go\<close>, \<^verbatim>\<open>catalog_summary.go\<close>,
    \<^verbatim>\<open>detection.go\<close>, \<^verbatim>\<open>approved_geometry.go\<close>.  \<open>Corners\<close>: \<^verbatim>\<open>corners/resolver.go\<close>, \<^verbatim>\<open>analysis.go\<close>.
  \<^item> \<open>Events\<close>, \<open>Dedup\<close>, \<open>EventStore\<close>, \<open>Rules\<close>, \<open>Producer\<close>: \<^verbatim>\<open>events/event.go\<close>, \<^verbatim>\<open>dedup.go\<close>,
    \<^verbatim>\<open>store.go\<close>, \<^verbatim>\<open>rules.go\<close>, \<^verbatim>\<open>producer.go\<close>.
  \<^item> \<open>Sessions\<close>, \<open>SessionIds\<close>, \<open>SessionSummary\<close>: \<^verbatim>\<open>sessions\<close>; \<open>AdminStats\<close>: \<^verbatim>\<open>admin/stats.go\<close>;
    \<open>SessionExport\<close>: \<^verbatim>\<open>sessionexport\<close>.
  \<^item> \<open>Api\<close>, \<open>Ingest\<close>, \<open>Service\<close>, \<open>Acceptance\<close>: the handlers of \<^verbatim>\<open>api\<close> on the stores of a \<open>server\<close>;
    \<open>Service\<close> is the transition system of the routes (\<open>serves\<close>) with its reachable states.
  \<^item> \<open>AiInput\<close>, \<open>AiPrompts\<close>, \<open>AiControls\<close>, \<open>AiService\<close>, \<open>OpenRouter\<close>, \<open>AiAudit\<close>: \<^verbatim>\<open>ai\<close>;
    \<open>AdviceSignals\<close>, \<open>Advice\<close>: \<^verbatim>\<open>api/race_engineer_signals.go\<close>, \<^verbatim>\<open>race_engineer_advice.go\<close>;
    \<open>AppConfig\<close>: \<^verbatim>\<open>config/config.go\<close>.
  \<^item> \<open>TrackGeometry\<close>, \<open>TrackRoughness\<close>, \<open>TrackBuilder\<close>: \<^verbatim>\<open>trackbuilder\<close>; \<open>Gt7Convert\<close>: \<^verbatim>\<open>cmd/gt7convert/main.go\<close>;
    \<open>ExportCommand\<close>: \<^verbatim>\<open>cmd/export-session-frames/main.go\<close>; \<open>Simulator\<close>: \<^verbatim>\<open>telemetry/sim/simulator.go\<close>;
    \<open>SeedCatalog\<close>: \<^verbatim>\<open>tracks/seed.go\<close>, the catalogue the program starts with;
    \<open>FileOutput\<close>: \<^verbatim>\<open>sessionexport/writer.go\<close>; \<open>BuilderCommand\<close>: \<^verbatim>\<open>cmd/trackbuilder/main.go\<close>, which joins the builder
    to the seed catalogue.

  \<^bold>\<open>Conventions.\<close>
  Structs are records with a prefix of their own, pointers are options, an error result is the left side of
  a sum or an option, a panic is a constructor of the outcome.  Go maps whose order is observed are association
  lists and the results are shown not to depend on it.  A method that holds a mutex is one atomic step.  A
  context is the error it has at that point (\<open>ctx\<close>), one per store call in a handler.  Clocks, random bytes,
  the environment and the provider are arguments.  Strings are byte strings.  Arithmetic follows
  gc on amd64, without fused multiply-add.

  \<^bold>\<open>What the lemmas show.\<close>
  \<^item> Ingest: what is accepted is valid and consistent, acceptance and rejection partition a batch
    (\<open>Telemetry\<close>); the bounded stores refine a log of everything appended (\<open>FrameStore\<close>, \<open>EventStore\<close>,
    locales \<open>frame_buffer\<close>, \<open>event_log\<close>, \<open>rejection_log\<close>); the answer adds up, a client error changes
    nothing (\<open>Ingest\<close>); a good batch is accepted and stored, a panic is one of the sampler, a 500 needs a cancelled
    call or a number out of range, and an ingest can store frames in a session finished meanwhile
    (\<open>Acceptance\<close>).
  \<^item> Laps: extraction is exact, the sampler ends and interpolates between bracketing frames, the
    repository keeps first reports and lists in order (\<open>keyed_table\<close>).
  \<^item> Tracks: validated catalogues have unique identifiers and disjoint corners; projection, detection and
    resolution answer with the nearest, the best in tolerance, and the one that contains.
  \<^item> Events: the rules generate exactly the events whose conditions hold, stints are maximal runs, the
    cooldown separates accepted events of a key, all of them when they come in order.
  \<^item> Service: invariants of all reachable stores, and what requests can still do to a finished session.
  \<^item> AI: the retry loop, the backoff, the token bucket and the budget are exact; the pipeline always answers
    a valid request and records it once (locale \<open>analysis_service\<close>, interpreted on the audited pipeline).
  \<^item> Builder: simplification stays within its tolerance, resampling ends, and the catalogue is valid.
  \<^item> Sorting: every comparison of the source is an interpretation of \<open>slice_less\<close>, whose facts say what
    \<^verbatim>\<open>sort.Slice\<close> returns.

  \<^bold>\<open>Loops and bounds.\<close>
  Structural recursion or a measure everywhere, except where the source may not end.  The bucket loop of the
  sampler has as fuel the capacity of the buffer it fills plus one, and is shown never to use it up; the
  target loop of the builder is a partial function, and is shown to end whenever its buffer can be
  allocated (a capacity above \<open>2^48\<close> bytes makes the allocation panic).  The retry loop takes the number of
  attempts as its fuel, which the policy bounds.

  \<^bold>\<open>Parameters.\<close>
  The HTTP transport, the provider, what the operating system answers to a call on a file, the JSON and CSV readers, \<^verbatim>\<open>os.Getenv\<close>, \<^verbatim>\<open>time.ParseDuration\<close>,
  \<^verbatim>\<open>strconv.ParseFloat\<close>, the trigonometric functions of \<^verbatim>\<open>math\<close> and the parser of HTTP dates are arguments of the
  definitions that use them; nothing is assumed of them unless a theorem says so.

  \<^bold>\<open>Not modelled.\<close>
  The Postgres repositories (SQL of an external database, so their behaviour is not in the source), database
  bootstrap and migrations, the writing of the seed catalogue to Postgres, JSON field tags and encoders, the strict decoder of
  the AI input, logging and metrics, and the process start-up and the flags of the command line tools.
\<close>

end
